(* ===== verification/Prelude.thy ===== *)
theory Prelude imports Main "HOL-Library.AList" begin

text \<open>
  What every component theory shares: the names of the model's base types, results that can
  carry an exception, the state-and-exception programs that model a method of a class with
  fields, loops over lists in that setting, and the deterministic event machines whose
  invariants are lifted from one step to a whole run.

  Base types. Uuids, mint addresses, digests, nonces, keys and the other branded strings of
  \<open>libs/contracts/src/primitives.ts\<close> are strings compared for equality only. An \<open>Instant\<close>
  is read by the code through \<open>instantToMs\<close>, so it is identified with its epoch milliseconds.
  An \<open>Amount\<close> is a canonical decimal string that the code reads through \<open>BigInt\<close>, so it is
  identified with that integer; the u64 range is a check of the code and a predicate here.
  A JavaScript \<open>Map\<close> iterates in insertion order and keeps the position of a key it
  overwrites: it is an association list under \<^const>\<open>AList.update\<close> and \<^const>\<open>AList.delete\<close>.
\<close>

section \<open>Collections of rules\<close>

named_theorems prog_simps \<open>unfolding rules of the program combinators\<close>
named_theorems inv_intros \<open>preservation lemmas of the component invariants\<close>

section \<open>Base types\<close>

type_synonym uuid = string
type_synonym mint_address = string
type_synonym sol_address = string
type_synonym sha256_hex = string
type_synonym nonce = string
type_synonym key_id = string
type_synonym version_id = string
type_synonym idempotency_key = string
type_synonym tx_signature = string
type_synonym instant = int
type_synonym amount = int
type_synonym slot = int

definition compareInstants :: "instant \<Rightarrow> instant \<Rightarrow> int" where
  "compareInstants a b = a - b"

definition addMs :: "instant \<Rightarrow> int \<Rightarrow> instant" where
  "addMs t ms = t + ms"

section \<open>Results that may be an exception\<close>

definition ebind :: "'e + 'a \<Rightarrow> ('a \<Rightarrow> 'e + 'b) \<Rightarrow> 'e + 'b" where
  "ebind r f = (case r of Inl e \<Rightarrow> Inl e | Inr a \<Rightarrow> f a)"

lemma ebind_Inl [simp, prog_simps]: "ebind (Inl e) f = Inl e"
  by (simp add: ebind_def)

lemma ebind_Inr [simp, prog_simps]: "ebind (Inr a) f = f a"
  by (simp add: ebind_def)

lemma ebind_eq_Inr [simp]: "ebind r f = Inr b \<longleftrightarrow> (\<exists>a. r = Inr a \<and> f a = Inr b)"
  by (cases r) simp_all

lemma ebind_eq_Inl: "ebind r f = Inl e \<longleftrightarrow> r = Inl e \<or> (\<exists>a. r = Inr a \<and> f a = Inl e)"
  by (cases r) simp_all

fun emap :: "('a \<Rightarrow> 'e + 'b) \<Rightarrow> 'a list \<Rightarrow> 'e + 'b list" where
  "emap f [] = Inr []"
| "emap f (x # xs) = ebind (f x) (\<lambda>y. ebind (emap f xs) (\<lambda>ys. Inr (y # ys)))"

lemma emap_length: "emap f xs = Inr ys \<Longrightarrow> length ys = length xs"
  by (induction xs arbitrary: ys) auto

lemma emap_pure: "(\<And>x. x \<in> set xs \<Longrightarrow> f x = Inr (g x)) \<Longrightarrow> emap f xs = Inr (map g xs)"
  by (induction xs) simp_all

lemma emap_Inr [simp]: "emap (\<lambda>r. r) (map (\<lambda>x. Inr (g x)) xs) = Inr (map g xs)"
  by (induction xs) simp_all

fun efold :: "('s \<Rightarrow> 'a \<Rightarrow> 'e + 's) \<Rightarrow> 's \<Rightarrow> 'a list \<Rightarrow> 'e + 's" where
  "efold f s [] = Inr s"
| "efold f s (x # xs) = ebind (f s x) (\<lambda>t. efold f t xs)"

lemma efold_append: "efold f s (xs @ ys) = ebind (efold f s xs) (\<lambda>t. efold f t ys)"
  by (induction xs arbitrary: s) (simp_all add: ebind_def split: sum.splits)

lemma efold_invariant:
  assumes step: "\<And>s x t. P s \<Longrightarrow> f s x = Inr t \<Longrightarrow> P t"
  shows "P s \<Longrightarrow> efold f s xs = Inr t \<Longrightarrow> P t"
proof (induction xs arbitrary: s)
  case (Cons x xs)
  then obtain u where "f s x = Inr u" and "efold f u xs = Inr t" by auto
  with Cons.prems(1) step show ?case by (blast intro: Cons.IH)
qed simp

section \<open>Programs over a state, with exceptions\<close>

text \<open>
  A method of a class reads and writes the fields of its object and may throw. The fields
  written before the throw keep their values, as in the source: the state comes out on both
  paths.
\<close>

type_synonym ('s, 'e, 'a) prog = "'s \<Rightarrow> ('e + 'a) \<times> 's"

definition return :: "'a \<Rightarrow> ('s, 'e, 'a) prog" where
  "return a = (\<lambda>s. (Inr a, s))"

definition throw :: "'e \<Rightarrow> ('s, 'e, 'a) prog" where
  "throw e = (\<lambda>s. (Inl e, s))"

definition bind :: "('s, 'e, 'a) prog \<Rightarrow> ('a \<Rightarrow> ('s, 'e, 'b) prog) \<Rightarrow> ('s, 'e, 'b) prog" where
  "bind m f = (\<lambda>s. case m s of (Inl e, t) \<Rightarrow> (Inl e, t) | (Inr a, t) \<Rightarrow> f a t)"

definition andthen :: "('s, 'e, 'a) prog \<Rightarrow> ('s, 'e, 'b) prog \<Rightarrow> ('s, 'e, 'b) prog" where
  "andthen m n = bind m (\<lambda>_. n)"

definition asks :: "('s \<Rightarrow> 'a) \<Rightarrow> ('s, 'e, 'a) prog" where
  "asks f = (\<lambda>s. (Inr (f s), s))"

definition modify :: "('s \<Rightarrow> 's) \<Rightarrow> ('s, 'e, unit) prog" where
  "modify f = (\<lambda>s. (Inr (), f s))"

definition lift_result :: "'e + 'a \<Rightarrow> ('s, 'e, 'a) prog" where
  "lift_result r = (\<lambda>s. (r, s))"

definition when_cond :: "bool \<Rightarrow> ('s, 'e, unit) prog \<Rightarrow> ('s, 'e, unit) prog" where
  "when_cond b m = (if b then m else return ())"

fun for_each :: "'a list \<Rightarrow> ('a \<Rightarrow> ('s, 'e, unit) prog) \<Rightarrow> ('s, 'e, unit) prog" where
  "for_each [] f = return ()"
| "for_each (x # xs) f = andthen (f x) (for_each xs f)"

fun for_collect :: "'a list \<Rightarrow> ('a \<Rightarrow> ('s, 'e, 'b) prog) \<Rightarrow> ('s, 'e, 'b list) prog" where
  "for_collect [] f = return []"
| "for_collect (x # xs) f = bind (f x) (\<lambda>y. bind (for_collect xs f) (\<lambda>ys. return (y # ys)))"

lemma return_run [simp, prog_simps]: "return a s = (Inr a, s)"
  by (simp add: return_def)

lemma throw_run [simp, prog_simps]: "throw e s = (Inl e, s)"
  by (simp add: throw_def)

lemma asks_run [simp, prog_simps]: "asks f s = (Inr (f s), s)"
  by (simp add: asks_def)

lemma modify_run [simp, prog_simps]: "modify f s = (Inr (), f s)"
  by (simp add: modify_def)

lemma lift_result_run [simp, prog_simps]: "lift_result r s = (r, s)"
  by (simp add: lift_result_def)

lemma bind_run [prog_simps]:
  "bind m f s = (case m s of (Inl e, t) \<Rightarrow> (Inl e, t) | (Inr a, t) \<Rightarrow> f a t)"
  by (simp add: bind_def)

lemma andthen_run [prog_simps]:
  "andthen m n s = (case m s of (Inl e, t) \<Rightarrow> (Inl e, t) | (Inr a, t) \<Rightarrow> n t)"
  by (simp add: andthen_def bind_def)

lemma when_cond_run [prog_simps]: "when_cond b m s = (if b then m s else (Inr (), s))"
  by (simp add: when_cond_def return_def)

subsection \<open>What a program keeps\<close>

text \<open>
  \<open>keeps P m\<close>: from a state with \<open>P\<close> the program ends in a state with \<open>P\<close>, whether it
  returns or throws. One rule per combinator, so that a component invariant follows the
  shape of the program.
\<close>

definition keeps :: "('s \<Rightarrow> bool) \<Rightarrow> ('s, 'e, 'a) prog \<Rightarrow> bool" where
  "keeps P m \<longleftrightarrow> (\<forall>s. P s \<longrightarrow> P (snd (m s)))"

lemma keepsI: "(\<And>s. P s \<Longrightarrow> P (snd (m s))) \<Longrightarrow> keeps P m"
  by (simp add: keeps_def)

lemma keepsD: "keeps P m \<Longrightarrow> P s \<Longrightarrow> P (snd (m s))"
  by (simp add: keeps_def)

lemma keeps_run: "keeps P m \<Longrightarrow> P s \<Longrightarrow> m s = (r, t) \<Longrightarrow> P t"
  by (auto dest: keepsD)

lemma keeps_return [inv_intros]: "keeps P (return a)"
  by (simp add: keeps_def)

lemma keeps_throw [inv_intros]: "keeps P (throw e)"
  by (simp add: keeps_def)

lemma keeps_asks [inv_intros]: "keeps P (asks f)"
  by (simp add: keeps_def)

lemma keeps_lift_result [inv_intros]: "keeps P (lift_result r)"
  by (simp add: keeps_def)

lemma keeps_modify [inv_intros]: "(\<And>s. P s \<Longrightarrow> P (f s)) \<Longrightarrow> keeps P (modify f)"
  by (simp add: keeps_def)

lemma keeps_bind [inv_intros]: "keeps P m \<Longrightarrow> (\<And>a. keeps P (f a)) \<Longrightarrow> keeps P (bind m f)"
  by (fastforce simp: keeps_def bind_def split: prod.splits sum.splits)

lemma keeps_andthen [inv_intros]: "keeps P m \<Longrightarrow> keeps P n \<Longrightarrow> keeps P (andthen m n)"
  unfolding andthen_def by (rule keeps_bind)

lemma keeps_when_cond [inv_intros]: "(b \<Longrightarrow> keeps P m) \<Longrightarrow> keeps P (when_cond b m)"
  by (simp add: keeps_def when_cond_def)

lemma keeps_if [inv_intros]: "(b \<Longrightarrow> keeps P m) \<Longrightarrow> (\<not> b \<Longrightarrow> keeps P n) \<Longrightarrow> keeps P (if b then m else n)"
  by simp

lemma keeps_for_each [inv_intros]: "(\<And>x. x \<in> set xs \<Longrightarrow> keeps P (f x)) \<Longrightarrow> keeps P (for_each xs f)"
  by (induction xs) (simp_all add: keeps_return keeps_andthen)

lemma keeps_for_collect [inv_intros]:
  "(\<And>x. x \<in> set xs \<Longrightarrow> keeps P (f x)) \<Longrightarrow> keeps P (for_collect xs f)"
  by (induction xs) (simp_all add: keeps_return keeps_bind)

section \<open>Lists, options and insertion-ordered maps\<close>

fun find_last :: "('a \<Rightarrow> bool) \<Rightarrow> 'a list \<Rightarrow> 'a option" where
  "find_last p xs = find p (rev xs)"

lemma find_Some_in: "find p xs = Some x \<Longrightarrow> x \<in> set xs \<and> p x"
  by (auto simp: find_Some_iff)

lemma sum_list_list_update:
  "k < length xs \<Longrightarrow> sum_list (xs[k := (v::int)]) = sum_list xs + v - xs ! k"
proof (induction xs arbitrary: k)
  case (Cons x xs)
  then show ?case by (cases k) simp_all
qed simp

lemma member_le_sum_list_int: "\<forall>y \<in> set xs. 0 \<le> (y::int) \<Longrightarrow> x \<in> set xs \<Longrightarrow> x \<le> sum_list xs"
proof (induction xs)
  case (Cons y ys)
  then have "0 \<le> sum_list ys" by (simp add: sum_list_nonneg)
  with Cons show ?case by auto
qed simp

definition orelse :: "'a option \<Rightarrow> 'a option \<Rightarrow> 'a option" where
  "orelse a b = (case a of None \<Rightarrow> b | Some x \<Rightarrow> Some x)"

definition default :: "'a \<Rightarrow> 'a option \<Rightarrow> 'a" where
  "default d a = (case a of None \<Rightarrow> d | Some x \<Rightarrow> x)"

lemma default_simps [simp]: "default d None = d" "default d (Some x) = x"
  by (simp_all add: default_def)

lemma orelse_simps [simp]: "orelse None b = b" "orelse (Some x) b = Some x"
  by (simp_all add: orelse_def)

text \<open>\<open>Math.max\<close> and \<open>Math.min\<close> of a non-empty list of integers.\<close>

definition math_max :: "int list \<Rightarrow> int" where
  "math_max xs = fold max (tl xs) (hd xs)"

definition math_min :: "int list \<Rightarrow> int" where
  "math_min xs = fold min (tl xs) (hd xs)"

lemma math_max_Max [simp]: "xs \<noteq> [] \<Longrightarrow> math_max xs = Max (set xs)"
  by (cases xs) (simp, simp only: math_max_def Max.set_eq_fold list.sel)

lemma math_min_Min [simp]: "xs \<noteq> [] \<Longrightarrow> math_min xs = Min (set xs)"
  by (cases xs) (simp, simp only: math_min_def Min.set_eq_fold list.sel)

definition keys_of :: "('k \<times> 'v) list \<Rightarrow> 'k list" where
  "keys_of m = map fst m"

lemma map_of_update [simp]: "map_of (AList.update k v m) = (map_of m)(k \<mapsto> v)"
  by (rule update_conv')

lemma map_of_delete [simp]: "map_of (AList.delete k m) = (map_of m)(k := None)"
  by (rule delete_conv')

lemma distinct_keys_update [simp]:
  "distinct (map fst m) \<Longrightarrow> distinct (map fst (AList.update k v m))"
  by (rule distinct_update)

lemma distinct_keys_delete [simp]:
  "distinct (map fst m) \<Longrightarrow> distinct (map fst (AList.delete k m))"
  by (rule distinct_delete)

text \<open>A reason pushed onto a list of refusals under a condition: \<open>if (b) reasons.push(r)\<close>.\<close>

definition reason_if :: "bool \<Rightarrow> 'r \<Rightarrow> 'r list" where
  "reason_if b r = (if b then [r] else [])"

lemma reason_if_Nil [simp]: "reason_if b r = [] \<longleftrightarrow> \<not> b"
  by (simp add: reason_if_def)

lemma reason_if_set [simp]: "x \<in> set (reason_if b r) \<longleftrightarrow> b \<and> x = r"
  by (auto simp: reason_if_def)

section \<open>Event machines\<close>

text \<open>
  A transition function of the code takes a state and an event to the next state or to a
  rejection. Running a list of events, the caller keeps the state it had when an event is
  rejected.
\<close>

definition apply_event :: "('s \<Rightarrow> 'e \<Rightarrow> 'r + 's) \<Rightarrow> 's \<Rightarrow> 'e \<Rightarrow> 's" where
  "apply_event step s e = (case step s e of Inl r \<Rightarrow> s | Inr t \<Rightarrow> t)"

fun run_events :: "('s \<Rightarrow> 'e \<Rightarrow> 'r + 's) \<Rightarrow> 's \<Rightarrow> 'e list \<Rightarrow> 's" where
  "run_events step s [] = s"
| "run_events step s (e # es) = run_events step (apply_event step s e) es"

lemma run_events_append: "run_events step s (xs @ ys) = run_events step (run_events step s xs) ys"
  by (induction xs arbitrary: s) simp_all

locale event_machine =
  fixes step :: "'s \<Rightarrow> 'e \<Rightarrow> 'r + 's"
    and inv :: "'s \<Rightarrow> bool"
  assumes step_inv: "inv s \<Longrightarrow> step s e = Inr t \<Longrightarrow> inv t"
begin

lemma apply_inv: "inv s \<Longrightarrow> inv (apply_event step s e)"
  by (auto simp: apply_event_def step_inv split: sum.splits)

lemma run_inv: "inv s \<Longrightarrow> inv (run_events step s es)"
  by (induction es arbitrary: s) (simp_all add: apply_inv)

end

text \<open>
  A machine with a set of final states that accepts no event leading out of it: being final is
  then an invariant of the same machine.
\<close>

locale final_machine =
  fixes step :: "'s \<Rightarrow> 'e \<Rightarrow> 'r + 's"
    and final :: "'s \<Rightarrow> bool"
  assumes final_stays: "final s \<Longrightarrow> step s e = Inr t \<Longrightarrow> t = s"
begin

lemma run_final: "final s \<Longrightarrow> run_events step s es = s"
proof (induction es)
  case (Cons e es)
  have "apply_event step s e = s"
    using final_stays [OF Cons.prems] by (auto simp: apply_event_def split: sum.splits)
  with Cons show ?case by simp
qed simp

end

sublocale final_machine \<subseteq> fin: event_machine step final
  by unfold_locales (use final_stays in blast)

text \<open>A machine along which a measure of a state never falls.\<close>

locale monotone_machine =
  fixes step :: "'s \<Rightarrow> 'e \<Rightarrow> 'r + 's"
    and rank :: "'s \<Rightarrow> nat"
  assumes step_rank: "step s e = Inr t \<Longrightarrow> rank s \<le> rank t"
begin

lemma apply_rank: "rank s \<le> rank (apply_event step s e)"
  by (auto simp: apply_event_def step_rank split: sum.splits)

lemma run_rank: "rank s \<le> rank (run_events step s es)"
proof (induction es arbitrary: s)
  case (Cons e es)
  have "rank s \<le> rank (apply_event step s e)" by (rule apply_rank)
  also have "\<dots> \<le> rank (run_events step (apply_event step s e) es)" by (rule Cons.IH)
  finally show ?case by simp
qed simp

end

end
