(* ===== verification/JsNumber.thy ===== *)
theory JsNumber imports Prelude Complex_Main begin

text \<open>
  The numbers of the language: IEEE 754 binary64 with round-to-nearest-even. A finite double is
  the rational it denotes; the two zeros are one value (no operation modelled here tells them
  apart, since no divisor of the code is a computed zero). Every arithmetic operation is the
  exact rational one followed by \<open>rnd\<close>, which rounds the significand to 53 bits, the exponent
  bounded below by that of the subnormals and above by overflow to an infinity. Comparisons
  are exact, and false on NaN. \<open>BigInt\<close> of a number is defined on integers only and raises
  otherwise, as the language does.
\<close>

section \<open>Rounding to binary64\<close>

datatype jsnum = Fin rat | PosInf | NegInf | NaN

fun bitlen :: "nat \<Rightarrow> nat" where
  "bitlen n = (if n = 0 then 0 else Suc (bitlen (n div 2)))"

declare bitlen.simps [simp del]

definition pow2 :: "int \<Rightarrow> rat" where
  "pow2 k = (if 0 \<le> k then 2 ^ nat k else 1 / 2 ^ nat (- k))"

definition ilog2 :: "rat \<Rightarrow> int" where
  "ilog2 x = (case quotient_of x of (p, q) \<Rightarrow>
     let k = int (bitlen (nat p)) - int (bitlen (nat q))
     in if pow2 k \<le> x then k else k - 1)"

definition round_half_even :: "rat \<Rightarrow> int" where
  "round_half_even x = (let f = \<lfloor>x\<rfloor>; r = x - of_int f
     in if r < 1 / 2 then f else if r > 1 / 2 then f + 1 else if even f then f else f + 1)"

definition rnd :: "rat \<Rightarrow> jsnum" where
  "rnd x = (if x = 0 then Fin 0
     else let e = max (ilog2 \<bar>x\<bar> - 52) (- 1074);
              v = of_int (round_half_even (\<bar>x\<bar> / pow2 e)) * pow2 e
          in if v \<ge> pow2 1024 then (if x < 0 then NegInf else PosInf)
             else Fin (if x < 0 then - v else v))"

section \<open>Operations\<close>

fun nneg :: "jsnum \<Rightarrow> jsnum" where
  "nneg (Fin a) = Fin (- a)"
| "nneg PosInf = NegInf"
| "nneg NegInf = PosInf"
| "nneg NaN = NaN"

fun nadd :: "jsnum \<Rightarrow> jsnum \<Rightarrow> jsnum" where
  "nadd (Fin a) (Fin b) = rnd (a + b)"
| "nadd NaN _ = NaN"
| "nadd _ NaN = NaN"
| "nadd PosInf NegInf = NaN"
| "nadd NegInf PosInf = NaN"
| "nadd PosInf _ = PosInf"
| "nadd NegInf _ = NegInf"
| "nadd _ PosInf = PosInf"
| "nadd _ NegInf = NegInf"

definition nsub :: "jsnum \<Rightarrow> jsnum \<Rightarrow> jsnum" where
  "nsub a b = nadd a (nneg b)"

definition signed_inf :: "bool \<Rightarrow> jsnum" where
  "signed_inf neg = (if neg then NegInf else PosInf)"

fun nmul :: "jsnum \<Rightarrow> jsnum \<Rightarrow> jsnum" where
  "nmul (Fin a) (Fin b) = rnd (a * b)"
| "nmul NaN _ = NaN"
| "nmul _ NaN = NaN"
| "nmul (Fin a) PosInf = (if a = 0 then NaN else signed_inf (a < 0))"
| "nmul (Fin a) NegInf = (if a = 0 then NaN else signed_inf (0 < a))"
| "nmul PosInf (Fin b) = (if b = 0 then NaN else signed_inf (b < 0))"
| "nmul NegInf (Fin b) = (if b = 0 then NaN else signed_inf (0 < b))"
| "nmul PosInf PosInf = PosInf"
| "nmul PosInf NegInf = NegInf"
| "nmul NegInf PosInf = NegInf"
| "nmul NegInf NegInf = PosInf"

fun ndiv :: "jsnum \<Rightarrow> jsnum \<Rightarrow> jsnum" where
  "ndiv (Fin a) (Fin b) = (if b = 0 then (if a = 0 then NaN else signed_inf (a < 0)) else rnd (a / b))"
| "ndiv NaN _ = NaN"
| "ndiv _ NaN = NaN"
| "ndiv (Fin a) _ = Fin 0"
| "ndiv PosInf (Fin b) = signed_inf (b < 0)"
| "ndiv NegInf (Fin b) = signed_inf (0 \<le> b)"
| "ndiv PosInf _ = NaN"
| "ndiv NegInf _ = NaN"

fun nlt :: "jsnum \<Rightarrow> jsnum \<Rightarrow> bool" where
  "nlt (Fin a) (Fin b) \<longleftrightarrow> a < b"
| "nlt NaN _ \<longleftrightarrow> False"
| "nlt _ NaN \<longleftrightarrow> False"
| "nlt PosInf _ \<longleftrightarrow> False"
| "nlt _ NegInf \<longleftrightarrow> False"
| "nlt _ _ \<longleftrightarrow> True"

definition neq :: "jsnum \<Rightarrow> jsnum \<Rightarrow> bool" where
  "neq a b \<longleftrightarrow> a \<noteq> NaN \<and> a = b"

definition nle :: "jsnum \<Rightarrow> jsnum \<Rightarrow> bool" where
  "nle a b \<longleftrightarrow> nlt a b \<or> neq a b"

fun is_finite_num :: "jsnum \<Rightarrow> bool" where
  "is_finite_num (Fin _) \<longleftrightarrow> True"
| "is_finite_num _ \<longleftrightarrow> False"

definition nmax :: "jsnum \<Rightarrow> jsnum \<Rightarrow> jsnum" where
  "nmax a b = (if a = NaN \<or> b = NaN then NaN else if nlt a b then b else a)"

definition nmin :: "jsnum \<Rightarrow> jsnum \<Rightarrow> jsnum" where
  "nmin a b = (if a = NaN \<or> b = NaN then NaN else if nlt b a then b else a)"

fun math_round :: "jsnum \<Rightarrow> jsnum" where
  "math_round (Fin a) = Fin (of_int \<lfloor>a + 1 / 2\<rfloor>)"
| "math_round x = x"

fun math_floor :: "jsnum \<Rightarrow> jsnum" where
  "math_floor (Fin a) = Fin (of_int \<lfloor>a\<rfloor>)"
| "math_floor x = x"

fun math_abs :: "jsnum \<Rightarrow> jsnum" where
  "math_abs (Fin a) = Fin \<bar>a\<bar>"
| "math_abs NaN = NaN"
| "math_abs _ = PosInf"

text \<open>\<open>Number(b)\<close> of a bigint, and \<open>BigInt(n)\<close>, which raises a RangeError off the integers.\<close>

definition number_of_bigint :: "int \<Rightarrow> jsnum" where
  "number_of_bigint i = rnd (of_int i)"

fun bigint_of :: "jsnum \<Rightarrow> int option" where
  "bigint_of (Fin a) = (if of_int \<lfloor>a\<rfloor> = a then Some \<lfloor>a\<rfloor> else None)"
| "bigint_of _ = None"

section \<open>Facts\<close>

lemma nlt_irrefl [simp]: "\<not> nlt a a"
  by (cases a) simp_all

lemma nlt_trans: "nlt a b \<Longrightarrow> nlt b c \<Longrightarrow> nlt a c"
  by (cases a; cases b; cases c) simp_all

lemma nlt_asym: "nlt a b \<Longrightarrow> \<not> nlt b a"
  using nlt_trans nlt_irrefl by blast

lemma nle_Fin [simp]: "nle (Fin a) (Fin b) \<longleftrightarrow> a \<le> b"
  by (auto simp: nle_def neq_def)

lemma nle_Inf [simp]: "nle (Fin a) PosInf" "nle NegInf (Fin a)" "\<not> nle PosInf (Fin a)" "\<not> nle (Fin a) NegInf"
  by (simp_all add: nle_def neq_def)

lemma nle_trans: "nle a b \<Longrightarrow> nle b c \<Longrightarrow> nle a c"
  by (auto simp: nle_def neq_def dest: nlt_trans)

lemma nle_refl_iff [simp]: "nle a a \<longleftrightarrow> a \<noteq> NaN"
  by (simp add: nle_def neq_def)

lemma nlt_nle_linear: "a \<noteq> NaN \<Longrightarrow> b \<noteq> NaN \<Longrightarrow> nlt a b \<or> nle b a"
  by (cases a; cases b) (auto simp: nle_def neq_def)

lemma not_nlt_imp_nle: "\<not> nlt a b \<Longrightarrow> a \<noteq> NaN \<Longrightarrow> b \<noteq> NaN \<Longrightarrow> nle b a"
  using nlt_nle_linear by blast

lemma nlt_not_nle: "nlt a b \<Longrightarrow> \<not> nle b a"
  by (auto simp: nle_def neq_def dest: nlt_asym)

lemma nlt_NaN [simp]: "\<not> nlt a NaN" "\<not> nlt NaN a"
  by (cases a; simp)+

lemma nle_NaN [simp]: "\<not> nle a NaN" "\<not> nle NaN a"
  by (auto simp: nle_def neq_def)

lemma nmax_ge1: "b \<noteq> NaN \<Longrightarrow> a \<noteq> NaN \<Longrightarrow> nle a (nmax a b)"
  by (auto simp: nmax_def nle_def neq_def)

lemma nmax_ge2: "b \<noteq> NaN \<Longrightarrow> a \<noteq> NaN \<Longrightarrow> nle b (nmax a b)"
  by (auto simp: nmax_def intro: not_nlt_imp_nle)

lemma bitlen_0 [simp]: "bitlen 0 = 0"
  by (simp add: bitlen.simps)

lemma half_bounds: "(p::nat) \<le> n div 2 \<Longrightarrow> n div 2 < 2 * p \<Longrightarrow> 2 * p \<le> n \<and> n < 4 * p"
  by (simp add: less_eq_div_iff_mult_less_eq div_less_iff_less_mult)

lemma bitlen_bounds: "0 < n \<Longrightarrow> 2 ^ (bitlen n - 1) \<le> n \<and> n < 2 ^ bitlen n \<and> 0 < bitlen n"
proof (induction n rule: bitlen.induct)
  case (1 n)
  show ?case
  proof (cases "n div 2 = 0")
    case True
    with "1.prems" have "n = 1" by simp
    then show ?thesis by (simp add: bitlen.simps [of "Suc 0"])
  next
    case False
    with 1 have IH: "2 ^ (bitlen (n div 2) - 1) \<le> n div 2" "n div 2 < 2 ^ bitlen (n div 2)"
      "0 < bitlen (n div 2)" by auto
    then obtain m where m: "bitlen (n div 2) = Suc m" by (cases "bitlen (n div 2)") auto
    from "1.prems" have "bitlen n = Suc (Suc m)" by (simp add: bitlen.simps [of n] m)
    moreover from IH m have "2 ^ m \<le> n div 2" "n div 2 < 2 * 2 ^ m" by simp_all
    ultimately show ?thesis using half_bounds [of "2 ^ m" n] by simp
  qed
qed

lemma pow2_pos [simp]: "0 < pow2 k"
  by (simp add: pow2_def)

lemma pow2_nonneg [simp]: "0 \<le> pow2 k"
  using pow2_pos [of k] by linarith

lemma rnd_0 [simp]: "rnd 0 = Fin 0"
  by (simp add: rnd_def)

lemma round_half_even_nonneg: "0 \<le> x \<Longrightarrow> 0 \<le> round_half_even x"
  by (auto simp: round_half_even_def Let_def)

lemma rnd_sign: "0 \<le> x \<Longrightarrow> nle (Fin 0) (rnd x)"
proof -
  assume x: "0 \<le> x"
  have "0 \<le> (of_int (round_half_even (\<bar>x\<bar> / pow2 e)) :: rat) * pow2 e" for e
    by (intro mult_nonneg_nonneg) (simp_all add: round_half_even_nonneg)
  then show ?thesis using x by (cases "x = 0") (simp_all add: rnd_def Let_def)
qed

lemma rnd_not_NaN [simp]: "rnd x \<noteq> NaN"
  by (simp add: rnd_def Let_def)

lemma bigint_of_math_round [simp]: "bigint_of (math_round (Fin a)) = Some \<lfloor>a + 1 / 2\<rfloor>"
  by simp

lemma math_round_int [simp]: "math_round (Fin (of_int i)) = Fin (of_int i)"
proof -
  have "\<lfloor>(of_int i :: rat) + 1 / 2\<rfloor> = i" by linarith
  then show ?thesis by simp
qed

lemma bigint_of_math_round_nonneg: "nle (Fin 0) x \<Longrightarrow> bigint_of (math_round x) = Some i \<Longrightarrow> 0 \<le> i"
  by (cases x) (auto split: if_splits)

section \<open>Exact values\<close>

text \<open>
  A rational whose significand fits 53 bits is its own double, so sums and products of such
  values that stay representable are computed by simplification.
\<close>

lemma pow2_add: "pow2 (a + b) = pow2 a * pow2 b"
proof -
  have nonneg: "pow2 (a + int n) = pow2 a * 2 ^ n" for a n
  proof (induction n)
    case (Suc n)
    have "pow2 (k + 1) = pow2 k * 2" for k
    proof (cases "0 \<le> k")
      case True
      then have "nat (k + 1) = Suc (nat k)" by simp
      with True show ?thesis by (simp add: pow2_def)
    next
      case False
      then have "nat (- k) = Suc (nat (- (k + 1)))" by simp
      with False show ?thesis by (auto simp: pow2_def)
    qed
    from this [of "a + int n"] Suc show ?case by (simp add: ac_simps)
  qed (simp add: pow2_def)
  show ?thesis
  proof (cases "0 \<le> b")
    case True
    with nonneg [of a "nat b"] show ?thesis by (simp add: pow2_def)
  next
    case False
    with nonneg [of "a + b" "nat (- b)"] show ?thesis by (simp add: pow2_def field_simps)
  qed
qed

lemma pow2_nat: "pow2 (int n) = 2 ^ n"
  by (simp add: pow2_def)

lemma pow2_less_iff: "pow2 a < pow2 b \<longleftrightarrow> a < b"
proof -
  have less: "pow2 a < pow2 b" if "a < b" for a b
  proof -
    have "b = a + int (nat (b - a))" and n: "0 < nat (b - a)" using that by simp_all
    then have "pow2 b = pow2 a * 2 ^ nat (b - a)" by (metis pow2_add pow2_nat)
    moreover have "(1::rat) < 2 ^ nat (b - a)" using n by (simp add: one_less_power)
    ultimately show ?thesis using pow2_pos [of a] by simp
  qed
  show ?thesis
  proof
    assume "pow2 a < pow2 b"
    with less [of b a] show "a < b" by (cases a b rule: linorder_cases) auto
  qed (rule less)
qed

lemma pow2_ilog2: "0 < x \<Longrightarrow> pow2 (ilog2 x) \<le> x"
proof -
  assume x: "0 < x"
  obtain p q where pq: "quotient_of x = (p, q)" by (cases "quotient_of x")
  then have xe: "x = of_int p / of_int q" and q: "0 < q"
    by (simp_all add: quotient_of_div quotient_of_denom_pos)
  with x have p: "0 < p" by (simp add: zero_less_divide_iff)
  let ?b = "bitlen (nat p)" and ?c = "bitlen (nat q)"
  have b: "2 ^ (?b - 1) \<le> nat p" "0 < ?b" using bitlen_bounds [of "nat p"] p by simp_all
  have c: "nat q < 2 ^ ?c" using bitlen_bounds [of "nat q"] q by simp
  have "int (2 ^ (?b - 1)) \<le> p" using b p by linarith
  then have "of_int (int (2 ^ (?b - 1))) \<le> (of_int p :: rat)" by (simp only: of_int_le_iff)
  then have bp: "2 ^ (?b - 1) \<le> (of_int p :: rat)" by simp
  have "q < int (2 ^ ?c)" using c q by linarith
  then have "(of_int q :: rat) < of_int (int (2 ^ ?c))" by (simp only: of_int_less_iff)
  then have cq: "(of_int q :: rat) < 2 ^ ?c" by simp
  have "pow2 (int ?b - int ?c - 1) * 2 ^ ?c = 2 ^ (?b - 1)"
    using b(2) by (simp add: pow2_add [symmetric] pow2_nat [symmetric]) 
  moreover have "pow2 (int ?b - int ?c - 1) * of_int q \<le> pow2 (int ?b - int ?c - 1) * 2 ^ ?c"
    using cq by (intro mult_left_mono) simp_all
  ultimately have "pow2 (int ?b - int ?c - 1) * of_int q \<le> of_int p" using bp by linarith
  then have "pow2 (int ?b - int ?c - 1) \<le> x" using q by (simp add: xe field_simps)
  then show ?thesis by (simp add: ilog2_def pq Let_def)
qed

lemma round_half_even_int [simp]: "round_half_even (of_int n) = n"
  by (simp add: round_half_even_def)

lemma rnd_exact:
  assumes m: "\<bar>m\<bar> < 2 ^ 53" and k: "- 1074 \<le> k" "k \<le> 971"
  shows "rnd (of_int m * pow2 k) = Fin (of_int m * pow2 k)"
proof (cases "m = 0")
  case False
  define x where "x = of_int m * pow2 k"
  define e where "e = max (ilog2 \<bar>x\<bar> - 52) (- 1074)"
  have "pow2 k \<noteq> 0" using pow2_pos [of k] by (metis less_irrefl)
  with False have pos: "0 < \<bar>x\<bar>" by (simp add: x_def)
  have am: "(of_int \<bar>m\<bar> :: rat) < 2 ^ 53" using m by (metis of_int_less_iff of_int_numeral of_int_power)
  have ax: "\<bar>x\<bar> = of_int \<bar>m\<bar> * pow2 k" by (simp add: abs_mult x_def)
  also have "\<dots> < 2 ^ 53 * pow2 k" using am pow2_pos [of k] by (rule mult_strict_right_mono)
  also have "\<dots> = pow2 (53 + k)" using pow2_add [of 53 k] by (simp add: pow2_def [of 53])
  finally have lt: "\<bar>x\<bar> < pow2 (53 + k)" .
  with pow2_ilog2 [OF pos] have "ilog2 \<bar>x\<bar> < 53 + k" by (metis le_less_trans pow2_less_iff)
  then have e: "e \<le> k" using k(1) by (simp add: e_def)
  have pe: "pow2 e \<noteq> 0" using pow2_pos [of e] by (metis less_irrefl)
  have "pow2 (k - e) = of_int (2 ^ nat (k - e))" using e by (simp add: pow2_def)
  then have pk: "pow2 k = of_int (2 ^ nat (k - e)) * pow2 e" using pow2_add [of "k - e" e] by simp
  have q: "\<bar>x\<bar> / pow2 e = of_int (\<bar>m\<bar> * 2 ^ nat (k - e))" using pe by (simp add: ax pk)
  have "of_int (round_half_even (\<bar>x\<bar> / pow2 e)) * pow2 e = \<bar>x\<bar>"
    unfolding q round_half_even_int using pe by (simp add: ax pk)
  moreover have "\<bar>x\<bar> < pow2 1024"
  proof (rule less_le_trans [OF lt])
    show "pow2 (53 + k) \<le> pow2 1024" using k(2) pow2_less_iff [of 1024 "53 + k"] by (simp add: not_less [symmetric])
  qed
  ultimately show ?thesis using pos unfolding x_def [symmetric] by (auto simp: rnd_def Let_def e_def)
qed simp

lemma rnd_int: "\<bar>n\<bar> < 9007199254740992 \<Longrightarrow> rnd (of_int n) = Fin (of_int n)"
  using rnd_exact [of n 0] by (simp add: pow2_def)

lemma rnd_dyadic: "\<bar>n\<bar> < 9007199254740992 \<Longrightarrow> k \<le> 1074 \<Longrightarrow> rnd (of_int n / 2 ^ k) = Fin (of_int n / 2 ^ k)"
proof -
  have "pow2 (- int k) = 1 / 2 ^ k" by (simp add: pow2_def)
  then show "\<bar>n\<bar> < 9007199254740992 \<Longrightarrow> k \<le> 1074 \<Longrightarrow> rnd (of_int n / 2 ^ k) = Fin (of_int n / 2 ^ k)"
    using rnd_exact [of n "- int k"] by simp
qed

lemma rnd_numeral [simp]: "(numeral n :: int) < 9007199254740992 \<Longrightarrow> rnd (numeral n) = Fin (numeral n)"
  using rnd_int [of "numeral n"] by simp

lemma rnd_neg_numeral [simp]: "(numeral n :: int) < 9007199254740992 \<Longrightarrow> rnd (- numeral n) = Fin (- numeral n)"
  using rnd_int [of "- numeral n"] by simp

lemma rnd_one [simp]: "rnd 1 = Fin 1" "rnd (- 1) = Fin (- 1)"
  using rnd_int [of 1] rnd_int [of "- 1"] by simp_all

lemma rnd_half [simp]: "rnd (1 / 2) = Fin (1 / 2)" "rnd (1 / 4) = Fin (1 / 4)" "rnd (1 / 8) = Fin (1 / 8)"
  "(numeral n :: int) < 9007199254740992 \<Longrightarrow> rnd (numeral n / 2) = Fin (numeral n / 2)"
  "(numeral n :: int) < 9007199254740992 \<Longrightarrow> rnd (numeral n / 4) = Fin (numeral n / 4)"
  "(numeral n :: int) < 9007199254740992 \<Longrightarrow> rnd (numeral n / 8) = Fin (numeral n / 8)"
  using rnd_dyadic [of 1 1] rnd_dyadic [of 1 2] rnd_dyadic [of 1 3]
    rnd_dyadic [of "numeral n" 1] rnd_dyadic [of "numeral n" 2] rnd_dyadic [of "numeral n" 3] by simp_all

end
