(* ===== verification/Money.thy ===== *)
theory Money imports JsNumber "HOL-Library.Signed_Division" begin

text \<open>
  Canonical financial arithmetic (\<open>libs/contracts/src/money/base-units.ts\<close>): every quantity is
  a base-unit bigint, every division names its rounding, and a result outside the u64 range is
  an \<open>ArithmeticError\<close>. The lemmas say what each rounding guarantees, that \<open>allocate\<close> conserves
  the total, and that the decimal rendering parses back to the same amount.
\<close>

section \<open>Amounts\<close>

datatype rounding = FLOOR | CEIL | HALF_UP

datatype arith_error =
    NEGATIVE_RESULT
  | EXCEEDS_U64
  | MALFORMED_DECIMAL
  | DIVISION_BY_ZERO
  | DECIMALS_OUT_OF_RANGE
  | RANGE_ERROR \<comment> \<open>the language's own error of \<open>BigInt\<close> on a number that is no integer\<close>

definition U64_MAX :: int where
  "U64_MAX = 18446744073709551615"

definition amountToBigInt :: "amount \<Rightarrow> int" where
  "amountToBigInt a = a"

definition bigIntToAmount :: "int \<Rightarrow> arith_error + amount" where
  "bigIntToAmount v = (if v < 0 then Inl NEGATIVE_RESULT
     else if v > U64_MAX then Inl EXCEEDS_U64 else Inr v)"

definition divide_rounding :: "int \<Rightarrow> int \<Rightarrow> rounding \<Rightarrow> arith_error + int" where
  "divide_rounding num den rounding = (if den = 0 then Inl DIVISION_BY_ZERO
     else let negative = ((num < 0) \<noteq> (den < 0));
              n = (if num < 0 then - num else num);
              d = (if den < 0 then - den else den);
              q = n div d; r = n mod d;
              q' = (if r \<noteq> 0 then (if rounding = CEIL then q + 1
                      else if rounding = HALF_UP \<and> r * 2 \<ge> d then q + 1 else q) else q)
          in Inr (if negative then - q' else q'))"

definition mulDiv :: "amount \<Rightarrow> int \<Rightarrow> int \<Rightarrow> rounding \<Rightarrow> arith_error + amount" where
  "mulDiv amount num den rounding =
     ebind (divide_rounding (amountToBigInt amount * num) den rounding) bigIntToAmount"

definition applyBps :: "amount \<Rightarrow> jsnum \<Rightarrow> rounding \<Rightarrow> arith_error + amount" where
  "applyBps amount bps rounding = (case bigint_of (math_round bps) of
       None \<Rightarrow> Inl RANGE_ERROR
     | Some b \<Rightarrow> mulDiv amount b 10000 rounding)"

definition addAmounts :: "amount list \<Rightarrow> arith_error + amount" where
  "addAmounts amounts = bigIntToAmount (foldl (\<lambda>s a. s + amountToBigInt a) 0 amounts)"

definition subAmounts :: "amount \<Rightarrow> amount \<Rightarrow> arith_error + amount" where
  "subAmounts a b = bigIntToAmount (amountToBigInt a - amountToBigInt b)"

definition signedDelta :: "amount \<Rightarrow> amount \<Rightarrow> int" where
  "signedDelta after before = amountToBigInt after - amountToBigInt before"

definition compareAmounts :: "amount \<Rightarrow> amount \<Rightarrow> int" where
  "compareAmounts a b = (let x = amountToBigInt a; y = amountToBigInt b
     in if x < y then -1 else if x > y then 1 else 0)"

definition minAmount :: "amount \<Rightarrow> amount \<Rightarrow> amount" where
  "minAmount a b = (if compareAmounts a b \<le> 0 then a else b)"

section \<open>Pro-rata allocation\<close>

text \<open>The index of the largest weight, the first one on ties: the \<open>forEach\<close> with a strict test.\<close>

fun largest_from :: "int list \<Rightarrow> nat \<Rightarrow> nat \<Rightarrow> int \<Rightarrow> nat" where
  "largest_from [] i best w = best"
| "largest_from (x # xs) i best w =
     (if x > w then largest_from xs (Suc i) i x else largest_from xs (Suc i) best w)"

definition largest_weight :: "int list \<Rightarrow> nat" where
  "largest_weight ws = (case ws of [] \<Rightarrow> 0 | w # _ \<Rightarrow> largest_from ws 0 0 w)"

definition allocate :: "amount \<Rightarrow> int list \<Rightarrow> arith_error + amount list" where
  "allocate amount weights = (let sm = foldl (+) 0 weights in
     if sm \<le> 0 then Inl DIVISION_BY_ZERO
     else let t = amountToBigInt amount;
              parts = map (\<lambda>w. (t * w) sdiv sm) weights;
              remainder = t - foldl (+) 0 parts;
              largest = largest_weight weights
          in emap bigIntToAmount (parts[largest := parts ! largest + remainder]))"

section \<open>Decimal rendering\<close>

definition digit :: "nat \<Rightarrow> char" where
  "digit n = char_of (48 + n)"

definition is_digit :: "char \<Rightarrow> bool" where
  "is_digit c \<longleftrightarrow> 48 \<le> (of_char c :: nat) \<and> (of_char c :: nat) \<le> 57"

definition digit_val :: "char \<Rightarrow> nat" where
  "digit_val c = of_char c - 48"

fun show_nat :: "nat \<Rightarrow> string" where
  "show_nat n = (if n < 10 then [digit n] else show_nat (n div 10) @ [digit (n mod 10)])"

declare show_nat.simps [simp del]

definition read_nat :: "string \<Rightarrow> nat" where
  "read_nat s = foldl (\<lambda>a c. a * 10 + digit_val c) 0 s"

text \<open>\<open>String.prototype.trim\<close> on the one-byte characters.\<close>

definition is_space :: "char \<Rightarrow> bool" where
  "is_space c \<longleftrightarrow> (let k = (of_char c :: nat) in k = 32 \<or> k = 160 \<or> (9 \<le> k \<and> k \<le> 13))"

definition trim :: "string \<Rightarrow> string" where
  "trim s = rev (dropWhile is_space (rev (dropWhile is_space s)))"

text \<open>The match of \<open>/^(\d+)(?:\.(\d+))?$/\<close>: the two groups, the second empty when absent.\<close>

definition match_decimal :: "string \<Rightarrow> (string \<times> string) option" where
  "match_decimal s = (let i = takeWhile is_digit s; rest = dropWhile is_digit s in
     if i = [] then None
     else case rest of [] \<Rightarrow> Some (i, [])
        | c # fr \<Rightarrow> if c = CHR ''.'' \<and> fr \<noteq> [] \<and> list_all is_digit fr then Some (i, fr) else None)"

definition nonzero_digit :: "char \<Rightarrow> bool" where
  "nonzero_digit c \<longleftrightarrow> is_digit c \<and> digit_val c \<noteq> 0"

definition units_of_text :: "string \<Rightarrow> int \<Rightarrow> rounding \<Rightarrow> arith_error + amount" where
  "units_of_text text decimals rounding = (case match_decimal text of
       None \<Rightarrow> Inl MALFORMED_DECIMAL
     | Some (i, fr) \<Rightarrow>
         let d = nat decimals;
             kept = take d fr @ replicate (d - length fr) (CHR ''0'');
             dropped = drop d fr;
             units = int (read_nat (i @ kept));
             units' = (if dropped \<noteq> [] \<and> list_ex nonzero_digit dropped
                       then (if rounding = CEIL then units + 1
                             else if rounding = HALF_UP \<and> digit_val (hd dropped) \<ge> 5 then units + 1
                             else units)
                       else units)
         in bigIntToAmount units')"

datatype decimal_input = DText string | DNumber jsnum

text \<open>
  \<open>toLocaleString\<close> of a number depends on the locale data of the runtime: it is the parameter
  \<open>to_locale\<close>.
\<close>

definition fromDecimal ::
  "(jsnum \<Rightarrow> string) \<Rightarrow> decimal_input \<Rightarrow> int \<Rightarrow> rounding \<Rightarrow> arith_error + amount" where
  "fromDecimal to_locale value decimals rounding =
     (if decimals < 0 \<or> decimals > 18 then Inl DECIMALS_OUT_OF_RANGE
      else case value of
          DNumber v \<Rightarrow> if \<not> is_finite_num v \<or> nlt v (Fin 0) then Inl MALFORMED_DECIMAL
                       else units_of_text (to_locale v) decimals rounding
        | DText v \<Rightarrow> units_of_text (trim v) decimals rounding)"

definition toDecimalString :: "amount \<Rightarrow> int \<Rightarrow> arith_error + string" where
  "toDecimalString amount decimals =
     (if decimals < 0 \<or> decimals > 18 then Inl DECIMALS_OUT_OF_RANGE
      else let d = nat decimals;
               s0 = show_nat (nat (amountToBigInt amount));
               s = replicate (d + 1 - length s0) (CHR ''0'') @ s0
           in Inr (if d = 0 then s else take (length s - d) s @ ''.'' @ drop (length s - d) s))"

section \<open>Rules for the component proofs\<close>

definition amount_ok :: "amount \<Rightarrow> bool" where
  "amount_ok a \<longleftrightarrow> 0 \<le> a \<and> a \<le> U64_MAX"

lemma amount_ok_0 [simp]: "amount_ok 0"
  by (simp add: amount_ok_def U64_MAX_def)

lemma amountToBigInt_id [simp]: "amountToBigInt a = a"
  by (simp add: amountToBigInt_def)

lemma bigIntToAmount_Inr [simp]: "bigIntToAmount v = Inr a \<longleftrightarrow> a = v \<and> amount_ok v"
  by (auto simp: bigIntToAmount_def amount_ok_def)

lemma bigIntToAmount_ok [simp]: "amount_ok v \<Longrightarrow> bigIntToAmount v = Inr v"
  by simp

lemma foldl_plus_int [simp]: "foldl (+) (s::int) xs = s + sum_list xs"
  by (induction xs arbitrary: s) simp_all

lemma foldl_amounts [simp]: "foldl (\<lambda>s a. s + f a) (s::int) xs = s + sum_list (map f xs)"
  by (induction xs arbitrary: s) simp_all

lemma addAmounts_Inr [simp]: "addAmounts xs = Inr a \<longleftrightarrow> a = sum_list xs \<and> amount_ok a"
  by (auto simp: addAmounts_def)

lemma subAmounts_Inr [simp]: "subAmounts a b = Inr c \<longleftrightarrow> c = a - b \<and> amount_ok c"
  by (auto simp: subAmounts_def)

lemma compareAmounts_gt [simp]: "compareAmounts a b > 0 \<longleftrightarrow> a > b" "0 < compareAmounts a b \<longleftrightarrow> a > b"
  by (simp_all add: compareAmounts_def Let_def)

lemma compareAmounts_lt [simp]: "compareAmounts a b < 0 \<longleftrightarrow> a < b"
  by (simp add: compareAmounts_def Let_def)

lemma compareAmounts_le [simp]: "compareAmounts a b \<le> 0 \<longleftrightarrow> a \<le> b"
  by (simp add: compareAmounts_def Let_def)

lemma minAmount_min: "minAmount a b = min a b"
  by (simp add: minAmount_def)

lemma emap_bigIntToAmount: "emap bigIntToAmount vs = Inr as \<longleftrightarrow> as = vs \<and> (\<forall>v \<in> set vs. amount_ok v)"
  by (induction vs arbitrary: as) auto

lemma mulDiv_ok: "mulDiv a n d r = Inr c \<Longrightarrow> amount_ok c"
  by (auto simp: mulDiv_def)


section \<open>Rounding\<close>

lemma floor_bounds: "0 < (d::int) \<Longrightarrow> m div d * d \<le> m \<and> m < (m div d + 1) * d"
proof -
  assume d: "0 < d"
  have "m = m div d * d + m mod d" by simp
  moreover have "0 \<le> m mod d" and "m mod d < d" using d by simp_all
  ultimately show ?thesis by (simp add: distrib_right, linarith)
qed

lemma divide_rounding_cases:
  assumes "0 \<le> m" and "0 < d"
  shows "divide_rounding m d r = Inr (m div d + (if m mod d \<noteq> 0 \<and> (r = CEIL \<or> (r = HALF_UP \<and> m mod d * 2 \<ge> d)) then 1 else 0))"
  using assms by (cases r) (auto simp: divide_rounding_def Let_def)

text \<open>
  C33: \<open>mulDiv\<close> computes \<open>amount * num / den\<close> with the rounding it names. Under FLOOR the
  quotient is the largest one not above the exact value, under CEIL the smallest one not
  below it, and under HALF_UP it is within half a unit; whatever it returns is a u64 amount.
\<close>

theorem mulDiv_rounding:
  assumes "0 \<le> a" and "0 \<le> n" and d: "0 < d" and q: "mulDiv a n d r = Inr q"
  shows "amount_ok q \<and>
    (case r of FLOOR \<Rightarrow> q * d \<le> a * n \<and> a * n < (q + 1) * d
             | CEIL \<Rightarrow> (q - 1) * d < a * n \<and> a * n \<le> q * d
             | HALF_UP \<Rightarrow> 2 * \<bar>q * d - a * n\<bar> \<le> d)"
proof -
  define k where "k = a * n div d"
  define m where "m = a * n mod d"
  have n: "a * n = k * d + m" by (simp add: k_def m_def)
  have m: "0 \<le> m" "m < d" using d by (simp_all add: m_def)
  have "q = k + (if m \<noteq> 0 \<and> (r = CEIL \<or> (r = HALF_UP \<and> m * 2 \<ge> d)) then 1 else 0)"
    using q divide_rounding_cases [of "a * n" d r] assms(1-3) by (simp add: mulDiv_def k_def m_def)
  then show ?thesis
    using mulDiv_ok [OF q] m unfolding n by (cases r) (auto simp: distrib_right left_diff_distrib split: if_splits)
qed

theorem mulDiv_rounding_witness:
  "mulDiv 7 1 2 HALF_UP = Inr 4 \<and> amount_ok 4 \<and> 2 * \<bar>4 * 2 - 7 * 1\<bar> \<le> (2::int)"
proof -
  have q: "mulDiv 7 1 2 HALF_UP = Inr 4"
    by (simp add: mulDiv_def divide_rounding_def Let_def amount_ok_def U64_MAX_def)
  show ?thesis using mulDiv_rounding [OF _ _ _ q] q by simp
qed

section \<open>Allocation\<close>

lemma largest_from_bound: "best < i \<Longrightarrow> largest_from xs i best w < i + length xs"
  by (induction xs i best w rule: largest_from.induct) (auto simp: less_Suc_eq)

lemma largest_weight_bound: "ws \<noteq> [] \<Longrightarrow> largest_weight ws < length ws"
proof (cases ws)
  case (Cons w vs)
  have "largest_from vs (Suc 0) 0 w < Suc 0 + length vs" by (rule largest_from_bound) simp
  then show ?thesis by (simp add: largest_weight_def Cons)
qed simp

lemma allocate_Inr:
  assumes "allocate t ws = Inr ps"
  shows "0 < sum_list ws" and "ws \<noteq> []"
    and "ps = (map (\<lambda>w. t * w sdiv sum_list ws) ws)
           [largest_weight ws := map (\<lambda>w. t * w sdiv sum_list ws) ws ! largest_weight ws
              + (t - (\<Sum>w\<leftarrow>ws. t * w sdiv sum_list ws))]"
    and "\<forall>p \<in> set ps. amount_ok p"
  using assms by (auto simp: allocate_def Let_def emap_bigIntToAmount split: if_splits)

text \<open>
  \<open>allocate\<close> loses nothing and invents nothing: it returns one part per weight, every part is
  a u64 amount, and the parts sum to exactly the total it was given.
\<close>

theorem allocate_conserves:
  assumes "allocate t ws = Inr ps"
  shows "sum_list ps = t \<and> length ps = length ws \<and> (\<forall>p \<in> set ps. amount_ok p)"
proof -
  note r = allocate_Inr [OF assms]
  let ?l = "map (\<lambda>w. t * w sdiv sum_list ws) ws"
  have "largest_weight ws < length ?l" using largest_weight_bound [OF r(2)] by simp
  then show ?thesis using r(4) by (simp add: r(3) sum_list_list_update)
qed

theorem allocate_conserves_witness:
  "allocate 10 [1, 1, 1] = Inr [4, 3, 3] \<and> sum_list [4, 3, 3 :: int] = 10"
proof -
  have e: "allocate 10 [1, 1, 1] = Inr [4, 3, 3]"
    by (simp add: allocate_def Let_def largest_weight_def emap_bigIntToAmount amount_ok_def U64_MAX_def
        signed_divide_int_def)
  show ?thesis using allocate_conserves [OF e] e by simp
qed

text \<open>
  Over a u64 total and non-negative weights that are not all zero, \<open>allocate\<close> never throws.
\<close>

lemma sdiv_nonneg: "0 \<le> (a::int) \<Longrightarrow> 0 < b \<Longrightarrow> a sdiv b = a div b"
  by (cases "a = 0") (simp_all add: signed_divide_int_def)

lemma sum_div_le: "0 < (s::int) \<Longrightarrow> (\<Sum>w\<leftarrow>ws. f w div s) * s \<le> (\<Sum>w\<leftarrow>ws. f w)"
proof (induction ws)
  case (Cons w ws)
  then show ?case using floor_bounds [of s "f w"] by (simp add: distrib_right)
qed simp

lemma allocate_total:
  assumes t: "amount_ok t" and ws: "\<forall>w \<in> set ws. 0 \<le> w" and s: "0 < sum_list ws"
  shows "\<exists>ps. allocate t ws = Inr ps"
proof -
  let ?s = "sum_list ws"
  let ?ps = "map (\<lambda>w. t * w div ?s) ws"
  let ?i = "largest_weight ws"
  let ?rem = "t - sum_list ?ps"
  have eq: "map (\<lambda>w. t * w sdiv ?s) ws = ?ps"
    using ws s t by (auto simp: sdiv_nonneg amount_ok_def)
  have "sum_list ?ps * ?s \<le> (\<Sum>w\<leftarrow>ws. t * w)" by (rule sum_div_le [OF s])
  then have "sum_list ?ps * ?s \<le> t * ?s" by (simp add: sum_list_const_mult)
  then have rem: "0 \<le> ?rem" using s by simp
  have nn: "\<forall>p \<in> set ?ps. 0 \<le> p"
    using ws s t by (simp add: amount_ok_def pos_imp_zdiv_nonneg_iff)
  have i: "?i < length ?ps" using s largest_weight_bound [of ws] by fastforce
  let ?qs = "?ps[?i := ?ps ! ?i + ?rem]"
  have sumq: "sum_list ?qs = t" using sum_list_list_update [OF i, of "?ps ! ?i + ?rem"] by linarith
  have nq: "\<forall>p \<in> set ?qs. 0 \<le> p"
  proof
    fix p assume "p \<in> set ?qs"
    then have "p = ?ps ! ?i + ?rem \<or> p \<in> set ?ps" using set_update_subset_insert by fastforce
    moreover have "0 \<le> ?ps ! ?i" using nn i nth_mem by blast
    ultimately show "0 \<le> p" using nn rem by (metis add_nonneg_nonneg)
  qed
  have "\<forall>p \<in> set ?qs. amount_ok p"
  proof
    fix p assume p: "p \<in> set ?qs"
    have "p \<le> sum_list ?qs" by (rule member_le_sum_list_int [OF nq p])
    also have "\<dots> = t" by (rule sumq)
    also have "t \<le> U64_MAX" using t by (simp only: amount_ok_def)
    finally show "amount_ok p" using nq p by (simp only: amount_ok_def)
  qed
  then have "emap bigIntToAmount ?qs = Inr ?qs" by (simp add: emap_bigIntToAmount)
  moreover have "allocate t ws = emap bigIntToAmount ?qs"
    using s by (simp add: allocate_def Let_def eq del: nth_map)
  ultimately show ?thesis by simp
qed

section \<open>The decimal form\<close>

lemma digit_props [simp]:
  assumes "n < 10"
  shows "is_digit (digit n)" and "digit_val (digit n) = n"
  using assms by (simp_all add: is_digit_def digit_def digit_val_def)

lemma zero_char: "CHR ''0'' = digit 0"
  by code_simp

lemma digit_chars: "digit 0 = CHR ''0''" "digit 1 = CHR ''1''" "digit 2 = CHR ''2''" "digit 3 = CHR ''3''"
    "digit 4 = CHR ''4''" "digit 5 = CHR ''5''" "digit 6 = CHR ''6''" "digit 7 = CHR ''7''"
    "digit 8 = CHR ''8''" "digit 9 = CHR ''9''"
  by code_simp+

lemma read_nat_foldl: "foldl (\<lambda>a c. a * 10 + digit_val c) k s = k * 10 ^ length s + read_nat s"
proof (induction s arbitrary: k)
  case (Cons c s)
  have "foldl (\<lambda>a c. a * 10 + digit_val c) k (c # s)
      = (k * 10 + digit_val c) * 10 ^ length s + read_nat s"
    by (simp only: foldl.simps Cons)
  moreover have "read_nat (c # s) = (0 * 10 + digit_val c) * 10 ^ length s + read_nat s"
    by (simp only: read_nat_def [of "c # s"] foldl.simps Cons)
  ultimately show ?case by (simp add: distrib_right)
qed (simp add: read_nat_def)

lemma read_nat_append: "read_nat (a @ b) = read_nat a * 10 ^ length b + read_nat b"
  unfolding read_nat_def [of "a @ b"] foldl_append read_nat_foldl [of _ b] read_nat_def [of a] ..

lemma read_nat_single [simp]: "read_nat [c] = digit_val c"
  by (simp add: read_nat_def)

lemma read_nat_zeros [simp]: "read_nat (replicate k (CHR ''0'')) = 0"
  by (induction k) (simp_all add: read_nat_def zero_char)

lemma read_show_nat [simp]: "read_nat (show_nat n) = n"
proof (induction n rule: show_nat.induct)
  case (1 n)
  then show ?case by (cases "n < 10") (simp_all add: show_nat.simps [of n] read_nat_append)
qed

lemma show_nat_digits: "list_all is_digit (show_nat n)"
proof (induction n rule: show_nat.induct)
  case (1 n)
  then show ?case by (cases "n < 10") (simp_all add: show_nat.simps [of n])
qed

lemma show_nat_nonempty [simp]: "show_nat n \<noteq> []"
  by (simp add: show_nat.simps [of n])

lemma digits_trim: "list_all is_digit s \<or> (\<exists>i fr. s = i @ CHR ''.'' # fr \<and> i \<noteq> [] \<and> fr \<noteq> [] \<and>
    list_all is_digit i \<and> list_all is_digit fr) \<Longrightarrow> trim s = s"
proof -
  assume h: "list_all is_digit s \<or> (\<exists>i fr. s = i @ CHR ''.'' # fr \<and> i \<noteq> [] \<and> fr \<noteq> [] \<and>
    list_all is_digit i \<and> list_all is_digit fr)"
  have nd: "is_digit c \<Longrightarrow> \<not> is_space c" for c
    by (auto simp: is_digit_def is_space_def Let_def)
  have edge: "u = [] \<or> (is_digit (hd u) \<and> is_digit (last u)) \<Longrightarrow> trim u = u" for u
  proof -
    assume u: "u = [] \<or> (is_digit (hd u) \<and> is_digit (last u))"
    have keep: "v = [] \<or> \<not> is_space (hd v) \<Longrightarrow> dropWhile is_space v = v" for v
      by (cases v) auto
    have "dropWhile is_space u = u" by (rule keep) (use u nd in blast)
    moreover have "dropWhile is_space (rev u) = rev u"
      by (rule keep) (use u nd in \<open>auto simp: hd_rev\<close>)
    ultimately show ?thesis by (simp add: trim_def)
  qed
  from h have "s = [] \<or> (is_digit (hd s) \<and> is_digit (last s))"
    by (auto simp: list_all_iff hd_append)
  then show ?thesis by (rule edge)
qed

lemma match_decimal_whole: "list_all is_digit s \<Longrightarrow> s \<noteq> [] \<Longrightarrow> match_decimal s = Some (s, [])"
  by (simp add: match_decimal_def list_all_iff Let_def takeWhile_eq_all_conv [THEN iffD2]
      dropWhile_eq_Nil_conv [THEN iffD2])

lemma match_decimal_split:
  assumes "list_all is_digit i" and "i \<noteq> []" and "list_all is_digit fr" and "fr \<noteq> []"
  shows "match_decimal (i @ CHR ''.'' # fr) = Some (i, fr)"
proof -
  have dot: "\<not> is_digit (CHR ''.'')" by code_simp
  have "takeWhile is_digit (i @ CHR ''.'' # fr) = i" "dropWhile is_digit (i @ CHR ''.'' # fr) = CHR ''.'' # fr"
    using assms(1) dot by (simp_all add: takeWhile_append dropWhile_append list_all_iff)
  with assms show ?thesis by (simp add: match_decimal_def Let_def)
qed

text \<open>
  The decimal rendering of an amount parses back to the same amount: for every u64 amount
  and every number of decimals the code accepts, \<open>fromDecimal\<close> of \<open>toDecimalString\<close> is the
  identity, whatever rounding is named.
\<close>

theorem decimal_roundtrip:
  assumes a: "amount_ok a" and s: "toDecimalString a d = Inr s"
  shows "fromDecimal to_locale (DText s) d r = Inr a"
proof -
  have d: "0 \<le> d" "d \<le> 18" using s by (auto simp: toDecimalString_def split: if_splits)
  define n where "n = nat d"
  define p where "p = replicate (n + 1 - length (show_nat (nat a))) (CHR ''0'') @ show_nat (nat a)"
  have dig: "list_all is_digit p"
    using show_nat_digits [of "nat a"] by (auto simp: p_def list_all_iff zero_char)
  have len: "n < length p" by (simp add: p_def)
  have val: "int (read_nat p) = a" using a by (simp add: p_def read_nat_append amount_ok_def)
  let ?i = "take (length p - n) p" and ?fr = "drop (length p - n) p"
  have parts: "list_all is_digit ?i" "list_all is_digit ?fr" "?i \<noteq> []"
    using dig len by (auto simp: list_all_iff dest: in_set_takeD in_set_dropD)
  have se: "s = (if n = 0 then p else ?i @ CHR ''.'' # ?fr)"
    using s d by (auto simp: toDecimalString_def Let_def p_def n_def)
  have m: "match_decimal s = Some (?i, ?fr)"
  proof (cases "n = 0")
    case True
    then show ?thesis using match_decimal_whole [OF dig] len se by simp
  next
    case False
    then show ?thesis using match_decimal_split [OF parts(1,3,2)] len se by simp
  qed
  have "trim s = s"
  proof (cases "n = 0")
    case True
    then show ?thesis using dig se by (intro digits_trim disjI1) simp
  next
    case False
    then have "s = ?i @ CHR ''.'' # ?fr" "?fr \<noteq> []" using se len by simp_all
    then show ?thesis using parts by (intro digits_trim disjI2) blast
  qed
  moreover have "units_of_text s d r = Inr a"
    using m len val a d by (simp add: units_of_text_def Let_def n_def [symmetric])
  ultimately show ?thesis using d by (simp add: fromDecimal_def)
qed

theorem decimal_roundtrip_witness:
  "toDecimalString 1234567 6 = Inr ''1.234567'' \<and>
   fromDecimal (\<lambda>_. []) (DText ''1.234567'') 6 FLOOR = Inr 1234567"
proof -
  have s: "toDecimalString 1234567 6 = Inr ''1.234567''"
    by (simp add: toDecimalString_def Let_def show_nat.simps digit_chars digit_chars(2) [simplified])
  show ?thesis
    using decimal_roundtrip [of 1234567 6, OF _ s] s by (simp add: amount_ok_def U64_MAX_def)
qed

end
