(* ===== verification/Vocabulary.thy ===== *)
theory Vocabulary imports Prelude begin

text \<open>
  The closed vocabularies of \<open>libs/contracts/src/enums.ts\<close> that the modelled components use, one
  datatype per enumeration with the source's own labels. Labels that several enumerations share
  (\<open>ENTER\<close>, \<open>EXIT\<close>, \<open>REJECTED\<close>) are told apart by the name of their type.
\<close>

section \<open>Runtime axes\<close>

datatype CapitalAuthority = OBSERVE | PAPER | LIVE_APPROVAL | LIVE_AUTO

datatype ActivityState = OFF | STARTING | WATCH | ACTIVE | EVENT_WINDOW | WIND_DOWN

datatype DeploymentProfile = P0 | P1A | P1B | P2 | P3 | P4

datatype ExposureManagementState = MANAGED | OFFLINE_PROTECTED | UNMANAGED

section \<open>Strategy and agents\<close>

datatype SpeedTier = T0_FAST | T1_MOMENTUM | T2_CONTEXTUAL | T3_CATALYST

datatype TradingActionType = ENTER | IGNORE | HOLD | REDUCE | EXIT | ADJUST_PROTECTION | ADD

datatype AdversaryVerdict = CONFIRM | CHALLENGE | REJECT

datatype ActionCycleTerminalState = CLEARED | REJECTED | EXPIRED | UNRESOLVED

datatype UnresolvedReason =
    DISAGREEMENT | ADVERSARY_UNAVAILABLE | TIMEOUT | BUDGET | MALFORMED_OUTPUT | REVISION_EXHAUSTED

datatype ReleaseStatus = DRAFT | PAPER_VALIDATED | ELIGIBLE_LIVE | ARMED | RETIRED

section \<open>Positions and protection\<close>

datatype PositionReviewState = REVIEWED | PROTECTION_ONLY | BUDGET_PAUSED

datatype PositionSafetyState = NORMAL | DEGRADED | EXIT_RECOMMENDED | CRITICAL_EXIT

datatype ProtectionMode = MONITORED_EXIT | JUPITER_TRIGGER

section \<open>Execution\<close>

datatype TradeSide = BUY | SELL

datatype IntentAction =
    ENTER | ADD | REDUCE | EXIT | PROTECTION_INSTALL | PROTECTION_CANCEL_WITHDRAW | EMERGENCY_CLOSE

datatype ExposureEffect = INCREASE | NEUTRAL | REDUCE

datatype OrderAttemptState =
    PREPARED | SIGNED_NOT_SUBMITTED | SUBMITTED | CONFIRMED_PROVISIONAL | FINALIZED
  | REORG_PENDING | NOT_LANDED

datatype ChainCommitment = processed | confirmed | finalized

datatype ExecutionPath = JUPITER_ORDER | PROVIDER_PROTECTIVE | DIRECT_POOL_PRIVATE | DIRECT_POOL_RPC

datatype TransactionClass =
    SWAP_V2 | TRIGGER_DEPOSIT | TRIGGER_CANCEL_WITHDRAW | TRIGGER_AUTH_CHALLENGE
  | DIRECT_POOL_EMERGENCY_EXIT | SWEEP_TO_COLD_RECOVERY

datatype EmergencyCommandType = PAUSE_NEW_ENTRIES | EMERGENCY_CLOSE_ASSET | EMERGENCY_CLOSE_ALL

section \<open>Operations\<close>

datatype AlertSeverity = INFO | NOTICE | HIGH | CRITICAL

end
