(* ===== verification/OrderAttempt.thy ===== *)
theory OrderAttempt imports Vocabulary begin

text \<open>
  The order-attempt state machine (\<open>libs/execution/src/state/order-attempt.ts\<close>): the life of one
  signed transaction from PREPARED to FINALIZED or NOT_LANDED. The invariant \<open>attempt_wf\<close> ties
  every field of the record to the state, the two terminal states are never left, and a
  replacement is permitted only after a proof of death (INV-22, INV-23).
\<close>

section \<open>State and events\<close>

record OrderAttemptRecord =
  state :: OrderAttemptState
  signedTxHash :: "sha256_hex option"
  expectedTxSignature :: "tx_signature option"
  lastValidBlockHeight :: "int option"
  journaled :: bool
  submittedAt :: "instant option"
  submissionPaths :: "ExecutionPath list"
  landedWithoutSubmissionRecord :: bool
  confirmedSlot :: "slot option"
  finalizedSlot :: "slot option"
  reorgDetectedAt :: "instant option"
  notLandedReason :: "string option"

datatype OrderAttemptEvent =
    E_SIGNED instant sha256_hex "tx_signature option" "int option"
  | E_JOURNALED instant
  | E_SUBMITTED instant ExecutionPath
  | E_OBSERVED instant ChainCommitment slot
  | E_MISSING_OR_CONFLICTING instant
  | E_CONCLUSIVELY_DEAD instant bool bool string

datatype OrderAttemptEventType =
    SIGNED | JOURNALED | SUBMITTED_EVENT | OBSERVED | MISSING_OR_CONFLICTING | CONCLUSIVELY_DEAD

datatype OrderAttemptRejection =
    INVALID_FROM_STATE OrderAttemptState OrderAttemptEventType
  | NOT_JOURNALED
  | DEATH_NOT_PROVEN bool bool

definition newOrderAttempt :: OrderAttemptRecord where
  "newOrderAttempt = \<lparr>
     state = PREPARED, signedTxHash = None, expectedTxSignature = None,
     lastValidBlockHeight = None, journaled = False, submittedAt = None, submissionPaths = [],
     landedWithoutSubmissionRecord = False, confirmedSlot = None, finalizedSlot = None,
     reorgDetectedAt = None, notLandedReason = None\<rparr>"

definition LANDABLE :: "OrderAttemptState list" where
  "LANDABLE = [SIGNED_NOT_SUBMITTED, SUBMITTED, CONFIRMED_PROVISIONAL, REORG_PENDING]"

section \<open>Transitions\<close>

fun attemptTransition ::
  "OrderAttemptRecord \<Rightarrow> OrderAttemptEvent \<Rightarrow> OrderAttemptRejection + OrderAttemptRecord" where
  "attemptTransition a (E_SIGNED at hash sig height) =
     (if state a \<noteq> PREPARED then Inl (INVALID_FROM_STATE (state a) SIGNED)
      else Inr (a\<lparr>state := SIGNED_NOT_SUBMITTED, signedTxHash := Some hash,
                  expectedTxSignature := sig, lastValidBlockHeight := height\<rparr>))"
| "attemptTransition a (E_JOURNALED at) =
     (if state a \<noteq> SIGNED_NOT_SUBMITTED then Inl (INVALID_FROM_STATE (state a) JOURNALED)
      else Inr (a\<lparr>journaled := True\<rparr>))"
| "attemptTransition a (E_SUBMITTED at path) =
     (if state a \<noteq> SIGNED_NOT_SUBMITTED \<and> state a \<noteq> SUBMITTED
      then Inl (INVALID_FROM_STATE (state a) SUBMITTED_EVENT)
      else if \<not> journaled a then Inl NOT_JOURNALED
      else Inr (a\<lparr>state := SUBMITTED, submittedAt := orelse (submittedAt a) (Some at),
                  submissionPaths := submissionPaths a @ [path]\<rparr>))"
| "attemptTransition a (E_OBSERVED at commitment slot) =
     (if commitment = processed then Inr a
      else if state a \<notin> set LANDABLE then Inl (INVALID_FROM_STATE (state a) OBSERVED)
      else let landedUnrecorded = (state a = SIGNED_NOT_SUBMITTED);
               base = a\<lparr>landedWithoutSubmissionRecord :=
                         (landedWithoutSubmissionRecord a \<or> landedUnrecorded)\<rparr>
           in if commitment = confirmed
              then Inr (base\<lparr>state := CONFIRMED_PROVISIONAL, confirmedSlot := Some slot\<rparr>)
              else Inr (base\<lparr>state := FINALIZED, finalizedSlot := Some slot,
                             confirmedSlot := orelse (confirmedSlot a) (Some slot)\<rparr>))"
| "attemptTransition a (E_MISSING_OR_CONFLICTING at) =
     (if state a = CONFIRMED_PROVISIONAL
      then Inr (a\<lparr>state := REORG_PENDING, reorgDetectedAt := Some at\<rparr>)
      else if state a \<in> set LANDABLE then Inr a
      else Inl (INVALID_FROM_STATE (state a) MISSING_OR_CONFLICTING))"
| "attemptTransition a (E_CONCLUSIVELY_DEAD at expired none_seen reason) =
     (if state a \<noteq> SIGNED_NOT_SUBMITTED \<and> state a \<noteq> SUBMITTED \<and> state a \<noteq> REORG_PENDING
      then Inl (INVALID_FROM_STATE (state a) CONCLUSIVELY_DEAD)
      else if \<not> (expired \<and> none_seen) then Inl (DEATH_NOT_PROVEN expired none_seen)
      else Inr (a\<lparr>state := NOT_LANDED, notLandedReason := Some reason\<rparr>))"

definition finalAccountingAllowed :: "OrderAttemptRecord \<Rightarrow> bool" where
  "finalAccountingAllowed a \<longleftrightarrow> state a = FINALIZED"

definition countsAsExposure :: "OrderAttemptRecord \<Rightarrow> bool" where
  "countsAsExposure a \<longleftrightarrow>
     state a = CONFIRMED_PROVISIONAL \<or> state a = FINALIZED \<or> state a = REORG_PENDING"

definition canRetry :: "OrderAttemptRecord \<Rightarrow> bool" where
  "canRetry a \<longleftrightarrow> state a = NOT_LANDED"

definition attempt_terminal :: "OrderAttemptRecord \<Rightarrow> bool" where
  "attempt_terminal a \<longleftrightarrow> finalAccountingAllowed a \<or> canRetry a"

text \<open>The record after a list of events, from a new attempt.\<close>

definition attempt_after :: "OrderAttemptEvent list \<Rightarrow> OrderAttemptRecord" where
  "attempt_after es = run_events attemptTransition newOrderAttempt es"

section \<open>The invariant\<close>

definition attempt_wf :: "OrderAttemptRecord \<Rightarrow> bool" where
  "attempt_wf a \<longleftrightarrow>
     (state a = PREPARED \<longleftrightarrow> signedTxHash a = None) \<and>
     (submissionPaths a = [] \<longleftrightarrow> submittedAt a = None) \<and>
     (submittedAt a \<noteq> None \<longrightarrow> journaled a) \<and>
     (journaled a \<longrightarrow> state a \<noteq> PREPARED) \<and>
     (state a = SUBMITTED \<longrightarrow> submittedAt a \<noteq> None) \<and>
     (state a \<in> {PREPARED, SIGNED_NOT_SUBMITTED} \<longrightarrow> submittedAt a = None) \<and>
     (state a \<in> {CONFIRMED_PROVISIONAL, REORG_PENDING, FINALIZED} \<longrightarrow> confirmedSlot a \<noteq> None) \<and>
     (state a = FINALIZED \<longleftrightarrow> finalizedSlot a \<noteq> None) \<and>
     (state a = NOT_LANDED \<longleftrightarrow> notLandedReason a \<noteq> None) \<and>
     (state a = REORG_PENDING \<longrightarrow> reorgDetectedAt a \<noteq> None) \<and>
     (landedWithoutSubmissionRecord a \<longrightarrow> submittedAt a = None \<and>
        state a \<in> {CONFIRMED_PROVISIONAL, REORG_PENDING, FINALIZED, NOT_LANDED}) \<and>
     (countsAsExposure a \<and> \<not> landedWithoutSubmissionRecord a \<longrightarrow> submittedAt a \<noteq> None)"

fun_cases attempt_InrE: "attemptTransition a e = Inr b"

lemma set_LANDABLE [simp]:
  "set LANDABLE = {SIGNED_NOT_SUBMITTED, SUBMITTED, CONFIRMED_PROVISIONAL, REORG_PENDING}"
  by (simp add: LANDABLE_def)

lemma orelse_None [simp]: "orelse a (Some b) \<noteq> None"
  by (simp add: orelse_def split: option.split)

lemma attempt_step_wf:
  assumes wf: "attempt_wf a" and step: "attemptTransition a e = Inr b"
  shows "attempt_wf b"
proof (cases e)
  case (E_OBSERVED at c k)
  define l where "l = (landedWithoutSubmissionRecord a \<or> state a = SIGNED_NOT_SUBMITTED)"
  let ?base = "a\<lparr>landedWithoutSubmissionRecord := l\<rparr>"
  have l: "state a \<in> set LANDABLE \<Longrightarrow> \<not> l \<Longrightarrow> submittedAt a \<noteq> None" "l \<Longrightarrow> submittedAt a = None"
    "submissionPaths a = [] \<longleftrightarrow> submittedAt a = None" "submittedAt a \<noteq> None \<Longrightarrow> journaled a"
    using wf by (auto simp: attempt_wf_def countsAsExposure_def l_def)
  have s: "state a \<in> set LANDABLE \<Longrightarrow> signedTxHash a \<noteq> None \<and> finalizedSlot a = None \<and> notLandedReason a = None"
    using wf by (cases "state a"; simp add: attempt_wf_def; metis option.exhaust)
  from step E_OBSERVED consider "b = a"
    | "state a \<in> set LANDABLE" "b = ?base\<lparr>state := CONFIRMED_PROVISIONAL, confirmedSlot := Some k\<rparr>"
    | "state a \<in> set LANDABLE" "b = ?base\<lparr>state := FINALIZED, finalizedSlot := Some k,
          confirmedSlot := orelse (confirmedSlot a) (Some k)\<rparr>"
    by (cases "c = processed"; cases "c = confirmed"; cases "state a \<in> set LANDABLE")
      (simp_all only: attemptTransition.simps Let_def l_def, simp_all)
  then show ?thesis
  proof cases
    case 2
    then show ?thesis using l s by (simp add: attempt_wf_def countsAsExposure_def)
  next
    case 3
    then show ?thesis using l s by (simp add: attempt_wf_def countsAsExposure_def)
  qed (use wf in simp)
qed (use step wf in \<open>cases "state a"; auto simp: attempt_wf_def countsAsExposure_def split: if_splits\<close>)+

lemma attempt_terminal_stays: "attempt_terminal a \<Longrightarrow> attemptTransition a e = Inr b \<Longrightarrow> b = a"
  by (cases e) (auto simp: attempt_terminal_def finalAccountingAllowed_def canRetry_def split: if_splits)

interpretation oa: event_machine attemptTransition attempt_wf
  by unfold_locales (rule attempt_step_wf)

interpretation oaf: final_machine attemptTransition attempt_terminal
  by unfold_locales (rule attempt_terminal_stays)

text \<open>How far an attempt has come: REORG_PENDING ranks with the confirmation it may return to.\<close>

fun attempt_rank :: "OrderAttemptState \<Rightarrow> nat" where
  "attempt_rank PREPARED = 0"
| "attempt_rank SIGNED_NOT_SUBMITTED = 1"
| "attempt_rank SUBMITTED = 2"
| "attempt_rank CONFIRMED_PROVISIONAL = 3"
| "attempt_rank REORG_PENDING = 3"
| "attempt_rank FINALIZED = 4"
| "attempt_rank NOT_LANDED = 4"

interpretation oar: monotone_machine attemptTransition "\<lambda>a. attempt_rank (state a)"
proof
  fix a e b
  assume "attemptTransition a e = Inr b"
  then show "attempt_rank (state a) \<le> attempt_rank (state b)"
    by (cases e; cases "state a") (auto simp: Let_def split: if_splits)
qed

lemma newOrderAttempt_wf: "attempt_wf newOrderAttempt"
  by (simp add: attempt_wf_def newOrderAttempt_def countsAsExposure_def)

section \<open>Properties\<close>

text \<open>
  C33: every record the machine reaches is well formed: a submission is recorded only over a
  durable journal entry and with at least one path, a landing that the process never recorded as
  submitted is flagged, FINALIZED is exactly having a finalized slot and NOT_LANDED exactly
  having a reason, whatever events arrive and in whatever order.
\<close>

theorem attempt_reaches_wf: "attempt_wf (attempt_after es)"
  unfolding attempt_after_def by (rule oa.run_inv) (rule newOrderAttempt_wf)

lemma canRetry_apply:
  assumes "canRetry (apply_event attemptTransition a e)"
  shows "canRetry a \<or> (\<exists>at r. e = E_CONCLUSIVELY_DEAD at True True r \<and>
           state a \<in> {SIGNED_NOT_SUBMITTED, SUBMITTED, REORG_PENDING})"
  using assms
  by (cases e; cases "state a")
    (auto simp: canRetry_def apply_event_def Let_def split: if_splits)

lemma canRetry_run:
  assumes "\<not> canRetry a" and "canRetry (run_events attemptTransition a es)"
  shows "\<exists>pre at r post. es = pre @ E_CONCLUSIVELY_DEAD at True True r # post \<and>
           state (run_events attemptTransition a pre) \<in> {SIGNED_NOT_SUBMITTED, SUBMITTED, REORG_PENDING}"
  using assms
proof (induction es arbitrary: a)
  case (Cons e es)
  show ?case
  proof (cases "canRetry (apply_event attemptTransition a e)")
    case True
    with canRetry_apply [OF True] Cons.prems(1) show ?thesis by (metis append_Nil run_events.simps(1))
  next
    case False
    from Cons.IH [OF False] Cons.prems(2) obtain pre at r post
      where "es = pre @ E_CONCLUSIVELY_DEAD at True True r # post"
        and "state (run_events attemptTransition (apply_event attemptTransition a e) pre)
               \<in> {SIGNED_NOT_SUBMITTED, SUBMITTED, REORG_PENDING}" by auto
    then show ?thesis by (intro exI [of _ "e # pre"]) auto
  qed
qed simp

text \<open>
  C20: a replacement attempt is permitted only after a proof of death, and then the original can
  never execute: when \<open>canRetry\<close> holds, some event proved both an expired block height and an
  empty signature history while the transaction was signed, submitted or in REORG_PENDING, and
  no later event, in any order, makes the attempt count as exposure or as final.
\<close>

theorem retry_never_executes_twice:
  assumes "canRetry (attempt_after es)"
  shows "(\<exists>pre at r post. es = pre @ E_CONCLUSIVELY_DEAD at True True r # post \<and>
            state (attempt_after pre) \<in> {SIGNED_NOT_SUBMITTED, SUBMITTED, REORG_PENDING})
       \<and> (\<forall>later. \<not> finalAccountingAllowed (attempt_after (es @ later))
                 \<and> \<not> countsAsExposure (attempt_after (es @ later)))"
proof
  show "\<exists>pre at r post. es = pre @ E_CONCLUSIVELY_DEAD at True True r # post \<and>
          state (attempt_after pre) \<in> {SIGNED_NOT_SUBMITTED, SUBMITTED, REORG_PENDING}"
    using canRetry_run [of newOrderAttempt es] assms
    unfolding attempt_after_def by (simp add: newOrderAttempt_def canRetry_def)
  have "attempt_after (es @ later) = attempt_after es" for later
    using assms oaf.run_final [of "attempt_after es" later]
    by (simp add: attempt_after_def run_events_append attempt_terminal_def)
  with assms show "\<forall>later. \<not> finalAccountingAllowed (attempt_after (es @ later))
                 \<and> \<not> countsAsExposure (attempt_after (es @ later))"
    by (simp add: canRetry_def finalAccountingAllowed_def countsAsExposure_def)
qed

theorem retry_never_executes_twice_witness:
  "\<not> countsAsExposure (attempt_after [E_SIGNED 1 ''h'' (Some ''s'') (Some 9),
      E_CONCLUSIVELY_DEAD 2 True True ''expired'', E_OBSERVED 3 finalized 12])"
proof -
  have "canRetry (attempt_after [E_SIGNED 1 ''h'' (Some ''s'') (Some 9), E_CONCLUSIVELY_DEAD 2 True True ''expired''])"
    by (simp add: attempt_after_def newOrderAttempt_def apply_event_def canRetry_def)
  from retry_never_executes_twice [OF this] show ?thesis by (metis append_Cons append_Nil)
qed

text \<open>
  Final accounting is exact: it is allowed only after a finalized observation was applied,
  and from then on the record, its slots included, never changes again.
\<close>

theorem final_accounting_stable:
  assumes "finalAccountingAllowed (attempt_after es)"
  shows "attempt_after (es @ later) = attempt_after es \<and> finalizedSlot (attempt_after es) \<noteq> None
       \<and> (\<exists>at k. E_OBSERVED at finalized k \<in> set es \<and> finalizedSlot (attempt_after es) = Some k)"
proof -
  have slot_from: "finalizedSlot (run_events attemptTransition a es) = Some k \<Longrightarrow> finalizedSlot a = Some k
      \<or> (\<exists>at. E_OBSERVED at finalized k \<in> set es)" for a es k
  proof (induction es arbitrary: a)
    case (Cons e es)
    have "finalizedSlot (apply_event attemptTransition a e) = Some k \<Longrightarrow>
        finalizedSlot a = Some k \<or> (\<exists>at. e = E_OBSERVED at finalized k)"
      by (cases e; simp add: apply_event_def Let_def split: if_splits)
        (metis ChainCommitment.exhaust)
    with Cons show ?case by fastforce
  qed simp
  have "finalizedSlot (attempt_after es) \<noteq> None"
    using oa.run_inv [OF newOrderAttempt_wf, of es] assms attempt_after_def [of es] by (simp add: attempt_wf_def finalAccountingAllowed_def)
  moreover have "attempt_after (es @ later) = attempt_after es"
    using assms oaf.run_final [of "attempt_after es" later]
    by (simp add: attempt_after_def run_events_append attempt_terminal_def)
  ultimately show ?thesis
    using slot_from [of newOrderAttempt es] by (auto simp: attempt_after_def newOrderAttempt_def)
qed

theorem final_accounting_stable_witness:
  "attempt_after [E_SIGNED 1 ''h'' (Some ''s'') (Some 9), E_OBSERVED 2 finalized 12, E_MISSING_OR_CONFLICTING 3]
     = attempt_after [E_SIGNED 1 ''h'' (Some ''s'') (Some 9), E_OBSERVED 2 finalized 12]"
proof -
  have "finalAccountingAllowed (attempt_after [E_SIGNED 1 ''h'' (Some ''s'') (Some 9), E_OBSERVED 2 finalized 12])"
    by (simp add: attempt_after_def newOrderAttempt_def apply_event_def finalAccountingAllowed_def LANDABLE_def)
  from final_accounting_stable [OF this, of "[E_MISSING_OR_CONFLICTING 3]"] show ?thesis by simp
qed

end
