(* ===== verification/PositionReview.thy ===== *)
theory PositionReview imports Vocabulary JsNumber begin

text \<open>
  The position review state machine (\<open>libs/execution/src/state/position-review.ts\<close>): how an open
  position answers the terminal state of its latest reassessment cycle and budget events. The
  stop of an unreviewed position only tightens, and only a reviewed position may act at
  discretion (D39, INV-20).
\<close>

record PositionReview =
  reviewState :: PositionReviewState
  reason :: "UnresolvedReason option"
  since :: instant
  lastReviewedCycleId :: "string option"
  unreviewedStop :: "jsnum option"
  consecutiveUnresolved :: int

datatype PositionReviewEvent =
    CYCLE_TERMINATED instant string ActionCycleTerminalState "TradingActionType option" "UnresolvedReason option"
  | BUDGET_EXHAUSTED instant
  | TIGHTEN_UNREVIEWED_STOP instant jsnum

datatype PositionReviewRejection =
    STOP_WOULD_LOOSEN jsnum jsnum
  | INVALID_STOP_LEVEL jsnum
  | MISSING_UNRESOLVED_REASON
  | NOT_A_POSITION_REVIEW_ACTION "TradingActionType option"

definition POSITION_REVIEW_ACTIONS :: "TradingActionType list" where
  "POSITION_REVIEW_ACTIONS = [HOLD, TradingActionType.REDUCE, TradingActionType.EXIT, ADJUST_PROTECTION]"

definition initialPositionReview :: "instant \<Rightarrow> string option \<Rightarrow> PositionReview" where
  "initialPositionReview openedAt openingCycleId = \<lparr>reviewState = REVIEWED, reason = None,
     since = openedAt, lastReviewedCycleId = openingCycleId, unreviewedStop = None,
     consecutiveUnresolved = 0\<rparr>"

definition cycle_reason :: "ActionCycleTerminalState \<Rightarrow> UnresolvedReason option \<Rightarrow> UnresolvedReason" where
  "cycle_reason terminal unresolvedReason =
     (if terminal = UNRESOLVED then the unresolvedReason
      else if terminal = EXPIRED then TIMEOUT else DISAGREEMENT)"

fun reviewTransition ::
  "PositionReview \<Rightarrow> PositionReviewEvent \<Rightarrow> PositionReviewRejection + PositionReview" where
  "reviewTransition review (BUDGET_EXHAUSTED t) =
     Inr (review\<lparr>reviewState := BUDGET_PAUSED, reason := Some BUDGET, since := t,
                 consecutiveUnresolved := consecutiveUnresolved review + 1\<rparr>)"
| "reviewTransition review (TIGHTEN_UNREVIEWED_STOP t level) =
     (if \<not> is_finite_num level \<or> nlt level (Fin 0) then Inl (INVALID_STOP_LEVEL level)
      else case unreviewedStop review of
          Some current \<Rightarrow> if nlt level current then Inl (STOP_WOULD_LOOSEN current level)
                          else Inr (review\<lparr>unreviewedStop := Some level\<rparr>)
        | None \<Rightarrow> Inr (review\<lparr>unreviewedStop := Some level\<rparr>))"
| "reviewTransition review (CYCLE_TERMINATED t cycleId terminal action unresolvedReason) =
     (if terminal = CLEARED then
        (case action of
           None \<Rightarrow> Inl (NOT_A_POSITION_REVIEW_ACTION action)
         | Some act \<Rightarrow>
             if act \<notin> set POSITION_REVIEW_ACTIONS then Inl (NOT_A_POSITION_REVIEW_ACTION action)
             else Inr (review\<lparr>reviewState := REVIEWED, reason := None, since := t,
                              lastReviewedCycleId := Some cycleId, consecutiveUnresolved := 0\<rparr>))
      else if terminal = UNRESOLVED \<and> unresolvedReason = None then Inl MISSING_UNRESOLVED_REASON
      else let reason' = cycle_reason terminal unresolvedReason;
               reviewState' = (if reason' = BUDGET then BUDGET_PAUSED else PROTECTION_ONLY)
           in Inr (review\<lparr>reviewState := reviewState', reason := Some reason', since := t,
                          consecutiveUnresolved := consecutiveUnresolved review + 1\<rparr>))"

definition discretionaryActionsAllowed :: "PositionReview \<Rightarrow> bool" where
  "discretionaryActionsAllowed review \<longleftrightarrow> reviewState review = REVIEWED"

section \<open>The invariant\<close>

definition review_wf :: "PositionReview \<Rightarrow> bool" where
  "review_wf p \<longleftrightarrow>
     (reviewState p = REVIEWED \<longleftrightarrow> reason p = None) \<and>
     (reviewState p = BUDGET_PAUSED \<longleftrightarrow> reason p = Some BUDGET) \<and>
     (reviewState p = REVIEWED \<longleftrightarrow> consecutiveUnresolved p = 0) \<and>
     0 \<le> consecutiveUnresolved p \<and>
     (\<forall>s. unreviewedStop p = Some s \<longrightarrow> is_finite_num s \<and> \<not> nlt s (Fin 0))"

text \<open>The stop is at \<open>level\<close> or tighter.\<close>

definition stop_at_least :: "rat \<Rightarrow> PositionReview \<Rightarrow> bool" where
  "stop_at_least level p \<longleftrightarrow> (\<exists>s. unreviewedStop p = Some (Fin s) \<and> level \<le> s)"

interpretation pr: event_machine reviewTransition review_wf
proof
  fix p e q assume "review_wf p" and "reviewTransition p e = Inr q"
  then show "review_wf q"
    by (cases e) (auto simp: review_wf_def Let_def split: if_splits option.splits)
qed

interpretation prs: event_machine reviewTransition "stop_at_least level" for level
proof
  fix p e q assume "stop_at_least level p" and "reviewTransition p e = Inr q"
  then show "stop_at_least level q"
    by (cases e; (simp add: stop_at_least_def Let_def split: if_splits option.splits)?)
      (auto elim!: is_finite_num.elims)
qed

lemma review_apply_reviewed:
  assumes "reviewTransition p e = Inr q"
  shows "reviewState q = REVIEWED \<longleftrightarrow>
    (case e of BUDGET_EXHAUSTED _ \<Rightarrow> False | TIGHTEN_UNREVIEWED_STOP _ _ \<Rightarrow> reviewState p = REVIEWED
     | CYCLE_TERMINATED _ _ t a _ \<Rightarrow> t = CLEARED)"
  using assms by (cases e) (auto simp: Let_def split: if_splits option.splits)

section \<open>Properties\<close>

text \<open>
  C34: whatever cycles end and budgets run out after a stop level was accepted, the unreviewed
  stop stays at that level or tighter, and the record stays well formed: a finite non-negative
  stop, and a reason exactly when the position is not REVIEWED.
\<close>

theorem stop_only_tightens:
  assumes wf: "review_wf p" and acc: "reviewTransition p (TIGHTEN_UNREVIEWED_STOP t level) = Inr q"
  shows "review_wf (run_events reviewTransition q es) \<and>
         (\<exists>l s. level = Fin l \<and> unreviewedStop (run_events reviewTransition q es) = Some (Fin s) \<and> l \<le> s)"
proof
  show "review_wf (run_events reviewTransition q es)"
    by (rule pr.run_inv) (rule pr.step_inv [OF wf acc])
  obtain l where l: "level = Fin l" using acc by (cases level) simp_all
  have "stop_at_least l q"
    using acc by (auto simp: stop_at_least_def l split: if_splits option.splits)
  then have "stop_at_least l (run_events reviewTransition q es)" by (rule prs.run_inv)
  with l show "\<exists>l s. level = Fin l \<and> unreviewedStop (run_events reviewTransition q es) = Some (Fin s) \<and> l \<le> s"
    by (auto simp: stop_at_least_def)
qed

theorem stop_only_tightens_witness:
  "\<exists>l s. Fin 5 = Fin l \<and> unreviewedStop (run_events reviewTransition
      ((initialPositionReview 0 None)\<lparr>unreviewedStop := Some (Fin 5)\<rparr>)
      [BUDGET_EXHAUSTED 1, TIGHTEN_UNREVIEWED_STOP 2 (Fin 4), TIGHTEN_UNREVIEWED_STOP 3 (Fin 6)]) = Some (Fin s) \<and> l \<le> s"
  using stop_only_tightens [of "initialPositionReview 0 None" 0 "Fin 5"
      "(initialPositionReview 0 None)\<lparr>unreviewedStop := Some (Fin 5)\<rparr>"
      "[BUDGET_EXHAUSTED 1, TIGHTEN_UNREVIEWED_STOP 2 (Fin 4), TIGHTEN_UNREVIEWED_STOP 3 (Fin 6)]"]
  by (simp add: review_wf_def initialPositionReview_def)

end
