(* ===== verification/PositionLot.thy ===== *)
theory PositionLot imports Vocabulary Money begin

text \<open>
  Strategy-attributed lots (\<open>libs/execution/src/state/position-lot.ts\<close>): an exit names the lots
  it reduces and by how much. The specification is exact: it succeeds precisely when every named
  lot exists and covers what is asked of it, and then takes that from it and from no other.
\<close>

record LotBalance =
  lotId :: uuid
  sleeveId :: uuid
  quantity :: amount

record LotAllocation =
  alloc_lotId :: uuid
  alloc_quantity :: amount

datatype AllocateError =
    UNKNOWN_LOT uuid
  | INSUFFICIENT_LOT_QUANTITY uuid
  | ZERO_QUANTITY uuid

definition aggregateQuantity :: "LotBalance list \<Rightarrow> amount" where
  "aggregateQuantity lots = foldl (\<lambda>acc l. acc + quantity l) 0 lots"

definition lots_by_id :: "LotBalance list \<Rightarrow> (uuid \<times> LotBalance) list" where
  "lots_by_id lots = foldl (\<lambda>m l. AList.update (lotId l) l m) [] lots"

definition reduce_one ::
  "(uuid \<times> LotBalance) list \<Rightarrow> LotAllocation \<Rightarrow> AllocateError + (uuid \<times> LotBalance) list" where
  "reduce_one m r = (let q = alloc_quantity r in
     if q \<le> 0 then Inl (ZERO_QUANTITY (alloc_lotId r))
     else case map_of m (alloc_lotId r) of
         None \<Rightarrow> Inl (UNKNOWN_LOT (alloc_lotId r))
       | Some lot \<Rightarrow>
           let remaining = quantity lot - q in
           if remaining < 0 then Inl (INSUFFICIENT_LOT_QUANTITY (alloc_lotId r))
           else Inr (AList.update (alloc_lotId r) (lot\<lparr>quantity := remaining\<rparr>) m))"

definition allocateExit ::
  "LotBalance list \<Rightarrow> LotAllocation list \<Rightarrow> AllocateError + (LotBalance list \<times> LotAllocation list)" where
  "allocateExit lots requested =
     ebind (efold reduce_one (lots_by_id lots) requested)
       (\<lambda>m. Inr (map (\<lambda>l. the (map_of m (lotId l))) lots, requested))"

definition applyProviderFill ::
  "LotBalance list \<Rightarrow> uuid \<Rightarrow> amount \<Rightarrow> AllocateError + (LotBalance list \<times> LotAllocation list)" where
  "applyProviderFill lots i filledQuantity =
     allocateExit lots [\<lparr>alloc_lotId = i, alloc_quantity = filledQuantity\<rparr>]"

section \<open>What is asked of a lot\<close>

definition asked :: "uuid \<Rightarrow> LotAllocation list \<Rightarrow> int" where
  "asked k rs = (\<Sum>r\<leftarrow>rs. if alloc_lotId r = k then alloc_quantity r else 0)"

lemma asked_simps [simp]:
  "asked k [] = 0"
  "asked k (r # rs) = (if alloc_lotId r = k then alloc_quantity r else 0) + asked k rs"
  by (simp_all add: asked_def)

definition covered :: "(uuid \<rightharpoonup> LotBalance) \<Rightarrow> LotAllocation list \<Rightarrow> bool" where
  "covered m rs \<longleftrightarrow> (\<forall>r \<in> set rs. 0 < alloc_quantity r \<and>
     (\<exists>l. m (alloc_lotId r) = Some l \<and> asked (alloc_lotId r) rs \<le> quantity l))"

lemma asked_unnamed: "k \<notin> alloc_lotId ` set rs \<Longrightarrow> asked k rs = 0"
  by (induction rs) auto

lemma asked_nonneg: "\<forall>r \<in> set rs. 0 < alloc_quantity r \<Longrightarrow> 0 \<le> asked k rs"
  by (induction rs) auto

lemma reduce_one_Inr: "reduce_one m r = Inr m' \<longleftrightarrow> 0 < alloc_quantity r \<and>
    (\<exists>l. map_of m (alloc_lotId r) = Some l \<and> alloc_quantity r \<le> quantity l \<and>
       m' = AList.update (alloc_lotId r) (l\<lparr>quantity := quantity l - alloc_quantity r\<rparr>) m)"
  by (auto simp: reduce_one_def Let_def split: option.splits if_splits)

lemma reduce_loop_result:
  "efold reduce_one m rs = Inr m' \<Longrightarrow>
     map_of m' = (\<lambda>k. map_option (\<lambda>l. l\<lparr>quantity := quantity l - asked k rs\<rparr>) (map_of m k))"
proof (induction rs arbitrary: m)
  case Nil
  then show ?case by (simp add: option.map_ident fun_eq_iff)
next
  case (Cons r rs)
  then obtain l where l: "map_of m (alloc_lotId r) = Some l"
    and rest: "efold reduce_one (AList.update (alloc_lotId r) (l\<lparr>quantity := quantity l - alloc_quantity r\<rparr>) m) rs = Inr m'"
    by (auto simp: reduce_one_Inr)
  show ?case using Cons.IH [OF rest] l by (auto simp: fun_eq_iff algebra_simps)
qed

lemma reduce_loop_covered:
  "(\<exists>m'. efold reduce_one m rs = Inr m') \<longleftrightarrow> covered (map_of m) rs"
proof (induction rs arbitrary: m)
  case (Cons r rs)
  let ?k = "alloc_lotId r"
  show ?case
  proof (cases "0 < alloc_quantity r \<and> (\<exists>l. map_of m ?k = Some l \<and> alloc_quantity r \<le> quantity l)")
    case True
    then obtain l where q: "0 < alloc_quantity r" and l: "map_of m ?k = Some l" and le: "alloc_quantity r \<le> quantity l"
      by blast
    let ?m = "AList.update ?k (l\<lparr>quantity := quantity l - alloc_quantity r\<rparr>) m"
    have "reduce_one m r = Inr ?m" using q l le by (simp add: reduce_one_Inr)
    then have "(\<exists>m'. efold reduce_one m (r # rs) = Inr m') \<longleftrightarrow> covered (map_of ?m) rs"
      by (simp add: Cons.IH fun_upd_def)
    also have "\<dots> \<longleftrightarrow> covered (map_of m) (r # rs)"
      using q l le asked_unnamed [of ?k rs] by (fastforce simp: covered_def)
    finally show ?thesis .
  next
    case False
    moreover have "covered (map_of m) (r # rs) \<Longrightarrow> 0 \<le> asked ?k rs"
      by (rule asked_nonneg) (simp add: covered_def)
    ultimately show ?thesis by (fastforce simp: covered_def reduce_one_Inr)
  qed
qed (simp add: covered_def)

lemma lots_by_id_map: "map_of (lots_by_id lots) k = find_last (\<lambda>l. lotId l = k) lots"
proof (induction lots rule: rev_induct)
  case (snoc l lots)
  then show ?case by (auto simp: lots_by_id_def)
qed (simp add: lots_by_id_def)

lemma lots_by_id_distinct:
  assumes "distinct (map lotId lots)" and "l \<in> set lots"
  shows "map_of (lots_by_id lots) (lotId l) = Some l"
proof -
  have "find (\<lambda>x. lotId x = lotId l) (rev lots) \<noteq> None" using assms(2) by (auto simp: find_None_iff)
  then obtain x where x: "find (\<lambda>x. lotId x = lotId l) (rev lots) = Some x" by blast
  then have "x \<in> set lots" "lotId x = lotId l" using find_Some_in by fastforce+
  with assms have "x = l" by (simp add: distinct_map inj_on_def)
  with x show ?thesis by (simp add: lots_by_id_map)
qed

lemma sum_asked:
  assumes "distinct ks" and "\<forall>r \<in> set rs. alloc_lotId r \<in> set ks"
  shows "(\<Sum>k\<leftarrow>ks. asked k rs) = (\<Sum>r\<leftarrow>rs. alloc_quantity r)"
  using assms(2)
proof (induction rs)
  case (Cons r rs)
  have "(\<Sum>k\<leftarrow>ks. if alloc_lotId r = k then alloc_quantity r else 0) = alloc_quantity r"
    using Cons.prems assms(1) by (simp add: sum_list_distinct_conv_sum_set)
  with Cons show ?case by (simp add: sum_list_addf)
qed simp

section \<open>Properties\<close>

text \<open>
  C36: exits isolate lots. Over lots with distinct ids an exit succeeds exactly when every
  requested quantity is positive, its lot exists and everything asked of that lot is covered;
  then every lot keeps its id and sleeve and loses exactly what was asked of it, so an unnamed lot
  is untouched, and the aggregate falls by exactly the sum requested.
\<close>

theorem allocateExit_exact:
  assumes d: "distinct (map lotId lots)"
  shows "((\<exists>res. allocateExit lots rs = Inr res) \<longleftrightarrow>
            (\<forall>r \<in> set rs. 0 < alloc_quantity r \<and>
               (\<exists>l \<in> set lots. lotId l = alloc_lotId r \<and> asked (lotId l) rs \<le> quantity l)))
       \<and> (\<forall>lots' al. allocateExit lots rs = Inr (lots', al) \<longrightarrow>
            lots' = map (\<lambda>l. l\<lparr>quantity := quantity l - asked (lotId l) rs\<rparr>) lots \<and> al = rs \<and>
            aggregateQuantity lots' = aggregateQuantity lots - (\<Sum>r\<leftarrow>rs. alloc_quantity r))"
proof (intro conjI allI impI)
  have mo: "map_of (lots_by_id lots) k = Some l \<longleftrightarrow> l \<in> set lots \<and> lotId l = k" for k l
    using lots_by_id_distinct [OF d] find_Some_in by (fastforce simp: lots_by_id_map)
  have "(\<exists>res. allocateExit lots rs = Inr res) \<longleftrightarrow> (\<exists>m'. efold reduce_one (lots_by_id lots) rs = Inr m')"
    by (auto simp: allocateExit_def)
  then show "(\<exists>res. allocateExit lots rs = Inr res) \<longleftrightarrow>
            (\<forall>r \<in> set rs. 0 < alloc_quantity r \<and>
               (\<exists>l \<in> set lots. lotId l = alloc_lotId r \<and> asked (lotId l) rs \<le> quantity l))"
    unfolding reduce_loop_covered covered_def mo by (simp add: Bex_def conj_assoc cong: conj_cong)
  fix lots' al assume ok: "allocateExit lots rs = Inr (lots', al)"
  then obtain m' where m': "efold reduce_one (lots_by_id lots) rs = Inr m'"
    and l': "lots' = map (\<lambda>l. the (map_of m' (lotId l))) lots" and al: "al = rs"
    by (auto simp: allocateExit_def)
  show lots': "lots' = map (\<lambda>l. l\<lparr>quantity := quantity l - asked (lotId l) rs\<rparr>) lots"
    unfolding l' reduce_loop_result [OF m'] by (simp add: lots_by_id_distinct [OF d])
  show "al = rs" by (rule al)
  have "\<forall>r \<in> set rs. alloc_lotId r \<in> set (map lotId lots)"
  proof
    fix r assume "r \<in> set rs"
    moreover have "covered (map_of (lots_by_id lots)) rs" using m' reduce_loop_covered by blast
    ultimately obtain l where "map_of (lots_by_id lots) (alloc_lotId r) = Some l" by (auto simp: covered_def)
    then show "alloc_lotId r \<in> set (map lotId lots)" unfolding mo by force
  qed
  from sum_asked [OF d this]
  show "aggregateQuantity lots' = aggregateQuantity lots - (\<Sum>r\<leftarrow>rs. alloc_quantity r)"
    by (simp add: lots' aggregateQuantity_def comp_def sum_list_subtractf)
qed

theorem allocateExit_exact_witness:
  "\<exists>res. allocateExit [\<lparr>lotId = ''a'', sleeveId = ''s'', quantity = 5\<rparr>, \<lparr>lotId = ''b'', sleeveId = ''t'', quantity = 7\<rparr>]
      [\<lparr>alloc_lotId = ''a'', alloc_quantity = 2\<rparr>, \<lparr>alloc_lotId = ''a'', alloc_quantity = 3\<rparr>] = Inr res"
  using allocateExit_exact
    [of "[\<lparr>lotId = ''a'', sleeveId = ''s'', quantity = 5\<rparr>, \<lparr>lotId = ''b'', sleeveId = ''t'', quantity = 7\<rparr>]"
        "[\<lparr>alloc_lotId = ''a'', alloc_quantity = 2\<rparr>, \<lparr>alloc_lotId = ''a'', alloc_quantity = 3\<rparr>]"]
  by simp

end
