(* ===== verification/ChainHealth.thy ===== *)
theory ChainHealth imports Vocabulary begin

text \<open>
  The chain-health verdict (\<open>libs/execution/src/chain/health.ts\<close>) over the views of one sample
  (\<open>libs/contracts/src/policy/chain-health.ts\<close>): entries are blocked when no view answers, the
  views disagree, the head stalls or finality lags. A reason keeps the data the code renders into
  its text.
\<close>

datatype ChainHealthState = HEALTHY | LAGGING | STALLED | DIVERGENT | UNAVAILABLE

datatype FreshnessEffectOnEntries = NONE | BLOCK

record ChainHealthPolicy =
  version :: version_id
  maxSlotStallMs :: int
  lagWarnSlots :: int
  lagBlockSlots :: int
  maxViewDivergenceSlots :: int
  signatureGraceSlots :: int

definition DEFAULT_CHAIN_HEALTH_POLICY :: ChainHealthPolicy where
  "DEFAULT_CHAIN_HEALTH_POLICY = \<lparr>version = ''chain-health-v1'', maxSlotStallMs = 30000,
     lagWarnSlots = 96, lagBlockSlots = 400, maxViewDivergenceSlots = 150, signatureGraceSlots = 64\<rparr>"

record ChainView =
  label :: string
  ok :: bool
  slotConfirmed :: "slot option"
  slotFinalized :: "slot option"
  viewBlockHeight :: "int option"
  latencyMs :: "int option"
  error :: "string option"

record PreviousHead =
  prevHeadSlot :: slot
  prevObservedAt :: instant
  lastAdvanceAt :: instant

datatype health_reason =
    NO_VIEW_ANSWERED
  | VIEW_ERROR string string
  | VIEW_UNAVAILABLE string "string option"
  | VIEWS_DISAGREE int int
  | NO_SLOT_ADVANCE int int
  | FINALITY_LAG int int

record ChainHealthSnapshot =
  snap_id :: uuid
  observedAt :: instant
  policyVersion :: version_id
  views :: "ChainView list"
  health :: ChainHealthState
  headSlot :: "slot option"
  slotAdvanced :: "bool option"
  confirmedFinalizedLagSlots :: "int option"
  viewDivergenceSlots :: "int option"
  effectOnEntries :: FreshnessEffectOnEntries
  reasons :: "health_reason list"

text \<open>An absent and an empty error text are both falsy.\<close>

definition truthy_text :: "string option \<Rightarrow> string option" where
  "truthy_text e = (case e of Some t \<Rightarrow> if t = [] then None else Some t | None \<Rightarrow> None)"

definition healthy_slots :: "ChainView list \<Rightarrow> slot list" where
  "healthy_slots vs = map (\<lambda>v. the (slotConfirmed v)) (filter (\<lambda>v. ok v \<and> slotConfirmed v \<noteq> None) vs)"

definition finalized_slots :: "ChainView list \<Rightarrow> slot list" where
  "finalized_slots vs = map the (filter (\<lambda>s. s \<noteq> None)
     (map slotFinalized (filter (\<lambda>v. ok v \<and> slotConfirmed v \<noteq> None) vs)))"

definition head_divergence :: "slot list \<Rightarrow> int option" where
  "head_divergence confirmedSlots =
     (if length confirmedSlots > 1 then Some (math_max confirmedSlots - math_min confirmedSlots) else None)"

definition finality_lag :: "slot \<Rightarrow> slot list \<Rightarrow> int option" where
  "finality_lag hd_slot fin = (if fin \<noteq> [] then Some (hd_slot - math_max fin) else None)"

text \<open>
  The chain of updates of \<open>state\<close> and \<open>reasons\<close>, in the order the code makes them: divergence,
  then a stalled head, then the finality lag.
\<close>

definition verdict_of ::
  "ChainHealthPolicy \<Rightarrow> int option \<Rightarrow> bool option \<Rightarrow> int \<Rightarrow> int option \<Rightarrow>
     ChainHealthState \<times> health_reason list" where
  "verdict_of policy divergence advanced stalledMs lag = (let
     s0 = (HEALTHY, []);
     s1 = (case divergence of
             Some d \<Rightarrow> if d > maxViewDivergenceSlots policy
                       then (DIVERGENT, [VIEWS_DISAGREE d (maxViewDivergenceSlots policy)]) else s0
           | None \<Rightarrow> s0);
     s2 = (if advanced = Some False \<and> stalledMs \<ge> maxSlotStallMs policy
           then (STALLED, snd s1 @ [NO_SLOT_ADVANCE stalledMs (maxSlotStallMs policy)]) else s1)
   in case lag of
        Some l \<Rightarrow> if l > lagBlockSlots policy
                  then (STALLED, snd s2 @ [FINALITY_LAG l (lagBlockSlots policy)])
                  else if l > lagWarnSlots policy \<and> fst s2 = HEALTHY
                  then (LAGGING, snd s2 @ [FINALITY_LAG l (lagWarnSlots policy)])
                  else s2
      | None \<Rightarrow> s2)"

definition evaluateChainHealth ::
  "uuid \<Rightarrow> ChainView list \<Rightarrow> PreviousHead option \<Rightarrow> ChainHealthPolicy \<Rightarrow> instant \<Rightarrow>
     ChainHealthSnapshot \<times> instant option" where
  "evaluateChainHealth i vs previous policy now = (let
     confirmedSlots = healthy_slots vs;
     snapshot = (\<lambda>st head adv lag dvg eff rs. \<lparr>snap_id = i, observedAt = now,
       policyVersion = version policy, views = vs, health = st, headSlot = head, slotAdvanced = adv,
       confirmedFinalizedLagSlots = lag, viewDivergenceSlots = dvg, effectOnEntries = eff, reasons = rs\<rparr>)
   in if confirmedSlots = [] then
        (snapshot UNAVAILABLE None None None None BLOCK
           (NO_VIEW_ANSWERED # concat (map (\<lambda>v. case truthy_text (error v) of
               Some e \<Rightarrow> [VIEW_ERROR (label v) e] | None \<Rightarrow> []) vs)),
         map_option lastAdvanceAt previous)
      else let
        hd_slot = math_max confirmedSlots;
        divergence = head_divergence confirmedSlots;
        lag = finality_lag hd_slot (finalized_slots vs);
        advanced = map_option (\<lambda>p. hd_slot > prevHeadSlot p) previous;
        last_at = (case previous of None \<Rightarrow> now
                   | Some p \<Rightarrow> if hd_slot > prevHeadSlot p then now else lastAdvanceAt p);
        stalledMs = now - last_at;
        down = map (\<lambda>v. VIEW_UNAVAILABLE (label v) (truthy_text (error v))) (filter (\<lambda>v. \<not> ok v) vs);
        v = verdict_of policy divergence advanced stalledMs lag;
        eff = (if fst v = HEALTHY \<or> fst v = LAGGING then NONE else BLOCK)
      in (snapshot (fst v) (Some hd_slot) advanced lag divergence eff (down @ snd v), Some last_at))"

definition chainAcceptsSubmissions :: "ChainHealthState \<Rightarrow> bool" where
  "chainAcceptsSubmissions s \<longleftrightarrow> s = HEALTHY \<or> s = LAGGING"

section \<open>The verdict\<close>

lemma verdict_ok: "fst (verdict_of policy dvg adv ms lag) \<in> {HEALTHY, LAGGING} \<longleftrightarrow>
    (\<forall>d. dvg = Some d \<longrightarrow> d \<le> maxViewDivergenceSlots policy) \<and>
    (adv = Some False \<longrightarrow> ms < maxSlotStallMs policy) \<and>
    (\<forall>l. lag = Some l \<longrightarrow> l \<le> lagBlockSlots policy)"
  by (auto simp: verdict_of_def Let_def not_less not_le split: option.splits if_splits)

text \<open>
  Entries are open exactly on a chain that is readable, agreed, moving and finalizing: the
  snapshot leaves entries unblocked if and only if some view answered a confirmed slot, the
  answering views lie within the permitted divergence, the head advanced past the previous one
  or last did so less than the stall limit ago, and finality trails by at most the blocking lag;
  the submission gate agrees with the snapshot.
\<close>

theorem entries_open_exactly:
  "(effectOnEntries (fst (evaluateChainHealth i vs previous policy now)) = NONE \<longleftrightarrow>
            healthy_slots vs \<noteq> [] \<and>
            (length (healthy_slots vs) > 1 \<longrightarrow>
               Max (set (healthy_slots vs)) - Min (set (healthy_slots vs)) \<le> maxViewDivergenceSlots policy) \<and>
            (\<forall>p. previous = Some p \<and> Max (set (healthy_slots vs)) \<le> prevHeadSlot p \<longrightarrow>
               now - lastAdvanceAt p < maxSlotStallMs policy) \<and>
            (finalized_slots vs \<noteq> [] \<longrightarrow>
               Max (set (healthy_slots vs)) - Max (set (finalized_slots vs)) \<le> lagBlockSlots policy))
       \<and> (chainAcceptsSubmissions (health (fst (evaluateChainHealth i vs previous policy now))) \<longleftrightarrow> effectOnEntries (fst (evaluateChainHealth i vs previous policy now)) = NONE)"
proof (cases "healthy_slots vs = []")
  case True
  then show ?thesis by (simp add: evaluateChainHealth_def Let_def chainAcceptsSubmissions_def)
next
  case False
  define H where "H = Max (set (healthy_slots vs))"
  define v where "v = verdict_of policy (head_divergence (healthy_slots vs))
     (map_option (\<lambda>p. H > prevHeadSlot p) previous)
     (now - (case previous of None \<Rightarrow> now | Some p \<Rightarrow> if H > prevHeadSlot p then now else lastAdvanceAt p))
     (finality_lag H (finalized_slots vs))"
  let ?r = "evaluateChainHealth i vs previous policy now"
  have r: "health (fst ?r) = fst v" "effectOnEntries (fst ?r) = (if fst v = HEALTHY \<or> fst v = LAGGING then NONE else BLOCK)"
    using False by (cases previous; simp add: evaluateChainHealth_def Let_def v_def H_def)+
  have "fst v \<in> {HEALTHY, LAGGING} \<longleftrightarrow>
     (length (healthy_slots vs) > 1 \<longrightarrow> H - Min (set (healthy_slots vs)) \<le> maxViewDivergenceSlots policy) \<and>
     (\<forall>p. previous = Some p \<and> H \<le> prevHeadSlot p \<longrightarrow> now - lastAdvanceAt p < maxSlotStallMs policy) \<and>
     (finalized_slots vs \<noteq> [] \<longrightarrow> H - Max (set (finalized_slots vs)) \<le> lagBlockSlots policy)"
    unfolding v_def verdict_ok using False
    by (cases previous) (auto simp: head_divergence_def finality_lag_def H_def [symmetric])
  then show ?thesis using False r by (auto simp: chainAcceptsSubmissions_def H_def [symmetric])
qed

theorem entries_open_exactly_witness:
  "effectOnEntries (fst (evaluateChainHealth ''i''
     [\<lparr>label = ''a'', ok = True, slotConfirmed = Some 100, slotFinalized = Some 70, viewBlockHeight = None,
       latencyMs = None, error = None\<rparr>] None DEFAULT_CHAIN_HEALTH_POLICY 5)) = NONE"
  using entries_open_exactly [of "''i''"
     "[\<lparr>label = ''a'', ok = True, slotConfirmed = Some 100, slotFinalized = Some 70, viewBlockHeight = None,
       latencyMs = None, error = None\<rparr>]" None DEFAULT_CHAIN_HEALTH_POLICY 5]
  by (simp add: healthy_slots_def finalized_slots_def DEFAULT_CHAIN_HEALTH_POLICY_def)

end
