(* ===== verification/Canonical.thy ===== *)
theory Canonical imports JsNumber Money "HOL-Library.List_Lexorder" "HOL-Library.Char_ord" begin

text \<open>
  Canonical JSON for hashing and signing (\<open>libs/contracts/src/signing/canonical.ts\<close>): a value of
  the language, its serialization with the keys of every object sorted, and the errors for what
  JSON cannot hold. Strings are over the one-byte characters. The text of a number
  (\<open>Number.prototype.toString\<close>) and SHA-256 are parameters; the lemmas show that the canonical
  text ignores the order of members and determines the value.
\<close>

section \<open>Values\<close>

datatype json =
    JNull
  | JBool bool
  | JNum jsnum
  | JBig int
  | JStr string
  | JArr "json list"
  | JObj "(string \<times> json) list"
  | JUndef
  | JOther string \<comment> \<open>functions, symbols, dates, maps, sets and byte views, by their name\<close>

datatype type_error =
    NON_FINITE string
  | UNDEFINED string
  | NOT_REPRESENTABLE string string

section \<open>Serialization\<close>

definition hex_digit :: "nat \<Rightarrow> char" where
  "hex_digit n = (if n < 10 then char_of (48 + n) else char_of (87 + n))"

text \<open>\<open>JSON.stringify\<close> of one character.\<close>

definition esc :: "char \<Rightarrow> string" where
  "esc c = (let k = of_char c :: nat in
     if k = 34 then [CHR 0x5C, CHR 0x22]
     else if k = 92 then [CHR 0x5C, CHR 0x5C]
     else if k = 8 then [CHR 0x5C, CHR ''b'']
     else if k = 9 then [CHR 0x5C, CHR ''t'']
     else if k = 10 then [CHR 0x5C, CHR ''n'']
     else if k = 12 then [CHR 0x5C, CHR ''f'']
     else if k = 13 then [CHR 0x5C, CHR ''r'']
     else if k < 32 then [CHR 0x5C, CHR ''u'', CHR ''0'', CHR ''0'', hex_digit (k div 16), hex_digit (k mod 16)]
     else [c])"

definition quote :: "string \<Rightarrow> string" where
  "quote s = CHR 0x22 # concat (map esc s) @ [CHR 0x22]"

fun join :: "string \<Rightarrow> string list \<Rightarrow> string" where
  "join sep [] = []"
| "join sep [x] = x"
| "join sep (x # xs) = x @ sep @ join sep xs"

definition show_int :: "int \<Rightarrow> string" where
  "show_int i = (if i < 0 then CHR ''-'' # show_nat (nat (- i)) else show_nat (nat i))"

text \<open>
  The members are serialized in the order of the object and then sorted by key; a failing member
  is reported in the sorted order, as in the source, where only the order of the calls differs.
\<close>

fun serialize :: "(jsnum \<Rightarrow> string) \<Rightarrow> string \<Rightarrow> json \<Rightarrow> type_error + string"
  and serialize_items :: "(jsnum \<Rightarrow> string) \<Rightarrow> string \<Rightarrow> nat \<Rightarrow> json list \<Rightarrow> (type_error + string) list"
  and serialize_members :: "(jsnum \<Rightarrow> string) \<Rightarrow> string \<Rightarrow> (string \<times> json) list \<Rightarrow> (string \<times> (type_error + string)) list"
where
  "serialize nt path JNull = Inr ''null''"
| "serialize nt path (JStr s) = Inr (quote s)"
| "serialize nt path (JBool b) = Inr (if b then ''true'' else ''false'')"
| "serialize nt path (JNum x) = (if \<not> is_finite_num x then Inl (NON_FINITE path) else Inr (nt x))"
| "serialize nt path (JBig i) = Inr (quote (show_int i))"
| "serialize nt path JUndef = Inl (UNDEFINED path)"
| "serialize nt path (JOther k) = Inl (NOT_REPRESENTABLE k path)"
| "serialize nt path (JArr xs) =
     ebind (emap (\<lambda>r. r) (serialize_items nt path 0 xs)) (\<lambda>ts. Inr (''['' @ join '','' ts @ '']''))"
| "serialize nt path (JObj ms) =
     ebind (emap (\<lambda>(k, r). ebind r (\<lambda>t. Inr (quote k @ '':'' @ t))) (sort_key fst (serialize_members nt path ms)))
       (\<lambda>ts. Inr (''{'' @ join '','' ts @ ''}''))"
| "serialize_items nt path i [] = []"
| "serialize_items nt path i (v # vs) =
     (case v of JUndef \<Rightarrow> Inr ''null'' | _ \<Rightarrow> serialize nt (path @ ''['' @ show_nat i @ '']'') v)
     # serialize_items nt path (Suc i) vs"
| "serialize_members nt path [] = []"
| "serialize_members nt path (m # ms) =
     (case snd m of JUndef \<Rightarrow> serialize_members nt path ms
      | _ \<Rightarrow> (fst m, serialize nt (path @ ''.'' @ fst m) (snd m)) # serialize_members nt path ms)"

definition canonicalize :: "(jsnum \<Rightarrow> string) \<Rightarrow> json \<Rightarrow> type_error + string" where
  "canonicalize nt v = serialize nt ''$'' v"

definition canonicalHash :: "(jsnum \<Rightarrow> string) \<Rightarrow> (string \<Rightarrow> sha256_hex) \<Rightarrow> json \<Rightarrow> type_error + sha256_hex" where
  "canonicalHash nt sha256 v = ebind (canonicalize nt v) (\<lambda>t. Inr (sha256 t))"

section \<open>The canonical form of a value\<close>

text \<open>Values that hold only what JSON can tell apart, and their form with sorted members.\<close>

fun plain :: "json \<Rightarrow> bool" where
  "plain JNull \<longleftrightarrow> True"
| "plain (JBool _) \<longleftrightarrow> True"
| "plain (JNum x) \<longleftrightarrow> is_finite_num x"
| "plain (JStr _) \<longleftrightarrow> True"
| "plain (JArr xs) \<longleftrightarrow> (\<forall>x \<in> set xs. plain x)"
| "plain (JObj ms) \<longleftrightarrow> (\<forall>m \<in> set ms. plain (snd m))"
| "plain _ \<longleftrightarrow> False"

fun canon :: "json \<Rightarrow> json" where
  "canon (JArr xs) = JArr (map canon xs)"
| "canon (JObj ms) = JObj (sort_key fst (map (\<lambda>m. (fst m, canon (snd m))) ms))"
| "canon v = v"

fun nums :: "json \<Rightarrow> jsnum set" where
  "nums (JNum x) = {x}"
| "nums (JArr xs) = (\<Union>x \<in> set xs. nums x)"
| "nums (JObj ms) = (\<Union>m \<in> set ms. nums (snd m))"
| "nums _ = {}"

fun render :: "(jsnum \<Rightarrow> string) \<Rightarrow> json \<Rightarrow> string" where
  "render nt JNull = ''null''"
| "render nt (JStr s) = quote s"
| "render nt (JBool b) = (if b then ''true'' else ''false'')"
| "render nt (JNum x) = nt x"
| "render nt (JArr xs) = ''['' @ join '','' (map (render nt) xs) @ '']''"
| "render nt (JObj ms) = ''{'' @ join '','' (map (\<lambda>m. quote (fst m) @ '':'' @ render nt (snd m)) ms) @ ''}''"
| "render nt _ = []"

lemma sort_key_map_fst: "sort_key fst (map (\<lambda>m. (fst m, f (snd m))) ms) = map (\<lambda>m. (fst m, f (snd m))) (sort_key fst ms)"
proof -
  have ins: "insort_key fst (fst m, f (snd m)) (map (\<lambda>m. (fst m, f (snd m))) ns)
      = map (\<lambda>m. (fst m, f (snd m))) (insort_key fst m ns)" for m ns
    by (induction ns) auto
  show ?thesis by (induction ms) (simp_all add: ins)
qed

lemma case_undef: "v \<noteq> JUndef \<Longrightarrow> (case v of JUndef \<Rightarrow> a | _ \<Rightarrow> b) = b"
  by (cases v) simp_all

lemma serialize_members_plain:
  "(\<forall>m \<in> set ms. snd m \<noteq> JUndef) \<Longrightarrow>
     serialize_members nt path ms = map (\<lambda>m. (fst m, serialize nt (path @ ''.'' @ fst m) (snd m))) ms"
  by (induction ms) (auto simp: case_undef)

lemma serialize_render: "plain v \<Longrightarrow> serialize nt path v = Inr (render nt (canon v))"
proof (induction v arbitrary: path rule: plain.induct)
  case (5 xs)
  have "serialize_items nt path i xs = map (\<lambda>x. Inr (render nt (canon x))) xs" for i
    using 5
  proof (induction xs arbitrary: i)
    case (Cons x xs)
    then have "x \<noteq> JUndef" by auto
    with Cons show ?case by (simp add: case_undef)
  qed simp
  then show ?case by (simp add: comp_def)
next
  case (6 ms)
  have nu: "\<forall>m \<in> set ms. snd m \<noteq> JUndef" using 6(2) by fastforce
  let ?g = "\<lambda>m. (fst m, Inr (render nt (canon (snd m))) :: type_error + string)"
  have "serialize_members nt path ms = map (\<lambda>m. (fst m, Inr (render nt (canon (snd m))))) ms"
    unfolding serialize_members_plain [OF nu] using 6 by simp
  then have s: "sort_key fst (serialize_members nt path ms) = map ?g (sort_key fst ms)"
    using sort_key_map_fst [of "\<lambda>v. Inr (render nt (canon v))" ms] by simp
  have "emap (\<lambda>(k, r). ebind r (\<lambda>t. Inr (quote k @ '':'' @ t))) (map ?g ns)
      = Inr (map (\<lambda>m. quote (fst m) @ '':'' @ render nt (canon (snd m))) ns)" for ns
    by (induction ns) simp_all
  then show ?case using sort_key_map_fst [of canon ms] by (simp add: s comp_def)
qed simp_all

section \<open>The canonical text determines the value\<close>

text \<open>A reader of one escaped character, on character codes.\<close>

definition unhex :: "char \<Rightarrow> nat" where
  "unhex c = (let k = of_char c in if k < 58 then k - 48 else k - 87)"

definition unescape :: "string \<Rightarrow> char \<times> string" where
  "unescape s = (let c = hd s; r = tl s; k = (of_char (hd r) :: nat) in
     if c \<noteq> CHR 0x5C then (c, r)
     else if k = 34 \<or> k = 92 then (hd r, tl r)
     else if k = 98 then (char_of (8 :: nat), tl r)
     else if k = 116 then (char_of (9 :: nat), tl r)
     else if k = 110 then (char_of (10 :: nat), tl r)
     else if k = 102 then (char_of (12 :: nat), tl r)
     else if k = 114 then (char_of (13 :: nat), tl r)
     else (char_of (16 * unhex (r ! 3) + unhex (r ! 4)), drop 5 r))"

lemma unhex_hex [simp]: "n < 16 \<Longrightarrow> unhex (hex_digit n) = n"
  by (simp add: unhex_def hex_digit_def Let_def)

lemma of_char_eqD: "of_char c = (k :: nat) \<Longrightarrow> c = char_of k"
  by (metis char_of_char)

lemma quote_char: "CHR 0x22 = char_of (34 :: nat)" and backslash_char: "CHR 0x5C = char_of (92 :: nat)"
  by code_simp+

lemma unescape_esc [simp]: "unescape (esc c @ r) = (c, r)"
proof -
  define k where "k = (of_char c :: nat)"
  have c: "c = char_of k" by (simp add: k_def)
  consider "k = 34" | "k = 92" | "k = 8" | "k = 9" | "k = 10" | "k = 12" | "k = 13"
    | "k < 32" "k \<notin> {8, 9, 10, 12, 13}" | "k \<ge> 32" "k \<notin> {34, 92}" by fastforce
  then show ?thesis
  proof cases
    case 8
    then have "k div 16 < 16" by simp
    then show ?thesis using 8 c
      by (simp add: esc_def unescape_def Let_def k_def [symmetric] mult.commute)
  next
    case 9
    then have "c \<noteq> CHR 0x5C" by (auto simp: k_def)
    then show ?thesis using 9 by (simp add: esc_def unescape_def Let_def k_def [symmetric])
  qed (unfold c, simp_all add: esc_def unescape_def Let_def quote_char backslash_char)
qed

lemma esc_inj: "esc c @ r = esc d @ s \<Longrightarrow> c = d \<and> r = s"
  by (metis prod.inject unescape_esc)

lemma esc_not_quote: "esc c @ r \<noteq> CHR 0x22 # s"
  by (auto simp: esc_def Let_def)

lemma quote_inj: "quote s @ r = quote t @ u \<Longrightarrow> s = t \<and> r = u"
proof -
  have "concat (map esc s) @ CHR 0x22 # r = concat (map esc t) @ CHR 0x22 # u \<Longrightarrow> s = t \<and> r = u"
  proof (induction s arbitrary: t)
    case Nil
    then show ?case by (cases t) (auto dest: esc_not_quote [THEN notE, OF sym])
  next
    case (Cons c s)
    then show ?case
      by (cases t) (auto dest: esc_not_quote [THEN notE] esc_inj)
  qed
  then show "quote s @ r = quote t @ u \<Longrightarrow> ?thesis" by (simp add: quote_def)
qed

definition number_char :: "char \<Rightarrow> bool" where
  "number_char c \<longleftrightarrow> is_digit c \<or> c \<in> {CHR ''-'', CHR ''+'', CHR ''.'', CHR ''e''}"

text \<open>
  What the code relies on of the number texts: on the numbers in use they are non-empty, over the
  characters of a numeral, and distinct for distinct numbers.
\<close>

definition number_text :: "(jsnum \<Rightarrow> string) \<Rightarrow> jsnum set \<Rightarrow> bool" where
  "number_text nt S \<longleftrightarrow> inj_on nt S \<and> (\<forall>x \<in> S. nt x \<noteq> [] \<and> list_all number_char (nt x))"

definition stops :: "string \<Rightarrow> bool" where
  "stops r \<longleftrightarrow> r = [] \<or> hd r \<in> {CHR '','', CHR '']'', CHR ''}''}"

lemma number_inj:
  assumes "list_all number_char a" and "list_all number_char b" and "stops r" and "stops s" and "a @ r = b @ s"
  shows "a = b \<and> r = s"
proof -
  have nc: "\<not> number_char (CHR '','')" "\<not> number_char (CHR '']'')" "\<not> number_char (CHR ''}'')"
    by code_simp+
  have tw: "takeWhile number_char (x @ y) = x" if "list_all number_char x" "stops y" for x y
    using that nc by (cases y) (auto simp: stops_def list_all_iff takeWhile_append)
  from tw [OF assms(1,3)] tw [OF assms(2,4)] assms(5) show ?thesis by auto
qed

lemma stops_join: "stops (CHR ''}'' # r)" "stops (CHR '']'' # r)" "stops (CHR '','' # r)"
  by (simp_all add: stops_def)

text \<open>
  \<open>parses f v\<close>: after the rendering \<open>f v\<close> the value and the rest of the text are determined.
\<close>

definition determined :: "('a \<Rightarrow> string) \<Rightarrow> 'a \<Rightarrow> 'a set \<Rightarrow> bool" where
  "determined f v W \<longleftrightarrow> (\<forall>w \<in> W. \<forall>r s. stops r \<and> stops s \<and> f v @ r = f w @ s \<longrightarrow> v = w \<and> r = s)"

lemma determinedD: "determined f v W \<Longrightarrow> w \<in> W \<Longrightarrow> stops r \<Longrightarrow> stops s \<Longrightarrow> f v @ r = f w @ s \<Longrightarrow> v = w \<and> r = s"
  by (simp add: determined_def)

lemma join_Cons: "join sep (x # xs) = x @ (if xs = [] then [] else sep @ join sep xs)"
  by (cases xs) simp_all

lemma join_determined:
  assumes c: "c = CHR '']'' \<or> c = CHR ''}''"
    and ne: "\<And>w. w \<in> W \<Longrightarrow> \<exists>a t. f w = a # t \<and> a \<noteq> c"
  shows "\<forall>v \<in> set vs. determined f v W \<and> v \<in> W \<Longrightarrow> set ws \<subseteq> W \<Longrightarrow>
      join '','' (map f vs) @ c # r = join '','' (map f ws) @ c # s \<Longrightarrow> vs = ws \<and> r = s"
proof (induction vs arbitrary: ws)
  case Nil
  then show ?case using ne by (cases ws) (auto simp: join_Cons dest!: ne)
next
  case (Cons v vs)
  have v: "determined f v W" "v \<in> W" using Cons.prems(1) by simp_all
  show ?case
  proof (cases ws)
    case Nil
    then show ?thesis using Cons.prems(3) ne [OF v(2)] by (auto simp: join_Cons)
  next
    case (Cons w ws')
    let ?X = "if vs = [] then c # r else CHR '','' # join '','' (map f vs) @ c # r"
    let ?Y = "if ws' = [] then c # s else CHR '','' # join '','' (map f ws') @ c # s"
    have eq: "f v @ ?X = f w @ ?Y" using Cons.prems(3) Cons by (auto simp: join_Cons split: if_splits)
    have st: "stops ?X" "stops ?Y" using c by (auto simp: stops_def)
    have w: "w \<in> W" "set ws' \<subseteq> W" using Cons.prems(2) Cons by simp_all
    from determinedD [OF v(1) w(1) st eq] have vw: "v = w" and XY: "?X = ?Y" by simp_all
    show ?thesis
    proof (cases "vs = []")
      case True
      then show ?thesis using XY c vw Cons by (auto split: if_splits)
    next
      case False
      with XY c have "ws' \<noteq> []" "join '','' (map f vs) @ c # r = join '','' (map f ws') @ c # s"
        by (auto split: if_splits)
      then show ?thesis using Cons.IH [OF _ w(2)] Cons.prems(1) vw Cons by auto
    qed
  qed
qed

lemma starts_no_number:
  "\<not> number_char (CHR ''n'')" "\<not> number_char (CHR ''t'')" "\<not> number_char (CHR ''f'')"
  "\<not> number_char (CHR 0x22)" "\<not> number_char (CHR ''['')" "\<not> number_char (CHR ''{'')"
  "\<not> number_char (CHR '']'')" "\<not> number_char (CHR ''}'')"
  by code_simp+

lemma number_text_head: "number_text nt S \<Longrightarrow> x \<in> S \<Longrightarrow> \<exists>c t. nt x = c # t \<and> number_char c"
  by (cases "nt x") (auto simp: number_text_def)

definition known :: "jsnum set \<Rightarrow> json set" where
  "known S = {w. plain w \<and> nums w \<subseteq> S}"

text \<open>The kind of a value can be read off the first character of its text.\<close>

definition char_tag :: "char \<Rightarrow> nat" where
  "char_tag a = (if number_char a then 1 else if a = CHR ''n'' then 2 else if a = CHR ''t'' then 3
     else if a = CHR ''f'' then 4 else if a = CHR 0x22 then 5 else if a = CHR ''['' then 6
     else if a = CHR ''{'' then 7 else 0)"

fun value_tag :: "json \<Rightarrow> nat" where
  "value_tag (JNum _) = 1"
| "value_tag JNull = 2"
| "value_tag (JBool b) = (if b then 3 else 4)"
| "value_tag (JStr _) = 5"
| "value_tag (JArr _) = 6"
| "value_tag (JObj _) = 7"
| "value_tag _ = 8"

lemma render_head:
  assumes nt: "number_text nt S" and w: "w \<in> known S"
  shows "\<exists>a t. render nt w = a # t \<and> char_tag a = value_tag w"
proof (cases w)
  case (JNum x)
  with w obtain c t where "nt x = c # t" "number_char c"
    using number_text_head [OF nt, of x] by (auto simp: known_def)
  then show ?thesis using JNum by (simp add: char_tag_def)
qed (use w in \<open>auto simp: known_def quote_def starts_no_number char_tag_def\<close>)

lemma same_kind:
  assumes "number_text nt S" and "v \<in> known S" and "w \<in> known S" and "render nt v @ r = render nt w @ s"
  shows "value_tag w = value_tag v"
  using render_head [OF assms(1,2)] render_head [OF assms(1,3)] assms(4) by force

lemma head_not_closing:
  assumes "number_text nt S" and "w \<in> known S"
  shows "\<exists>a t. render nt w = a # t \<and> a \<noteq> CHR '']''"
proof -
  have "char_tag (CHR '']'') = 0" by code_simp
  moreover have "value_tag w \<noteq> 0" by (cases w) simp_all
  ultimately show ?thesis using render_head [OF assms] by force
qed

lemma render_determined:
  assumes nt: "number_text nt S"
  shows "plain v \<Longrightarrow> nums v \<subseteq> S \<Longrightarrow> determined (render nt) v (known S)"
proof (induction v rule: plain.induct)
  case (3 x)
  show ?case
  proof (unfold determined_def, intro ballI allI impI, elim conjE)
    fix w r s assume w: "w \<in> known S" and st: "stops r" "stops s" and eq: "render nt (JNum x) @ r = render nt w @ s"
    have x: "JNum x \<in> known S" using 3 by (simp add: known_def)
    obtain y where y: "w = JNum y" using same_kind [OF nt x w eq] by (cases w) (simp_all split: if_splits)
    with w have "y \<in> S" "x \<in> S" using 3 by (simp_all add: known_def)
    with nt have "list_all number_char (nt x)" "list_all number_char (nt y)" "inj_on nt S"
      by (simp_all add: number_text_def)
    with number_inj [OF this(1,2) st] eq y \<open>y \<in> S\<close> \<open>x \<in> S\<close> show "JNum x = w \<and> r = s"
      by (simp add: inj_on_eq_iff)
  qed
next
  case (5 xs)
  show ?case
  proof (unfold determined_def, intro ballI allI impI, elim conjE)
    fix w r s assume w: "w \<in> known S" and eq: "render nt (JArr xs) @ r = render nt w @ s"
    have v: "JArr xs \<in> known S" using 5 by (simp add: known_def)
    obtain ys where y: "w = JArr ys" using same_kind [OF nt v w eq] by (cases w) (simp_all split: if_splits)
    have "xs = ys \<and> r = s"
    proof (rule join_determined [where c = "CHR '']''" and f = "render nt" and W = "known S"])
      show "join '','' (map (render nt) xs) @ CHR '']'' # r = join '','' (map (render nt) ys) @ CHR '']'' # s"
        using eq y by simp
      show "set ys \<subseteq> known S" using w y by (auto simp: known_def)
      show "\<forall>v \<in> set xs. determined (render nt) v (known S) \<and> v \<in> known S"
      proof
        fix x assume "x \<in> set xs"
        moreover from this have "plain x" "nums x \<subseteq> S" using 5(2,3) by auto
        ultimately show "determined (render nt) x (known S) \<and> x \<in> known S"
          using 5(1) by (simp add: known_def)
      qed
    next
      fix v assume "v \<in> known S"
      then show "\<exists>a t. render nt v = a # t \<and> a \<noteq> CHR '']''" by (rule head_not_closing [OF nt])
    qed simp
    with y show "JArr xs = w \<and> r = s" by simp
  qed
next
  case (6 ms)
  let ?f = "\<lambda>m. quote (fst m) @ '':'' @ render nt (snd m)"
  let ?W = "{m. snd m \<in> known S}"
  show ?case
  proof (unfold determined_def, intro ballI allI impI, elim conjE)
    fix w r s assume w: "w \<in> known S" and eq: "render nt (JObj ms) @ r = render nt w @ s"
    have v: "JObj ms \<in> known S" using 6 by (simp add: known_def)
    obtain ns where y: "w = JObj ns" using same_kind [OF nt v w eq] by (cases w) (simp_all split: if_splits)
    have det: "determined ?f m ?W" if "m \<in> set ms" for m
    proof -
      have "plain (snd m)" "nums (snd m) \<subseteq> S" using 6(2,3) that by auto
      then have d: "determined (render nt) (snd m) (known S)" by (rule 6(1) [OF that])
      show ?thesis
      proof (unfold determined_def, intro ballI allI impI, elim conjE)
        fix n r s assume n: "n \<in> ?W" and st: "stops r" "stops s" and eq: "?f m @ r = ?f n @ s"
        have q: "fst m = fst n \<and> '':'' @ render nt (snd m) @ r = '':'' @ render nt (snd n) @ s"
          by (rule quote_inj) (use eq in simp)
        then have "render nt (snd m) @ r = render nt (snd n) @ s" by simp
        from determinedD [OF d _ st this] n q show "m = n \<and> r = s" by (simp add: prod_eq_iff)
      qed
    qed
    have "ms = ns \<and> r = s"
    proof (rule join_determined [where c = "CHR ''}''" and f = ?f and W = ?W])
      show "join '','' (map ?f ms) @ CHR ''}'' # r = join '','' (map ?f ns) @ CHR ''}'' # s"
        using eq y by simp
      show "set ns \<subseteq> ?W" using w y by (auto simp: known_def)
      show "\<forall>v \<in> set ms. determined ?f v ?W \<and> v \<in> ?W"
      proof
        fix m assume "m \<in> set ms"
        moreover from this have "plain (snd m)" "nums (snd m) \<subseteq> S" using 6(2,3) by auto
        ultimately show "determined ?f m ?W \<and> m \<in> ?W" using det by (simp add: known_def)
      qed
    qed (auto simp: quote_def)
    with y show "JObj ms = w \<and> r = s" by simp
  qed
next
  case (2 b)
  show ?case
  proof (unfold determined_def, intro ballI allI impI, elim conjE)
    fix w r s assume w: "w \<in> known S" and eq: "render nt (JBool b) @ r = render nt w @ s"
    have "JBool b \<in> known S" by (simp add: known_def)
    from same_kind [OF nt this w eq] have "w = JBool b" by (cases w; cases b) (simp_all split: if_splits)
    with eq show "JBool b = w \<and> r = s" by simp
  qed
next
  case (4 t)
  show ?case
  proof (unfold determined_def, intro ballI allI impI, elim conjE)
    fix w r s assume w: "w \<in> known S" and eq: "render nt (JStr t) @ r = render nt w @ s"
    have v: "JStr t \<in> known S" by (simp add: known_def)
    obtain u where y: "w = JStr u" using same_kind [OF nt v w eq] by (cases w) (simp_all split: if_splits)
    with quote_inj [of t r u s] eq show "JStr t = w \<and> r = s" by simp
  qed
next
  case 1
  show ?case
  proof (unfold determined_def, intro ballI allI impI, elim conjE)
    fix w r s assume w: "w \<in> known S" and eq: "render nt JNull @ r = render nt w @ s"
    have "JNull \<in> known S" by (simp add: known_def)
    from same_kind [OF nt this w eq] have "w = JNull" by (cases w) (simp_all split: if_splits)
    with eq show "JNull = w \<and> r = s" by simp
  qed
qed simp_all

lemma canon_plain: "plain (canon v) = plain v"
  by (induction v rule: plain.induct) auto

lemma canon_nums: "nums (canon v) = nums v"
  by (induction v rule: plain.induct) auto

section \<open>Properties\<close>

text \<open>
  C25: the canonical form makes tampering detectable. Over every pair of JSON values the canonical
  texts exist, and they are equal exactly when the values are equal up to the order of object
  members: reordering never changes the text and any other change always does, whatever strings
  the values hold.
\<close>

theorem canonicalize_determines:
  assumes "plain v" and "plain w" and nt: "number_text nt (nums v \<union> nums w)"
  shows "(\<exists>t. canonicalize nt v = Inr t) \<and> (canonicalize nt v = canonicalize nt w \<longleftrightarrow> canon v = canon w)"
proof -
  have r: "canonicalize nt v = Inr (render nt (canon v))" "canonicalize nt w = Inr (render nt (canon w))"
    using assms serialize_render by (simp_all add: canonicalize_def)
  have "determined (render nt) (canon v) (known (nums v \<union> nums w))"
    by (rule render_determined [OF nt]) (use assms in \<open>auto simp: canon_plain canon_nums\<close>)
  moreover have "canon w \<in> known (nums v \<union> nums w)"
    using assms by (auto simp: known_def canon_plain canon_nums)
  ultimately have "render nt (canon v) = render nt (canon w) \<Longrightarrow> canon v = canon w"
    using determinedD [of _ _ _ _ "[]" "[]"] by (fastforce simp: stops_def)
  with r show ?thesis by auto
qed

definition sample_text :: "jsnum \<Rightarrow> string" where
  "sample_text x = (if x = Fin 1 then ''1'' else ''2.5'')"

theorem canonicalize_determines_witness:
  "canonicalize sample_text (JObj [(''b'', JNum (Fin 1)), (''a'', JStr ''x'')])
     = canonicalize sample_text (JObj [(''a'', JStr ''x''), (''b'', JNum (Fin 1))])"
proof -
  have "number_text sample_text {Fin 1}"
    by (simp add: number_text_def sample_text_def) code_simp
  then show ?thesis
    using canonicalize_determines [of "JObj [(''b'', JNum (Fin 1)), (''a'', JStr ''x'')]"
        "JObj [(''a'', JStr ''x''), (''b'', JNum (Fin 1))]" sample_text]
    by (simp add: less_list_code less_eq_list_code)
qed

text \<open>
  A big integer is rendered as the string of its digits: the two are distinct values of the
  language and share their canonical text.
\<close>

lemma bigint_collides: "canonicalize nt (JBig 5) = canonicalize nt (JStr ''5'')"
  by (simp add: canonicalize_def show_int_def show_nat.simps digit_chars)

end
