(* ===== verification/SignedEnvelope.thy ===== *)
theory SignedEnvelope imports Canonical begin

text \<open>
  Signed envelopes (\<open>libs/contracts/src/signing/signed-envelope.ts\<close>), the approval grant bound to
  an authorization (\<open>libs/contracts/src/envelopes/approval.ts\<close>) and the authentication of
  requests between services with its replay window (\<open>libs/contracts/src/signing/service-auth.ts\<close>).
  WebCrypto is external: SHA-256, Ed25519 and HMAC are fields of the parameter \<open>crypto\<close>, as are the
  texts of numbers and instants.
\<close>

section \<open>The cryptography and the rendering the code calls\<close>

record crypto =
  sha256 :: "string \<Rightarrow> sha256_hex"
  number_str :: "jsnum \<Rightarrow> string"
  iso :: "instant \<Rightarrow> string"
  ed_sign :: "string \<Rightarrow> string \<Rightarrow> string"
  ed_verify :: "string \<Rightarrow> string \<Rightarrow> string \<Rightarrow> bool"
  hmac :: "string \<Rightarrow> string \<Rightarrow> string"

definition hash_json :: "crypto \<Rightarrow> json \<Rightarrow> type_error + sha256_hex" where
  "hash_json cr v = canonicalHash (number_str cr) (sha256 cr) v"

definition is_lower_hex :: "char \<Rightarrow> bool" where
  "is_lower_hex c \<longleftrightarrow> is_digit c \<or> (97 \<le> (of_char c :: nat) \<and> (of_char c :: nat) \<le> 102)"

definition is_hex_text :: "nat \<Rightarrow> string \<Rightarrow> bool" where
  "is_hex_text n s \<longleftrightarrow> length s = n \<and> list_all is_lower_hex s"

definition is_sha256_hex :: "string \<Rightarrow> bool" where
  "is_sha256_hex s \<longleftrightarrow> is_hex_text 64 s"

definition is_signature_hex :: "string \<Rightarrow> bool" where
  "is_signature_hex s \<longleftrightarrow> is_hex_text 128 s"

definition is_key_id :: "string \<Rightarrow> bool" where
  "is_key_id s \<longleftrightarrow> take 8 s = ''ed25519:'' \<and> is_hex_text 32 (drop 8 s)"

definition is_nonce :: "string \<Rightarrow> bool" where
  "is_nonce s \<longleftrightarrow> is_hex_text 32 s"

section \<open>Envelopes\<close>

definition SIGNED_ENVELOPE_ALGORITHM :: string where
  "SIGNED_ENVELOPE_ALGORITHM = ''ed25519-canonical-json-sha256-v1''"

record VerificationKey =
  vkeyId :: key_id
  publicKey :: string

record SigningKeyPair = VerificationKey +
  privateKey :: string

record 'p SignedEnvelope =
  algorithm :: string
  keyId :: key_id
  signedAt :: instant
  payloadHash :: sha256_hex
  signature :: string
  payload :: 'p

datatype VerifyFailure = UNKNOWN_KEY | PAYLOAD_HASH_MISMATCH | BAD_SIGNATURE | MALFORMED_ENVELOPE

definition messageBytes :: "crypto \<Rightarrow> json \<Rightarrow> key_id \<Rightarrow> instant \<Rightarrow> type_error + string" where
  "messageBytes cr p k t = canonicalize (number_str cr)
     (JObj [(''algorithm'', JStr SIGNED_ENVELOPE_ALGORITHM), (''keyId'', JStr k), (''payload'', p),
            (''signedAt'', JStr (iso cr t))])"

definition signPayload ::
  "crypto \<Rightarrow> ('p \<Rightarrow> json) \<Rightarrow> 'p \<Rightarrow> SigningKeyPair \<Rightarrow> instant \<Rightarrow> type_error + 'p SignedEnvelope" where
  "signPayload cr enc p key t =
     ebind (hash_json cr (enc p)) (\<lambda>h.
     ebind (messageBytes cr (enc p) (vkeyId key) t) (\<lambda>m.
       Inr \<lparr>algorithm = SIGNED_ENVELOPE_ALGORITHM, keyId = vkeyId key, signedAt = t, payloadHash = h,
            signature = ed_sign cr (privateKey key) m, payload = p\<rparr>))"

definition meta_ok :: "'p SignedEnvelope \<Rightarrow> bool" where
  "meta_ok e \<longleftrightarrow> algorithm e = SIGNED_ENVELOPE_ALGORITHM \<and> is_key_id (keyId e) \<and>
     is_sha256_hex (payloadHash e) \<and> is_signature_hex (signature e)"

text \<open>A list of keys becomes a map, so the last key with an id is the one that counts.\<close>

definition accepted_key :: "VerificationKey list \<Rightarrow> key_id \<Rightarrow> VerificationKey option" where
  "accepted_key keys k = find_last (\<lambda>key. vkeyId key = k) keys"

text \<open>\<open>verifyBytes\<close> of \<open>ed25519.ts\<close>: a malformed signature is false, not an error.\<close>

definition verifyBytes :: "crypto \<Rightarrow> string \<Rightarrow> string \<Rightarrow> string \<Rightarrow> bool" where
  "verifyBytes cr pub message sig \<longleftrightarrow> is_signature_hex sig \<and> ed_verify cr pub message sig"

definition verifySignedEnvelope ::
  "crypto \<Rightarrow> ('p \<Rightarrow> json) \<Rightarrow> 'p SignedEnvelope \<Rightarrow> VerificationKey list \<Rightarrow> VerifyFailure + key_id" where
  "verifySignedEnvelope cr enc env keys =
     (if \<not> meta_ok env then Inl MALFORMED_ENVELOPE
      else case accepted_key keys (keyId env) of
          None \<Rightarrow> Inl UNKNOWN_KEY
        | Some key \<Rightarrow>
            (case hash_json cr (enc (payload env)) of
               Inl _ \<Rightarrow> Inl MALFORMED_ENVELOPE
             | Inr h \<Rightarrow>
                 if h \<noteq> payloadHash env then Inl PAYLOAD_HASH_MISMATCH
                 else (case messageBytes cr (enc (payload env)) (keyId env) (signedAt env) of
                     Inl _ \<Rightarrow> Inl MALFORMED_ENVELOPE
                   | Inr m \<Rightarrow> if verifyBytes cr (publicKey key) m (signature env)
                             then Inr (keyId env) else Inl BAD_SIGNATURE)))"

text \<open>
  Verification succeeds exactly when the metadata is well formed, the key is accepted, the hash is
  that of the payload and the signature is valid over the canonical message. The message exists
  whenever the payload has a hash.
\<close>

lemma verify_envelope_ok:
  "verifySignedEnvelope cr enc env keys = Inr k \<longleftrightarrow> k = keyId env \<and> meta_ok env \<and>
     hash_json cr (enc (payload env)) = Inr (payloadHash env) \<and>
     (\<exists>key m. accepted_key keys (keyId env) = Some key \<and>
        messageBytes cr (enc (payload env)) (keyId env) (signedAt env) = Inr m \<and>
        verifyBytes cr (publicKey key) m (signature env))"
  by (auto simp: verifySignedEnvelope_def split: option.splits sum.splits)

section \<open>Approvals\<close>

datatype ApproverRole = operator_role | admin_role

record ApprovalGrant =
  grant_authorizationHash :: sha256_hex
  grant_intentId :: uuid
  approverId :: uuid
  role :: ApproverRole
  stepUpAssertionRef :: "string option"
  grantedAt :: instant
  grant_expiresAt :: instant
  grant_nonce :: nonce

definition opt_json :: "('a \<Rightarrow> json) \<Rightarrow> 'a option \<Rightarrow> json" where
  "opt_json f o' = (case o' of None \<Rightarrow> JNull | Some a \<Rightarrow> f a)"

definition role_text :: "ApproverRole \<Rightarrow> string" where
  "role_text r = (case r of operator_role \<Rightarrow> ''operator'' | admin_role \<Rightarrow> ''admin'')"

definition grant_json :: "crypto \<Rightarrow> ApprovalGrant \<Rightarrow> json" where
  "grant_json cr g = JObj
     [(''authorizationHash'', JStr (grant_authorizationHash g)), (''intentId'', JStr (grant_intentId g)),
      (''approverId'', JStr (approverId g)), (''role'', JStr (role_text (role g))),
      (''stepUpAssertionRef'', opt_json JStr (stepUpAssertionRef g)),
      (''grantedAt'', JStr (iso cr (grantedAt g))), (''expiresAt'', JStr (iso cr (grant_expiresAt g))),
      (''nonce'', JStr (grant_nonce g))]"

definition deriveAuthorizationHash :: "crypto \<Rightarrow> ('p \<Rightarrow> json) \<Rightarrow> 'p SignedEnvelope \<Rightarrow> type_error + sha256_hex" where
  "deriveAuthorizationHash cr enc env = hash_json cr (enc (payload env))"

datatype ApprovalBindingFailure =
    AUTHORIZATION_HASH_MISMATCH | INTENT_MISMATCH | EXPIRED | NOT_YET_VALID | NONCE_REPLAYED | STEP_UP_REQUIRED

definition checkApprovalBinding ::
  "ApprovalGrant \<Rightarrow> sha256_hex \<Rightarrow> uuid \<Rightarrow> instant \<Rightarrow> nonce list \<Rightarrow> bool \<Rightarrow> ApprovalBindingFailure + unit" where
  "checkApprovalBinding grant authorizationHash intentId now usedNonces requireStepUp =
     (if grant_authorizationHash grant \<noteq> authorizationHash then Inl AUTHORIZATION_HASH_MISMATCH
      else if grant_intentId grant \<noteq> intentId then Inl INTENT_MISMATCH
      else if compareInstants now (grantedAt grant) < 0 then Inl NOT_YET_VALID
      else if compareInstants now (grant_expiresAt grant) \<ge> 0 then Inl EXPIRED
      else if grant_nonce grant \<in> set usedNonces then Inl NONCE_REPLAYED
      else if requireStepUp \<and> stepUpAssertionRef grant = None then Inl STEP_UP_REQUIRED
      else Inr ())"

lemma approval_binding_ok:
  "checkApprovalBinding g h i now used step = Inr () \<longleftrightarrow>
     grant_authorizationHash g = h \<and> grant_intentId g = i \<and> grantedAt g \<le> now \<and> now < grant_expiresAt g \<and>
     grant_nonce g \<notin> set used \<and> (step \<longrightarrow> stepUpAssertionRef g \<noteq> None)"
  by (auto simp: checkApprovalBinding_def compareInstants_def)

section \<open>Properties\<close>

text \<open>
  What the code relies on of WebCrypto: the signature of a key pair verifies under its public half
  and, like the digests, has the documented length in lowercase hexadecimal.
\<close>

definition crypto_ok :: "crypto \<Rightarrow> SigningKeyPair \<Rightarrow> bool" where
  "crypto_ok cr key \<longleftrightarrow>
     (\<forall>m. is_signature_hex (ed_sign cr (privateKey key) m) \<and>
          ed_verify cr (publicKey key) m (ed_sign cr (privateKey key) m)) \<and>
     (\<forall>m. is_sha256_hex (sha256 cr m))"

definition verification_half :: "SigningKeyPair \<Rightarrow> VerificationKey" where
  "verification_half key = \<lparr>vkeyId = vkeyId key, publicKey = publicKey key\<rparr>"

lemma sign_then_verify:
  assumes cr: "crypto_ok cr key" and k: "is_key_id (vkeyId key)"
    and acc: "accepted_key keys (vkeyId key) = Some (verification_half key)"
    and s: "signPayload cr enc p key t = Inr env"
  shows "verifySignedEnvelope cr enc env keys = Inr (vkeyId key) \<and> payload env = p \<and> signedAt env = t"
proof -
  obtain h m where h: "hash_json cr (enc p) = Inr h" and m: "messageBytes cr (enc p) (vkeyId key) t = Inr m"
    and env: "env = \<lparr>algorithm = SIGNED_ENVELOPE_ALGORITHM, keyId = vkeyId key, signedAt = t, payloadHash = h,
            signature = ed_sign cr (privateKey key) m, payload = p\<rparr>"
    using s by (auto simp: signPayload_def)
  have "is_sha256_hex h" using h cr by (auto simp: hash_json_def canonicalHash_def crypto_ok_def)
  then have "meta_ok env" using cr k by (simp add: meta_ok_def env crypto_ok_def)
  then show ?thesis
    using acc h m cr by (simp add: verify_envelope_ok env verification_half_def verifyBytes_def crypto_ok_def)
qed

text \<open>
  C24: an envelope signed by a pinned key verifies, and only what the key signed does. Signing a
  payload gives an envelope that verifies against every key set whose last key with that id is the
  signer's; and whenever any envelope verifies, its hash is the digest of its own payload and its
  signature is valid over the canonical text of exactly its payload, key id and signing time.
\<close>

theorem sign_verify:
  assumes cr: "crypto_ok cr key" and k: "is_key_id (vkeyId key)"
    and acc: "accepted_key keys (vkeyId key) = Some (verification_half key)"
    and s: "signPayload cr enc p key t = Inr env"
  shows "verifySignedEnvelope cr enc env keys = Inr (vkeyId key) \<and> payload env = p \<and> signedAt env = t \<and>
    (\<forall>env' k'. verifySignedEnvelope cr enc env' keys = Inr k' \<longrightarrow>
       hash_json cr (enc (payload env')) = Inr (payloadHash env') \<and>
       (\<exists>key' m. key' \<in> set keys \<and> vkeyId key' = k' \<and> messageBytes cr (enc (payload env')) k' (signedAt env') = Inr m \<and>
          ed_verify cr (publicKey key') m (signature env')))"
proof -
  have "accepted_key keys k = Some key' \<Longrightarrow> key' \<in> set keys \<and> vkeyId key' = k" for k key'
    by (auto simp: accepted_key_def dest: find_Some_in)
  with sign_then_verify [OF assms] show ?thesis by (fastforce simp: verify_envelope_ok verifyBytes_def)
qed

definition toy_crypto :: crypto where
  "toy_crypto = \<lparr>sha256 = \<lambda>_. replicate 64 (CHR ''a''), number_str = \<lambda>_. ''1'', iso = \<lambda>_. ''t'',
     ed_sign = \<lambda>_ _. replicate 128 (CHR ''b''), ed_verify = \<lambda>_ _ _. True, hmac = \<lambda>_ _. replicate 64 (CHR ''c'')\<rparr>"

definition toy_key :: SigningKeyPair where
  "toy_key = \<lparr>vkeyId = ''ed25519:'' @ replicate 32 (CHR ''0''), publicKey = ''pk'', privateKey = ''sk''\<rparr>"

lemma toy_hex: "is_lower_hex (CHR ''a'')" "is_lower_hex (CHR ''b'')" "is_lower_hex (CHR ''c'')" "is_lower_hex (CHR ''0'')"
  by code_simp+

lemma toy_crypto_ok: "crypto_ok toy_crypto toy_key" "is_key_id (vkeyId toy_key)"
  by (simp_all add: crypto_ok_def toy_crypto_def toy_key_def is_signature_hex_def is_sha256_hex_def is_hex_text_def
      is_key_id_def list_all_iff toy_hex)

lemma toy_hash: "plain v \<Longrightarrow> hash_json toy_crypto v = Inr (replicate 64 (CHR ''a''))"
  by (simp add: hash_json_def canonicalHash_def canonicalize_def serialize_render toy_crypto_def)

lemma toy_message: "plain v \<Longrightarrow> \<exists>m. messageBytes toy_crypto v k t = Inr m"
  unfolding messageBytes_def canonicalize_def by (subst serialize_render) simp_all

lemma toy_signs:
  assumes "plain (enc p)"
  shows "\<exists>env. signPayload toy_crypto enc p toy_key t = Inr env \<and> payload env = p \<and>
    payloadHash env = replicate 64 (CHR ''a'') \<and> keyId env = vkeyId toy_key"
  using toy_message [OF assms, of "vkeyId toy_key" t] by (auto simp: signPayload_def toy_hash [OF assms])

theorem sign_verify_witness:
  "\<exists>env. signPayload toy_crypto JStr ''hello'' toy_key 5 = Inr env \<and>
     verifySignedEnvelope toy_crypto JStr env [verification_half toy_key] = Inr (vkeyId toy_key)"
proof -
  obtain env where env: "signPayload toy_crypto JStr ''hello'' toy_key 5 = Inr env"
    by (simp add: signPayload_def hash_json_def canonicalHash_def canonicalize_def messageBytes_def)
  have "accepted_key [verification_half toy_key] (vkeyId toy_key) = Some (verification_half toy_key)"
    by (simp add: accepted_key_def verification_half_def)
  from sign_verify [OF toy_crypto_ok this env] env show ?thesis by blast
qed

end
