(* ===== verification/ServiceAuth.thy ===== *)
theory ServiceAuth imports SignedEnvelope begin

text \<open>
  Authentication of requests between services (\<open>libs/contracts/src/signing/service-auth.ts\<close>): an
  HMAC over the request, a bounded clock skew and a window of nonces. The nonce window is the
  state; with the window of twice the skew that both services use, no accepted request is ever
  accepted again. Header values are the strings the code reads; SHA-256 and HMAC are external.
\<close>

section \<open>The window of seen nonces\<close>

type_synonym NonceWindow = "(string \<times> int) list"

definition admit :: "int \<Rightarrow> NonceWindow \<Rightarrow> string \<Rightarrow> int \<Rightarrow> bool \<times> NonceWindow" where
  "admit windowMs seen nonce nowMs =
     (let kept = filter (\<lambda>(n, seenAt). \<not> nowMs - seenAt > windowMs) seen in
      if map_of kept nonce \<noteq> None then (False, kept)
      else (True, AList.update nonce nowMs kept))"

section \<open>Requests\<close>

record ServiceRequestFacts =
  req_method :: string
  req_path :: string
  req_body :: string

record ServiceAuthHeaders =
  h_timestamp :: "string option"
  h_nonce :: "string option"
  h_signature :: "string option"
  h_keyId :: "string option"

datatype ServiceAuthFailure =
    MISSING_HEADERS | UNKNOWN_KEY | BAD_SIGNATURE | TIMESTAMP_SKEW | NONCE_REPLAYED | MALFORMED

definition SERVICE_AUTH_SCHEME :: string where
  "SERVICE_AUTH_SCHEME = ''sat-hmac-v1''"

definition hex_value :: "char \<Rightarrow> nat" where
  "hex_value c = (if is_digit c then digit_val c else of_char c - 87)"

fun hex_pairs :: "string \<Rightarrow> string" where
  "hex_pairs (a # b # s) = char_of (16 * hex_value a + hex_value b) # hex_pairs s"
| "hex_pairs s = []"

definition hexToBytes :: "string \<Rightarrow> string option" where
  "hexToBytes hex = (if odd (length hex) \<or> \<not> list_all is_lower_hex hex then None else Some (hex_pairs hex))"

definition upper :: "char \<Rightarrow> char" where
  "upper c = (let k = of_char c :: nat in if 97 \<le> k \<and> k \<le> 122 then char_of (k - 32) else c)"

definition serviceKeyId :: "crypto \<Rightarrow> string \<Rightarrow> string option" where
  "serviceKeyId cr secretHex = map_option (\<lambda>b. ''sat:'' @ take 16 (sha256 cr b)) (hexToBytes secretHex)"

definition stringToSign :: "crypto \<Rightarrow> ServiceRequestFacts \<Rightarrow> string \<Rightarrow> string \<Rightarrow> string" where
  "stringToSign cr facts timestamp nonce = join [CHR 0x0A]
     [SERVICE_AUTH_SCHEME, map upper (req_method facts), req_path facts, timestamp, nonce, sha256 cr (req_body facts)]"

text \<open>The first of a secret that is no hexadecimal text throws: the whole call fails, as \<open>None\<close>.\<close>

definition signServiceRequest ::
  "crypto \<Rightarrow> string \<Rightarrow> ServiceRequestFacts \<Rightarrow> int \<Rightarrow> string \<Rightarrow> ServiceAuthHeaders option" where
  "signServiceRequest cr secretHex facts nowMs nonce = (case hexToBytes secretHex of
       None \<Rightarrow> None
     | Some key \<Rightarrow> let timestamp = show_int nowMs in
         Some \<lparr>h_timestamp = Some timestamp, h_nonce = Some nonce,
               h_signature = Some (hmac cr key (stringToSign cr facts timestamp nonce)),
               h_keyId = serviceKeyId cr secretHex\<rparr>)"

definition header_value :: "string option \<Rightarrow> string option" where
  "header_value v = (case v of Some s \<Rightarrow> if s = [] then None else Some s | None \<Rightarrow> None)"

definition is_nonce_char :: "char \<Rightarrow> bool" where
  "is_nonce_char c \<longleftrightarrow> (let k = of_char c :: nat in
     is_digit c \<or> (65 \<le> k \<and> k \<le> 90) \<or> (97 \<le> k \<and> k \<le> 122) \<or> k = 95 \<or> k = 45)"

definition well_formed_headers :: "string \<Rightarrow> string \<Rightarrow> string \<Rightarrow> bool" where
  "well_formed_headers timestamp nonce sig \<longleftrightarrow>
     (timestamp \<noteq> [] \<and> length timestamp \<le> 16 \<and> list_all is_digit timestamp) \<and>
     (16 \<le> length nonce \<and> length nonce \<le> 128 \<and> list_all is_nonce_char nonce) \<and> is_hex_text 64 sig"

text \<open>The loop keeps the last secret whose key id matches; a secret that is no hexadecimal throws.\<close>

fun pick_secret :: "crypto \<Rightarrow> string list \<Rightarrow> string \<Rightarrow> string option \<Rightarrow> string option option" where
  "pick_secret cr [] k found = Some found"
| "pick_secret cr (s # ss) k found = (case serviceKeyId cr s of
       None \<Rightarrow> None
     | Some i \<Rightarrow> pick_secret cr ss k (if i = k then Some s else found))"

text \<open>\<open>subtle.verify\<close> of HMAC recomputes the tag; the comparison of bytes is that of lowercase hex.\<close>

definition verifyServiceRequest ::
  "crypto \<Rightarrow> string list \<Rightarrow> ServiceAuthHeaders \<Rightarrow> ServiceRequestFacts \<Rightarrow> int \<Rightarrow> int \<Rightarrow> int \<Rightarrow> NonceWindow
     \<Rightarrow> (ServiceAuthFailure + string) option \<times> NonceWindow" where
  "verifyServiceRequest cr secrets hs facts nowMs maxSkewMs windowMs seen =
     (case (header_value (h_timestamp hs), header_value (h_nonce hs), header_value (h_signature hs), header_value (h_keyId hs)) of
        (Some timestamp, Some nonce, Some sig, Some k) \<Rightarrow>
          if \<not> well_formed_headers timestamp nonce sig then (Some (Inl MALFORMED), seen)
          else (case pick_secret cr secrets k None of
              None \<Rightarrow> (None, seen)
            | Some None \<Rightarrow> (Some (Inl UNKNOWN_KEY), seen)
            | Some (Some secret) \<Rightarrow>
                if \<bar>nowMs - int (read_nat timestamp)\<bar> > maxSkewMs then (Some (Inl TIMESTAMP_SKEW), seen)
                else (case hexToBytes secret of
                    None \<Rightarrow> (None, seen)
                  | Some key \<Rightarrow>
                      if hmac cr key (stringToSign cr facts timestamp nonce) \<noteq> sig then (Some (Inl BAD_SIGNATURE), seen)
                      else (case admit windowMs seen nonce nowMs of
                          (False, seen') \<Rightarrow> (Some (Inl NONCE_REPLAYED), seen')
                        | (True, seen') \<Rightarrow> (Some (Inr k), seen'))))
      | _ \<Rightarrow> (Some (Inl MISSING_HEADERS), seen))"

section \<open>No replay\<close>

text \<open>A request as it arrives: the headers, the request and the clock when it is verified.\<close>

type_synonym arrival = "ServiceAuthHeaders \<times> ServiceRequestFacts \<times> int"

fun serve :: "crypto \<Rightarrow> string list \<Rightarrow> int \<Rightarrow> NonceWindow \<Rightarrow> arrival list \<Rightarrow> NonceWindow" where
  "serve cr secrets skew seen [] = seen"
| "serve cr secrets skew seen ((hs, facts, now) # as) =
     serve cr secrets skew (snd (verifyServiceRequest cr secrets hs facts now skew (2 * skew) seen)) as"

definition accepted_at ::
  "crypto \<Rightarrow> string list \<Rightarrow> int \<Rightarrow> NonceWindow \<Rightarrow> arrival \<Rightarrow> bool" where
  "accepted_at cr secrets skew seen a = (case a of (hs, facts, now) \<Rightarrow>
     case fst (verifyServiceRequest cr secrets hs facts now skew (2 * skew) seen) of
       Some (Inr _) \<Rightarrow> True | _ \<Rightarrow> False)"

text \<open>The nonce is remembered as seen no earlier than \<open>t\<close>.\<close>

definition remembers :: "string \<Rightarrow> int \<Rightarrow> NonceWindow \<Rightarrow> bool" where
  "remembers n t seen \<longleftrightarrow> (\<exists>s. map_of seen n = Some s \<and> t \<le> s)"

lemma map_of_filter_distinct:
  "distinct (map fst m) \<Longrightarrow> map_of (filter P m) k = (case map_of m k of None \<Rightarrow> None | Some v \<Rightarrow> if P (k, v) then Some v else None)"
  by (induction m) (auto split: option.splits simp: map_of_eq_None_iff rev_image_eqI)

lemma distinct_filter_fst: "distinct (map fst m) \<Longrightarrow> distinct (map fst (filter P m))"
  by (induction m) auto

lemma admit_distinct: "distinct (map fst seen) \<Longrightarrow> distinct (map fst (snd (admit w seen n now)))"
  by (simp add: admit_def Let_def distinct_filter_fst)

lemma admit_remembers:
  assumes "distinct (map fst seen)" and "remembers n t seen" and "now - t \<le> w"
  shows "remembers n t (snd (admit w seen n' now)) \<and> (n' = n \<longrightarrow> \<not> fst (admit w seen n' now))"
  using assms by (auto simp: remembers_def admit_def Let_def map_of_filter_distinct)

lemma admit_fresh: "fst (admit w seen n now) \<Longrightarrow> remembers n now (snd (admit w seen n now))"
  by (auto simp: admit_def Let_def remembers_def split: if_splits)

text \<open>How one request changes the window: not at all, or by admitting its nonce.\<close>

lemma verify_window:
  "snd (verifyServiceRequest cr ss hs f now skew w seen) \<in>
     {seen} \<union> {snd (admit w seen n now) | n. header_value (h_nonce hs) = Some n}"
  by (auto simp: verifyServiceRequest_def split: option.splits prod.splits bool.splits)

lemma verify_accepts:
  assumes "fst (verifyServiceRequest cr ss hs f now skew w seen) = Some (Inr k)"
  shows "\<exists>n ts. header_value (h_nonce hs) = Some n \<and> header_value (h_timestamp hs) = Some ts \<and>
     \<bar>now - int (read_nat ts)\<bar> \<le> skew \<and> fst (admit w seen n now) \<and>
     snd (verifyServiceRequest cr ss hs f now skew w seen) = snd (admit w seen n now)"
  using assms by (auto simp: verifyServiceRequest_def split: option.splits prod.splits bool.splits if_splits)

lemma verify_distinct:
  "distinct (map fst seen) \<Longrightarrow> distinct (map fst (snd (verifyServiceRequest cr ss hs f now skew w seen)))"
  using verify_window [of cr ss hs f now skew w seen] admit_distinct by fastforce

lemma verify_remembers:
  assumes "distinct (map fst seen)" and "remembers n t seen" and "now - t \<le> w"
  shows "remembers n t (snd (verifyServiceRequest cr ss hs f now skew w seen))"
  using verify_window [of cr ss hs f now skew w seen] admit_remembers [OF assms] assms(2) by fastforce

lemma serve_remembers:
  "distinct (map fst seen) \<Longrightarrow> remembers n t seen \<Longrightarrow> \<forall>(hs, f, now) \<in> set as. now - t \<le> 2 * skew \<Longrightarrow>
     distinct (map fst (serve cr ss skew seen as)) \<and> remembers n t (serve cr ss skew seen as)"
  by (induction cr ss skew seen as rule: serve.induct) (simp_all add: verify_distinct verify_remembers)

section \<open>Properties\<close>

text \<open>
  C26: an accepted request is never accepted again. When a request is accepted, then whatever
  requests are served after it, the same headers are refused at every later time of a clock
  that does not run backwards: the window of twice the skew forgets a nonce only when its
  timestamp no longer verifies.
\<close>

theorem no_replay:
  assumes d: "distinct (map fst seen)"
    and acc: "accepted_at cr ss skew seen (hs, f, now)"
    and later: "\<forall>(hs', f', now') \<in> set as. now' \<le> t" and t: "now \<le> t"
  shows "\<not> accepted_at cr ss skew (serve cr ss skew seen ((hs, f, now) # as)) (hs, f', t)"
proof
  let ?seen = "snd (verifyServiceRequest cr ss hs f now skew (2 * skew) seen)"
  let ?fin = "serve cr ss skew seen ((hs, f, now) # as)"
  assume "accepted_at cr ss skew ?fin (hs, f', t)"
  then obtain k where "fst (verifyServiceRequest cr ss hs f' t skew (2 * skew) ?fin) = Some (Inr k)"
    by (auto simp: accepted_at_def split: option.splits sum.splits)
  from verify_accepts [OF this] obtain n ts where n: "header_value (h_nonce hs) = Some n"
    and ts: "header_value (h_timestamp hs) = Some ts" "\<bar>t - int (read_nat ts)\<bar> \<le> skew"
    and fresh: "fst (admit (2 * skew) ?fin n t)" by blast
  from acc obtain k' where "fst (verifyServiceRequest cr ss hs f now skew (2 * skew) seen) = Some (Inr k')"
    by (auto simp: accepted_at_def split: option.splits sum.splits)
  from verify_accepts [OF this] n ts have "\<bar>now - int (read_nat ts)\<bar> \<le> skew"
    and adm: "fst (admit (2 * skew) seen n now)" "?seen = snd (admit (2 * skew) seen n now)" by auto
  with ts have le: "t - now \<le> 2 * skew" by linarith
  have "remembers n now ?seen" unfolding adm(2) by (rule admit_fresh [OF adm(1)])
  moreover have "distinct (map fst ?seen)" by (rule verify_distinct [OF d])
  moreover have "\<forall>(hs', f', now') \<in> set as. now' - now \<le> 2 * skew" using later le by fastforce
  ultimately have "distinct (map fst ?fin) \<and> remembers n now ?fin" using serve_remembers by simp
  with admit_remembers [of ?fin n now t "2 * skew" n] le fresh show False by simp
qed

definition toy_headers :: ServiceAuthHeaders where
  "toy_headers = \<lparr>h_timestamp = Some ''100'', h_nonce = Some (replicate 16 (CHR ''a'')),
     h_signature = Some (replicate 64 (CHR ''c'')), h_keyId = Some (''sat:'' @ replicate 16 (CHR ''a''))\<rparr>"

definition toy_facts :: ServiceRequestFacts where
  "toy_facts = \<lparr>req_method = ''post'', req_path = ''/x'', req_body = []\<rparr>"

theorem no_replay_witness:
  "\<not> accepted_at toy_crypto [''00''] 60 (serve toy_crypto [''00''] 60 [] [(toy_headers, toy_facts, 110)])
      (toy_headers, toy_facts, 150)"
proof -
  have "well_formed_headers ''100'' (replicate 16 (CHR ''a'')) (replicate 64 (CHR ''c''))"
    by code_simp
  moreover have "read_nat ''100'' = 100" by code_simp
  moreover have "serviceKeyId toy_crypto ''00'' = Some (''sat:'' @ replicate 16 (CHR ''a''))" by code_simp
  ultimately have "accepted_at toy_crypto [''00''] 60 [] (toy_headers, toy_facts, 110)"
    by (simp add: accepted_at_def verifyServiceRequest_def toy_headers_def header_value_def admit_def Let_def
        hexToBytes_def toy_hex) (simp add: toy_crypto_def)
  from no_replay [OF _ this, of "[]" 150 toy_facts] show ?thesis by simp
qed

end
