(* ===== verification/TxCodec.thy ===== *)
theory TxCodec imports Prelude "HOL-Library.Word" begin

text \<open>
  The Solana transaction codec the executor signs over (\<open>libs/execution/src/tx/codec.ts\<close>) with
  the base58 text of keys and signatures (\<open>libs/solana-hard-state/src/base58.ts\<close>): legacy and v0
  messages as bytes. What is encoded is decoded to the same transaction; the converse direction
  fails for the longer spellings of a length that the reader accepts.
\<close>

section \<open>Base58\<close>

type_synonym bytes = "8 word list"

definition ALPHABET :: string where
  "ALPHABET = ''123456789ABCDEFGHJKLMNPQRSTUVWXYZabcdefghijkmnopqrstuvwxyz''"

text \<open>
  Both directions multiply a little-endian digit list by one radix and add a digit, in the radix of
  the target: the \<open>for\<close> loop over the digits, then the \<open>while\<close> loop that pushes the rest of the carry.
\<close>

function carry_out :: "nat \<Rightarrow> nat \<Rightarrow> nat list" where
  "carry_out r c = (if c = 0 \<or> r < 2 then [] else (c mod r) # carry_out r (c div r))"
  by pat_completeness auto
termination by (relation "measure snd") auto

declare carry_out.simps [simp del]

fun mul_add :: "nat \<Rightarrow> nat \<Rightarrow> nat list \<Rightarrow> nat \<Rightarrow> nat list" where
  "mul_add r m [] c = carry_out r c"
| "mul_add r m (d # ds) c = ((c + d * m) mod r) # mul_add r m ds ((c + d * m) div r)"

definition base58Encode :: "bytes \<Rightarrow> string" where
  "base58Encode bs =
     (let ds = foldl (\<lambda>ds b. mul_add 58 256 ds (unat b)) [] (dropWhile (\<lambda>b. b = 0) bs)
      in replicate (length (takeWhile (\<lambda>b. b = 0) bs)) (CHR ''1'') @ map (\<lambda>d. ALPHABET ! d) (rev ds))"

fun index_from :: "nat \<Rightarrow> string \<Rightarrow> char \<Rightarrow> nat option" where
  "index_from k [] c = None"
| "index_from k (a # as) c = (if a = c then Some k else index_from (Suc k) as c)"

definition INDEX :: "char \<Rightarrow> nat option" where
  "INDEX c = index_from 0 ALPHABET c"

fun decode_digits :: "nat list \<Rightarrow> string \<Rightarrow> nat list option" where
  "decode_digits bs [] = Some bs"
| "decode_digits bs (c # cs) = (case INDEX c of None \<Rightarrow> None | Some v \<Rightarrow> decode_digits (mul_add 256 58 bs v) cs)"

definition base58Decode :: "string \<Rightarrow> bytes option" where
  "base58Decode t = map_option (\<lambda>bs. replicate (length (takeWhile (\<lambda>c. c = CHR ''1'') t)) 0 @ map word_of_nat (rev bs))
     (decode_digits [] (dropWhile (\<lambda>c. c = CHR ''1'') t))"

subsection \<open>The digits denote the number\<close>

fun digits_val :: "nat \<Rightarrow> nat list \<Rightarrow> nat" where
  "digits_val r [] = 0"
| "digits_val r (d # ds) = d + r * digits_val r ds"

definition canonical_digits :: "nat \<Rightarrow> nat list \<Rightarrow> bool" where
  "canonical_digits r ds \<longleftrightarrow> (\<forall>d \<in> set ds. d < r) \<and> (ds \<noteq> [] \<longrightarrow> last ds \<noteq> 0)"

lemma carry_out_val: "2 \<le> r \<Longrightarrow> digits_val r (carry_out r c) = c"
  by (induction r c rule: carry_out.induct) (subst carry_out.simps, simp)

lemma carry_out_canonical: "2 \<le> r \<Longrightarrow> canonical_digits r (carry_out r c) \<and> (carry_out r c = [] \<longleftrightarrow> c = 0)"
proof (induction r c rule: carry_out.induct)
  case (1 r c)
  show ?case
  proof (cases "c = 0")
    case True
    then show ?thesis by (simp add: canonical_digits_def carry_out.simps)
  next
    case False
    then have IH: "canonical_digits r (carry_out r (c div r))" "carry_out r (c div r) = [] \<longleftrightarrow> c div r = 0"
      using 1 by auto
    have e: "carry_out r c = (c mod r) # carry_out r (c div r)"
      using False 1(2) by (subst carry_out.simps) simp
    from IH False 1(2) show ?thesis by (auto simp: e canonical_digits_def div_eq_0_iff)
  qed
qed

lemma mul_add_val: "2 \<le> r \<Longrightarrow> digits_val r (mul_add r m ds c) = digits_val r ds * m + c"
proof (induction ds arbitrary: c)
  case (Cons d ds)
  have "(c + d * m) mod r + r * ((c + d * m) div r) = c + d * m" by simp
  with Cons show ?case by (simp add: algebra_simps)
qed (simp add: carry_out_val)

lemma mul_add_canonical:
  "2 \<le> r \<Longrightarrow> 0 < m \<Longrightarrow> canonical_digits r ds \<Longrightarrow> canonical_digits r (mul_add r m ds c)"
proof (induction ds arbitrary: c)
  case (Cons d ds)
  let ?c = "c + d * m"
  have "canonical_digits r ds" using Cons.prems by (auto simp: canonical_digits_def split: if_splits)
  with Cons have IH: "canonical_digits r (mul_add r m ds (?c div r))" by blast
  show ?case
  proof (cases "mul_add r m ds (?c div r) = []")
    case True
    then have "ds = []" by (cases ds) simp_all
    with True have "?c div r = 0" using carry_out_canonical [OF Cons.prems(1), of "?c div r"] by simp
    moreover have "d \<noteq> 0" using \<open>ds = []\<close> Cons.prems by (simp add: canonical_digits_def)
    ultimately show ?thesis using True Cons.prems by (auto simp: canonical_digits_def div_eq_0_iff)
  next
    case False
    with IH Cons.prems show ?thesis by (auto simp: canonical_digits_def)
  qed
qed (simp add: carry_out_canonical)

lemma digits_val_0: "canonical_digits r ds \<Longrightarrow> 2 \<le> r \<Longrightarrow> digits_val r ds = 0 \<longleftrightarrow> ds = []"
proof (induction ds)
  case (Cons d ds)
  then show ?case by (cases "ds = []") (auto simp: canonical_digits_def)
qed simp

lemma digits_unique:
  "2 \<le> r \<Longrightarrow> canonical_digits r xs \<Longrightarrow> canonical_digits r ys \<Longrightarrow> digits_val r xs = digits_val r ys \<Longrightarrow> xs = ys"
proof (induction xs arbitrary: ys)
  case Nil
  then show ?case using digits_val_0 [of r ys] by simp
next
  case (Cons x xs)
  then obtain y zs where ys: "ys = y # zs" using digits_val_0 [of r "x # xs"] by (cases ys) simp_all
  have lt: "x < r" "y < r" and c: "canonical_digits r xs" "canonical_digits r zs"
    using Cons.prems ys by (auto simp: canonical_digits_def split: if_splits)
  have v: "x + r * digits_val r xs = y + r * digits_val r zs" using Cons.prems ys by simp
  then have "(x + r * digits_val r xs) mod r = (y + r * digits_val r zs) mod r" by simp
  then have "x = y" using lt by simp
  with v Cons.prems(1) have "digits_val r xs = digits_val r zs" by simp
  with Cons.IH [OF Cons.prems(1) c] \<open>x = y\<close> ys show ?case by simp
qed

lemma fold_mul_add:
  assumes "2 \<le> r" and "0 < m" and "canonical_digits r ds"
  shows "canonical_digits r (foldl (mul_add r m) ds xs) \<and>
     digits_val r (foldl (mul_add r m) ds xs) = digits_val r ds * m ^ length xs + digits_val m (rev xs)"
  using assms(3)
proof (induction xs arbitrary: ds)
  case (Cons x xs)
  have app: "digits_val m (ys @ [x]) = digits_val m ys + m ^ length ys * x" for ys
    by (induction ys) (simp_all add: algebra_simps)
  have "canonical_digits r (mul_add r m ds x)" by (rule mul_add_canonical [OF assms(1,2) Cons.prems])
  from Cons.IH [OF this] assms(1) show ?case by (simp add: mul_add_val app algebra_simps)
qed simp

subsection \<open>The alphabet\<close>

lemma alphabet_index: "d < 58 \<Longrightarrow> INDEX (ALPHABET ! d) = Some d"
proof -
  have "list_all (\<lambda>d. INDEX (ALPHABET ! d) = Some d) [0..<58]" by code_simp
  then show "d < 58 \<Longrightarrow> ?thesis" by (simp add: list_all_iff)
qed

lemma alphabet_one: "d < 58 \<Longrightarrow> ALPHABET ! d = CHR ''1'' \<longleftrightarrow> d = 0"
proof -
  have "list_all (\<lambda>d. (ALPHABET ! d = CHR ''1'') = (d = 0)) [0..<58]" by code_simp
  then show "d < 58 \<Longrightarrow> ?thesis" by (simp add: list_all_iff)
qed

lemma decode_digits_map:
  "\<forall>d \<in> set ds. d < 58 \<Longrightarrow> decode_digits bs (map (\<lambda>d. ALPHABET ! d) ds) = Some (foldl (mul_add 256 58) bs ds)"
  by (induction ds arbitrary: bs) (simp_all add: alphabet_index)

lemma base58_inverse: "base58Decode (base58Encode bs) = Some bs"
proof -
  let ?z = "takeWhile (\<lambda>b. b = 0) bs" and ?n = "dropWhile (\<lambda>b. b = 0) bs"
  let ?xs = "map unat ?n"
  let ?ds = "foldl (mul_add 58 256) [] ?xs"
  have ds: "foldl (\<lambda>ds b. mul_add 58 256 ds (unat b)) [] ?n = ?ds"
    by (simp add: foldl_map)
  have c58: "canonical_digits 58 ?ds" and v58: "digits_val 58 ?ds = digits_val 256 (rev ?xs)"
    using fold_mul_add [of 58 256 "[]" ?xs] by (simp_all add: canonical_digits_def)
  have lt: "\<forall>d \<in> set ?ds. d < 58" using c58 by (simp add: canonical_digits_def)
  have lead: "dropWhile (\<lambda>c. c = CHR ''1'') (map (\<lambda>d. ALPHABET ! d) (rev ?ds)) = map (\<lambda>d. ALPHABET ! d) (rev ?ds)
      \<and> takeWhile (\<lambda>c. c = CHR ''1'') (map (\<lambda>d. ALPHABET ! d) (rev ?ds)) = []"
  proof (cases "rev ?ds")
    case (Cons d es)
    then have "?ds = rev es @ [d]" by (simp add: rev_eq_Cons_iff)
    then have "d \<in> set ?ds" and "?ds \<noteq> []" and "last ?ds = d" by simp_all
    then have "ALPHABET ! d \<noteq> CHR ''1''" using c58 lt by (simp add: canonical_digits_def alphabet_one)
    then show ?thesis by (simp add: Cons)
  qed simp
  have byte: "unat d < 256" for d :: "8 word"
  proof -
    have "unat d < 2 ^ LENGTH(8)" by (rule unsigned_less)
    then show ?thesis by simp
  qed
  have "canonical_digits 256 (rev ?xs)"
  proof (cases ?n)
    case (Cons b cs)
    then have "b \<noteq> 0" by (metis (mono_tags, lifting) dropWhile_eq_Cons_conv)
    then have "unat b \<noteq> 0" by (simp add: unat_eq_0)
    then show ?thesis using byte by (auto simp: canonical_digits_def Cons)
  qed (simp add: canonical_digits_def byte)
  moreover have "canonical_digits 256 (foldl (mul_add 256 58) [] (rev ?ds))"
    and "digits_val 256 (foldl (mul_add 256 58) [] (rev ?ds)) = digits_val 58 ?ds"
    using fold_mul_add [of 256 58 "[]" "rev ?ds"] by (simp_all add: canonical_digits_def)
  ultimately have eq: "foldl (mul_add 256 58) [] (rev ?ds) = rev ?xs"
    using v58 by (intro digits_unique [of 256]) simp_all
  have tw: "takeWhile (\<lambda>c. c = CHR ''1'') (replicate n (CHR ''1'') @ t) = replicate n (CHR ''1'') @ takeWhile (\<lambda>c. c = CHR ''1'') t"
    and dw: "dropWhile (\<lambda>c. c = CHR ''1'') (replicate n (CHR ''1'') @ t) = dropWhile (\<lambda>c. c = CHR ''1'') t" for n t
    by (induction n) simp_all
  have z: "replicate (length ?z) 0 = ?z" by (induction bs) auto
  have "base58Decode (base58Encode bs) = Some (replicate (length ?z) 0 @ map word_of_nat ?xs)"
    using lead lt eq
    by (simp add: base58Decode_def base58Encode_def Let_def ds tw dw decode_digits_map)
  also have "map word_of_nat ?xs = ?n" by (simp add: comp_def)
  finally show ?thesis by (simp add: z)
qed

section \<open>Transactions\<close>

record CompiledInstruction =
  programIdIndex :: nat
  accountIndexes :: "nat list"
  data :: bytes

record AddressTableLookup =
  accountKey :: string
  writableIndexes :: "nat list"
  readonlyIndexes :: "nat list"

datatype message_version = legacy | v0

record DecodedMessage =
  version :: message_version
  numRequiredSignatures :: nat
  numReadonlySigned :: nat
  numReadonlyUnsigned :: nat
  staticAccountKeys :: "string list"
  recentBlockhash :: string
  instructions :: "CompiledInstruction list"
  addressTableLookups :: "AddressTableLookup list"

record DecodedTransaction =
  signatures :: "string option list"
  message :: DecodedMessage
  messageBytes :: bytes

datatype codec_error =
    TRUNCATED | COMPACT_TOO_LONG | UNSUPPORTED_VERSION nat | TRAILING_BYTES | COMPACT_RANGE | NOT_BASE58

section \<open>Reading\<close>

text \<open>
  The \<open>Reader\<close> over the bytes it has left. The lengths it reads are sums of disjoint seven-bit
  groups, so \<open>value |= (b & 0x7f) << shift\<close> is an addition.
\<close>

type_synonym 'a reader = "(bytes, codec_error, 'a) prog"

definition u8 :: "nat reader" where
  "u8 = (\<lambda>s. case s of [] \<Rightarrow> (Inl TRUNCATED, s) | b # rest \<Rightarrow> (Inr (unat b), rest))"

definition take_bytes :: "nat \<Rightarrow> bytes reader" where
  "take_bytes n = (\<lambda>s. if n > length s then (Inl TRUNCATED, s) else (Inr (take n s), drop n s))"

fun compact_from :: "nat \<Rightarrow> nat \<Rightarrow> nat \<Rightarrow> nat reader" where
  "compact_from 0 shift val = throw COMPACT_TOO_LONG"
| "compact_from (Suc i) shift val = bind u8 (\<lambda>b.
     if b < 128 then return (val + b * 2 ^ shift) else compact_from i (shift + 7) (val + (b - 128) * 2 ^ shift))"

definition compactU16 :: "nat reader" where
  "compactU16 = compact_from 3 0 0"

definition read_many :: "nat \<Rightarrow> 'a reader \<Rightarrow> 'a list reader" where
  "read_many n m = for_collect [0..<n] (\<lambda>_. m)"

text \<open>A length, then that many elements.\<close>

definition read_counted :: "'a reader \<Rightarrow> 'a list reader" where
  "read_counted m = bind compactU16 (\<lambda>n. read_many n m)"

definition read_key :: "string reader" where
  "read_key = bind (take_bytes 32) (\<lambda>b. return (base58Encode b))"

definition read_signature :: "string option reader" where
  "read_signature = bind (take_bytes 64) (\<lambda>s. return (if list_all (\<lambda>b. b = 0) s then None else Some (base58Encode s)))"

definition read_instruction :: "CompiledInstruction reader" where
  "read_instruction = bind u8 (\<lambda>p. bind (read_counted u8) (\<lambda>ixs. bind (bind compactU16 take_bytes) (\<lambda>d.
     return \<lparr>programIdIndex = p, accountIndexes = ixs, data = d\<rparr>)))"

definition read_lookup :: "AddressTableLookup reader" where
  "read_lookup = bind read_key (\<lambda>k. bind (read_counted u8) (\<lambda>ws. bind (read_counted u8) (\<lambda>rs.
     return \<lparr>accountKey = k, writableIndexes = ws, readonlyIndexes = rs\<rparr>)))"

definition read_version :: "(message_version \<times> nat) reader" where
  "read_version = bind u8 (\<lambda>first.
     if first \<ge> 128 then (if first - 128 \<noteq> 0 then throw (UNSUPPORTED_VERSION (first - 128))
                        else bind u8 (\<lambda>n. return (v0, n)))
     else return (legacy, first))"

definition read_message :: "DecodedMessage reader" where
  "read_message = bind read_version (\<lambda>vr. bind u8 (\<lambda>ros. bind u8 (\<lambda>rou.
     bind (read_counted read_key) (\<lambda>keys. bind read_key (\<lambda>bh.
     bind (read_counted read_instruction) (\<lambda>ixs.
     bind (if fst vr = v0 then read_counted read_lookup else return []) (\<lambda>lks.
       return \<lparr>version = fst vr, numRequiredSignatures = snd vr, numReadonlySigned = ros, numReadonlyUnsigned = rou,
         staticAccountKeys = keys, recentBlockhash = bh, instructions = ixs, addressTableLookups = lks\<rparr>)))))))"

definition decodeTransaction :: "bytes \<Rightarrow> codec_error + DecodedTransaction" where
  "decodeTransaction bs = fst (bind (read_counted read_signature) (\<lambda>sigs.
     bind (asks id) (\<lambda>start. bind read_message (\<lambda>m. bind (asks id) (\<lambda>rest.
       if rest \<noteq> [] then throw TRAILING_BYTES
       else return \<lparr>signatures = sigs, message = m, messageBytes = start\<rparr>)))) bs)"

section \<open>Writing\<close>

function write_groups :: "nat \<Rightarrow> bytes" where
  "write_groups v = (if v div 128 = 0 then [word_of_nat (v mod 128)]
     else word_of_nat (v mod 128 + 128) # write_groups (v div 128))"
  by pat_completeness auto
termination by (relation "measure id") (auto simp: div_less_dividend)

declare write_groups.simps [simp del]

definition writeCompactU16 :: "nat \<Rightarrow> codec_error + bytes" where
  "writeCompactU16 v = (if v > 65535 then Inl COMPACT_RANGE else Inr (write_groups v))"

definition write_base58 :: "string \<Rightarrow> codec_error + bytes" where
  "write_base58 k = (case base58Decode k of None \<Rightarrow> Inl NOT_BASE58 | Some b \<Rightarrow> Inr b)"

definition bytes_of :: "nat list \<Rightarrow> bytes" where
  "bytes_of ns = map word_of_nat ns"

text \<open>A length, then every element.\<close>

definition write_counted :: "('a \<Rightarrow> codec_error + bytes) \<Rightarrow> 'a list \<Rightarrow> codec_error + bytes" where
  "write_counted f xs = ebind (writeCompactU16 (length xs)) (\<lambda>n. ebind (emap f xs) (\<lambda>bs. Inr (n @ concat bs)))"

definition write_instruction :: "CompiledInstruction \<Rightarrow> codec_error + bytes" where
  "write_instruction ix = ebind (writeCompactU16 (length (accountIndexes ix))) (\<lambda>n.
     ebind (writeCompactU16 (length (data ix))) (\<lambda>d.
       Inr (bytes_of [programIdIndex ix] @ n @ bytes_of (accountIndexes ix) @ d @ data ix)))"

definition write_lookup :: "AddressTableLookup \<Rightarrow> codec_error + bytes" where
  "write_lookup l = ebind (write_base58 (accountKey l)) (\<lambda>k.
     ebind (writeCompactU16 (length (writableIndexes l))) (\<lambda>w.
     ebind (writeCompactU16 (length (readonlyIndexes l))) (\<lambda>r.
       Inr (k @ w @ bytes_of (writableIndexes l) @ r @ bytes_of (readonlyIndexes l)))))"

definition encodeMessage :: "DecodedMessage \<Rightarrow> codec_error + bytes" where
  "encodeMessage m = ebind (write_counted write_base58 (staticAccountKeys m)) (\<lambda>keys.
     ebind (write_base58 (recentBlockhash m)) (\<lambda>bh.
     ebind (write_counted write_instruction (instructions m)) (\<lambda>ixs.
     ebind (if version m = v0 then write_counted write_lookup (addressTableLookups m) else Inr []) (\<lambda>lks.
       Inr ((if version m = v0 then [0x80] else []) @
            bytes_of [numRequiredSignatures m, numReadonlySigned m, numReadonlyUnsigned m] @ keys @ bh @ ixs @ lks)))))"

definition write_signature :: "string option \<Rightarrow> codec_error + bytes" where
  "write_signature s = (case s of None \<Rightarrow> Inr (replicate 64 0) | Some t \<Rightarrow> write_base58 t)"

definition encodeTransaction :: "string option list \<Rightarrow> DecodedMessage \<Rightarrow> codec_error + bytes" where
  "encodeTransaction sigs m = ebind (write_counted write_signature sigs) (\<lambda>s.
     ebind (encodeMessage m) (\<lambda>b. Inr (s @ b)))"

section \<open>What is written is read back\<close>

definition reads :: "'a reader \<Rightarrow> 'a \<Rightarrow> bytes \<Rightarrow> bool" where
  "reads r x bs \<longleftrightarrow> (\<forall>rest. r (bs @ rest) = (Inr x, rest))"

definition codes :: "('a \<Rightarrow> codec_error + bytes) \<Rightarrow> 'a reader \<Rightarrow> 'a \<Rightarrow> bool" where
  "codes w r x \<longleftrightarrow> (\<exists>b. w x = Inr b \<and> reads r x b)"

lemma reads_bind: "reads m a bs \<Longrightarrow> reads (f a) b cs \<Longrightarrow> reads (bind m f) b (bs @ cs)"
  by (simp add: reads_def bind_run)

lemma reads_end: "reads m a bs \<Longrightarrow> f a = return b \<Longrightarrow> reads (bind m f) b bs"
  by (simp add: reads_def bind_run)

lemma reads_return: "reads (return a) a []"
  by (simp add: reads_def)

lemma reads_u8: "n < 256 \<Longrightarrow> reads u8 n [word_of_nat n]"
  by (simp add: reads_def u8_def unat_of_nat)

lemma reads_take: "length b = n \<Longrightarrow> reads (take_bytes n) b b"
  by (auto simp: reads_def take_bytes_def)

lemma reads_many: "list_all2 (reads r) xs bss \<Longrightarrow> reads (read_many (length xs) r) xs (concat bss)"
proof -
  have "list_all2 (reads r) xs bss \<Longrightarrow> length js = length xs \<Longrightarrow>
      reads (for_collect js (\<lambda>_. r)) xs (concat bss)" for js :: "nat list"
  proof (induction xs bss arbitrary: js rule: list_all2_induct)
    case (Cons x xs b bs)
    then obtain j ks where js: "js = j # ks" "length ks = length xs" by (auto simp: length_Suc_conv)
    have "reads (bind (for_collect ks (\<lambda>_. r)) (\<lambda>ys. return (x # ys))) (x # xs) (concat bs)"
      by (rule reads_end [OF Cons.IH [OF js(2)]]) simp
    from reads_bind [OF Cons.hyps(1), where f = "\<lambda>x. bind (for_collect ks (\<lambda>_. r)) (\<lambda>ys. return (x # ys))", OF this] js
    show ?case by simp
  qed (simp add: reads_return)
  then show "list_all2 (reads r) xs bss \<Longrightarrow> ?thesis" by (simp add: read_many_def)
qed

lemma write_groups_cases:
  "v < 128 \<Longrightarrow> write_groups v = [word_of_nat v]"
  "128 \<le> v \<Longrightarrow> v < 16384 \<Longrightarrow> write_groups v = [word_of_nat (v mod 128 + 128), word_of_nat (v div 128)]"
  "16384 \<le> v \<Longrightarrow> v < 2097152 \<Longrightarrow> write_groups v =
     [word_of_nat (v mod 128 + 128), word_of_nat (v div 128 mod 128 + 128), word_of_nat (v div 128 div 128)]"
proof -
  have a: "v < 128 \<Longrightarrow> write_groups v = [word_of_nat v]" for v
    by (subst write_groups.simps) simp
  have s: "128 \<le> v \<Longrightarrow> write_groups v = word_of_nat (v mod 128 + 128) # write_groups (v div 128)" for v
    by (subst write_groups.simps) (simp add: div_eq_0_iff)
  show "v < 128 \<Longrightarrow> write_groups v = [word_of_nat v]" by (rule a)
  show "128 \<le> v \<Longrightarrow> v < 16384 \<Longrightarrow> write_groups v = [word_of_nat (v mod 128 + 128), word_of_nat (v div 128)]"
    by (simp add: s a)
  assume v: "16384 \<le> v" "v < 2097152"
  then have "128 \<le> v div 128" "v div 128 div 128 < 128" by (simp_all add: div_mult2_eq [symmetric])
  with v show "write_groups v =
     [word_of_nat (v mod 128 + 128), word_of_nat (v div 128 mod 128 + 128), word_of_nat (v div 128 div 128)]"
    by (simp add: s a)
qed

lemma u8_run: "n < 256 \<Longrightarrow> u8 (word_of_nat n # rest) = (Inr n, rest)"
  using reads_u8 [of n] by (simp add: reads_def)

lemma reads_compact: "v \<le> 65535 \<Longrightarrow> reads compactU16 v (write_groups v)"
proof -
  assume v: "v \<le> 65535"
  consider "v < 128" | "128 \<le> v" "v < 16384" | "16384 \<le> v" "v < 2097152" using v by linarith
  then show ?thesis
  proof cases
    case 1
    then show ?thesis by (simp add: reads_def compactU16_def numeral_3_eq_3 bind_run u8_run write_groups_cases del: of_nat_add)
  next
    case 2
    then have "v div 128 < 128" by simp
    with 2 show ?thesis by (simp add: reads_def compactU16_def numeral_3_eq_3 bind_run u8_run write_groups_cases del: of_nat_add)
  next
    case 3
    have "v div 128 div 128 < 128" using v by (simp add: div_mult2_eq [symmetric])
    moreover have "v mod 128 + v div 128 mod 128 * 128 + v div 128 div 128 * 16384 = v"
      using mod_mult_div_eq [of "v div 128" 128] mod_mult_div_eq [of v 128] by linarith
    ultimately show ?thesis using 3
      by (simp add: reads_def compactU16_def numeral_3_eq_3 bind_run u8_run write_groups_cases del: of_nat_add)
  qed
qed

text \<open>A key is the base58 text of 32 bytes, a signature that of 64 bytes that are not all zero.\<close>

definition text_of_bytes :: "nat \<Rightarrow> string \<Rightarrow> bool" where
  "text_of_bytes n k = (case base58Decode k of None \<Rightarrow> False | Some b \<Rightarrow> length b = n \<and> base58Encode b = k)"

definition signature_ok :: "string option \<Rightarrow> bool" where
  "signature_ok s = (case s of None \<Rightarrow> True | Some t \<Rightarrow> text_of_bytes 64 t \<and> base58Decode t \<noteq> Some (replicate 64 0))"

definition counted_ok :: "'a list \<Rightarrow> bool" where
  "counted_ok xs \<longleftrightarrow> length xs \<le> 65535"

definition bytes_ok :: "nat list \<Rightarrow> bool" where
  "bytes_ok ns \<longleftrightarrow> list_all (\<lambda>n. n < 256) ns"

definition instruction_ok :: "CompiledInstruction \<Rightarrow> bool" where
  "instruction_ok ix \<longleftrightarrow> programIdIndex ix < 256 \<and> bytes_ok (accountIndexes ix) \<and>
     counted_ok (accountIndexes ix) \<and> counted_ok (data ix)"

definition lookup_ok :: "AddressTableLookup \<Rightarrow> bool" where
  "lookup_ok l \<longleftrightarrow> text_of_bytes 32 (accountKey l) \<and> bytes_ok (writableIndexes l) \<and> bytes_ok (readonlyIndexes l) \<and>
     counted_ok (writableIndexes l) \<and> counted_ok (readonlyIndexes l)"

definition message_ok :: "DecodedMessage \<Rightarrow> bool" where
  "message_ok m \<longleftrightarrow> numRequiredSignatures m < (if version m = legacy then 128 else 256) \<and>
     bytes_ok [numReadonlySigned m, numReadonlyUnsigned m] \<and>
     counted_ok (staticAccountKeys m) \<and> list_all (text_of_bytes 32) (staticAccountKeys m) \<and>
     text_of_bytes 32 (recentBlockhash m) \<and>
     counted_ok (instructions m) \<and> list_all instruction_ok (instructions m) \<and>
     counted_ok (addressTableLookups m) \<and> list_all lookup_ok (addressTableLookups m) \<and>
     (version m = legacy \<longrightarrow> addressTableLookups m = [])"

definition transaction_ok :: "string option list \<Rightarrow> DecodedMessage \<Rightarrow> bool" where
  "transaction_ok sigs m \<longleftrightarrow> counted_ok sigs \<and> list_all signature_ok sigs \<and> message_ok m"

lemma reads_counted:
  "list_all2 (reads r) xs bss \<Longrightarrow> counted_ok xs \<Longrightarrow>
     reads (read_counted r) xs (write_groups (length xs) @ concat bss)"
  unfolding read_counted_def counted_ok_def
  by (rule reads_bind, rule reads_compact, assumption, rule reads_many)

lemma codes_counted:
  assumes "counted_ok xs" and "\<And>x. x \<in> set xs \<Longrightarrow> codes f r x"
  shows "codes (write_counted f) (read_counted r) xs"
proof -
  have "\<exists>bss. emap f xs = Inr bss \<and> list_all2 (reads r) xs bss"
    using assms(2) by (induction xs) (force simp: codes_def)+
  then obtain bss where b: "emap f xs = Inr bss" "list_all2 (reads r) xs bss" by blast
  from reads_counted [OF b(2) assms(1)] b(1) assms(1) show ?thesis by (simp add: codes_def write_counted_def writeCompactU16_def counted_ok_def)
qed

lemma reads_indexes:
  "counted_ok ns \<Longrightarrow> bytes_ok ns \<Longrightarrow> reads (read_counted u8) ns (write_groups (length ns) @ bytes_of ns)"
proof -
  assume c: "counted_ok ns" and ok: "bytes_ok ns"
  have "list_all2 (reads u8) ns (map (\<lambda>n. [word_of_nat n]) ns)"
    using ok by (induction ns) (simp_all add: bytes_ok_def reads_u8)
  from reads_counted [OF this c] show ?thesis by (simp add: bytes_of_def concat_map_singleton)
qed

lemma reads_key: "length b = 32 \<Longrightarrow> reads read_key (base58Encode b) b"
  unfolding read_key_def by (rule reads_end, rule reads_take) simp_all

lemma codes_key: "text_of_bytes 32 k \<Longrightarrow> codes write_base58 read_key k"
  using reads_key by (fastforce simp: codes_def write_base58_def text_of_bytes_def split: option.splits)

lemma codes_signature: "signature_ok s \<Longrightarrow> codes write_signature read_signature s"
proof (cases s)
  case None
  have "reads read_signature None (replicate 64 0)"
    unfolding read_signature_def by (rule reads_end, rule reads_take) (simp_all add: list_all_iff)
  then show ?thesis by (simp add: codes_def write_signature_def None)
next
  case (Some t)
  assume "signature_ok s"
  then obtain b where b: "base58Decode t = Some b" "length b = 64" "base58Encode b = t" "b \<noteq> replicate 64 0"
    by (auto simp: signature_ok_def text_of_bytes_def Some split: option.splits)
  then have "\<not> list_all (\<lambda>b. b = 0) b" using replicate_eqI [of b 64 0] by (auto simp only: list_all_iff)
  with b(3) have "(if list_all (\<lambda>b. b = 0) b then None else Some (base58Encode b)) = Some t" by simp
  then have "reads read_signature (Some t) b"
    unfolding read_signature_def by (intro reads_end [OF reads_take [OF b(2)]]) (rule arg_cong [where f = return])
  with b show ?thesis by (simp add: codes_def write_signature_def write_base58_def Some)
qed

lemma codes_instruction: "instruction_ok ix \<Longrightarrow> codes write_instruction read_instruction ix"
proof -
  assume ok: "instruction_ok ix"
  have "reads (bind compactU16 take_bytes) (data ix) (write_groups (length (data ix)) @ data ix)"
    by (rule reads_bind, rule reads_compact) (use ok in \<open>simp_all add: instruction_ok_def counted_ok_def reads_take\<close>)
  moreover have "reads (read_counted u8) (accountIndexes ix) (write_groups (length (accountIndexes ix)) @ bytes_of (accountIndexes ix))"
    by (rule reads_indexes) (use ok in \<open>simp_all add: instruction_ok_def\<close>)
  moreover have "reads u8 (programIdIndex ix) [word_of_nat (programIdIndex ix)]"
    by (rule reads_u8) (use ok in \<open>simp add: instruction_ok_def\<close>)
  ultimately have "reads read_instruction ix ([word_of_nat (programIdIndex ix)] @
      (write_groups (length (accountIndexes ix)) @ bytes_of (accountIndexes ix)) @ (write_groups (length (data ix)) @ data ix))"
    unfolding read_instruction_def by (elim reads_bind reads_end) (cases ix, simp)
  with ok show ?thesis
    by (simp add: codes_def write_instruction_def writeCompactU16_def instruction_ok_def counted_ok_def bytes_of_def)
qed

lemma codes_lookup: "lookup_ok l \<Longrightarrow> codes write_lookup read_lookup l"
proof -
  assume ok: "lookup_ok l"
  then obtain b where b: "write_base58 (accountKey l) = Inr b" "reads read_key (accountKey l) b"
    using codes_key [of "accountKey l"] by (auto simp: lookup_ok_def codes_def)
  note b(2)
  moreover have "reads (read_counted u8) (writableIndexes l) (write_groups (length (writableIndexes l)) @ bytes_of (writableIndexes l))"
    by (rule reads_indexes) (use ok in \<open>simp_all add: lookup_ok_def\<close>)
  moreover have "reads (read_counted u8) (readonlyIndexes l) (write_groups (length (readonlyIndexes l)) @ bytes_of (readonlyIndexes l))"
    by (rule reads_indexes) (use ok in \<open>simp_all add: lookup_ok_def\<close>)
  ultimately have "reads read_lookup l (b @ (write_groups (length (writableIndexes l)) @ bytes_of (writableIndexes l)) @
      (write_groups (length (readonlyIndexes l)) @ bytes_of (readonlyIndexes l)))"
    unfolding read_lookup_def by (elim reads_bind reads_end) (cases l, simp)
  with ok b(1) show ?thesis
    by (simp add: codes_def write_lookup_def writeCompactU16_def lookup_ok_def counted_ok_def)
qed

lemma codes_message: "message_ok m \<Longrightarrow> codes encodeMessage read_message m"
proof -
  assume ok: "message_ok m"
  have "codes (write_counted write_base58) (read_counted read_key) (staticAccountKeys m)"
    by (rule codes_counted) (use ok codes_key in \<open>auto simp: message_ok_def list_all_iff\<close>)
  then obtain ks where ks: "write_counted write_base58 (staticAccountKeys m) = Inr ks"
    "reads (read_counted read_key) (staticAccountKeys m) ks" by (auto simp: codes_def)
  obtain bh where bh: "write_base58 (recentBlockhash m) = Inr bh" "reads read_key (recentBlockhash m) bh"
    using codes_key [of "recentBlockhash m"] ok by (auto simp: codes_def message_ok_def)
  have "codes (write_counted write_instruction) (read_counted read_instruction) (instructions m)"
    by (rule codes_counted) (use ok codes_instruction in \<open>auto simp: message_ok_def list_all_iff\<close>)
  then obtain iss where ixs: "write_counted write_instruction (instructions m) = Inr iss"
    "reads (read_counted read_instruction) (instructions m) iss" by (auto simp: codes_def)
  have "codes (write_counted write_lookup) (read_counted read_lookup) (addressTableLookups m)"
    by (rule codes_counted) (use ok codes_lookup in \<open>auto simp: message_ok_def list_all_iff\<close>)
  then obtain ls where ls: "write_counted write_lookup (addressTableLookups m) = Inr ls"
    "reads (read_counted read_lookup) (addressTableLookups m) ls" by (auto simp: codes_def)
  let ?lead = "(if version m = v0 then [0x80] else []) @ [word_of_nat (numRequiredSignatures m)]"
  have lead: "reads read_version (version m, numRequiredSignatures m) ?lead"
  proof -
    have n: "numRequiredSignatures m < 256" using ok by (simp add: message_ok_def split: if_splits)
    have v: "u8 (0x80 # rest) = (Inr 128, rest)" for rest by (simp add: u8_def)
    show ?thesis
      by (cases "version m") (use ok n in \<open>simp_all add: message_ok_def read_version_def reads_def bind_run u8_run v\<close>)
  qed
  let ?lk = "if version m = v0 then ls else []"
  have lk: "reads (if fst (version m, numRequiredSignatures m) = v0 then read_counted read_lookup else return [])
      (addressTableLookups m) ?lk"
    using ls ok by (cases "version m") (simp_all add: message_ok_def reads_return)
  have ro: "reads u8 (numReadonlySigned m) [word_of_nat (numReadonlySigned m)]"
    "reads u8 (numReadonlyUnsigned m) [word_of_nat (numReadonlyUnsigned m)]"
    using ok by (simp_all add: message_ok_def bytes_ok_def reads_u8)
  have "reads read_message m (?lead @ [word_of_nat (numReadonlySigned m)] @ [word_of_nat (numReadonlyUnsigned m)] @
      ks @ bh @ iss @ ?lk)"
    unfolding read_message_def
    by (rule reads_bind [OF lead], rule reads_bind [OF ro(1)], rule reads_bind [OF ro(2)], rule reads_bind [OF ks(2)],
        rule reads_bind [OF bh(2)], rule reads_bind [OF ixs(2)], rule reads_end [OF lk]) (cases m, simp)
  moreover have "encodeMessage m = Inr (?lead @ [word_of_nat (numReadonlySigned m)] @ [word_of_nat (numReadonlyUnsigned m)] @
      ks @ bh @ iss @ ?lk)"
    by (simp add: encodeMessage_def ks bh ixs ls bytes_of_def)
  ultimately show ?thesis by (auto simp: codes_def)
qed

section \<open>Properties\<close>

text \<open>
  C32: the bytes the executor signs decode to the transaction it built: for every well-formed legacy
  or v0 transaction the encoding succeeds, and decoding it gives back the same signatures and
  message, with exactly the encoded message as the bytes to be signed.
\<close>

theorem transaction_roundtrip:
  assumes "transaction_ok sigs m"
  shows "\<exists>b bs. encodeMessage m = Inr b \<and> encodeTransaction sigs m = Inr bs \<and>
    decodeTransaction bs = Inr \<lparr>signatures = sigs, message = m, messageBytes = b\<rparr>"
proof -
  obtain b where b: "encodeMessage m = Inr b" "reads read_message m b"
    using codes_message assms by (auto simp: codes_def transaction_ok_def)
  have "codes (write_counted write_signature) (read_counted read_signature) sigs"
    by (rule codes_counted) (use assms codes_signature in \<open>auto simp: transaction_ok_def list_all_iff\<close>)
  then obtain s where s: "write_counted write_signature sigs = Inr s" "reads (read_counted read_signature) sigs s"
    by (auto simp: codes_def)
  have "read_message b = (Inr m, [])" using b(2) [unfolded reads_def, rule_format, of "[]"] by simp
  moreover have "read_counted read_signature (s @ b) = (Inr sigs, b)" using s(2) by (simp add: reads_def)
  ultimately have "decodeTransaction (s @ b) = Inr \<lparr>signatures = sigs, message = m, messageBytes = b\<rparr>"
    by (simp add: decodeTransaction_def bind_run)
  with b s show ?thesis by (simp add: encodeTransaction_def)
qed

definition toy_key_text :: string where
  "toy_key_text = replicate 32 (CHR ''1'')"

definition toy_message :: DecodedMessage where
  "toy_message = \<lparr>version = v0, numRequiredSignatures = 1, numReadonlySigned = 0, numReadonlyUnsigned = 1,
     staticAccountKeys = [toy_key_text], recentBlockhash = toy_key_text,
     instructions = [\<lparr>programIdIndex = 0, accountIndexes = [0, 1], data = [2, 0, 0, 0]\<rparr>],
     addressTableLookups = [\<lparr>accountKey = toy_key_text, writableIndexes = [3], readonlyIndexes = []\<rparr>]\<rparr>"

lemma base58_zeros:
  "base58Encode (replicate n 0) = replicate n (CHR ''1'')"
  "base58Decode (replicate n (CHR ''1'')) = Some (replicate n 0)"
proof -
  have "takeWhile (\<lambda>y. y = x) (replicate n x) = replicate n x \<and> dropWhile (\<lambda>y. y = x) (replicate n x) = []" for x :: char
    by (induction n) simp_all
  note this [simp]
  have "takeWhile (\<lambda>y. y = x) (replicate n x) = replicate n x \<and> dropWhile (\<lambda>y. y = x) (replicate n x) = []" for x :: "8 word"
    by (induction n) simp_all
  note this [simp]
  show "base58Encode (replicate n 0) = replicate n (CHR ''1'')"
    "base58Decode (replicate n (CHR ''1'')) = Some (replicate n 0)"
    by (simp_all add: base58Encode_def base58Decode_def)
qed

lemma text_of_zeros: "text_of_bytes n (replicate n (CHR ''1''))"
  by (simp add: text_of_bytes_def base58_zeros)

theorem transaction_roundtrip_witness:
  "\<exists>bs. encodeTransaction [None] toy_message = Inr bs \<and> map_sum id message (decodeTransaction bs) = Inr toy_message"
proof -
  have "transaction_ok [None] toy_message"
    by (simp add: transaction_ok_def signature_ok_def message_ok_def toy_message_def toy_key_text_def text_of_zeros
        instruction_ok_def lookup_ok_def counted_ok_def bytes_ok_def)
  from transaction_roundtrip [OF this] show ?thesis by force
qed

text \<open>
  The converse fails: the reader accepts a length spelt with more groups than needed, and what it
  decoded is encoded with one byte less.
\<close>

definition longer_length :: bytes where
  "longer_length = [0x80, 0x00, 0x00, 0x00, 0x00, 0x00] @ replicate 32 0 @ [0x00]"

lemma longer_length_reencoded:
  "ebind (decodeTransaction longer_length) (\<lambda>t. encodeTransaction (signatures t) (message t)) = Inr (tl longer_length)"
  by (simp add: longer_length_def decodeTransaction_def read_counted_def compactU16_def numeral_3_eq_3 bind_run u8_def
      read_many_def read_message_def read_version_def read_key_def take_bytes_def encodeTransaction_def encodeMessage_def
      write_counted_def writeCompactU16_def write_groups_cases write_base58_def bytes_of_def base58_zeros)

end
