(* ===== verification/Custody.thy ===== *)
theory Custody imports Vocabulary Money begin

text \<open>
  Custody of the trading wallet: the classification of an observed balance movement against the
  registered accounts (\<open>libs/execution/src/state/custody.ts\<close>) and the reader of what the wallet
  holds on chain (\<open>libs/execution/src/chain/custody.ts\<close>), whose RPC answers are a parameter.
\<close>

section \<open>Registry and movements\<close>

record RegisteredCustody =
  id :: uuid
  address :: sol_address
  mint :: "mint_address option"
  allowedMovementTypes :: "TransactionClass list"
  active :: bool

record ObservedMovement =
  move_from :: sol_address
  move_to :: sol_address
  move_mint :: "mint_address option"
  move_amount :: amount
  lifecycleId :: "uuid option"
  movementType :: "TransactionClass option"

datatype UnknownReason =
    UNREGISTERED_ENDPOINT | INACTIVE_ACCOUNT | MINT_MISMATCH | NO_LIFECYCLE
  | MOVEMENT_TYPE_NOT_ALLOWED | UNTYPED_MOVEMENT

datatype MovementClassification = EXPECTED uuid uuid uuid | UNKNOWN UnknownReason

definition classifyMovement ::
  "RegisteredCustody list \<Rightarrow> ObservedMovement \<Rightarrow> uuid list \<Rightarrow> MovementClassification" where
  "classifyMovement registry m authorizedLifecycles =
     (case (find (\<lambda>c. address c = move_from m) registry, find (\<lambda>c. address c = move_to m) registry) of
        (Some src, Some dst) \<Rightarrow>
          if \<not> active src \<or> \<not> active dst then UNKNOWN INACTIVE_ACCOUNT
          else if (mint src \<noteq> None \<and> mint src \<noteq> move_mint m) \<or> (mint dst \<noteq> None \<and> mint dst \<noteq> move_mint m)
          then UNKNOWN MINT_MISMATCH
          else (case movementType m of
              None \<Rightarrow> UNKNOWN UNTYPED_MOVEMENT
            | Some t \<Rightarrow>
                if t \<notin> set (allowedMovementTypes src) \<or> t \<notin> set (allowedMovementTypes dst)
                then UNKNOWN MOVEMENT_TYPE_NOT_ALLOWED
                else (case lifecycleId m of
                    None \<Rightarrow> UNKNOWN NO_LIFECYCLE
                  | Some l \<Rightarrow> if l \<notin> set authorizedLifecycles then UNKNOWN NO_LIFECYCLE
                              else EXPECTED (id src) (id dst) l))
      | _ \<Rightarrow> UNKNOWN UNREGISTERED_ENDPOINT)"

section \<open>Holdings\<close>

record Holding =
  holding_mint :: mint_address
  tokenAccount :: string
  holding_amount :: int
  frozen :: bool
  program :: string

record TokenAccountInfo =
  pubkey :: string
  info_owner :: string
  info_mint :: mint_address
  tokenAmount :: int
  info_state :: string

text \<open>The answer of \<open>getTokenAccountsByOwner\<close> for one token program: a slot and the accounts.\<close>

type_synonym token_rpc = "string \<Rightarrow> string \<Rightarrow> int \<times> TokenAccountInfo list"

definition TOKEN_PROGRAM :: string where
  "TOKEN_PROGRAM = ''TokenkegQfeZyiNwAJbNbGKPFXCWuBvf9Ss623VQ5DA''"

definition TOKEN_2022_PROGRAM :: string where
  "TOKEN_2022_PROGRAM = ''TokenzQdBNbLqP5VEhdkAS6EPFLC1PHnBqCXEpPxuEb''"

definition holding_of :: "string \<Rightarrow> TokenAccountInfo \<Rightarrow> Holding" where
  "holding_of prg a = \<lparr>holding_mint = info_mint a, tokenAccount = pubkey a,
     holding_amount = tokenAmount a, frozen = (info_state a = ''frozen''), program = prg\<rparr>"

definition holdings :: "token_rpc \<Rightarrow> string \<Rightarrow> int \<times> Holding list" where
  "holdings rpc owner = foldl (\<lambda>(slot, out) prg. case rpc owner prg of (s, accounts) \<Rightarrow>
       (max slot s, out @ map (holding_of prg) (filter (\<lambda>a. info_owner a = owner) accounts)))
     (0, []) [TOKEN_PROGRAM, TOKEN_2022_PROGRAM]"

section \<open>Properties\<close>

text \<open>
  A movement is EXPECTED only as the registry and the authorised lifecycles allow: the first
  registered entries of both endpoints are active, neither is bound to another mint, both allow
  the movement's type, and the movement is tied to an authorised lifecycle. Conversely every
  movement with these properties is EXPECTED, so nothing legitimate pauses trading.
\<close>

theorem classifyMovement_exact:
  "classifyMovement registry m authorized = EXPECTED i j l \<longleftrightarrow>
     (\<exists>src dst t. find (\<lambda>c. address c = move_from m) registry = Some src \<and>
        find (\<lambda>c. address c = move_to m) registry = Some dst \<and> active src \<and> active dst \<and>
        (mint src = None \<or> mint src = move_mint m) \<and> (mint dst = None \<or> mint dst = move_mint m) \<and>
        movementType m = Some t \<and> t \<in> set (allowedMovementTypes src) \<and> t \<in> set (allowedMovementTypes dst) \<and>
        lifecycleId m = Some l \<and> l \<in> set authorized \<and> i = id src \<and> j = id dst)"
  unfolding classifyMovement_def
  by (cases "find (\<lambda>c. address c = move_from m) registry"; cases "find (\<lambda>c. address c = move_to m) registry";
      cases "movementType m"; cases "lifecycleId m"; simp)
    auto

text \<open>What the reader reports is exactly the wallet's own accounts, none of another owner.\<close>

lemma holdings_own: "h \<in> set (snd (holdings rpc owner)) \<longleftrightarrow>
    (\<exists>prg \<in> {TOKEN_PROGRAM, TOKEN_2022_PROGRAM}. \<exists>a \<in> set (snd (rpc owner prg)).
       info_owner a = owner \<and> h = holding_of prg a)"
  by (auto simp: holdings_def split: prod.splits)

end
