(* ===== verification/ModeGate.thy ===== *)
theory ModeGate imports Vocabulary begin

text \<open>
  The executor's mode gate (\<open>apps/execution-service/src/authority/mode-gate.ts\<close>): new exposure
  needs an active, unpaused, live session; risk reduction passes always.
\<close>

record ModeFacts =
  activity :: ActivityState
  authority :: CapitalAuthority
  paused :: bool
  localPause :: bool
  liveCapabilityEnabled :: bool

datatype ModeGateReason =
    PAUSED | LOCAL_PAUSE | ACTIVITY_FORBIDS_ENTRIES | AUTHORITY_FORBIDS_LIVE | LIVE_CAPABILITY_DISABLED

definition LIVE :: "CapitalAuthority list" where
  "LIVE = [LIVE_APPROVAL, LIVE_AUTO]"

definition modeGate :: "ModeFacts \<Rightarrow> ExposureEffect \<Rightarrow> ModeGateReason option" where
  "modeGate facts exposureEffect =
     (if exposureEffect = ExposureEffect.REDUCE then None
      else if localPause facts then Some LOCAL_PAUSE
      else if paused facts then Some PAUSED
      else if activity facts \<noteq> ACTIVE \<and> activity facts \<noteq> EVENT_WINDOW then Some ACTIVITY_FORBIDS_ENTRIES
      else if authority facts \<notin> set LIVE then Some AUTHORITY_FORBIDS_LIVE
      else if \<not> liveCapabilityEnabled facts then Some LIVE_CAPABILITY_DISABLED
      else None)"

lemma modeGate_allows:
  "modeGate f e = None \<longleftrightarrow> e = ExposureEffect.REDUCE \<or>
     (\<not> localPause f \<and> \<not> paused f \<and> activity f \<in> {ACTIVE, EVENT_WINDOW} \<and>
      authority f \<in> {LIVE_APPROVAL, LIVE_AUTO} \<and> liveCapabilityEnabled f)"
  by (auto simp: modeGate_def LIVE_def)

end
