(* ===== verification/Authority.thy ===== *)
theory Authority imports SignedEnvelope ModeGate begin

text \<open>
  Authority reconstruction (\<open>apps/execution-service/src/authority/verify.ts\<close>): what the executor
  checks before it acts on a risk authorization, with the envelope of
  \<open>libs/contracts/src/envelopes/risk-authorized-intent.ts\<close> and the stored intent of
  \<open>libs/contracts/src/entities/trading.ts\<close>. The schema library is external: its uuid check is a
  parameter, the checks the schema itself states are written out.
\<close>

section \<open>The authorized intent and the stored row\<close>

record RiskAuthorizedIntent =
  intentId :: uuid
  intentHash :: sha256_hex
  actionCycleId :: uuid
  clearedCutoffVersion :: int
  releaseId :: uuid
  releaseDigest :: sha256_hex
  attestationId :: uuid
  policyVersion :: version_id
  policyHash :: sha256_hex
  strategyVersionId :: version_id
  sleeveId :: "uuid option"
  accountId :: uuid
  assetId :: uuid
  cluster :: string
  capitalAuthority :: CapitalAuthority
  action :: IntentAction
  side :: TradeSide
  exposureEffect :: ExposureEffect
  inputMint :: mint_address
  outputMint :: mint_address
  maxInputAmount :: amount
  maxSlippageBps :: int
  maxPriceImpactBps :: int
  chaseToleranceBps :: int
  maxQuoteAgeMs :: int
  allowedProtectionMode :: "ProtectionMode option"
  targetLotIds :: "uuid list"
  approvalRequired :: bool
  projectionSequence :: int
  projectionHash :: sha256_hex
  issuedAt :: instant
  expiresAt :: instant
  rai_nonce :: nonce

record ExecutionConstraints =
  c_maxSlippageBps :: int
  c_maxPriceImpactBps :: int
  c_chaseToleranceBps :: int
  c_maxQuoteAgeMs :: int

record TradeIntent =
  ti_id :: uuid
  ti_idempotencyKey :: idempotency_key
  ti_accountId :: uuid
  ti_strategyVersionId :: version_id
  ti_sleeveId :: "uuid option"
  ti_assetId :: uuid
  ti_action :: IntentAction
  ti_side :: TradeSide
  ti_exposureEffect :: ExposureEffect
  ti_inputMint :: mint_address
  ti_outputMint :: mint_address
  ti_maxInputAmount :: amount
  ti_riskEvaluationId :: uuid
  ti_actionCycleId :: uuid
  ti_clearedCutoffVersion :: int
  ti_constraints :: ExecutionConstraints
  ti_protectionPolicyRef :: "version_id option"
  ti_targetLotIds :: "uuid list"
  ti_approvalRequired :: bool
  ti_createdAt :: instant
  ti_expiresAt :: instant

section \<open>The canonical payload\<close>

definition jint :: "int \<Rightarrow> json" where
  "jint i = JNum (Fin (of_int i))"

definition authority_text :: "CapitalAuthority \<Rightarrow> string" where
  "authority_text a = (case a of OBSERVE \<Rightarrow> ''OBSERVE'' | PAPER \<Rightarrow> ''PAPER''
     | LIVE_APPROVAL \<Rightarrow> ''LIVE_APPROVAL'' | LIVE_AUTO \<Rightarrow> ''LIVE_AUTO'')"

definition action_text :: "IntentAction \<Rightarrow> string" where
  "action_text a = (case a of IntentAction.ENTER \<Rightarrow> ''ENTER'' | IntentAction.ADD \<Rightarrow> ''ADD''
     | IntentAction.REDUCE \<Rightarrow> ''REDUCE'' | IntentAction.EXIT \<Rightarrow> ''EXIT''
     | PROTECTION_INSTALL \<Rightarrow> ''PROTECTION_INSTALL''
     | PROTECTION_CANCEL_WITHDRAW \<Rightarrow> ''PROTECTION_CANCEL_WITHDRAW''
     | EMERGENCY_CLOSE \<Rightarrow> ''EMERGENCY_CLOSE'')"

definition effect_text :: "ExposureEffect \<Rightarrow> string" where
  "effect_text e = (case e of INCREASE \<Rightarrow> ''INCREASE'' | NEUTRAL \<Rightarrow> ''NEUTRAL'' | ExposureEffect.REDUCE \<Rightarrow> ''REDUCE'')"

definition protection_text :: "ProtectionMode \<Rightarrow> string" where
  "protection_text p = (case p of MONITORED_EXIT \<Rightarrow> ''MONITORED_EXIT'' | JUPITER_TRIGGER \<Rightarrow> ''JUPITER_TRIGGER'')"

text \<open>All fields but the hash, in the order of the schema: \<open>const { intentHash, ...unsigned } = p\<close>.\<close>

definition unsigned_members :: "crypto \<Rightarrow> RiskAuthorizedIntent \<Rightarrow> (string \<times> json) list" where
  "unsigned_members cr p =
     [(''intentId'', JStr (intentId p)), (''actionCycleId'', JStr (actionCycleId p)),
      (''clearedCutoffVersion'', jint (clearedCutoffVersion p)), (''releaseId'', JStr (releaseId p)),
      (''releaseDigest'', JStr (releaseDigest p)), (''attestationId'', JStr (attestationId p)),
      (''policyVersion'', JStr (policyVersion p)), (''policyHash'', JStr (policyHash p)),
      (''strategyVersionId'', JStr (strategyVersionId p)), (''sleeveId'', opt_json JStr (sleeveId p)),
      (''accountId'', JStr (accountId p)), (''assetId'', JStr (assetId p)), (''cluster'', JStr (cluster p)),
      (''capitalAuthority'', JStr (authority_text (capitalAuthority p))),
      (''action'', JStr (action_text (action p))),
      (''side'', JStr (case side p of BUY \<Rightarrow> ''BUY'' | SELL \<Rightarrow> ''SELL'')),
      (''exposureEffect'', JStr (effect_text (exposureEffect p))),
      (''inputMint'', JStr (inputMint p)), (''outputMint'', JStr (outputMint p)),
      (''maxInputAmount'', JStr (show_int (maxInputAmount p))),
      (''maxSlippageBps'', jint (maxSlippageBps p)), (''maxPriceImpactBps'', jint (maxPriceImpactBps p)),
      (''chaseToleranceBps'', jint (chaseToleranceBps p)), (''maxQuoteAgeMs'', jint (maxQuoteAgeMs p)),
      (''allowedProtectionMode'', opt_json (\<lambda>m. JStr (protection_text m)) (allowedProtectionMode p)),
      (''targetLotIds'', JArr (map JStr (targetLotIds p))), (''approvalRequired'', JBool (approvalRequired p)),
      (''projectionSequence'', jint (projectionSequence p)), (''projectionHash'', JStr (projectionHash p)),
      (''issuedAt'', JStr (iso cr (issuedAt p))), (''expiresAt'', JStr (iso cr (expiresAt p))),
      (''nonce'', JStr (rai_nonce p))]"

definition unsigned_json :: "crypto \<Rightarrow> RiskAuthorizedIntent \<Rightarrow> json" where
  "unsigned_json cr p = JObj (unsigned_members cr p)"

definition intent_json :: "crypto \<Rightarrow> RiskAuthorizedIntent \<Rightarrow> json" where
  "intent_json cr p = JObj (unsigned_members cr p @ [(''intentHash'', JStr (intentHash p))])"

text \<open>The checks of the schema beyond the types of the fields (\<open>primitives.ts\<close>).\<close>

definition is_base58 :: "char \<Rightarrow> bool" where
  "is_base58 c \<longleftrightarrow> (let k = of_char c :: nat in (49 \<le> k \<and> k \<le> 57) \<or>
     (65 \<le> k \<and> k \<le> 90 \<and> k \<noteq> 73 \<and> k \<noteq> 79) \<or> (97 \<le> k \<and> k \<le> 122 \<and> k \<noteq> 108))"

definition is_mint :: "string \<Rightarrow> bool" where
  "is_mint s \<longleftrightarrow> 32 \<le> length s \<and> length s \<le> 44 \<and> list_all is_base58 s"

definition is_bps :: "int \<Rightarrow> bool" where
  "is_bps b \<longleftrightarrow> 0 \<le> b \<and> b \<le> 10000"

definition is_version_id :: "string \<Rightarrow> bool" where
  "is_version_id s \<longleftrightarrow> 1 \<le> length s \<and> length s \<le> 64"

definition SolanaCluster :: "string list" where
  "SolanaCluster = [''mainnet-beta'', ''devnet'', ''testnet'', ''localnet'']"

definition intent_schema_ok :: "(string \<Rightarrow> bool) \<Rightarrow> RiskAuthorizedIntent \<Rightarrow> bool" where
  "intent_schema_ok is_uuid p \<longleftrightarrow>
     is_uuid (intentId p) \<and> is_sha256_hex (intentHash p) \<and> is_uuid (actionCycleId p) \<and>
     clearedCutoffVersion p > 0 \<and> is_uuid (releaseId p) \<and> is_sha256_hex (releaseDigest p) \<and>
     is_uuid (attestationId p) \<and> is_version_id (policyVersion p) \<and> is_sha256_hex (policyHash p) \<and>
     is_version_id (strategyVersionId p) \<and> (case sleeveId p of None \<Rightarrow> True | Some u \<Rightarrow> is_uuid u) \<and>
     is_uuid (accountId p) \<and> is_uuid (assetId p) \<and> cluster p \<in> set SolanaCluster \<and>
     is_mint (inputMint p) \<and> is_mint (outputMint p) \<and> amount_ok (maxInputAmount p) \<and>
     is_bps (maxSlippageBps p) \<and> is_bps (maxPriceImpactBps p) \<and> is_bps (chaseToleranceBps p) \<and>
     maxQuoteAgeMs p \<ge> 0 \<and> list_all is_uuid (targetLotIds p) \<and> projectionSequence p \<ge> 0 \<and>
     is_sha256_hex (projectionHash p) \<and> is_nonce (rai_nonce p)"

section \<open>Verification\<close>

datatype AuthorityRejection =
    AUTHORIZER_KEY_NOT_ACCEPTED | AUTHORIZATION_SIGNATURE_INVALID | AUTHORIZATION_MALFORMED
  | INTENT_HASH_MISMATCH | AUTHORIZATION_EXPIRED | AUTHORIZATION_NOT_YET_VALID | NONCE_REPLAYED
  | INTENT_RECORD_MISSING | DB_TAMPER_DETECTED | APPROVAL_REQUIRED | APPROVAL_SIGNATURE_INVALID
  | APPROVAL_BINDING_FAILED | MODE_GATE

datatype authority_detail =
    D_KEY key_id
  | D_SIGNATURE VerifyFailure
  | D_SCHEMA
  | D_TAMPERED "string list"
  | D_BINDING ApprovalBindingFailure
  | D_GATE ModeGateReason
  | D_NO_ENVELOPE

record AuthorityInput =
  in_envelope :: "RiskAuthorizedIntent SignedEnvelope"
  in_keys :: "VerificationKey list"
  in_acceptedKeyIds :: "key_id list"
  in_storedIntent :: "TradeIntent option"
  in_approval :: "(ApprovalGrant SignedEnvelope \<times> VerificationKey list) option"
  in_usedNonces :: "nonce list"
  in_mode :: ModeFacts
  in_now :: instant
  in_maxSkewMs :: int

definition tamperedFields :: "TradeIntent \<Rightarrow> RiskAuthorizedIntent \<Rightarrow> string list" where
  "tamperedFields stored p = (let c = ti_constraints stored in map fst (filter (\<lambda>(_, same). \<not> same)
     [(''id'', ti_id stored = intentId p),
      (''accountId'', ti_accountId stored = accountId p),
      (''assetId'', ti_assetId stored = assetId p),
      (''strategyVersionId'', ti_strategyVersionId stored = strategyVersionId p),
      (''sleeveId'', ti_sleeveId stored = sleeveId p),
      (''action'', ti_action stored = action p),
      (''side'', ti_side stored = side p),
      (''exposureEffect'', ti_exposureEffect stored = exposureEffect p),
      (''inputMint'', ti_inputMint stored = inputMint p),
      (''outputMint'', ti_outputMint stored = outputMint p),
      (''maxInputAmount'', ti_maxInputAmount stored = maxInputAmount p),
      (''actionCycleId'', ti_actionCycleId stored = actionCycleId p),
      (''clearedCutoffVersion'', ti_clearedCutoffVersion stored = clearedCutoffVersion p),
      (''maxSlippageBps'', c_maxSlippageBps c = maxSlippageBps p),
      (''maxPriceImpactBps'', c_maxPriceImpactBps c = maxPriceImpactBps p),
      (''chaseToleranceBps'', c_chaseToleranceBps c = chaseToleranceBps p),
      (''maxQuoteAgeMs'', c_maxQuoteAgeMs c = maxQuoteAgeMs p),
      (''targetLotIds'', join '','' (ti_targetLotIds stored) = join '','' (targetLotIds p)),
      (''approvalRequired'', ti_approvalRequired stored = approvalRequired p),
      (''expiresAt'', ti_expiresAt stored = expiresAt p)]))"

type_synonym authority_findings = "(AuthorityRejection \<times> authority_detail list) list"

text \<open>The approval part: each branch with what it pushes on \<open>reasons\<close> and \<open>detail\<close>.\<close>

definition check_approval ::
  "crypto \<Rightarrow> AuthorityInput \<Rightarrow> RiskAuthorizedIntent \<Rightarrow> sha256_hex \<Rightarrow> authority_findings" where
  "check_approval cr i p authorizationHash =
     (if approvalRequired p \<or> capitalAuthority p = LIVE_APPROVAL then
        (case in_approval i of
           None \<Rightarrow> [(APPROVAL_REQUIRED, [])]
         | Some (grant, keys) \<Rightarrow>
             (case verifySignedEnvelope cr (grant_json cr) grant keys of
                Inl e \<Rightarrow> [(APPROVAL_SIGNATURE_INVALID, [D_SIGNATURE e])]
              | Inr _ \<Rightarrow>
                  (case checkApprovalBinding (payload grant) authorizationHash (intentId p) (in_now i)
                          (in_usedNonces i) (exposureEffect p = INCREASE) of
                     Inl e \<Rightarrow> [(APPROVAL_BINDING_FAILED, [D_BINDING e])]
                   | Inr _ \<Rightarrow> [])))
      else [])"

definition check_record :: "AuthorityInput \<Rightarrow> RiskAuthorizedIntent \<Rightarrow> authority_findings" where
  "check_record i p = (case in_storedIntent i of
       None \<Rightarrow> [(INTENT_RECORD_MISSING, [])]
     | Some stored \<Rightarrow> let tampered = tamperedFields stored p in
         if tampered \<noteq> [] then [(DB_TAMPER_DETECTED, [D_TAMPERED tampered])] else [])"

definition verifyAuthority ::
  "crypto \<Rightarrow> (string \<Rightarrow> bool) \<Rightarrow> AuthorityInput \<Rightarrow>
     (AuthorityRejection list \<times> authority_detail list) + (sha256_hex \<times> RiskAuthorizedIntent)" where
  "verifyAuthority cr is_uuid i = (let
     env = in_envelope i;
     accepted = filter (\<lambda>k. vkeyId k \<in> set (in_acceptedKeyIds i)) (in_keys i)
   in if \<not> list_ex (\<lambda>k. vkeyId k = keyId env) accepted
      then Inl ([AUTHORIZER_KEY_NOT_ACCEPTED], [D_KEY (keyId env)])
      else case verifySignedEnvelope cr (intent_json cr) env accepted of
          Inl e \<Rightarrow> Inl ([AUTHORIZATION_SIGNATURE_INVALID], [D_SIGNATURE e])
        | Inr _ \<Rightarrow>
            if \<not> intent_schema_ok is_uuid (payload env) then Inl ([AUTHORIZATION_MALFORMED], [D_SCHEMA])
            else (case deriveAuthorizationHash cr (intent_json cr) env of
              Inl _ \<Rightarrow> Inl ([AUTHORIZATION_SIGNATURE_INVALID], [D_SIGNATURE MALFORMED_ENVELOPE]) \<comment> \<open>not reached: the envelope verified\<close>
            | Inr h \<Rightarrow> let
              p = payload env;
              f1 = (if hash_json cr (unsigned_json cr p) \<noteq> Inr (intentHash p) then [(INTENT_HASH_MISMATCH, [])] else []);
              f2 = (if in_now i \<ge> expiresAt p then [(AUTHORIZATION_EXPIRED, [])] else []);
              f3 = (if issuedAt p > in_now i + in_maxSkewMs i then [(AUTHORIZATION_NOT_YET_VALID, [])] else []);
              f4 = (if rai_nonce p \<in> set (in_usedNonces i) then [(NONCE_REPLAYED, [])] else []);
              f5 = check_record i p;
              f6 = check_approval cr i p h;
              f7 = (case modeGate (in_mode i) (exposureEffect p) of None \<Rightarrow> [] | Some r \<Rightarrow> [(MODE_GATE, [D_GATE r])]);
              fs = f1 @ f2 @ f3 @ f4 @ f5 @ f6 @ f7
            in if fs \<noteq> [] then Inl (map fst fs, concat (map snd fs)) else Inr (h, p)))"

section \<open>Reading the verdict\<close>

definition same_intent :: "TradeIntent \<Rightarrow> RiskAuthorizedIntent \<Rightarrow> bool" where
  "same_intent stored p \<longleftrightarrow> ti_id stored = intentId p \<and> ti_accountId stored = accountId p \<and>
     ti_assetId stored = assetId p \<and> ti_strategyVersionId stored = strategyVersionId p \<and>
     ti_sleeveId stored = sleeveId p \<and> ti_action stored = action p \<and> ti_side stored = side p \<and>
     ti_exposureEffect stored = exposureEffect p \<and> ti_inputMint stored = inputMint p \<and>
     ti_outputMint stored = outputMint p \<and> ti_maxInputAmount stored = maxInputAmount p \<and>
     ti_actionCycleId stored = actionCycleId p \<and> ti_clearedCutoffVersion stored = clearedCutoffVersion p \<and>
     c_maxSlippageBps (ti_constraints stored) = maxSlippageBps p \<and>
     c_maxPriceImpactBps (ti_constraints stored) = maxPriceImpactBps p \<and>
     c_chaseToleranceBps (ti_constraints stored) = chaseToleranceBps p \<and>
     c_maxQuoteAgeMs (ti_constraints stored) = maxQuoteAgeMs p \<and>
     join '','' (ti_targetLotIds stored) = join '','' (targetLotIds p) \<and>
     ti_approvalRequired stored = approvalRequired p \<and> ti_expiresAt stored = expiresAt p"

lemma tampered_none: "tamperedFields stored p = [] \<longleftrightarrow> same_intent stored p"
  unfolding tamperedFields_def same_intent_def Let_def by (simp add: filter_empty_conv conj_ac)

lemma check_record_none: "check_record i p = [] \<longleftrightarrow> (\<exists>stored. in_storedIntent i = Some stored \<and> same_intent stored p)"
  by (auto simp: check_record_def Let_def tampered_none split: option.splits)

definition approved :: "crypto \<Rightarrow> AuthorityInput \<Rightarrow> RiskAuthorizedIntent \<Rightarrow> sha256_hex \<Rightarrow> bool" where
  "approved cr i p h \<longleftrightarrow> (\<exists>grant keys k. in_approval i = Some (grant, keys) \<and>
     verifySignedEnvelope cr (grant_json cr) grant keys = Inr k \<and>
     grant_authorizationHash (payload grant) = h \<and> grant_intentId (payload grant) = intentId p \<and>
     grantedAt (payload grant) \<le> in_now i \<and> in_now i < grant_expiresAt (payload grant) \<and>
     grant_nonce (payload grant) \<notin> set (in_usedNonces i) \<and>
     (exposureEffect p = INCREASE \<longrightarrow> stepUpAssertionRef (payload grant) \<noteq> None))"

lemma check_approval_none:
  "check_approval cr i p h = [] \<longleftrightarrow>
     (approvalRequired p \<or> capitalAuthority p = LIVE_APPROVAL \<longrightarrow> approved cr i p h)"
proof -
  have b: "(case checkApprovalBinding g h j now used st of Inl e \<Rightarrow> [(APPROVAL_BINDING_FAILED, [D_BINDING e])] | Inr _ \<Rightarrow> []) = []
      \<longleftrightarrow> checkApprovalBinding g h j now used st = Inr ()" for g h j now used st
    by (simp split: sum.split)
  show ?thesis
  proof (cases "in_approval i")
    case None
    then show ?thesis by (simp add: check_approval_def approved_def)
  next
    case (Some gk)
    obtain grant keys where gk: "gk = (grant, keys)" by (cases gk)
    show ?thesis
      by (cases "verifySignedEnvelope cr (grant_json cr) grant keys"; cases "approvalRequired p \<or> capitalAuthority p = LIVE_APPROVAL")
        (simp_all only: if_True if_False simp_thms split_conv list.distinct option.inject prod.inject sum.case,
         simp_all add: check_approval_def approved_def Some gk b approval_binding_ok)
  qed
qed

section \<open>Properties\<close>

text \<open>
  C2: authority is complete mediation. The executor accepts an authorization exactly when all of
  these hold: the envelope's key is pinned in the deployment, the signature verifies over the
  payload, the payload is schema-valid and carries its own digest, it is unexpired and not from
  the future beyond the skew, its nonce was not used, the stored row says the same in all twenty
  bound fields, a LIVE_APPROVAL authorization has an unexpired, unused grant bound to exactly this
  authorization's hash and intent, with step-up when exposure grows, and the mode gate is open.
\<close>

theorem authority_exact:
  "verifyAuthority cr is_uuid i = Inr (h, p) \<longleftrightarrow>
     p = payload (in_envelope i) \<and> h = payloadHash (in_envelope i) \<and>
     keyId (in_envelope i) \<in> set (in_acceptedKeyIds i) \<and>
     (\<exists>k. verifySignedEnvelope cr (intent_json cr) (in_envelope i)
            (filter (\<lambda>k. vkeyId k \<in> set (in_acceptedKeyIds i)) (in_keys i)) = Inr k) \<and>
     intent_schema_ok is_uuid p \<and> hash_json cr (unsigned_json cr p) = Inr (intentHash p) \<and>
     in_now i < expiresAt p \<and> issuedAt p \<le> in_now i + in_maxSkewMs i \<and>
     rai_nonce p \<notin> set (in_usedNonces i) \<and>
     (\<exists>stored. in_storedIntent i = Some stored \<and> same_intent stored p) \<and>
     (approvalRequired p \<or> capitalAuthority p = LIVE_APPROVAL \<longrightarrow> approved cr i p h) \<and>
     modeGate (in_mode i) (exposureEffect p) = None"
proof -
  let ?env = "in_envelope i"
  let ?acc = "filter (\<lambda>k. vkeyId k \<in> set (in_acceptedKeyIds i)) (in_keys i)"
  have key: "list_ex (\<lambda>k. vkeyId k = keyId ?env) ?acc \<and> keyId ?env \<in> set (in_acceptedKeyIds i)"
    if "verifySignedEnvelope cr (intent_json cr) ?env ?acc = Inr k" for k
    using that find_Some_in by (fastforce simp: verify_envelope_ok accepted_key_def list_ex_iff)
  have gate: "(case modeGate m e of None \<Rightarrow> [] | Some r \<Rightarrow> [(MODE_GATE, [D_GATE r])]) = [] \<longleftrightarrow> modeGate m e = None" for m e
    by (simp split: option.split)
  show ?thesis
  proof (cases "\<exists>k. verifySignedEnvelope cr (intent_json cr) ?env ?acc = Inr k")
    case True
    then obtain k where k: "verifySignedEnvelope cr (intent_json cr) ?env ?acc = Inr k" by blast
    then have h: "deriveAuthorizationHash cr (intent_json cr) ?env = Inr (payloadHash ?env)"
      by (simp add: verify_envelope_ok deriveAuthorizationHash_def)
    show ?thesis
      unfolding verifyAuthority_def Let_def
      by (simp add: k h key [OF k] check_record_none check_approval_none gate not_le) auto
  next
    case False
    then show ?thesis
      by (auto simp: verifyAuthority_def Let_def split: sum.split)
  qed
qed

definition toy_uuid :: uuid where
  "toy_uuid = ''0a''"

definition toy_mint :: mint_address where
  "toy_mint = replicate 32 (CHR ''A'')"

definition toy_intent :: RiskAuthorizedIntent where
  "toy_intent = \<lparr>intentId = toy_uuid, intentHash = replicate 64 (CHR ''a''), actionCycleId = toy_uuid,
     clearedCutoffVersion = 1, releaseId = toy_uuid, releaseDigest = replicate 64 (CHR ''a''), attestationId = toy_uuid,
     policyVersion = ''v1'', policyHash = replicate 64 (CHR ''a''), strategyVersionId = ''s1'', sleeveId = None,
     accountId = toy_uuid, assetId = toy_uuid, cluster = ''devnet'', capitalAuthority = LIVE_AUTO,
     action = IntentAction.ENTER, side = BUY, exposureEffect = INCREASE, inputMint = toy_mint, outputMint = toy_mint,
     maxInputAmount = 1000, maxSlippageBps = 50, maxPriceImpactBps = 50, chaseToleranceBps = 20, maxQuoteAgeMs = 1000,
     allowedProtectionMode = Some MONITORED_EXIT, targetLotIds = [], approvalRequired = False, projectionSequence = 1,
     projectionHash = replicate 64 (CHR ''a''), issuedAt = 0, expiresAt = 100, rai_nonce = replicate 32 (CHR ''a'')\<rparr>"

definition toy_row :: "TradeIntent" where
  "toy_row = \<lparr>ti_id = toy_uuid, ti_idempotencyKey = ''key-0001'', ti_accountId = toy_uuid, ti_strategyVersionId = ''s1'',
     ti_sleeveId = None, ti_assetId = toy_uuid, ti_action = IntentAction.ENTER, ti_side = BUY, ti_exposureEffect = INCREASE,
     ti_inputMint = toy_mint, ti_outputMint = toy_mint, ti_maxInputAmount = 1000, ti_riskEvaluationId = toy_uuid,
     ti_actionCycleId = toy_uuid, ti_clearedCutoffVersion = 1,
     ti_constraints = \<lparr>c_maxSlippageBps = 50, c_maxPriceImpactBps = 50, c_chaseToleranceBps = 20, c_maxQuoteAgeMs = 1000\<rparr>,
     ti_protectionPolicyRef = None, ti_targetLotIds = [], ti_approvalRequired = False, ti_createdAt = 0, ti_expiresAt = 100\<rparr>"

definition toy_mode :: ModeFacts where
  "toy_mode = \<lparr>activity = ACTIVE, authority = LIVE_AUTO, paused = False, localPause = False, liveCapabilityEnabled = True\<rparr>"

definition toy_input :: "RiskAuthorizedIntent SignedEnvelope \<Rightarrow> AuthorityInput" where
  "toy_input env = \<lparr>in_envelope = env, in_keys = [verification_half toy_key], in_acceptedKeyIds = [vkeyId toy_key],
     in_storedIntent = Some toy_row, in_approval = None, in_usedNonces = [], in_mode = toy_mode, in_now = 5, in_maxSkewMs = 10\<rparr>"

lemma toy_intent_plain: "plain (intent_json toy_crypto toy_intent)" "plain (unsigned_json toy_crypto toy_intent)"
  by (simp_all add: intent_json_def unsigned_json_def unsigned_members_def toy_intent_def jint_def opt_json_def)

theorem authority_exact_witness:
  "\<exists>env. verifyAuthority toy_crypto (\<lambda>_. True) (toy_input env) = Inr (payloadHash env, toy_intent)"
proof -
  obtain env where env: "signPayload toy_crypto (intent_json toy_crypto) toy_intent toy_key 0 = Inr env"
    and p: "payload env = toy_intent" "payloadHash env = replicate 64 (CHR ''a'')" "keyId env = vkeyId toy_key"
    using toy_signs [of "intent_json toy_crypto" toy_intent 0] toy_intent_plain by blast
  have "accepted_key [verification_half toy_key] (vkeyId toy_key) = Some (verification_half toy_key)"
    by (simp add: accepted_key_def verification_half_def)
  from sign_then_verify [OF toy_crypto_ok this env] have v: "verifySignedEnvelope toy_crypto (intent_json toy_crypto) env [verification_half toy_key] = Inr (vkeyId toy_key)"
    by blast
  have h: "is_hex_text 64 (replicate 64 (CHR ''a''))" "is_nonce (replicate 32 (CHR ''a''))"
    by (simp_all add: is_hex_text_def is_nonce_def list_all_iff toy_hex)
  have m: "is_mint toy_mint" by code_simp
  have "verifyAuthority toy_crypto (\<lambda>_. True) (toy_input env) = Inr (payloadHash env, toy_intent)"
    unfolding authority_exact
    using v p toy_intent_plain h m
    by (simp add: toy_input_def verification_half_def toy_hash)
      (simp add: toy_intent_def intent_schema_ok_def same_intent_def toy_row_def toy_mode_def modeGate_allows
        is_sha256_hex_def is_version_id_def SolanaCluster_def amount_ok_def U64_MAX_def is_bps_def)
  then show ?thesis by blast
qed

text \<open>
  No mode blocks risk reduction. The verdict on a REDUCE authorization is the same whatever
  the activity, the authority, either pause and the live capability are.
\<close>

lemma reduction_never_gated:
  assumes "exposureEffect (payload (in_envelope i)) = ExposureEffect.REDUCE"
  shows "verifyAuthority cr is_uuid (i\<lparr>in_mode := m\<rparr>) = verifyAuthority cr is_uuid i"
proof -
  have g: "modeGate m' (exposureEffect (payload (in_envelope i))) = None" for m'
    using assms by (simp add: modeGate_allows)
  show ?thesis
    unfolding verifyAuthority_def Let_def check_record_def check_approval_def
    by (simp add: g cong: sum.case_cong option.case_cong if_cong split del: if_split)
qed

end
