(* ===== verification/Exposure.thy ===== *)
theory Exposure imports Authority begin

text \<open>
  The executor's local exposure ledger (\<open>apps/execution-service/src/caps/exposure-ledger.ts\<close>) and
  the deployment caps checked against it (\<open>apps/execution-service/src/caps/check.ts\<close>). The ledger
  counts an open entry at the larger of what was authorized and what it was confirmed to cost; an
  entry that passes the caps keeps the aggregate within the deployment's limit.
\<close>

section \<open>The ledger\<close>

datatype ExposureEvent =
    ENTRY_AUTHORIZED instant uuid mint_address amount ProtectionMode
  | ENTRY_CONFIRMED instant uuid amount
  | ENTRY_RELEASED instant uuid string
  | EXIT_CONFIRMED instant uuid amount
  | PROTECTION_CHANGED instant uuid ProtectionMode

record OpenEntry =
  mint :: mint_address
  authorizedNotional :: amount
  confirmedCostBasis :: "amount option"
  protectionMode :: ProtectionMode

record ExposureLedger =
  events :: "ExposureEvent list"
  open_entries :: "(uuid \<times> OpenEntry) list"

datatype ledger_error = ALREADY_OPEN uuid | NOT_OPEN uuid | LEDGER_ARITH arith_error

definition emptyLedger :: ExposureLedger where
  "emptyLedger = \<lparr>events = [], open_entries = []\<rparr>"

text \<open>The \<open>switch\<close> of \<open>apply\<close>: the open entries after the event, or the error it throws.\<close>

definition open_after ::
  "(uuid \<times> OpenEntry) list \<Rightarrow> ExposureEvent \<Rightarrow> ledger_error + (uuid \<times> OpenEntry) list" where
  "open_after m e = (case e of
     ENTRY_AUTHORIZED _ i mt n pm \<Rightarrow>
       if map_of m i \<noteq> None then Inl (ALREADY_OPEN i)
       else Inr (AList.update i \<lparr>mint = mt, authorizedNotional = n, confirmedCostBasis = None, protectionMode = pm\<rparr> m)
   | ENTRY_CONFIRMED _ i cost \<Rightarrow>
       (case map_of m i of
          None \<Rightarrow> Inl (NOT_OPEN i)
        | Some o' \<Rightarrow> Inr (AList.update i (o'\<lparr>confirmedCostBasis := Some cost\<rparr>) m))
   | ENTRY_RELEASED _ i _ \<Rightarrow> Inr (AList.delete i m)
   | EXIT_CONFIRMED _ i released \<Rightarrow>
       (case map_of m i of
          None \<Rightarrow> Inr m
        | Some o' \<Rightarrow>
            let basis = default (authorizedNotional o') (confirmedCostBasis o') in
            (case (if compareAmounts basis released > 0 then subAmounts basis released else Inr 0) of
               Inl err \<Rightarrow> Inl (LEDGER_ARITH err)
             | Inr remaining \<Rightarrow>
                 if remaining = 0 then Inr (AList.delete i m)
                 else Inr (AList.update i (o'\<lparr>confirmedCostBasis := Some remaining, authorizedNotional := remaining\<rparr>) m)))
   | PROTECTION_CHANGED _ i pm \<Rightarrow>
       (case map_of m i of
          None \<Rightarrow> Inr m
        | Some o' \<Rightarrow> Inr (AList.update i (o'\<lparr>protectionMode := pm\<rparr>) m)))"

definition ledger_apply :: "ExposureLedger \<Rightarrow> ExposureEvent \<Rightarrow> ledger_error + ExposureLedger" where
  "ledger_apply l e = ebind (open_after (open_entries l) e)
     (\<lambda>m. Inr (l\<lparr>open_entries := m, events := events l @ [e]\<rparr>))"

definition ledger_replay :: "ExposureEvent list \<Rightarrow> ledger_error + ExposureLedger" where
  "ledger_replay es = efold ledger_apply emptyLedger es"

definition exposureOf :: "OpenEntry \<Rightarrow> amount" where
  "exposureOf o' = (case confirmedCostBasis o' of
     Some c \<Rightarrow> if compareAmounts c (authorizedNotional o') > 0 then c else authorizedNotional o'
   | None \<Rightarrow> authorizedNotional o')"

definition sum_exposures :: "OpenEntry list \<Rightarrow> arith_error + amount" where
  "sum_exposures os = efold (\<lambda>total o'. addAmounts [total, exposureOf o']) 0 os"

definition aggregateNonSettlementExposure :: "ExposureLedger \<Rightarrow> arith_error + amount" where
  "aggregateNonSettlementExposure l = sum_exposures (map snd (open_entries l))"

definition signerDependentExposure :: "ExposureLedger \<Rightarrow> arith_error + amount" where
  "signerDependentExposure l =
     sum_exposures (filter (\<lambda>o'. protectionMode o' = MONITORED_EXIT) (map snd (open_entries l)))"

definition openIntents :: "ExposureLedger \<Rightarrow> uuid list" where
  "openIntents l = keys_of (open_entries l)"

definition openByMint :: "ExposureLedger \<Rightarrow> mint_address \<Rightarrow> (uuid \<times> amount) list" where
  "openByMint l mt = map (\<lambda>(i, o'). (i, exposureOf o')) (filter (\<lambda>(i, o'). mint o' = mt) (open_entries l))"

section \<open>Deployment caps\<close>

record ExecutorGuardrails =
  g_liveCapabilityEnabled :: bool
  g_cluster :: string
  g_tradingWalletAddress :: sol_address
  g_allowedSettlementMints :: "mint_address list"
  g_maxPerEntryNotional :: int
  g_maxAggregateExposure :: int
  g_maxSignerOutageExposure :: int
  g_maxEmergencyCloseTx :: "int option"
  g_hardMaxSlippageBps :: int
  g_hardMaxProtectiveSlippageBps :: int
  g_acceptedRiskAuthorizerKeyIds :: "key_id list"
  g_acceptedEmergencyOperatorKeyIds :: "key_id list"

datatype CapRejection =
    CLUSTER_MISMATCH | SETTLEMENT_MINT_NOT_ALLOWED | SLIPPAGE_ABOVE_HARD_MAX | PER_ENTRY_CAP
  | AGGREGATE_EXPOSURE_CAP | SIGNER_OUTAGE_CAP | CAP_LIVE_CAPABILITY_DISABLED

text \<open>What a cap rejection explains: the two figures it compared and whether the mark escalated them.\<close>

datatype cap_detail = OVER_ENTRY int int | OVER_AGGREGATE int int bool | OVER_MONITORED int int

type_synonym cap_findings = "(CapRejection \<times> cap_detail list) list"

definition checkCaps ::
  "ExecutorGuardrails \<Rightarrow> ExposureLedger \<Rightarrow> RiskAuthorizedIntent \<Rightarrow> ProtectionMode \<Rightarrow> amount option \<Rightarrow>
     arith_error + ((CapRejection list \<times> cap_detail list) + amount)" where
  "checkCaps g l intent pm mark =
     (let live = (capitalAuthority intent = LIVE_APPROVAL \<or> capitalAuthority intent = LIVE_AUTO);
          increase = (exposureEffect intent = INCREASE);
          settlement = (if increase then inputMint intent else outputMint intent);
          r1 = (if live \<and> \<not> g_liveCapabilityEnabled g then [(CAP_LIVE_CAPABILITY_DISABLED, [])] else []);
          r2 = (if cluster intent \<noteq> g_cluster g then [(CLUSTER_MISMATCH, [])] else []);
          r3 = (if settlement \<notin> set (g_allowedSettlementMints g) then [(SETTLEMENT_MINT_NOT_ALLOWED, [])] else []);
          r4 = (if maxSlippageBps intent > g_hardMaxSlippageBps g then [(SLIPPAGE_ABOVE_HARD_MAX, [])] else [])
      in ebind (aggregateNonSettlementExposure l) (\<lambda>current.
         let escalated = (case mark of None \<Rightarrow> False | Some v \<Rightarrow> compareAmounts v current > 0);
             base = (if escalated then the mark else current)
         in ebind (if increase then addAmounts [base, maxInputAmount intent] else Inr base) (\<lambda>projected.
         let r5 = (if increase \<and> compareAmounts (maxInputAmount intent) (g_maxPerEntryNotional g) > 0
                   then [(PER_ENTRY_CAP, [OVER_ENTRY (maxInputAmount intent) (g_maxPerEntryNotional g)])] else []);
             r6 = (if increase \<and> compareAmounts projected (g_maxAggregateExposure g) > 0
                   then [(AGGREGATE_EXPOSURE_CAP, [OVER_AGGREGATE projected (g_maxAggregateExposure g) escalated])] else [])
         in ebind (if increase \<and> capitalAuthority intent = LIVE_AUTO \<and> pm = MONITORED_EXIT
                   then ebind (signerDependentExposure l) (\<lambda>m.
                        ebind (addAmounts [m, maxInputAmount intent]) (\<lambda>pmon.
                          Inr (if compareAmounts pmon (g_maxSignerOutageExposure g) > 0
                               then [(SIGNER_OUTAGE_CAP, [OVER_MONITORED pmon (g_maxSignerOutageExposure g)])] else [])))
                   else Inr []) (\<lambda>r7.
         let rs = r1 @ r2 @ r3 @ r4 @ r5 @ r6 @ r7
         in Inr (if rs \<noteq> [] then Inl (map fst rs, concat (map snd rs)) else Inr projected)))))"

section \<open>What the ledger counts\<close>

lemma exposureOf_max: "exposureOf o' = (case confirmedCostBasis o' of None \<Rightarrow> authorizedNotional o'
     | Some c \<Rightarrow> max c (authorizedNotional o'))"
  by (simp add: exposureOf_def max_def split: option.split)

definition entry_ok :: "OpenEntry \<Rightarrow> bool" where
  "entry_ok o' \<longleftrightarrow> amount_ok (authorizedNotional o') \<and> (\<forall>c. confirmedCostBasis o' = Some c \<longrightarrow> amount_ok c)"

lemma exposureOf_ok: "entry_ok o' \<Longrightarrow> amount_ok (exposureOf o')"
  by (auto simp: entry_ok_def exposureOf_def split: option.split)

lemma efold_addAmounts:
  "\<forall>o' \<in> set os. 0 \<le> exposureOf o' \<Longrightarrow>
     efold (\<lambda>total o'. addAmounts [total, exposureOf o']) t os = Inr s \<Longrightarrow>
     s = t + sum_list (map exposureOf os)"
  by (induction os arbitrary: t) fastforce+

lemma efold_addAmounts_total:
  "\<forall>o' \<in> set os. 0 \<le> exposureOf o' \<Longrightarrow> 0 \<le> t \<Longrightarrow> t + sum_list (map exposureOf os) \<le> U64_MAX \<Longrightarrow>
     efold (\<lambda>total o'. addAmounts [total, exposureOf o']) t os = Inr (t + sum_list (map exposureOf os))"
proof (induction os arbitrary: t)
  case (Cons o' os)
  then have "0 \<le> sum_list (map exposureOf os)" by (intro sum_list_nonneg) auto
  with Cons show ?case by (simp add: amount_ok_def add.assoc [symmetric])
qed simp

definition ledger_wf :: "ExposureLedger \<Rightarrow> bool" where
  "ledger_wf l \<longleftrightarrow> distinct (map fst (open_entries l)) \<and> (\<forall>i o'. map_of (open_entries l) i = Some o' \<longrightarrow> entry_ok o')"

text \<open>The amounts an event carries are u64 amounts, as the schemas of their sources check.\<close>

fun event_ok :: "ExposureEvent \<Rightarrow> bool" where
  "event_ok (ENTRY_AUTHORIZED _ _ _ n _) \<longleftrightarrow> amount_ok n"
| "event_ok (ENTRY_CONFIRMED _ _ c) \<longleftrightarrow> amount_ok c"
| "event_ok (EXIT_CONFIRMED _ _ c) \<longleftrightarrow> amount_ok c"
| "event_ok _ \<longleftrightarrow> True"

lemma ledger_apply_wf:
  assumes wf: "ledger_wf l" and ok: "event_ok e" and step: "ledger_apply l e = Inr l'"
  shows "ledger_wf l'"
  using assms
  by (cases e)
    (auto simp: ledger_apply_def open_after_def ledger_wf_def entry_ok_def Let_def
      split: if_splits option.splits sum.splits)

lemma ledger_entries_ok: "ledger_wf l \<Longrightarrow> o' \<in> set (map snd (open_entries l)) \<Longrightarrow> entry_ok o'"
  by (auto simp: ledger_wf_def)

abbreviation total_exposure :: "ExposureLedger \<Rightarrow> int" where
  "total_exposure l \<equiv> sum_list (map exposureOf (map snd (open_entries l)))"

lemma aggregate_sum:
  assumes "ledger_wf l" and "aggregateNonSettlementExposure l = Inr t"
  shows "t = total_exposure l"
proof -
  have "\<forall>o' \<in> set (map snd (open_entries l)). 0 \<le> exposureOf o'"
    using ledger_entries_ok [OF assms(1)] exposureOf_ok by (auto simp: amount_ok_def)
  from efold_addAmounts [OF this, of 0 t] assms(2) show ?thesis
    by (simp only: aggregateNonSettlementExposure_def sum_exposures_def add_0)
qed

lemma replay_history:
  "efold ledger_apply l es = Inr l' \<Longrightarrow> events l' = events l @ es"
  by (induction es arbitrary: l) (auto simp: ledger_apply_def)

lemma update_new: "map_of m k = None \<Longrightarrow> AList.update k v m = m @ [(k, v)]"
  by (induction m) (auto split: if_splits)

lemma signer_sum:
  assumes "ledger_wf l" and "signerDependentExposure l = Inr t"
  shows "t = sum_list (map exposureOf (filter (\<lambda>o'. protectionMode o' = MONITORED_EXIT) (map snd (open_entries l))))"
proof -
  have "\<forall>o' \<in> set (filter (\<lambda>o'. protectionMode o' = MONITORED_EXIT) (map snd (open_entries l))). 0 \<le> exposureOf o'"
    using ledger_entries_ok [OF assms(1)] exposureOf_ok by (auto simp: amount_ok_def)
  from efold_addAmounts [OF this, of 0 t] assms(2) show ?thesis
    by (simp only: signerDependentExposure_def sum_exposures_def add_0)
qed

abbreviation monitored_exposure :: "ExposureLedger \<Rightarrow> int" where
  "monitored_exposure l \<equiv>
     sum_list (map exposureOf (filter (\<lambda>o'. protectionMode o' = MONITORED_EXIT) (map snd (open_entries l))))"

lemma authorize_adds:
  assumes "ledger_apply l (ENTRY_AUTHORIZED t i mt n pm) = Inr l'"
  shows "total_exposure l' = total_exposure l + n \<and>
    monitored_exposure l' = monitored_exposure l + (if pm = MONITORED_EXIT then n else 0)"
  using assms
  by (auto simp: ledger_apply_def open_after_def update_new exposureOf_def split: if_splits)

lemma checkCaps_increase:
  assumes c: "checkCaps g l p pm mark = Inr (Inr projected)" and e: "exposureEffect p = INCREASE"
  shows "\<exists>current. aggregateNonSettlementExposure l = Inr current \<and>
    projected = max current (default current mark) + maxInputAmount p \<and>
    maxInputAmount p \<le> g_maxPerEntryNotional g \<and> projected \<le> g_maxAggregateExposure g \<and>
    inputMint p \<in> set (g_allowedSettlementMints g) \<and> maxSlippageBps p \<le> g_hardMaxSlippageBps g \<and>
    cluster p = g_cluster g \<and>
    (capitalAuthority p \<in> {LIVE_APPROVAL, LIVE_AUTO} \<longrightarrow> g_liveCapabilityEnabled g) \<and>
    (capitalAuthority p = LIVE_AUTO \<and> pm = MONITORED_EXIT \<longrightarrow>
       (\<exists>m. signerDependentExposure l = Inr m \<and> m + maxInputAmount p \<le> g_maxSignerOutageExposure g))"
  using assms
  by (auto simp: checkCaps_def Let_def max_def not_less split: if_splits option.splits sum.splits)

section \<open>Properties\<close>

text \<open>
  C11: the deployment caps hold after every entry they admit. When an exposure-increasing intent
  passes the caps and its authorization is entered in the ledger, the aggregate exposure of the
  new ledger is at most the deployment's aggregate cap, the entry is within the per-entry cap, and
  under LIVE_AUTO the signer-dependent exposure stays within the signer-outage cap; a higher
  mark-to-market figure only lowers what is admitted.
\<close>

theorem caps_hold_after_entry:
  assumes wf: "ledger_wf l" and c: "checkCaps g l p pm mark = Inr (Inr projected)"
    and e: "exposureEffect p = INCREASE"
    and a: "ledger_apply l (ENTRY_AUTHORIZED t i (outputMint p) (maxInputAmount p) pm) = Inr l'"
  shows "total_exposure l' \<le> g_maxAggregateExposure g \<and> total_exposure l' \<le> projected \<and>
    maxInputAmount p \<le> g_maxPerEntryNotional g \<and> maxSlippageBps p \<le> g_hardMaxSlippageBps g \<and>
    inputMint p \<in> set (g_allowedSettlementMints g) \<and>
    (capitalAuthority p \<in> {LIVE_APPROVAL, LIVE_AUTO} \<longrightarrow> g_liveCapabilityEnabled g) \<and>
    (capitalAuthority p = LIVE_AUTO \<and> pm = MONITORED_EXIT \<longrightarrow> monitored_exposure l' \<le> g_maxSignerOutageExposure g) \<and>
    (\<forall>v. mark = Some v \<longrightarrow> v + maxInputAmount p \<le> g_maxAggregateExposure g)"
proof -
  from checkCaps_increase [OF c e] obtain current where cur: "aggregateNonSettlementExposure l = Inr current"
    "projected = max current (default current mark) + maxInputAmount p" "projected \<le> g_maxAggregateExposure g"
    and rest: "maxInputAmount p \<le> g_maxPerEntryNotional g" "maxSlippageBps p \<le> g_hardMaxSlippageBps g"
      "inputMint p \<in> set (g_allowedSettlementMints g)"
      "capitalAuthority p \<in> {LIVE_APPROVAL, LIVE_AUTO} \<longrightarrow> g_liveCapabilityEnabled g"
      "capitalAuthority p = LIVE_AUTO \<and> pm = MONITORED_EXIT \<longrightarrow>
         (\<exists>m. signerDependentExposure l = Inr m \<and> m + maxInputAmount p \<le> g_maxSignerOutageExposure g)" by blast
  have "total_exposure l = current" by (rule aggregate_sum [OF wf cur(1), symmetric])
  moreover have "capitalAuthority p = LIVE_AUTO \<and> pm = MONITORED_EXIT \<longrightarrow> monitored_exposure l' \<le> g_maxSignerOutageExposure g"
    using rest(5) signer_sum [OF wf] authorize_adds [OF a] by fastforce
  ultimately show ?thesis using cur(2,3) rest(1-4) authorize_adds [OF a] by auto
qed

definition toy_guardrails :: ExecutorGuardrails where
  "toy_guardrails = \<lparr>g_liveCapabilityEnabled = True, g_cluster = ''devnet'', g_tradingWalletAddress = ''w'',
     g_allowedSettlementMints = [toy_mint], g_maxPerEntryNotional = 1000, g_maxAggregateExposure = 1500,
     g_maxSignerOutageExposure = 1200, g_maxEmergencyCloseTx = None, g_hardMaxSlippageBps = 100,
     g_hardMaxProtectiveSlippageBps = 500, g_acceptedRiskAuthorizerKeyIds = [], g_acceptedEmergencyOperatorKeyIds = []\<rparr>"

theorem caps_hold_after_entry_witness:
  "\<exists>l'. ledger_apply emptyLedger (ENTRY_AUTHORIZED 0 ''i'' toy_mint 1000 MONITORED_EXIT) = Inr l' \<and> total_exposure l' \<le> 1500"
proof -
  have c: "checkCaps toy_guardrails emptyLedger toy_intent MONITORED_EXIT None = Inr (Inr 1000)"
    by (simp add: checkCaps_def toy_guardrails_def toy_intent_def emptyLedger_def aggregateNonSettlementExposure_def
        sum_exposures_def signerDependentExposure_def addAmounts_def bigIntToAmount_def U64_MAX_def)
  have wf: "ledger_wf emptyLedger" by (simp add: ledger_wf_def emptyLedger_def)
  obtain l' where a: "ledger_apply emptyLedger (ENTRY_AUTHORIZED 0 ''i'' (outputMint toy_intent) (maxInputAmount toy_intent) MONITORED_EXIT) = Inr l'"
    by (simp add: ledger_apply_def open_after_def emptyLedger_def)
  have e: "exposureEffect toy_intent = INCREASE" by (simp add: toy_intent_def)
  have "outputMint toy_intent = toy_mint" "maxInputAmount toy_intent = 1000" by (simp_all add: toy_intent_def)
  with a caps_hold_after_entry [OF wf c e a] show ?thesis by (auto simp: toy_guardrails_def)
qed



end
