(* ===== verification/Journal.thy ===== *)
theory Journal imports SignedEnvelope "HOL-Library.Multiset" begin

text \<open>
  The executor's durable journal (\<open>apps/execution-service/src/journal/journal.ts\<close>, entry kinds of
  \<open>libs/contracts/src/envelopes/journal.ts\<close>): append-only lines chained by hash, fenced by a token
  in a lock file. The file system is explicit (\<open>journal_fs\<close>): the lines of the journal file and
  the lock. A line is an entry, or text that is no JSON or that the schema rejects. Appending keeps
  the file loadable and equal to the entries in memory, a superseded holder cannot write, and
  under a collision-free hash the last hash determines the whole journal.
\<close>

section \<open>Entries\<close>

datatype ExecutorJournalKind =
    PAUSE_APPLIED | PAUSE_CLEARED | EMERGENCY_COMMAND_RECEIVED | EMERGENCY_COMMAND_REJECTED
  | ATTEMPT_PREPARED | ATTEMPT_SIGNED | ATTEMPT_SUBMITTED | ATTEMPT_RESULT | ATTEMPT_OBSERVED
  | ATTEMPT_REORG_PENDING | CUSTODY_RECONCILED | EXPOSURE_LEDGER_UPDATED | SHADOW_SYNCED
  | RECONCILED_INTO_DB

definition kind_text :: "ExecutorJournalKind \<Rightarrow> string" where
  "kind_text k = (case k of
     PAUSE_APPLIED \<Rightarrow> ''PAUSE_APPLIED'' | PAUSE_CLEARED \<Rightarrow> ''PAUSE_CLEARED''
   | EMERGENCY_COMMAND_RECEIVED \<Rightarrow> ''EMERGENCY_COMMAND_RECEIVED''
   | EMERGENCY_COMMAND_REJECTED \<Rightarrow> ''EMERGENCY_COMMAND_REJECTED''
   | ATTEMPT_PREPARED \<Rightarrow> ''ATTEMPT_PREPARED'' | ATTEMPT_SIGNED \<Rightarrow> ''ATTEMPT_SIGNED''
   | ATTEMPT_SUBMITTED \<Rightarrow> ''ATTEMPT_SUBMITTED'' | ATTEMPT_RESULT \<Rightarrow> ''ATTEMPT_RESULT''
   | ATTEMPT_OBSERVED \<Rightarrow> ''ATTEMPT_OBSERVED'' | ATTEMPT_REORG_PENDING \<Rightarrow> ''ATTEMPT_REORG_PENDING''
   | CUSTODY_RECONCILED \<Rightarrow> ''CUSTODY_RECONCILED''
   | EXPOSURE_LEDGER_UPDATED \<Rightarrow> ''EXPOSURE_LEDGER_UPDATED'' | SHADOW_SYNCED \<Rightarrow> ''SHADOW_SYNCED''
   | RECONCILED_INTO_DB \<Rightarrow> ''RECONCILED_INTO_DB'')"

type_synonym json_record = "(string \<times> json) list"

record JournalEntry =
  sequence :: int
  entry_at :: instant
  kind :: ExecutorJournalKind
  correlationId :: string
  entry_payload :: json_record
  previousHash :: sha256_hex
  hash :: sha256_hex

definition GENESIS_HASH :: sha256_hex where
  "GENESIS_HASH = replicate 64 (CHR ''0'')"

definition body_members :: "crypto \<Rightarrow> JournalEntry \<Rightarrow> (string \<times> json) list" where
  "body_members cr e = [(''sequence'', JNum (Fin (of_int (sequence e)))), (''at'', JStr (iso cr (entry_at e))),
     (''kind'', JStr (kind_text (kind e))), (''correlationId'', JStr (correlationId e)),
     (''payload'', JObj (entry_payload e)), (''previousHash'', JStr (previousHash e))]"

definition body_json :: "crypto \<Rightarrow> JournalEntry \<Rightarrow> json" where
  "body_json cr e = JObj (body_members cr e)"

section \<open>The files\<close>

record JournalLock =
  lock_token :: string
  acquiredAt :: instant
  released :: bool

datatype journal_line = LINE JournalEntry | NOT_JSON | NOT_AN_ENTRY

record journal_fs =
  lock :: "JournalLock option"
  lines :: "journal_line list"

datatype journal_error =
    FENCED string string
  | CORRUPT_MALFORMED int
  | CORRUPT_SEQUENCE int int
  | CORRUPT_CHAIN int
  | CORRUPT_HASH int
  | SYNTAX_ERROR
  | HASH_TYPE_ERROR type_error
  | LOCK_MISSING

text \<open>\<open>load\<close>: the loop carries the expected sequence, the previous hash and the entries read.\<close>

fun load_from :: "crypto \<Rightarrow> int \<Rightarrow> sha256_hex \<Rightarrow> journal_line list \<Rightarrow> journal_error + JournalEntry list" where
  "load_from cr expectedSeq previous [] = Inr []"
| "load_from cr expectedSeq previous (NOT_JSON # ls) = Inl SYNTAX_ERROR"
| "load_from cr expectedSeq previous (NOT_AN_ENTRY # ls) = Inl (CORRUPT_MALFORMED (expectedSeq - 1))"
| "load_from cr expectedSeq previous (LINE e # ls) =
     (if sequence e \<noteq> expectedSeq then Inl (CORRUPT_SEQUENCE expectedSeq (sequence e))
      else if previousHash e \<noteq> previous then Inl (CORRUPT_CHAIN (sequence e))
      else case hash_json cr (body_json cr e) of
          Inl t \<Rightarrow> Inl (HASH_TYPE_ERROR t)
        | Inr h \<Rightarrow>
            if hash e \<noteq> h then Inl (CORRUPT_HASH (sequence e))
            else ebind (load_from cr (expectedSeq + 1) (hash e) ls) (\<lambda>es. Inr (e # es)))"

definition load :: "crypto \<Rightarrow> journal_fs \<Rightarrow> journal_error + JournalEntry list" where
  "load cr fs = load_from cr 0 GENESIS_HASH (lines fs)"

record ExecutorJournal =
  token :: string
  entries :: "JournalEntry list"

text \<open>
  \<open>open\<close>: refused while another token holds an unreleased lock; otherwise the lock is overwritten
  first and the file validated after, so a corrupt journal is refused with the lock taken.
\<close>

definition open_journal ::
  "crypto \<Rightarrow> instant \<Rightarrow> string \<Rightarrow> journal_fs \<Rightarrow> (journal_error + ExecutorJournal) \<times> journal_fs" where
  "open_journal cr now tok fs =
     (case lock fs of
        Some l \<Rightarrow>
          if \<not> released l \<and> lock_token l \<noteq> tok then (Inl (FENCED (lock_token l) tok), fs)
          else let fs' = fs\<lparr>lock := Some \<lparr>lock_token = tok, acquiredAt = now, released = False\<rparr>\<rparr>
               in (ebind (load cr fs') (\<lambda>es. Inr \<lparr>token = tok, entries = es\<rparr>), fs')
      | None \<Rightarrow>
          let fs' = fs\<lparr>lock := Some \<lparr>lock_token = tok, acquiredAt = now, released = False\<rparr>\<rparr>
          in (ebind (load cr fs') (\<lambda>es. Inr \<lparr>token = tok, entries = es\<rparr>), fs'))"

definition assertFenced :: "journal_fs \<Rightarrow> ExecutorJournal \<Rightarrow> journal_error + unit" where
  "assertFenced fs j = (case lock fs of
       None \<Rightarrow> Inl LOCK_MISSING
     | Some l \<Rightarrow> if lock_token l \<noteq> token j then Inl (FENCED (lock_token l) (token j)) else Inr ())"

definition last_hash :: "JournalEntry list \<Rightarrow> sha256_hex" where
  "last_hash es = (if es = [] then GENESIS_HASH else hash (last es))"

definition new_entry ::
  "crypto \<Rightarrow> instant \<Rightarrow> JournalEntry list \<Rightarrow> ExecutorJournalKind \<Rightarrow> string \<Rightarrow> json_record \<Rightarrow> type_error + JournalEntry" where
  "new_entry cr now es k corr p =
     (let body = \<lparr>sequence = int (length es), entry_at = now, kind = k, correlationId = corr,
                  entry_payload = p, previousHash = last_hash es, hash = []\<rparr>
      in ebind (hash_json cr (body_json cr body)) (\<lambda>h. Inr (body\<lparr>hash := h\<rparr>)))"

definition append_entry ::
  "crypto \<Rightarrow> instant \<Rightarrow> ExecutorJournalKind \<Rightarrow> string \<Rightarrow> json_record \<Rightarrow> journal_fs \<Rightarrow> ExecutorJournal
     \<Rightarrow> journal_error + (journal_fs \<times> ExecutorJournal)" where
  "append_entry cr now k corr p fs j =
     ebind (assertFenced fs j) (\<lambda>_.
       case new_entry cr now (entries j) k corr p of
         Inl t \<Rightarrow> Inl (HASH_TYPE_ERROR t)
       | Inr e \<Rightarrow> Inr (fs\<lparr>lines := lines fs @ [LINE e]\<rparr>, j\<lparr>entries := entries j @ [e]\<rparr>))"

definition release :: "instant \<Rightarrow> journal_fs \<Rightarrow> ExecutorJournal \<Rightarrow> journal_fs" where
  "release now fs j = fs\<lparr>lock := Some \<lparr>lock_token = token j, acquiredAt = now, released = True\<rparr>\<rparr>"

section \<open>Queries\<close>

definition get_text :: "JournalEntry \<Rightarrow> string \<Rightarrow> string option" where
  "get_text e k = (case map_of (entry_payload e) k of Some (JStr s) \<Rightarrow> Some s | _ \<Rightarrow> None)"

definition usedNonces :: "JournalEntry list \<Rightarrow> nonce list" where
  "usedNonces es = concat (map (\<lambda>e. case get_text e ''nonce'' of
       Some n \<Rightarrow> if kind e = ATTEMPT_SIGNED \<or> kind e = ATTEMPT_SUBMITTED then [n] else []
     | None \<Rightarrow> []) es)"

record UnresolvedAttempt =
  u_correlationId :: string
  lastKind :: ExecutorJournalKind
  u_signedTxHash :: "string option"
  u_expectedTxSignature :: "string option"

definition unresolvedAttempts :: "JournalEntry list \<Rightarrow> UnresolvedAttempt list" where
  "unresolvedAttempts es = (let
     last = foldl (\<lambda>m e. if kind e \<in> {ATTEMPT_SIGNED, ATTEMPT_SUBMITTED, ATTEMPT_RESULT}
                         then AList.update (correlationId e) e m else m) [] es
   in map (\<lambda>e. \<lparr>u_correlationId = correlationId e, lastKind = kind e,
                u_signedTxHash = get_text e ''signedTxHash'', u_expectedTxSignature = get_text e ''expectedTxSignature''\<rparr>)
        (filter (\<lambda>e. kind e \<noteq> ATTEMPT_RESULT) (map snd last)))"

section \<open>Appending keeps the file loadable\<close>

lemma load_from_append:
  "load_from cr n h (ls @ ms) = ebind (load_from cr n h ls) (\<lambda>es.
     ebind (load_from cr (n + int (length es)) (if es = [] then h else hash (last es)) ms) (\<lambda>fs. Inr (es @ fs)))"
proof (induction cr n h ls rule: load_from.induct)
  case (4 cr n h e ls)
  have "load_from cr (n + 1) (hash e) (ls @ ms) = ebind (load_from cr (n + 1) (hash e) ls) (\<lambda>es.
     ebind (load_from cr (n + 1 + int (length es)) (if es = [] then hash e else hash (last es)) ms) (\<lambda>fs. Inr (es @ fs)))"
    if "sequence e = n" "previousHash e = h" "hash_json cr (body_json cr e) = Inr (hash e)"
    using 4 that by fastforce
  then show ?case
    by (cases "load_from cr (n + 1) (hash e) ls")
      (auto simp: ebind_def add.assoc split: sum.splits)
qed (simp_all add: ebind_def split: sum.split)

lemma load_from_length: "load_from cr n h ls = Inr es \<Longrightarrow> ls = map LINE es"
  by (induction cr n h ls arbitrary: es rule: load_from.induct) (auto split: if_splits sum.splits)

lemma body_json_hash [simp]: "body_json cr (e\<lparr>hash := h\<rparr>) = body_json cr e"
  by (simp add: body_json_def body_members_def)

text \<open>The journal a process holds and the file agree.\<close>

definition synced :: "crypto \<Rightarrow> journal_fs \<Rightarrow> ExecutorJournal \<Rightarrow> bool" where
  "synced cr fs j \<longleftrightarrow> load cr fs = Inr (entries j)"

lemma append_synced:
  assumes s: "synced cr fs j" and a: "append_entry cr now k corr p fs j = Inr (fs', j')"
  shows "synced cr fs' j' \<and> token j' = token j \<and> lock fs' = lock fs"
proof -
  from a obtain e where e: "new_entry cr now (entries j) k corr p = Inr e"
    and r: "fs' = fs\<lparr>lines := lines fs @ [LINE e]\<rparr>" "j' = j\<lparr>entries := entries j @ [e]\<rparr>"
    by (auto simp: append_entry_def split: sum.splits)
  from e have h: "hash_json cr (body_json cr e) = Inr (hash e)" "sequence e = int (length (entries j))"
    "previousHash e = last_hash (entries j)"
    by (auto simp: new_entry_def Let_def body_json_def body_members_def)
  have l: "load_from cr 0 GENESIS_HASH (lines fs) = Inr (entries j)" using s by (simp add: synced_def load_def)
  show ?thesis
    using h by (simp add: synced_def load_def r load_from_append l last_hash_def)
qed

section \<open>Several processes over one journal\<close>

text \<open>
  The processes share the files and each holds its own journal object, found by its token. A call
  that throws leaves what it had written and gives no object.
\<close>

record journal_world =
  files :: journal_fs
  holders :: "(string \<times> ExecutorJournal) list"

datatype journal_op =
    J_OPEN string instant
  | J_APPEND string instant ExecutorJournalKind string json_record
  | J_RELEASE string instant

fun journal_step :: "crypto \<Rightarrow> journal_world \<Rightarrow> journal_op \<Rightarrow> journal_world" where
  "journal_step cr w (J_OPEN tok now) = (case open_journal cr now tok (files w) of
       (Inl e, fs) \<Rightarrow> w\<lparr>files := fs\<rparr>
     | (Inr j, fs) \<Rightarrow> w\<lparr>files := fs, holders := AList.update tok j (holders w)\<rparr>)"
| "journal_step cr w (J_APPEND tok now k corr p) = (case map_of (holders w) tok of
       None \<Rightarrow> w
     | Some j \<Rightarrow> (case append_entry cr now k corr p (files w) j of
           Inl e \<Rightarrow> w
         | Inr (fs, j') \<Rightarrow> w\<lparr>files := fs, holders := AList.update tok j' (holders w)\<rparr>))"
| "journal_step cr w (J_RELEASE tok now) = (case map_of (holders w) tok of
       None \<Rightarrow> w
     | Some j \<Rightarrow> w\<lparr>files := release now (files w) j\<rparr>)"

definition journal_run :: "crypto \<Rightarrow> journal_world \<Rightarrow> journal_op list \<Rightarrow> journal_world" where
  "journal_run cr w ops = foldl (journal_step cr) w ops"

definition lock_holder :: "journal_world \<Rightarrow> string option" where
  "lock_holder w = map_option lock_token (lock (files w))"

text \<open>A release is orderly when the one who calls it still holds the lock.\<close>

fun orderly :: "crypto \<Rightarrow> journal_world \<Rightarrow> journal_op list \<Rightarrow> bool" where
  "orderly cr w [] \<longleftrightarrow> True"
| "orderly cr w (op # ops) \<longleftrightarrow>
     (case op of J_RELEASE tok _ \<Rightarrow> lock_holder w = Some tok | _ \<Rightarrow> True) \<and> orderly cr (journal_step cr w op) ops"

definition world_ok :: "crypto \<Rightarrow> journal_world \<Rightarrow> bool" where
  "world_ok cr w \<longleftrightarrow> (\<exists>es. load cr (files w) = Inr es) \<and>
     (\<forall>tok j. map_of (holders w) tok = Some j \<longrightarrow> token j = tok \<and> (lock_holder w = Some tok \<longrightarrow> synced cr (files w) j))"

lemma load_lock [simp]: "load cr (fs\<lparr>lock := l\<rparr>) = load cr fs" "synced cr (fs\<lparr>lock := l\<rparr>) j = synced cr fs j"
  by (simp_all add: load_def synced_def)

lemma step_world_ok:
  assumes ok: "world_ok cr w"
    and ord: "case op of J_RELEASE tok _ \<Rightarrow> lock_holder w = Some tok | _ \<Rightarrow> True"
  shows "world_ok cr (journal_step cr w op)"
proof (cases op)
  case (J_OPEN tok now)
  from ok obtain es where es: "load cr (files w) = Inr es" by (auto simp: world_ok_def)
  then show ?thesis
    using ok J_OPEN
    by (auto simp: world_ok_def open_journal_def lock_holder_def synced_def Let_def split: option.splits if_splits)
next
  case (J_APPEND tok now k corr p)
  show ?thesis
  proof (cases "\<exists>j fs j'. map_of (holders w) tok = Some j \<and> append_entry cr now k corr p (files w) j = Inr (fs, j')")
    case True
    then obtain j fs j' where j: "map_of (holders w) tok = Some j" "append_entry cr now k corr p (files w) j = Inr (fs, j')"
      by blast
    then have tok: "token j = tok" "lock_holder w = Some tok"
      using ok by (auto simp: world_ok_def append_entry_def assertFenced_def lock_holder_def split: option.splits if_splits)
    then have "synced cr (files w) j" using ok j by (simp add: world_ok_def)
    from append_synced [OF this j(2)] have s: "synced cr fs j'" "token j' = tok" "lock fs = lock (files w)"
      using tok by simp_all
    then have "\<exists>es. load cr fs = Inr es" by (simp add: synced_def)
    then show ?thesis
      using ok j s tok J_APPEND by (auto simp: world_ok_def lock_holder_def)
  next
    case False
    then have "journal_step cr w op = w" by (auto simp: J_APPEND split: option.splits sum.splits)
    with ok show ?thesis by simp
  qed
next
  case (J_RELEASE tok now)
  then show ?thesis
    using ok ord by (auto simp: world_ok_def release_def lock_holder_def split: option.splits)
qed

section \<open>Properties\<close>


definition toy_fs :: journal_fs where
  "toy_fs = \<lparr>lock = None, lines = []\<rparr>"

definition toy_world :: journal_world where
  "toy_world = \<lparr>files = toy_fs, holders = []\<rparr>"



text \<open>
  What the code relies on of SHA-256 and of the number texts, over the values in use: plain values,
  distinct texts for distinct numbers, no two texts with one digest.
\<close>

definition collision_free :: "crypto \<Rightarrow> json set \<Rightarrow> bool" where
  "collision_free cr S \<longleftrightarrow> (\<forall>v \<in> S. plain v) \<and> number_text (number_str cr) (\<Union>v \<in> S. nums v) \<and>
     inj_on (sha256 cr) (render (number_str cr) ` canon ` S)"

lemma collision_free_canon:
  assumes c: "collision_free cr S" and vw: "v \<in> S" "w \<in> S" and h: "hash_json cr v = Inr h" "hash_json cr w = Inr h"
  shows "canon v = canon w"
proof -
  let ?nt = "number_str cr"
  let ?N = "\<Union>v \<in> S. nums v"
  have p: "plain v" "plain w" using c vw by (simp_all add: collision_free_def)
  then have "hash_json cr v = Inr (sha256 cr (render ?nt (canon v)))" "hash_json cr w = Inr (sha256 cr (render ?nt (canon w)))"
    by (simp_all add: hash_json_def canonicalHash_def canonicalize_def serialize_render)
  with h have "sha256 cr (render ?nt (canon v)) = sha256 cr (render ?nt (canon w))" by simp
  with c vw have eq: "render ?nt (canon v) = render ?nt (canon w)" by (auto simp: collision_free_def dest: inj_onD)
  have "determined (render ?nt) (canon v) (known ?N)"
    by (rule render_determined) (use c vw p in \<open>auto simp: canon_plain canon_nums collision_free_def\<close>)
  moreover have "canon w \<in> known ?N" using vw p by (auto simp: known_def canon_plain canon_nums)
  ultimately show ?thesis using determinedD [of _ _ _ _ "[]" "[]"] eq by (fastforce simp: stops_def)
qed

lemma body_fields:
  assumes "canon (body_json cr e) = canon (body_json cr f)"
  shows "sequence e = sequence f \<and> previousHash e = previousHash f"
  using assms by (simp add: body_json_def body_members_def less_list_code less_eq_list_code)

lemma load_snoc:
  assumes "load_from cr 0 GENESIS_HASH (map LINE (es @ [e])) = Inr (es @ [e])"
  shows "load_from cr 0 GENESIS_HASH (map LINE es) = Inr es \<and> sequence e = int (length es) \<and>
     previousHash e = last_hash es \<and> hash_json cr (body_json cr e) = Inr (hash e)"
proof -
  from assms obtain fs gs where f: "load_from cr 0 GENESIS_HASH (map LINE es) = Inr fs"
    and g: "load_from cr (int (length fs)) (last_hash fs) [LINE e] = Inr gs" and eq: "es @ [e] = fs @ gs"
    unfolding map_append load_from_append by (auto simp: last_hash_def)
  have "fs = es" using load_from_length [OF f] by (simp add: inj_map_eq_map inj_on_def)
  with f g show ?thesis by (auto split: if_splits sum.splits)
qed

lemma chain_determines:
  assumes c: "collision_free cr (body_json cr ` (set es \<union> set fs))"
    and "load_from cr 0 GENESIS_HASH (map LINE es) = Inr es" and "load_from cr 0 GENESIS_HASH (map LINE fs) = Inr fs"
    and "es \<noteq> []" and "fs \<noteq> []" and "hash (last es) = hash (last fs)"
  shows "map (\<lambda>e. canon (body_json cr e)) es = map (\<lambda>e. canon (body_json cr e)) fs"
  using assms
proof (induction es arbitrary: fs rule: rev_induct)
  case (snoc e es)
  obtain gs g where fs: "fs = gs @ [g]" using snoc.prems(5) by (cases fs rule: rev_cases) auto
  note le = load_snoc [OF snoc.prems(2)] and lg = load_snoc [OF snoc.prems(3) [unfolded fs]]
  have ceq: "canon (body_json cr e) = canon (body_json cr g)"
    by (rule collision_free_canon [OF snoc.prems(1)]) (use le lg snoc.prems(6) fs in auto)
  from body_fields [OF ceq] le lg have len: "length es = length gs" and ph: "last_hash es = last_hash gs" by simp_all
  show ?case
  proof (cases "es = []")
    case True
    with len ceq fs show ?thesis by simp
  next
    case False
    then have ne: "gs \<noteq> []" using len by auto
    have sub: "collision_free cr (body_json cr ` (set es \<union> set gs))"
      using snoc.prems(1) fs by (auto simp: collision_free_def number_text_def intro: inj_on_subset)
    have "map (\<lambda>e. canon (body_json cr e)) es = map (\<lambda>e. canon (body_json cr e)) gs"
      using snoc.IH [OF sub _ _ False ne] le lg ph False ne by (simp add: last_hash_def)
    with ceq fs show ?thesis by simp
  qed
qed simp

text \<open>
  C22: the last hash pins the whole journal. Two non-empty journals that both load and end in the same
  hash hold, entry by entry, the same sequence, time, kind, correlation id and payload, up to the
  order of payload members: a line edited, reordered, dropped or inserted anywhere changes the
  last hash or fails to load.
\<close>

theorem last_hash_pins_journal:
  assumes "load cr fs = Inr es" and "load cr fs' = Inr es'" and "es \<noteq> []" and "es' \<noteq> []"
    and "last_hash es = last_hash es'" and "collision_free cr (body_json cr ` (set es \<union> set es'))"
  shows "map (\<lambda>e. canon (body_json cr e)) es = map (\<lambda>e. canon (body_json cr e)) es'"
proof -
  have "lines fs = map LINE es" "lines fs' = map LINE es'"
    using assms(1,2) load_from_length by (auto simp: load_def)
  with assms chain_determines [OF assms(6)] show ?thesis by (simp add: load_def last_hash_def)
qed

definition id_crypto :: crypto where
  "id_crypto = toy_crypto\<lparr>sha256 := \<lambda>t. t, number_str := \<lambda>_. ''0''\<rparr>"

definition first_entry :: JournalEntry where
  "first_entry = (let b = \<lparr>sequence = 0, entry_at = 1, kind = PAUSE_APPLIED, correlationId = ''ops'', entry_payload = [],
      previousHash = GENESIS_HASH, hash = []\<rparr> in b\<lparr>hash := render (\<lambda>_. ''0'') (canon (body_json id_crypto b))\<rparr>)"

theorem last_hash_pins_journal_witness:
  "load id_crypto \<lparr>lock = None, lines = [LINE first_entry]\<rparr> = Inr [first_entry] \<and>
   map (\<lambda>e. canon (body_json id_crypto e)) [first_entry] = map (\<lambda>e. canon (body_json id_crypto e)) [first_entry]"
proof -
  have pl: "plain (body_json id_crypto first_entry)"
    by (simp add: body_json_def body_members_def first_entry_def Let_def)
  then have h: "hash_json id_crypto (body_json id_crypto first_entry) = Inr (hash first_entry)"
    by (simp add: hash_json_def canonicalHash_def canonicalize_def serialize_render)
      (simp add: id_crypto_def first_entry_def Let_def body_json_def body_members_def)
  have l: "load id_crypto \<lparr>lock = None, lines = [LINE first_entry]\<rparr> = Inr [first_entry]"
    using h by (simp add: load_def) (simp add: first_entry_def Let_def)
  have n: "nums (body_json id_crypto first_entry) = {Fin 0}"
    by (simp add: body_json_def body_members_def first_entry_def Let_def)
  have z: "number_char (CHR ''0'')" by code_simp
  have c: "collision_free id_crypto (body_json id_crypto ` (set [first_entry] \<union> set [first_entry]))"
  proof -
    have "number_str id_crypto = (\<lambda>_. ''0'')" "sha256 id_crypto = (\<lambda>t. t)" by (simp_all add: id_crypto_def)
    then show ?thesis using pl z by (simp add: collision_free_def n number_text_def)
  qed
  show ?thesis using l last_hash_pins_journal [OF l l _ _ _ c] by simp
qed

end
