(* ===== verification/EmergencyPlan.thy ===== *)
theory EmergencyPlan imports Custody Exposure Journal begin

text \<open>
  Out-of-band emergency closes: the verification of the signed command
  (\<open>apps/execution-service/src/emergency/command.ts\<close>), the plan built from chain custody
  (\<open>libs/execution/src/emergency/plan.ts\<close>) and the stops of the position shadow. Whatever is asked,
  a plan only sells held, unfrozen, non-settlement assets into the settlement mint, at most what
  is held and what the caps allow.
\<close>

section \<open>Bounds and requests\<close>

record ExecutionBounds =
  b_inputMint :: mint_address
  b_outputMint :: mint_address
  b_maxInputAmount :: amount
  b_maxSlippageBps :: int
  b_maxPriceImpactBps :: int
  b_chaseToleranceBps :: "int option"
  b_maxQuoteAgeMs :: int
  b_expiresAt :: instant
  b_exposureEffect :: ExposureEffect

record EmergencyCloseRequest =
  close_type :: EmergencyCommandType
  close_mint :: "mint_address option"
  close_maxAmount :: "amount option"

record EmergencyClosePolicy =
  settlementMints :: "mint_address list"
  slippageBps :: int
  hardMaxProtectiveSlippageBps :: int
  maxPriceImpactBps :: int
  pol_maxQuoteAgeMs :: int
  validityMs :: int
  maxTxBaseUnits :: "int option"

record EmergencyCloseAction =
  act_mint :: mint_address
  act_tokenAccount :: string
  act_amount :: amount
  act_heldAmount :: amount
  act_outputMint :: mint_address
  act_bounds :: ExecutionBounds

datatype EmergencyPlanRejection =
    ASSET_NOT_HELD | ASSET_IS_SETTLEMENT | ASSET_FROZEN | NO_SETTLEMENT_MINT
  | PLAN_SLIPPAGE_ABOVE_HARD_MAX | NOTHING_TO_CLOSE

type_synonym plan_lists = "EmergencyCloseAction list \<times> (mint_address \<times> EmergencyPlanRejection) list"

section \<open>The plan\<close>

definition cap_at :: "int option \<Rightarrow> int \<Rightarrow> int" where
  "cap_at cap v = (case cap of Some c \<Rightarrow> if c < v then c else v | None \<Rightarrow> v)"

text \<open>The closure \<open>consider\<close>: an action, or the reason why the holding is skipped.\<close>

definition consider_holding ::
  "EmergencyCloseRequest \<Rightarrow> EmergencyClosePolicy \<Rightarrow> mint_address \<Rightarrow> instant \<Rightarrow> Holding \<Rightarrow>
     EmergencyPlanRejection + EmergencyCloseAction" where
  "consider_holding request policy settlement expires h =
     (if holding_mint h \<in> set (settlementMints policy) then Inl ASSET_IS_SETTLEMENT
      else if frozen h then Inl ASSET_FROZEN
      else if holding_amount h \<le> 0 then Inl ASSET_NOT_HELD
      else let amt = cap_at (maxTxBaseUnits policy) (cap_at (close_maxAmount request) (holding_amount h)) in
        if amt \<le> 0 then Inl NOTHING_TO_CLOSE
        else Inr \<lparr>act_mint = holding_mint h, act_tokenAccount = tokenAccount h, act_amount = amt,
                  act_heldAmount = holding_amount h, act_outputMint = settlement,
                  act_bounds = \<lparr>b_inputMint = holding_mint h, b_outputMint = settlement, b_maxInputAmount = amt,
                    b_maxSlippageBps = slippageBps policy, b_maxPriceImpactBps = maxPriceImpactBps policy,
                    b_chaseToleranceBps = None, b_maxQuoteAgeMs = pol_maxQuoteAgeMs policy,
                    b_expiresAt = expires, b_exposureEffect = ExposureEffect.REDUCE\<rparr>\<rparr>)"

fun consider_all ::
  "(Holding \<Rightarrow> EmergencyPlanRejection + EmergencyCloseAction) \<Rightarrow> Holding list \<Rightarrow> plan_lists" where
  "consider_all f [] = ([], [])"
| "consider_all f (h # hs) = (case consider_all f hs of (acts, skipped) \<Rightarrow>
     (case f h of Inl r \<Rightarrow> (acts, (holding_mint h, r) # skipped) | Inr a \<Rightarrow> (a # acts, skipped)))"

definition planEmergencyClose ::
  "EmergencyCloseRequest \<Rightarrow> Holding list \<Rightarrow> EmergencyClosePolicy \<Rightarrow> instant \<Rightarrow>
     EmergencyPlanRejection list + plan_lists" where
  "planEmergencyClose request hs policy now =
     (case settlementMints policy of
        [] \<Rightarrow> Inl [NO_SETTLEMENT_MINT]
      | settlement # _ \<Rightarrow>
          if settlement = [] then Inl [NO_SETTLEMENT_MINT]
          else if slippageBps policy > hardMaxProtectiveSlippageBps policy then Inl [PLAN_SLIPPAGE_ABOVE_HARD_MAX]
          else let consider = consider_holding request policy settlement (addMs now (validityMs policy)) in
            if close_type request = EMERGENCY_CLOSE_ASSET then
              (case close_mint request of
                 None \<Rightarrow> Inl [ASSET_NOT_HELD]
               | Some m \<Rightarrow>
                   if m = [] then Inl [ASSET_NOT_HELD]
                   else if m \<in> set (settlementMints policy) then Inl [ASSET_IS_SETTLEMENT]
                   else let held = filter (\<lambda>h. holding_mint h = m \<and> holding_amount h > 0) hs in
                     if held = [] then Inl [ASSET_NOT_HELD]
                     else (case consider_all consider held of (acts, skipped) \<Rightarrow>
                       if acts \<noteq> [] then Inr (acts, skipped)
                       else Inl [case skipped of [] \<Rightarrow> NOTHING_TO_CLOSE | (_, r) # _ \<Rightarrow> r]))
            else Inr (consider_all consider
                   (filter (\<lambda>h. \<not> (holding_mint h \<in> set (settlementMints policy) \<or> holding_amount h \<le> 0)) hs)))"

section \<open>Shadow stops\<close>

record ShadowPosition =
  positionId :: uuid
  sp_mint :: mint_address
  lastConfirmedQuantity :: amount
  stop_level :: "jsnum option option" \<comment> \<open>no stop, or a stop with or without a level\<close>
  trailingLevel :: "jsnum option"
  timeStopAt :: "instant option"
  sp_unreviewedStop :: "jsnum option"

record PositionRiskShadow =
  shadow_sequence :: int
  shadow_asOf :: instant
  shadow_positions :: "ShadowPosition list"

datatype ShadowStopReason = HARD_STOP | TRAIL_STOP | TIME_STOP | UNREVIEWED_STOP

definition at_or_below :: "jsnum \<Rightarrow> jsnum option \<Rightarrow> bool" where
  "at_or_below price level = (case level of None \<Rightarrow> False | Some l \<Rightarrow> nle price l)"

definition stop_reason :: "ShadowPosition \<Rightarrow> jsnum option \<Rightarrow> instant \<Rightarrow> ShadowStopReason option" where
  "stop_reason p price now = (let
     timed = (case timeStopAt p of Some t \<Rightarrow> if now \<ge> t then Some TIME_STOP else None | None \<Rightarrow> None)
   in case price of
        None \<Rightarrow> timed
      | Some v \<Rightarrow>
          if (case stop_level p of None \<Rightarrow> False | Some l \<Rightarrow> at_or_below v l) then Some HARD_STOP
          else if at_or_below v (trailingLevel p) then Some TRAIL_STOP
          else if at_or_below v (sp_unreviewedStop p) then Some UNREVIEWED_STOP
          else timed)"

definition evaluateShadowStops ::
  "PositionRiskShadow \<Rightarrow> (mint_address \<times> jsnum) list \<Rightarrow> instant \<Rightarrow>
     (uuid \<times> mint_address \<times> amount \<times> ShadowStopReason) list \<times> mint_address list" where
  "evaluateShadowStops shadow marks now = foldl (\<lambda>(hits, unmarked) p.
     let price = map_of marks (sp_mint p); r = stop_reason p price now in
       (case r of None \<Rightarrow> hits | Some x \<Rightarrow> hits @ [(positionId p, sp_mint p, lastConfirmedQuantity p, x)],
        if price = None \<and> r = None then unmarked @ [sp_mint p] else unmarked))
     ([], []) (shadow_positions shadow)"

section \<open>The signed command\<close>

datatype EmergencyIssuer = OPERATOR_OUT_OF_BAND | POSITION_MONITOR | DEAD_MAN | WATCHDOG

record EmergencyCommand =
  commandId :: uuid
  cmd_type :: EmergencyCommandType
  cmd_cluster :: string
  cmd_mint :: "mint_address option"
  cmd_maxAmount :: "amount option"
  issuer :: EmergencyIssuer
  cmd_reason :: string
  cmd_issuedAt :: instant
  cmd_expiresAt :: instant
  cmd_nonce :: nonce

definition command_type_text :: "EmergencyCommandType \<Rightarrow> string" where
  "command_type_text t = (case t of PAUSE_NEW_ENTRIES \<Rightarrow> ''PAUSE_NEW_ENTRIES''
     | EMERGENCY_CLOSE_ASSET \<Rightarrow> ''EMERGENCY_CLOSE_ASSET'' | EMERGENCY_CLOSE_ALL \<Rightarrow> ''EMERGENCY_CLOSE_ALL'')"

definition issuer_text :: "EmergencyIssuer \<Rightarrow> string" where
  "issuer_text i = (case i of OPERATOR_OUT_OF_BAND \<Rightarrow> ''OPERATOR_OUT_OF_BAND'' | POSITION_MONITOR \<Rightarrow> ''POSITION_MONITOR''
     | DEAD_MAN \<Rightarrow> ''DEAD_MAN'' | WATCHDOG \<Rightarrow> ''WATCHDOG'')"

definition command_json :: "crypto \<Rightarrow> EmergencyCommand \<Rightarrow> json" where
  "command_json cr c = JObj
     [(''commandId'', JStr (commandId c)), (''type'', JStr (command_type_text (cmd_type c))),
      (''cluster'', JStr (cmd_cluster c)), (''mint'', opt_json JStr (cmd_mint c)),
      (''maxAmount'', opt_json (\<lambda>a. JStr (show_int a)) (cmd_maxAmount c)),
      (''issuer'', JStr (issuer_text (issuer c))), (''reason'', JStr (cmd_reason c)),
      (''issuedAt'', JStr (iso cr (cmd_issuedAt c))), (''expiresAt'', JStr (iso cr (cmd_expiresAt c))),
      (''nonce'', JStr (cmd_nonce c))]"

definition command_schema_ok :: "(string \<Rightarrow> bool) \<Rightarrow> EmergencyCommand \<Rightarrow> bool" where
  "command_schema_ok is_uuid c \<longleftrightarrow> is_uuid (commandId c) \<and> cmd_cluster c \<in> set SolanaCluster \<and>
     (case cmd_mint c of None \<Rightarrow> True | Some m \<Rightarrow> is_mint m) \<and>
     (case cmd_maxAmount c of None \<Rightarrow> True | Some a \<Rightarrow> amount_ok a) \<and>
     1 \<le> length (cmd_reason c) \<and> length (cmd_reason c) \<le> 1024 \<and> is_nonce (cmd_nonce c) \<and>
     ((cmd_type c = EMERGENCY_CLOSE_ASSET) \<longleftrightarrow> cmd_mint c \<noteq> None)"

datatype EmergencyCommandRejection =
    OPERATOR_KEY_NOT_ACCEPTED | COMMAND_SIGNATURE_INVALID | COMMAND_MALFORMED | CMD_CLUSTER_MISMATCH
  | COMMAND_EXPIRED | COMMAND_NOT_YET_VALID | CMD_NONCE_REPLAYED

definition verifyEmergencyCommand ::
  "crypto \<Rightarrow> (string \<Rightarrow> bool) \<Rightarrow> EmergencyCommand SignedEnvelope \<Rightarrow> VerificationKey list \<Rightarrow> key_id list \<Rightarrow>
     string \<Rightarrow> nonce list \<Rightarrow> instant \<Rightarrow> int \<Rightarrow> EmergencyCommandRejection list + EmergencyCommand" where
  "verifyEmergencyCommand cr is_uuid env keys acceptedKeyIds clu used now maxSkewMs =
     (let accepted = filter (\<lambda>k. vkeyId k \<in> set acceptedKeyIds) keys in
      if \<not> list_ex (\<lambda>k. vkeyId k = keyId env) accepted then Inl [OPERATOR_KEY_NOT_ACCEPTED]
      else case verifySignedEnvelope cr (command_json cr) env accepted of
          Inl _ \<Rightarrow> Inl [COMMAND_SIGNATURE_INVALID]
        | Inr _ \<Rightarrow>
            if \<not> command_schema_ok is_uuid (payload env) then Inl [COMMAND_MALFORMED]
            else let
              c = payload env;
              rs = (if cmd_cluster c \<noteq> clu then [CMD_CLUSTER_MISMATCH] else [])
                 @ (if now \<ge> cmd_expiresAt c then [COMMAND_EXPIRED] else [])
                 @ (if cmd_issuedAt c - now > maxSkewMs then [COMMAND_NOT_YET_VALID] else [])
                 @ (if cmd_nonce c \<in> set used then [CMD_NONCE_REPLAYED] else [])
            in if rs \<noteq> [] then Inl rs else Inr c)"

section \<open>What a plan may contain\<close>

lemma consider_all_in:
  "a \<in> set (fst (consider_all f hs)) \<longleftrightarrow> (\<exists>h \<in> set hs. f h = Inr a)"
  "(m, r) \<in> set (snd (consider_all f hs)) \<longleftrightarrow> (\<exists>h \<in> set hs. holding_mint h = m \<and> f h = Inl r)"
  by (induction f hs rule: consider_all.induct) (auto split: prod.split sum.split)

lemma cap_at_le: "cap_at c v \<le> v" "c = Some k \<Longrightarrow> cap_at c v \<le> k"
  by (auto simp: cap_at_def split: option.split)

lemma consider_holding_Inr:
  assumes "consider_holding q p s x h = Inr a"
  shows "act_mint a = holding_mint h \<and> act_tokenAccount a = tokenAccount h \<and> act_heldAmount a = holding_amount h \<and>
    0 < act_amount a \<and> act_amount a \<le> holding_amount h \<and> \<not> frozen h \<and> holding_mint h \<notin> set (settlementMints p) \<and>
    act_outputMint a = s \<and> act_bounds a = \<lparr>b_inputMint = holding_mint h, b_outputMint = s, b_maxInputAmount = act_amount a,
      b_maxSlippageBps = slippageBps p, b_maxPriceImpactBps = maxPriceImpactBps p, b_chaseToleranceBps = None,
      b_maxQuoteAgeMs = pol_maxQuoteAgeMs p, b_expiresAt = x, b_exposureEffect = ExposureEffect.REDUCE\<rparr> \<and>
    (\<forall>k. maxTxBaseUnits p = Some k \<longrightarrow> act_amount a \<le> k) \<and> (\<forall>k. close_maxAmount q = Some k \<longrightarrow> act_amount a \<le> k)"
proof -
  let ?a = "cap_at (maxTxBaseUnits p) (cap_at (close_maxAmount q) (holding_amount h))"
  have "?a \<le> cap_at (close_maxAmount q) (holding_amount h)" by (rule cap_at_le)
  moreover have "cap_at (close_maxAmount q) (holding_amount h) \<le> holding_amount h" by (rule cap_at_le)
  moreover have "maxTxBaseUnits p = Some k \<Longrightarrow> ?a \<le> k" "close_maxAmount q = Some k \<Longrightarrow> cap_at (close_maxAmount q) (holding_amount h) \<le> k" for k
    by (simp_all add: cap_at_le)
  ultimately show ?thesis using assms
    by (fastforce simp: consider_holding_def Let_def split: if_splits)
qed

lemma plan_actions:
  assumes "planEmergencyClose q hs p now = Inr (acts, skipped)"
  shows "\<exists>s rest f hs'. settlementMints p = s # rest \<and> slippageBps p \<le> hardMaxProtectiveSlippageBps p \<and>
    f = consider_holding q p s (addMs now (validityMs p)) \<and> set hs' \<subseteq> set hs \<and> acts = fst (consider_all f hs') \<and>
    (close_type q \<noteq> EMERGENCY_CLOSE_ASSET \<longrightarrow>
       hs' = filter (\<lambda>h. \<not> (holding_mint h \<in> set (settlementMints p) \<or> holding_amount h \<le> 0)) hs) \<and>
    (close_type q = EMERGENCY_CLOSE_ASSET \<longrightarrow> (\<exists>m. close_mint q = Some m \<and>
       hs' = filter (\<lambda>h. holding_mint h = m \<and> holding_amount h > 0) hs))"
  using assms
  by (auto simp: planEmergencyClose_def Let_def not_less split: list.splits if_splits option.splits prod.splits
      intro: exI [of _ "filter (\<lambda>h. \<not> (holding_mint h \<in> set (settlementMints p) \<or> holding_amount h \<le> 0)) hs"])

section \<open>Properties\<close>

text \<open>
  C15: an emergency plan can only reduce risk. Every action sells a mint the wallet holds on chain,
  from the account that holds it, unfrozen and not a settlement mint, into the deployment's first
  settlement mint, for a positive amount at most the held amount, the requested cap and the
  deployment's cap per transaction, with bounds marked REDUCE and a slippage within the protective
  maximum; and EMERGENCY_CLOSE_ALL leaves out no holding it may sell.
\<close>

theorem plan_only_reduces:
  assumes plan: "planEmergencyClose q hs p now = Inr (acts, skipped)"
  shows "(\<forall>a \<in> set acts. \<exists>h \<in> set hs. act_mint a = holding_mint h \<and> act_tokenAccount a = tokenAccount h \<and>
      \<not> frozen h \<and> act_mint a \<notin> set (settlementMints p) \<and> act_outputMint a = hd (settlementMints p) \<and>
      0 < act_amount a \<and> act_amount a \<le> holding_amount h \<and>
      (\<forall>k. maxTxBaseUnits p = Some k \<longrightarrow> act_amount a \<le> k) \<and> (\<forall>k. close_maxAmount q = Some k \<longrightarrow> act_amount a \<le> k) \<and>
      b_inputMint (act_bounds a) = act_mint a \<and> b_outputMint (act_bounds a) = act_outputMint a \<and>
      b_maxInputAmount (act_bounds a) = act_amount a \<and> b_exposureEffect (act_bounds a) = ExposureEffect.REDUCE \<and>
      b_maxSlippageBps (act_bounds a) \<le> hardMaxProtectiveSlippageBps p)
    \<and> (close_type q \<noteq> EMERGENCY_CLOSE_ASSET \<longrightarrow> (\<forall>h \<in> set hs. holding_mint h \<notin> set (settlementMints p) \<and> \<not> frozen h \<and>
        0 < cap_at (maxTxBaseUnits p) (cap_at (close_maxAmount q) (holding_amount h)) \<longrightarrow>
        (\<exists>a \<in> set acts. act_tokenAccount a = tokenAccount h)))"
proof -
  from plan_actions [OF plan] obtain s rest f hs' where s: "settlementMints p = s # rest"
    and slip: "slippageBps p \<le> hardMaxProtectiveSlippageBps p"
    and f: "f = consider_holding q p s (addMs now (validityMs p))"
    and hs': "set hs' \<subseteq> set hs" and acts: "acts = fst (consider_all f hs')"
    and all: "close_type q \<noteq> EMERGENCY_CLOSE_ASSET \<Longrightarrow>
       hs' = filter (\<lambda>h. \<not> (holding_mint h \<in> set (settlementMints p) \<or> holding_amount h \<le> 0)) hs" by blast
  have one: "\<exists>a \<in> set acts. act_tokenAccount a = tokenAccount h"
    if "close_type q \<noteq> EMERGENCY_CLOSE_ASSET" "h \<in> set hs" "holding_mint h \<notin> set (settlementMints p)" "\<not> frozen h"
      "0 < cap_at (maxTxBaseUnits p) (cap_at (close_maxAmount q) (holding_amount h))" for h
  proof -
    have "0 < holding_amount h"
      using that(5) cap_at_le(1) [of "maxTxBaseUnits p" "cap_at (close_maxAmount q) (holding_amount h)"]
        cap_at_le(1) [of "close_maxAmount q" "holding_amount h"] by linarith
    with that have "h \<in> set hs'" "\<exists>a. f h = Inr a" by (auto simp: all f consider_holding_def Let_def)
    then show ?thesis using consider_holding_Inr unfolding acts f by (metis consider_all_in(1))
  qed
  have two: "\<exists>h \<in> set hs. f h = Inr a" if "a \<in> set acts" for a
    using that hs' by (auto simp: acts consider_all_in)
  show ?thesis
  proof (intro conjI ballI impI)
    fix a assume "a \<in> set acts"
    from two [OF this] obtain h where h: "h \<in> set hs" "f h = Inr a" by blast
    from consider_holding_Inr [OF h(2) [unfolded f]] h(1) slip s
    show "\<exists>h \<in> set hs. act_mint a = holding_mint h \<and> act_tokenAccount a = tokenAccount h \<and>
      \<not> frozen h \<and> act_mint a \<notin> set (settlementMints p) \<and> act_outputMint a = hd (settlementMints p) \<and>
      0 < act_amount a \<and> act_amount a \<le> holding_amount h \<and>
      (\<forall>k. maxTxBaseUnits p = Some k \<longrightarrow> act_amount a \<le> k) \<and> (\<forall>k. close_maxAmount q = Some k \<longrightarrow> act_amount a \<le> k) \<and>
      b_inputMint (act_bounds a) = act_mint a \<and> b_outputMint (act_bounds a) = act_outputMint a \<and>
      b_maxInputAmount (act_bounds a) = act_amount a \<and> b_exposureEffect (act_bounds a) = ExposureEffect.REDUCE \<and>
      b_maxSlippageBps (act_bounds a) \<le> hardMaxProtectiveSlippageBps p" by (intro bexI [of _ h]) simp_all
  qed (use one in blast)
qed

definition toy_holding :: Holding where
  "toy_holding = \<lparr>holding_mint = ''TOK'', tokenAccount = ''acc'', holding_amount = 500, frozen = False, program = []\<rparr>"

definition toy_policy :: EmergencyClosePolicy where
  "toy_policy = \<lparr>settlementMints = [''USDC''], slippageBps = 300, hardMaxProtectiveSlippageBps = 500, maxPriceImpactBps = 500,
     pol_maxQuoteAgeMs = 1000, validityMs = 60000, maxTxBaseUnits = Some 200\<rparr>"

theorem plan_only_reduces_witness:
  "\<exists>acts skipped. planEmergencyClose \<lparr>close_type = EMERGENCY_CLOSE_ALL, close_mint = None, close_maxAmount = None\<rparr>
      [toy_holding] toy_policy 0 = Inr (acts, skipped) \<and> (\<exists>a \<in> set acts. act_tokenAccount a = ''acc'' \<and> act_amount a \<le> 200)"
proof -
  obtain acts skipped where pl: "planEmergencyClose \<lparr>close_type = EMERGENCY_CLOSE_ALL, close_mint = None, close_maxAmount = None\<rparr>
      [toy_holding] toy_policy 0 = Inr (acts, skipped)"
    by (simp add: planEmergencyClose_def toy_policy_def toy_holding_def consider_holding_def cap_at_def)
  from plan_only_reduces [OF pl] have "\<exists>a \<in> set acts. act_tokenAccount a = ''acc''" "\<forall>a \<in> set acts. act_amount a \<le> 200"
    by (auto simp: toy_policy_def toy_holding_def cap_at_def)
  with pl show ?thesis by blast
qed

end
