(* ===== verification/OrderChecks.thy ===== *)
theory OrderChecks imports TxCodec EmergencyPlan begin

text \<open>
  What the executor checks of a router's order before it signs: the order against the authorized
  bounds (\<open>libs/execution/src/validate/order.ts\<close>), the structure of the decoded transaction
  (\<open>validate/structure.ts\<close>) and the price against the quote the decision was taken on
  (\<open>adapter/fill-model.ts\<close>). The texts that explain a rejection (\<open>detail\<close>) are left out.
\<close>

section \<open>Quotes and orders\<close>

record Quote =
  provider :: string
  providerRequestId :: "string option"
  routerLabel :: "string option"
  q_inputMint :: mint_address
  q_outputMint :: mint_address
  inputAmount :: amount
  expectedOutputAmount :: amount
  minOutputAmount :: amount
  priceImpactBps :: "int option"
  q_slippageBps :: int
  routeProgramIds :: "sol_address list"
  usesAddressLookupTables :: bool
  quotedAt :: instant
  q_expiresAt :: "instant option"
  q_lastValidBlockHeight :: "int option"

record JupiterOrderFacts =
  f_requestId :: "string option"
  f_inputMint :: mint_address
  f_outputMint :: mint_address
  inAmount :: amount
  outAmount :: amount
  minOutAmount :: amount
  f_slippageBps :: int
  f_priceImpactBps :: "int option"
  taker :: string
  f_quotedAt :: instant
  f_expiresAt :: "instant option"
  f_lastValidBlockHeight :: "int option"
  transactionBytes :: bytes
  reportedTransactionHash :: "sha256_hex option"

datatype OrderRejection =
    REQUEST_ID_MISSING | INPUT_MINT_MISMATCH | OUTPUT_MINT_MISMATCH | AMOUNT_ABOVE_AUTHORIZED | AMOUNT_ZERO
  | SLIPPAGE_ABOVE_AUTHORIZED | IMPACT_ABOVE_AUTHORIZED | IMPACT_UNKNOWN | MIN_OUT_BELOW_SLIPPAGE_FLOOR
  | TAKER_MISMATCH | QUOTE_TOO_OLD | QUOTE_EXPIRED | BLOCK_HEIGHT_EXPIRED | TRANSACTION_HASH_MISMATCH
  | AUTHORIZATION_EXPIRED

definition slippage_floor :: "amount \<Rightarrow> int \<Rightarrow> int" where
  "slippage_floor out bps = (amountToBigInt out * (10000 - bps)) sdiv 10000"

definition order_reasons ::
  "(bytes \<Rightarrow> sha256_hex) \<Rightarrow> JupiterOrderFacts \<Rightarrow> ExecutionBounds \<Rightarrow> string \<Rightarrow> instant \<Rightarrow> int option \<Rightarrow>
     OrderRejection list" where
  "order_reasons sha o' bounds wallet now height =
     reason_if (f_requestId o' = None \<or> f_requestId o' = Some []) REQUEST_ID_MISSING @
     reason_if (f_inputMint o' \<noteq> b_inputMint bounds) INPUT_MINT_MISMATCH @
     reason_if (f_outputMint o' \<noteq> b_outputMint bounds) OUTPUT_MINT_MISMATCH @
     reason_if (amountToBigInt (inAmount o') = 0) AMOUNT_ZERO @
     reason_if (amountToBigInt (inAmount o') > amountToBigInt (b_maxInputAmount bounds)) AMOUNT_ABOVE_AUTHORIZED @
     reason_if (f_slippageBps o' > b_maxSlippageBps bounds) SLIPPAGE_ABOVE_AUTHORIZED @
     (case f_priceImpactBps o' of
        None \<Rightarrow> [IMPACT_UNKNOWN]
      | Some i \<Rightarrow> reason_if (i > b_maxPriceImpactBps bounds) IMPACT_ABOVE_AUTHORIZED) @
     reason_if (amountToBigInt (minOutAmount o') < slippage_floor (outAmount o') (b_maxSlippageBps bounds))
       MIN_OUT_BELOW_SLIPPAGE_FLOOR @
     reason_if (taker o' \<noteq> wallet) TAKER_MISMATCH @
     reason_if (now - f_quotedAt o' > b_maxQuoteAgeMs bounds) QUOTE_TOO_OLD @
     (case f_expiresAt o' of None \<Rightarrow> [] | Some t \<Rightarrow> reason_if (now \<ge> t) QUOTE_EXPIRED) @
     (case (f_lastValidBlockHeight o', height) of
        (Some valid, Some h) \<Rightarrow> reason_if (h > valid) BLOCK_HEIGHT_EXPIRED | _ \<Rightarrow> []) @
     reason_if (now \<ge> b_expiresAt bounds) AUTHORIZATION_EXPIRED @
     (case reportedTransactionHash o' of
        None \<Rightarrow> [] | Some h \<Rightarrow> reason_if (h \<noteq> sha (transactionBytes o')) TRANSACTION_HASH_MISMATCH)"

definition checkOrderAgainstAuthorization ::
  "(bytes \<Rightarrow> sha256_hex) \<Rightarrow> JupiterOrderFacts \<Rightarrow> ExecutionBounds \<Rightarrow> string \<Rightarrow> instant \<Rightarrow> int option \<Rightarrow>
     OrderRejection list + sha256_hex" where
  "checkOrderAgainstAuthorization sha o' bounds wallet now height =
     (let rs = order_reasons sha o' bounds wallet now height
      in if rs \<noteq> [] then Inl rs else Inr (sha (transactionBytes o')))"

section \<open>The chase against the decision quote\<close>

text \<open>Output per input unit at \<open>1e12\<close>; a zero input amount makes the division raise.\<close>

definition priceScaled :: "Quote \<Rightarrow> arith_error + int" where
  "priceScaled q = (if amountToBigInt (inputAmount q) = 0 then Inl RANGE_ERROR
     else Inr ((amountToBigInt (expectedOutputAmount q) * 1000000000000) sdiv amountToBigInt (inputAmount q)))"

definition chaseWorseBps :: "Quote \<Rightarrow> Quote \<Rightarrow> arith_error + jsnum option" where
  "chaseWorseBps decision executable = ebind (priceScaled decision) (\<lambda>d.
     if d \<le> 0 then Inr None
     else ebind (priceScaled executable) (\<lambda>x. Inr (Some (number_of_bigint (((d - x) * 10000) sdiv d)))))"

section \<open>Structure\<close>

definition SYSTEM_PROGRAM :: string where
  "SYSTEM_PROGRAM = replicate 32 (CHR ''1'')"

record StructureExpectation =
  x_tradingWallet :: string
  allowedPrograms :: "string list"
  allowLookupTables :: bool
  allowedTransferRecipients :: "string list"

datatype StructureRejection =
    NO_INSTRUCTIONS | VERSION_UNSUPPORTED | FEE_PAYER_MISMATCH | UNEXPECTED_SIGNER | WALLET_NOT_SIGNER
  | PROGRAM_VIA_LOOKUP_TABLE | PROGRAM_NOT_ALLOWED | LOOKUP_TABLES_NOT_ALLOWED
  | SYSTEM_TRANSFER_TO_UNAPPROVED_RECIPIENT | ALREADY_SIGNED_BY_OTHERS

text \<open>An index into a JavaScript array: out of range it is \<open>undefined\<close>.\<close>

definition key_at :: "DecodedMessage \<Rightarrow> nat \<Rightarrow> string option" where
  "key_at m i = (if i < length (staticAccountKeys m) then Some (staticAccountKeys m ! i) else None)"

definition account_at :: "DecodedMessage \<Rightarrow> CompiledInstruction \<Rightarrow> nat \<Rightarrow> string option" where
  "account_at m ix i = (if i < length (accountIndexes ix) then key_at m (accountIndexes ix ! i) else None)"

definition is_system_transfer :: "string \<Rightarrow> CompiledInstruction \<Rightarrow> bool" where
  "is_system_transfer prg ix \<longleftrightarrow> prg = SYSTEM_PROGRAM \<and> take 4 (data ix) = [2, 0, 0, 0]"

definition instruction_reasons ::
  "DecodedMessage \<Rightarrow> StructureExpectation \<Rightarrow> CompiledInstruction \<Rightarrow> StructureRejection list" where
  "instruction_reasons m x ix = (case key_at m (programIdIndex ix) of
     None \<Rightarrow> [PROGRAM_VIA_LOOKUP_TABLE]
   | Some prg \<Rightarrow>
       reason_if (prg \<notin> set (allowedPrograms x)) PROGRAM_NOT_ALLOWED @
       reason_if (is_system_transfer prg ix \<and> account_at m ix 0 = Some (x_tradingWallet x) \<and>
                  (case account_at m ix 1 of None \<Rightarrow> True | Some to \<Rightarrow> to \<notin> set (allowedTransferRecipients x)))
         SYSTEM_TRANSFER_TO_UNAPPROVED_RECIPIENT)"

text \<open>\<open>[...new Set(xs)]\<close>: the elements in the order of their first occurrence.\<close>

definition first_occurrences :: "'a list \<Rightarrow> 'a list" where
  "first_occurrences xs = foldl (\<lambda>acc x. if x \<in> set acc then acc else acc @ [x]) [] xs"

definition signers_of :: "DecodedMessage \<Rightarrow> string list" where
  "signers_of m = take (numRequiredSignatures m) (staticAccountKeys m)"

text \<open>A message decoded by \<open>TxCodec\<close> is legacy or version 0, so \<open>VERSION_UNSUPPORTED\<close> never arises.\<close>

definition structure_reasons :: "DecodedTransaction \<Rightarrow> StructureExpectation \<Rightarrow> StructureRejection list" where
  "structure_reasons tx x = (let m = message tx; signers = signers_of m in
     reason_if (instructions m = []) NO_INSTRUCTIONS @
     reason_if (signers = [] \<or> hd signers \<noteq> x_tradingWallet x) FEE_PAYER_MISMATCH @
     reason_if (x_tradingWallet x \<notin> set signers) WALLET_NOT_SIGNER @
     reason_if (filter (\<lambda>s. s \<noteq> x_tradingWallet x) signers \<noteq> []) UNEXPECTED_SIGNER @
     reason_if (list_ex (\<lambda>(i, s). s \<noteq> None \<and> \<not> (i < length signers \<and> signers ! i = x_tradingWallet x))
        (zip [0..<length (signatures tx)] (signatures tx))) ALREADY_SIGNED_BY_OTHERS @
     reason_if (addressTableLookups m \<noteq> [] \<and> \<not> allowLookupTables x) LOOKUP_TABLES_NOT_ALLOWED @
     concat (map (instruction_reasons m x) (instructions m)))"

definition programs_of :: "DecodedMessage \<Rightarrow> string list" where
  "programs_of m = first_occurrences (concat (map (\<lambda>ix. case key_at m (programIdIndex ix) of
     None \<Rightarrow> [] | Some prg \<Rightarrow> [prg]) (instructions m)))"

definition checkTransactionStructure ::
  "DecodedTransaction \<Rightarrow> StructureExpectation \<Rightarrow> StructureRejection list + string list" where
  "checkTransactionStructure tx x = (let rs = structure_reasons tx x
     in if rs \<noteq> [] then Inl (first_occurrences rs) else Inr (programs_of (message tx)))"

section \<open>What a passing check establishes\<close>

definition within_bounds :: "ExecutionBounds \<Rightarrow> string \<Rightarrow> instant \<Rightarrow> JupiterOrderFacts \<Rightarrow> bool" where
  "within_bounds bounds wallet now o' \<longleftrightarrow>
     f_inputMint o' = b_inputMint bounds \<and> f_outputMint o' = b_outputMint bounds \<and> taker o' = wallet \<and>
     inAmount o' \<noteq> 0 \<and> inAmount o' \<le> b_maxInputAmount bounds \<and> f_slippageBps o' \<le> b_maxSlippageBps bounds \<and>
     (\<exists>i. f_priceImpactBps o' = Some i \<and> i \<le> b_maxPriceImpactBps bounds) \<and>
     slippage_floor (outAmount o') (b_maxSlippageBps bounds) \<le> minOutAmount o' \<and>
     now - f_quotedAt o' \<le> b_maxQuoteAgeMs bounds \<and> now < b_expiresAt bounds"

lemma order_ok_within:
  "checkOrderAgainstAuthorization sha o' bounds wallet now height = Inr h \<Longrightarrow> within_bounds bounds wallet now o'"
  by (auto simp: checkOrderAgainstAuthorization_def order_reasons_def within_bounds_def Let_def amountToBigInt_def
      not_less split: if_splits option.splits)

definition structure_safe :: "StructureExpectation \<Rightarrow> DecodedTransaction \<Rightarrow> bool" where
  "structure_safe x tx \<longleftrightarrow> (let m = message tx in
     (\<exists>rest. signers_of m = x_tradingWallet x # rest) \<and> set (signers_of m) = {x_tradingWallet x} \<and>
     instructions m \<noteq> [] \<and> (addressTableLookups m \<noteq> [] \<longrightarrow> allowLookupTables x) \<and>
     (\<forall>ix \<in> set (instructions m). \<exists>p. key_at m (programIdIndex ix) = Some p \<and> p \<in> set (allowedPrograms x) \<and>
        (is_system_transfer p ix \<and> account_at m ix 0 = Some (x_tradingWallet x) \<longrightarrow>
           (\<exists>to. account_at m ix 1 = Some to \<and> to \<in> set (allowedTransferRecipients x)))))"

lemma instruction_ok_safe:
  "instruction_reasons m x ix = [] \<Longrightarrow> \<exists>p. key_at m (programIdIndex ix) = Some p \<and> p \<in> set (allowedPrograms x) \<and>
     (is_system_transfer p ix \<and> account_at m ix 0 = Some (x_tradingWallet x) \<longrightarrow>
        (\<exists>to. account_at m ix 1 = Some to \<and> to \<in> set (allowedTransferRecipients x)))"
  by (auto simp: instruction_reasons_def split: option.splits)

lemma structure_ok_safe: "checkTransactionStructure tx x = Inr ps \<Longrightarrow> structure_safe x tx"
proof -
  assume "checkTransactionStructure tx x = Inr ps"
  then have rs: "structure_reasons tx x = []"
    by (simp add: checkTransactionStructure_def Let_def split: if_splits)
  then have "\<forall>ix \<in> set (instructions (message tx)). instruction_reasons (message tx) x ix = []"
    by (simp add: structure_reasons_def Let_def)
  moreover have "\<exists>rest. signers_of (message tx) = x_tradingWallet x # rest"
    using rs by (cases "signers_of (message tx)") (simp_all add: structure_reasons_def Let_def)
  moreover have "set (signers_of (message tx)) = {x_tradingWallet x}"
    using rs calculation(2) by (auto simp: structure_reasons_def Let_def filter_empty_conv)
  moreover have "instructions (message tx) \<noteq> []" "addressTableLookups (message tx) \<noteq> [] \<longrightarrow> allowLookupTables x"
    using rs by (auto simp: structure_reasons_def Let_def)
  ultimately show ?thesis
    using instruction_ok_safe by (simp add: structure_safe_def Let_def)
qed

end
