(* ===== verification/Deltas.thy ===== *)
theory Deltas imports OrderChecks begin

text \<open>
  The balance deltas of the simulated transaction (\<open>libs/execution/src/simulate/deltas.ts\<close>) over the
  SPL token accounts it decodes (\<open>simulate/token-account.ts\<close>). An account's \<open>dataBase64\<close> is identified
  with the bytes it spells. When the assertions pass, the wallet's balances move within the
  authorization, provided no account changes its mint: the code does not compare the mints.
\<close>

section \<open>Token accounts\<close>

datatype TokenAccountState = UNINITIALIZED | INITIALIZED | FROZEN

record DecodedTokenAccount =
  ta_mint :: string
  ta_owner :: string
  ta_amount :: int
  ta_delegate :: "string option"
  delegatedAmount :: int
  ta_state :: TokenAccountState
  isNative :: bool
  closeAuthority :: "string option"

definition le_value :: "bytes \<Rightarrow> nat" where
  "le_value bs = foldr (\<lambda>b v. unat b + 256 * v) bs 0"

definition slice :: "nat \<Rightarrow> nat \<Rightarrow> bytes \<Rightarrow> bytes" where
  "slice from len bs = take len (drop from bs)"

definition decodeTokenAccount :: "bytes \<Rightarrow> DecodedTokenAccount option" where
  "decodeTokenAccount bs = (if length bs < 165 then None
     else let u32 = (\<lambda>o'. le_value (slice o' 4 bs)); u64 = (\<lambda>o'. le_value (slice o' 8 bs));
              key = (\<lambda>o'. base58Encode (slice o' 32 bs))
       in Some \<lparr>ta_mint = key 0, ta_owner = key 32, ta_amount = int (u64 64),
            ta_delegate = (if u32 72 = 1 then Some (key 76) else None), delegatedAmount = int (u64 121),
            ta_state = (if bs ! 108 = 0 then UNINITIALIZED else if bs ! 108 = 1 then INITIALIZED else FROZEN),
            isNative = (u32 109 = 1), closeAuthority = (if u32 129 = 1 then Some (key 133) else None)\<rparr>)"

section \<open>The assertions\<close>

record AccountSnapshot =
  address :: string
  lamports :: int
  account_owner :: string
  account_data :: bytes

record Balance =
  bal_mint :: string
  bal_amount :: int
  bal_delegate :: "string option"
  bal_closeAuthority :: "string option"
  bal_frozen :: bool
  bal_owner :: string

type_synonym balance_map = "(string \<times> Balance) list"

record DeltaExpectation =
  d_tradingWallet :: string
  d_inputMint :: mint_address
  d_outputMint :: mint_address
  maxInputDecrease :: amount
  minOutputIncrease :: amount
  maxSolDebitLamports :: int
  pre_accounts :: "AccountSnapshot list"
  preWalletLamports :: int
  post_accounts :: "AccountSnapshot option list"
  postWalletLamports :: "int option"
  simulationFailed :: bool
  d_logs :: "string list"
  d_slot :: int
  rpcLabel :: string

datatype DeltaRejection =
    SIMULATION_FAILED | INPUT_DECREASE_ABOVE_AUTHORIZED | OUTPUT_INCREASE_BELOW_MINIMUM
  | UNRELATED_TOKEN_DECREASE | SOL_DEBIT_ABOVE_MODELED | ACCOUNT_OWNER_CHANGED | DELEGATE_INTRODUCED
  | CLOSE_AUTHORITY_INTRODUCED | ACCOUNT_FROZEN | ACCOUNT_CLOSED | WALLET_STATE_MISSING

record SimulationReport =
  rpcEndpointLabel :: string
  sim_slot :: slot
  sim_passed :: bool
  walletDeltas :: "(mint_address \<times> int) list"
  unexpectedAccounts :: "string list"
  sim_logs :: "string list"

text \<open>Both branches of the loop body of \<open>balances\<close> store the same entry.\<close>

definition balances :: "AccountSnapshot option list \<Rightarrow> balance_map" where
  "balances snapshots = foldl (\<lambda>out s. case s of
       None \<Rightarrow> out
     | Some a \<Rightarrow>
         if account_owner a \<noteq> TOKEN_PROGRAM \<and> account_owner a \<noteq> TOKEN_2022_PROGRAM then out
         else (case decodeTokenAccount (account_data a) of
             None \<Rightarrow> out
           | Some t \<Rightarrow> AList.update (address a) \<lparr>bal_mint = ta_mint t, bal_amount = ta_amount t, bal_delegate = ta_delegate t,
               bal_closeAuthority = closeAuthority t, bal_frozen = (ta_state t = FROZEN), bal_owner = ta_owner t\<rparr> out))
     [] snapshots"

definition introduced :: "string option \<Rightarrow> string option \<Rightarrow> bool" where
  "introduced after before \<longleftrightarrow> after \<noteq> None \<and> after \<noteq> before"

text \<open>One turn of the loop over the accounts before: the reasons it pushes and the delta it adds.\<close>

definition compare_account ::
  "DeltaExpectation \<Rightarrow> balance_map \<Rightarrow> string \<times> Balance \<Rightarrow> DeltaRejection list \<times> (string \<times> int) list" where
  "compare_account x post = (\<lambda>(adr, before).
     if bal_owner before \<noteq> d_tradingWallet x then ([], [])
     else (case map_of post adr of
         None \<Rightarrow> (reason_if (\<not> list_ex (\<lambda>s. case s of None \<Rightarrow> False | Some a \<Rightarrow> address a = adr) (post_accounts x)) ACCOUNT_CLOSED,
                  [(bal_mint before, - bal_amount before)])
       | Some after \<Rightarrow>
           (reason_if (bal_owner after \<noteq> bal_owner before) ACCOUNT_OWNER_CHANGED @
            reason_if (introduced (bal_delegate after) (bal_delegate before)) DELEGATE_INTRODUCED @
            reason_if (introduced (bal_closeAuthority after) (bal_closeAuthority before)) CLOSE_AUTHORITY_INTRODUCED @
            reason_if (bal_frozen after \<and> \<not> bal_frozen before) ACCOUNT_FROZEN,
            [(bal_mint before, bal_amount after - bal_amount before)])))"

text \<open>An account the wallet holds after and no account held before.\<close>

definition is_new :: "DeltaExpectation \<Rightarrow> balance_map \<Rightarrow> string \<times> Balance \<Rightarrow> bool" where
  "is_new x pre = (\<lambda>(adr, after). map_of pre adr = None \<and> bal_owner after = d_tradingWallet x)"

definition all_moves :: "DeltaExpectation \<Rightarrow> balance_map \<Rightarrow> balance_map \<Rightarrow> (string \<times> int) list" where
  "all_moves x pre post = concat (map (snd \<circ> compare_account x post) pre) @
     map (\<lambda>(adr, after). (bal_mint after, bal_amount after)) (filter (is_new x pre) post)"

definition add_move :: "(string \<times> int) list \<Rightarrow> string \<times> int \<Rightarrow> (string \<times> int) list" where
  "add_move m = (\<lambda>(mt, d). AList.update mt (default 0 (map_of m mt) + d) m)"

definition per_mint :: "DeltaExpectation \<Rightarrow> balance_map \<Rightarrow> balance_map \<Rightarrow> (string \<times> int) list" where
  "per_mint x pre post = foldl add_move [] (all_moves x pre post)"

definition delta_reasons :: "DeltaExpectation \<Rightarrow> balance_map \<Rightarrow> balance_map \<Rightarrow> DeltaRejection list" where
  "delta_reasons x pre post = (let perMint = per_mint x pre post;
       inputDelta = default 0 (map_of perMint (d_inputMint x));
       outputDelta = default 0 (map_of perMint (d_outputMint x))
     in reason_if (simulationFailed x) SIMULATION_FAILED @
        concat (map (fst \<circ> compare_account x post) pre) @
        reason_if (- inputDelta > maxInputDecrease x) INPUT_DECREASE_ABOVE_AUTHORIZED @
        reason_if (outputDelta < minOutputIncrease x) OUTPUT_INCREASE_BELOW_MINIMUM @
        concat (map (\<lambda>(mt, d). reason_if (mt \<noteq> d_inputMint x \<and> mt \<noteq> d_outputMint x \<and> d < 0) UNRELATED_TOKEN_DECREASE) perMint) @
        (case postWalletLamports x of
           None \<Rightarrow> [WALLET_STATE_MISSING]
         | Some l \<Rightarrow> reason_if (preWalletLamports x - l > maxSolDebitLamports x) SOL_DEBIT_ABOVE_MODELED))"

definition assertSemanticDeltas :: "DeltaExpectation \<Rightarrow> SimulationReport \<times> DeltaRejection list" where
  "assertSemanticDeltas x = (let pre = balances (map Some (pre_accounts x)); post = balances (post_accounts x);
       unique = first_occurrences (delta_reasons x pre post)
     in (\<lparr>rpcEndpointLabel = rpcLabel x, sim_slot = d_slot x, sim_passed = (unique = []),
          walletDeltas = per_mint x pre post,
          unexpectedAccounts = map fst (filter (\<lambda>(adr, after). bal_mint after \<noteq> d_outputMint x) (filter (is_new x pre) post)),
          sim_logs = d_logs x\<rparr>, unique))"

section \<open>What the deltas say about balances\<close>

lemma first_occurrences_Nil [simp]: "first_occurrences xs = [] \<longleftrightarrow> xs = []"
proof -
  have grow: "acc \<noteq> [] \<Longrightarrow> foldl (\<lambda>acc x. if x \<in> set acc then acc else acc @ [x]) acc xs \<noteq> []" for acc xs
    by (induction xs arbitrary: acc) auto
  show ?thesis
  proof (cases xs)
    case (Cons a as)
    then show ?thesis using grow [of "[a]" as] by (simp add: first_occurrences_def)
  qed (simp add: first_occurrences_def)
qed

text \<open>What the wallet holds of a mint.\<close>

definition held :: "string \<Rightarrow> string \<Rightarrow> Balance \<Rightarrow> int" where
  "held wallet mt b = (if bal_owner b = wallet \<and> bal_mint b = mt then bal_amount b else 0)"

definition wallet_balance :: "string \<Rightarrow> string \<Rightarrow> balance_map \<Rightarrow> int" where
  "wallet_balance wallet mt m = sum_list (map (held wallet mt \<circ> snd) m)"

definition moves_of :: "string \<Rightarrow> (string \<times> int) list \<Rightarrow> int" where
  "moves_of mt ms = sum_list (map (\<lambda>(m, d). if m = mt then d else 0) ms)"

lemma add_moves_sum: "default 0 (map_of (foldl add_move m ms) mt) = default 0 (map_of m mt) + moves_of mt ms"
  by (induction ms arbitrary: m) (auto simp: add_move_def moves_of_def)

lemma per_mint_sum: "default 0 (map_of (per_mint x pre post) mt) = moves_of mt (all_moves x pre post)"
  by (simp add: per_mint_def add_moves_sum)

lemma balances_distinct: "distinct (map fst (balances xs))"
proof -
  have "distinct (map fst m) \<Longrightarrow> distinct (map fst (foldl (\<lambda>out s. case s of
       None \<Rightarrow> out
     | Some a \<Rightarrow>
         if account_owner a \<noteq> TOKEN_PROGRAM \<and> account_owner a \<noteq> TOKEN_2022_PROGRAM then out
         else (case decodeTokenAccount (account_data a) of
             None \<Rightarrow> out
           | Some t \<Rightarrow> AList.update (address a) (f t) out)) m xs))" for m :: balance_map and f
    by (induction xs arbitrary: m) (simp_all split: option.split)
  then show ?thesis by (simp add: balances_def)
qed

lemma sum_alist:
  "distinct (map fst xs) \<Longrightarrow>
     (\<Sum>(k, v)\<leftarrow>xs. (g k v :: int)) = (\<Sum>k\<in>dom (map_of xs). g k (the (map_of xs k)))"
proof -
  assume d: "distinct (map fst xs)"
  then have "(\<Sum>(k, v)\<leftarrow>xs. g k v) = (\<Sum>p\<in>set xs. case p of (k, v) \<Rightarrow> g k v)"
    by (simp add: sum_list_distinct_conv_sum_set distinct_map)
  also have "\<dots> = (\<Sum>k\<in>fst ` set xs. g k (the (map_of xs k)))"
    using d by (intro sum.reindex_cong [symmetric, of fst]) (auto simp: distinct_map)
  finally show ?thesis by (simp add: dom_map_of_conv_image_fst)
qed

lemma sum_split_keys:
  assumes "distinct (map fst m)" and "distinct (map fst n)"
  shows "(\<Sum>(k, v)\<leftarrow>n. (f v :: int)) = (\<Sum>(k, v)\<leftarrow>m. case map_of n k of None \<Rightarrow> 0 | Some w \<Rightarrow> f w) +
     (\<Sum>(k, v)\<leftarrow>n. if map_of m k = None then f v else 0)"
proof -
  let ?M = "dom (map_of m)" and ?N = "dom (map_of n)" and ?f = "\<lambda>k. f (the (map_of n k))"
  have fin: "finite ?M" "finite ?N" by (simp_all add: finite_dom_map_of)
  have "(\<Sum>k\<in>?M. case map_of n k of None \<Rightarrow> 0 | Some w \<Rightarrow> f w) = (\<Sum>k\<in>?N \<inter> ?M. ?f k)"
    using fin by (intro sum.mono_neutral_cong_right) (auto split: option.splits)
  moreover have "(\<Sum>k\<in>?N. if map_of m k = None then ?f k else 0) = (\<Sum>k\<in>?N - ?M. ?f k)"
    using fin by (intro sum.mono_neutral_cong_right) auto
  moreover have "(\<Sum>k\<in>?N. ?f k) = (\<Sum>k\<in>?N \<inter> ?M. ?f k) + (\<Sum>k\<in>?N - ?M. ?f k)"
    using fin by (intro sum.Int_Diff)
  ultimately show ?thesis by (simp add: sum_alist assms)
qed

text \<open>The accounts of both views, the wallet's own ones unchanged but for their amounts.\<close>

definition account_kept :: "Balance \<Rightarrow> Balance \<Rightarrow> bool" where
  "account_kept before after \<longleftrightarrow> bal_owner after = bal_owner before \<and>
     (bal_delegate after = None \<or> bal_delegate after = bal_delegate before) \<and>
     (bal_closeAuthority after = None \<or> bal_closeAuthority after = bal_closeAuthority before) \<and>
     (bal_frozen after \<longrightarrow> bal_frozen before)"

lemma compare_ok:
  assumes "fst (compare_account x post (a, b)) = []" and "bal_owner b = d_tradingWallet x" and "map_of post a = Some t"
  shows "account_kept b t"
  using assms by (auto simp: compare_account_def account_kept_def introduced_def)

lemma moves_append [simp]: "moves_of mt (xs @ ys) = moves_of mt xs + moves_of mt ys"
  by (simp add: moves_of_def)

lemma moves_lower:
  assumes ok: "\<forall>p \<in> set pre. fst (compare_account x post p) = []"
    and mint: "\<forall>(a, b) \<in> set pre. \<forall>t. map_of post a = Some t \<longrightarrow> bal_mint t = bal_mint b"
    and nn: "\<forall>t. t \<in> ran (map_of post) \<longrightarrow> 0 \<le> bal_amount t"
  shows "moves_of mt (concat (map (snd \<circ> compare_account x post) pre)) + wallet_balance (d_tradingWallet x) mt pre
     \<le> (\<Sum>(k, v)\<leftarrow>pre. case map_of post k of None \<Rightarrow> 0 | Some w \<Rightarrow> held (d_tradingWallet x) mt w)"
  using ok mint
proof (induction pre)
  case (Cons p pre)
  obtain a b where p: "p = (a, b)" by (cases p)
  have "moves_of mt (snd (compare_account x post p)) + held (d_tradingWallet x) mt b
      \<le> (case map_of post a of None \<Rightarrow> 0 | Some w \<Rightarrow> held (d_tradingWallet x) mt w)"
  proof (cases "map_of post a")
    case None
    then show ?thesis by (simp add: p compare_account_def held_def moves_of_def)
  next
    case (Some t)
    then have n: "0 \<le> bal_amount t" using nn by (auto simp: ran_def)
    have m: "bal_mint t = bal_mint b" using Cons.prems(2) p Some by auto
    show ?thesis
    proof (cases "bal_owner b = d_tradingWallet x")
      case True
      then have "bal_owner t = bal_owner b"
        using compare_ok [of x post a b t] Cons.prems(1) p Some by (simp add: account_kept_def)
      with True Some m show ?thesis by (simp add: p compare_account_def held_def moves_of_def)
    next
      case False
      with Some n show ?thesis by (simp add: p compare_account_def held_def moves_of_def)
    qed
  qed
  with Cons show ?case by (simp add: wallet_balance_def p)
qed (simp add: moves_of_def wallet_balance_def)

lemma new_moves:
  "moves_of mt (map (\<lambda>(adr, after). (bal_mint after, bal_amount after)) (filter (is_new x pre) post))
     = (\<Sum>(k, v)\<leftarrow>post. if map_of pre k = None then held (d_tradingWallet x) mt v else 0)"
  by (induction post) (auto simp: moves_of_def is_new_def held_def split: if_splits)

lemma balances_nonneg: "t \<in> ran (map_of (balances xs)) \<Longrightarrow> 0 \<le> bal_amount t"
proof -
  let ?P = "\<lambda>m. \<forall>t \<in> ran (map_of m). 0 \<le> bal_amount t"
  have "?P m \<Longrightarrow> ?P (foldl (\<lambda>out s. case s of
       None \<Rightarrow> out
     | Some a \<Rightarrow>
         if account_owner a \<noteq> TOKEN_PROGRAM \<and> account_owner a \<noteq> TOKEN_2022_PROGRAM then out
         else (case decodeTokenAccount (account_data a) of
             None \<Rightarrow> out
           | Some t \<Rightarrow> AList.update (address a) \<lparr>bal_mint = ta_mint t, bal_amount = ta_amount t, bal_delegate = ta_delegate t,
               bal_closeAuthority = closeAuthority t, bal_frozen = (ta_state t = FROZEN), bal_owner = ta_owner t\<rparr> out)) m xs)" for m
  proof (induction xs arbitrary: m)
    case (Cons s xs)
    have "ta_amount t \<ge> 0" if "decodeTokenAccount d = Some t" for d t
      using that by (auto simp: decodeTokenAccount_def Let_def split: if_splits)
    with Cons.prems show ?case
      by (simp, intro Cons.IH) (auto simp: ran_def split: option.split if_splits)
  qed simp
  from this [of "[]"] show "t \<in> ran (map_of (balances xs)) \<Longrightarrow> 0 \<le> bal_amount t"
    unfolding balances_def by auto
qed

lemma balance_growth:
  assumes "distinct (map fst pre)" and "distinct (map fst post)"
    and "\<forall>p \<in> set pre. fst (compare_account x post p) = []"
    and "\<forall>(a, b) \<in> set pre. \<forall>t. map_of post a = Some t \<longrightarrow> bal_mint t = bal_mint b"
    and "\<forall>t. t \<in> ran (map_of post) \<longrightarrow> 0 \<le> bal_amount t"
  shows "wallet_balance (d_tradingWallet x) mt pre + default 0 (map_of (per_mint x pre post) mt)
     \<le> wallet_balance (d_tradingWallet x) mt post"
proof -
  have "wallet_balance (d_tradingWallet x) mt post = (\<Sum>(k, v)\<leftarrow>post. held (d_tradingWallet x) mt v)"
    by (simp add: wallet_balance_def case_prod_unfold comp_def)
  with sum_split_keys [OF assms(1,2), of "held (d_tradingWallet x) mt"] moves_lower [OF assms(3-5), of mt]
  show ?thesis by (simp add: per_mint_sum all_moves_def new_moves)
qed

section \<open>Properties\<close>

text \<open>
  C27: a simulation that passes moves the wallet only within the authorization. When the assertions
  give no reason and no account present before and after changed its mint, the wallet's total of
  the input mint falls by at most the authorized amount, its total of the output mint rises by at
  least the promised minimum, its total of no other mint falls, the SOL debit is within the modelled
  fees, and no account of the wallet changes owner, gains a delegate or close authority or is frozen.
\<close>

theorem passing_deltas_bound_balances:
  assumes ok: "snd (assertSemanticDeltas x) = []"
    and pre: "pre = balances (map Some (pre_accounts x))" and post: "post = balances (post_accounts x)"
    and mint: "\<forall>(a, b) \<in> set pre. \<forall>t. map_of post a = Some t \<longrightarrow> bal_mint t = bal_mint b"
  shows "let w = d_tradingWallet x; total = (\<lambda>mt m. wallet_balance w mt m) in
    total (d_inputMint x) pre - total (d_inputMint x) post \<le> maxInputDecrease x \<and>
    minOutputIncrease x \<le> total (d_outputMint x) post - total (d_outputMint x) pre \<and>
    (\<forall>mt. mt \<noteq> d_inputMint x \<longrightarrow> mt \<noteq> d_outputMint x \<longrightarrow> total mt pre \<le> total mt post) \<and>
    (\<exists>l. postWalletLamports x = Some l \<and> preWalletLamports x - l \<le> maxSolDebitLamports x) \<and>
    (\<forall>a b t. (a, b) \<in> set pre \<longrightarrow> bal_owner b = w \<longrightarrow> map_of post a = Some t \<longrightarrow> account_kept b t)"
proof -
  have r: "delta_reasons x pre post = []"
    using ok by (simp add: assertSemanticDeltas_def Let_def pre post)
  then have cmp: "\<forall>p \<in> set pre. fst (compare_account x post p) = []"
    by (simp add: delta_reasons_def Let_def)
  have g: "wallet_balance (d_tradingWallet x) mt pre + default 0 (map_of (per_mint x pre post) mt)
      \<le> wallet_balance (d_tradingWallet x) mt post" for mt
    by (rule balance_growth [OF _ _ cmp mint]) (use balances_nonneg in \<open>auto simp: pre post balances_distinct\<close>)
  have "- default 0 (map_of (per_mint x pre post) (d_inputMint x)) \<le> maxInputDecrease x"
    "minOutputIncrease x \<le> default 0 (map_of (per_mint x pre post) (d_outputMint x))"
    using r by (simp_all add: delta_reasons_def Let_def)
  moreover have "0 \<le> default 0 (map_of (per_mint x pre post) mt)" if "mt \<noteq> d_inputMint x" "mt \<noteq> d_outputMint x" for mt
  proof (cases "map_of (per_mint x pre post) mt")
    case (Some d)
    then have "(mt, d) \<in> set (per_mint x pre post)" by (rule map_of_SomeD)
    with r that show ?thesis by (auto simp: delta_reasons_def Let_def Some)
  qed simp
  moreover have "\<exists>l. postWalletLamports x = Some l \<and> preWalletLamports x - l \<le> maxSolDebitLamports x"
    using r by (auto simp: delta_reasons_def Let_def split: option.splits)
  moreover have "(a, b) \<in> set pre \<Longrightarrow> bal_owner b = d_tradingWallet x \<Longrightarrow> map_of post a = Some t \<Longrightarrow> account_kept b t" for a b t
    using cmp compare_ok by blast
  ultimately have c: "- default 0 (map_of (per_mint x pre post) (d_inputMint x)) \<le> maxInputDecrease x"
    "minOutputIncrease x \<le> default 0 (map_of (per_mint x pre post) (d_outputMint x))"
    "\<And>mt. mt \<noteq> d_inputMint x \<Longrightarrow> mt \<noteq> d_outputMint x \<Longrightarrow> 0 \<le> default 0 (map_of (per_mint x pre post) mt)"
    "\<exists>l. postWalletLamports x = Some l \<and> preWalletLamports x - l \<le> maxSolDebitLamports x"
    "\<And>a b t. (a, b) \<in> set pre \<Longrightarrow> bal_owner b = d_tradingWallet x \<Longrightarrow> map_of post a = Some t \<Longrightarrow> account_kept b t"
    by blast+
  show ?thesis
    unfolding Let_def
  proof (intro conjI allI impI)
    fix mt assume "mt \<noteq> d_inputMint x" "mt \<noteq> d_outputMint x"
    from c(3) [OF this] g [of mt]
    show "wallet_balance (d_tradingWallet x) mt pre \<le> wallet_balance (d_tradingWallet x) mt post" by linarith
  qed (use c g [of "d_inputMint x"] g [of "d_outputMint x"] in \<open>linarith | blast\<close>)+
qed

text \<open>A token account whose mint and owner are the all-zero key, holding \<open>n\<close> base units.\<close>

definition toy_account :: "8 word \<Rightarrow> AccountSnapshot" where
  "toy_account n = \<lparr>address = ''acc'', lamports = 0, account_owner = TOKEN_PROGRAM,
     account_data = replicate 64 0 @ [n] @ replicate 43 0 @ [1] @ replicate 56 0\<rparr>"

definition toy_balance :: "int \<Rightarrow> Balance" where
  "toy_balance n = \<lparr>bal_mint = replicate 32 (CHR ''1''), bal_amount = n, bal_delegate = None, bal_closeAuthority = None,
     bal_frozen = False, bal_owner = replicate 32 (CHR ''1'')\<rparr>"

definition toy_deltas :: DeltaExpectation where
  "toy_deltas = \<lparr>d_tradingWallet = replicate 32 (CHR ''1''), d_inputMint = replicate 32 (CHR ''1''), d_outputMint = ''out'',
     maxInputDecrease = 10, minOutputIncrease = 0, maxSolDebitLamports = 5000,
     pre_accounts = [toy_account 100], preWalletLamports = 9000,
     post_accounts = [Some (toy_account 90)], postWalletLamports = Some 4000,
     simulationFailed = False, d_logs = [], d_slot = 7, rpcLabel = ''sim''\<rparr>"

lemma le_value_zeros: "le_value (replicate n 0) = 0" "le_value (b # replicate n 0) = unat b"
proof -
  show z: "le_value (replicate n 0) = 0" for n by (induction n) (simp_all add: le_value_def)
  show "le_value (b # replicate n 0) = unat b" using z [of n] by (simp add: le_value_def)
qed

lemma toy_mints [simp]: "''out'' \<noteq> replicate 32 (CHR ''1'')" "''junk'' \<noteq> replicate 32 (CHR ''1'')"
  by (auto simp: list_eq_iff_nth_eq)

lemma toy_decoded: "balances [Some (toy_account n)] = [(''acc'', toy_balance (int (unat n)))]"
  by (simp add: balances_def toy_account_def toy_balance_def decodeTokenAccount_def slice_def Let_def
      base58_zeros le_value_zeros nth_append)

theorem passing_deltas_bound_balances_witness:
  "wallet_balance (replicate 32 (CHR ''1'')) (replicate 32 (CHR ''1'')) (balances [Some (toy_account 100)]) -
   wallet_balance (replicate 32 (CHR ''1'')) (replicate 32 (CHR ''1'')) (balances [Some (toy_account 90)]) \<le> 10"
proof -
  have acc: "post_accounts toy_deltas = [Some (toy_account 90)]" "map Some (pre_accounts toy_deltas) = [Some (toy_account 100)]"
    by (simp_all add: toy_deltas_def)
  have "delta_reasons toy_deltas [(''acc'', toy_balance 100)] [(''acc'', toy_balance 90)] = []"
    by (simp add: delta_reasons_def per_mint_def all_moves_def compare_account_def add_move_def is_new_def introduced_def
        toy_deltas_def toy_balance_def Let_def)
  then have "snd (assertSemanticDeltas toy_deltas) = []"
    unfolding assertSemanticDeltas_def Let_def acc toy_decoded by simp
  from passing_deltas_bound_balances [OF this refl refl] show ?thesis
    unfolding acc toy_decoded Let_def by (simp add: toy_balance_def toy_deltas_def)
qed

text \<open>
  The condition on mints is needed: the loop books the amount after under the mint before, so an
  account that held the input mint and comes back with as much of another token hides the loss of
  its whole balance.
\<close>

lemma mint_change_unseen:
  "delta_reasons (toy_deltas\<lparr>maxInputDecrease := 0\<rparr>) [(''acc'', toy_balance 100)] [(''acc'', toy_balance 100\<lparr>bal_mint := ''junk''\<rparr>)] = []"
  "wallet_balance (replicate 32 (CHR ''1'')) (replicate 32 (CHR ''1'')) [(''acc'', toy_balance 100\<lparr>bal_mint := ''junk''\<rparr>)] = 0"
  by (simp_all add: delta_reasons_def per_mint_def all_moves_def compare_account_def add_move_def is_new_def introduced_def
      toy_deltas_def toy_balance_def Let_def wallet_balance_def held_def)

end
