(* ===== verification/IntentRegistry.thy ===== *)
theory IntentRegistry imports Vocabulary begin

text \<open>
  The intent lifecycle and its idempotency registry
  (\<open>libs/execution/src/state/intent.ts\<close>): a key is claimed for good by the first intent that
  registers it, every redelivery returns that intent, and the lifecycle only moves forward.
\<close>

datatype IntentLifecycleState =
    CREATED | AUTHORIZED | APPROVED | EXECUTING | COMPLETED | EXPIRED | CANCELLED | FAILED

definition TERMINAL :: "IntentLifecycleState list" where
  "TERMINAL = [COMPLETED, EXPIRED, CANCELLED, FAILED]"

record IntentEntry =
  intentId :: uuid
  idempotencyKey :: idempotency_key
  state :: IntentLifecycleState

type_synonym IntentRegistry = "(idempotency_key \<times> IntentEntry) list"

definition emptyIntentRegistry :: IntentRegistry where
  "emptyIntentRegistry = []"

definition isIntentTerminal :: "IntentLifecycleState \<Rightarrow> bool" where
  "isIntentTerminal s \<longleftrightarrow> s \<in> set TERMINAL"

datatype RegisterResult = R_CREATED IntentRegistry IntentEntry | R_DUPLICATE IntentRegistry IntentEntry

definition registerIntent :: "IntentRegistry \<Rightarrow> uuid \<Rightarrow> idempotency_key \<Rightarrow> RegisterResult" where
  "registerIntent registry i k = (case map_of registry k of
       Some existing \<Rightarrow> R_DUPLICATE registry existing
     | None \<Rightarrow> let entry = \<lparr>intentId = i, idempotencyKey = k, state = CREATED\<rparr>
               in R_CREATED (AList.update k entry registry) entry)"

fun ALLOWED :: "IntentLifecycleState \<Rightarrow> IntentLifecycleState list" where
  "ALLOWED CREATED = [AUTHORIZED, EXPIRED, CANCELLED, FAILED]"
| "ALLOWED AUTHORIZED = [APPROVED, EXECUTING, EXPIRED, CANCELLED, FAILED]"
| "ALLOWED APPROVED = [EXECUTING, EXPIRED, CANCELLED, FAILED]"
| "ALLOWED EXECUTING = [COMPLETED, FAILED]"
| "ALLOWED COMPLETED = []"
| "ALLOWED EXPIRED = []"
| "ALLOWED CANCELLED = []"
| "ALLOWED FAILED = []"

datatype IntentRejection =
    UNKNOWN_KEY IntentLifecycleState
  | INVALID_TRANSITION IntentLifecycleState IntentLifecycleState

definition advanceIntent ::
  "IntentRegistry \<Rightarrow> idempotency_key \<Rightarrow> IntentLifecycleState \<Rightarrow> IntentRejection + (IntentRegistry \<times> IntentEntry)" where
  "advanceIntent registry k to = (case map_of registry k of
       None \<Rightarrow> Inl (UNKNOWN_KEY to)
     | Some existing \<Rightarrow>
         if to \<notin> set (ALLOWED (state existing)) then Inl (INVALID_TRANSITION (state existing) to)
         else let entry = existing\<lparr>state := to\<rparr> in Inr (AList.update k entry registry, entry))"

definition activeIntents :: "IntentRegistry \<Rightarrow> IntentEntry list" where
  "activeIntents registry = filter (\<lambda>e. \<not> isIntentTerminal (state e)) (map snd registry)"

section \<open>The registry as an event machine\<close>

datatype registry_op = RegisterOp uuid idempotency_key | AdvanceOp idempotency_key IntentLifecycleState

fun registry_step :: "IntentRegistry \<Rightarrow> registry_op \<Rightarrow> IntentRejection + IntentRegistry" where
  "registry_step r (RegisterOp i k) = (case registerIntent r i k of
       R_CREATED r' _ \<Rightarrow> Inr r' | R_DUPLICATE r' _ \<Rightarrow> Inr r')"
| "registry_step r (AdvanceOp k to) = (case advanceIntent r k to of
       Inl rej \<Rightarrow> Inl rej | Inr (r', _) \<Rightarrow> Inr r')"

definition registry_wf :: "IntentRegistry \<Rightarrow> bool" where
  "registry_wf r \<longleftrightarrow> distinct (map fst r) \<and> (\<forall>k e. map_of r k = Some e \<longrightarrow> idempotencyKey e = k)"

text \<open>The key \<open>k\<close> belongs to the intent \<open>i\<close>, and once it is terminal its entry is \<open>e\<close>.\<close>

definition claimed :: "idempotency_key \<Rightarrow> uuid \<Rightarrow> IntentRegistry \<Rightarrow> bool" where
  "claimed k i r \<longleftrightarrow> (\<exists>e. map_of r k = Some e \<and> intentId e = i)"

definition settled :: "idempotency_key \<Rightarrow> IntentEntry \<Rightarrow> IntentRegistry \<Rightarrow> bool" where
  "settled k e r \<longleftrightarrow> map_of r k = Some e \<and> isIntentTerminal (state e)"

lemma ALLOWED_from_terminal: "isIntentTerminal s \<Longrightarrow> ALLOWED s = []"
  by (cases s) (simp_all add: isIntentTerminal_def TERMINAL_def)

lemma registry_step_cases:
  assumes "registry_step r op = Inr r'"
  obtains "r' = r"
  | k i where "op = RegisterOp i k" "map_of r k = None"
      "r' = AList.update k \<lparr>intentId = i, idempotencyKey = k, state = CREATED\<rparr> r"
  | k s e where "op = AdvanceOp k s" "map_of r k = Some e" "s \<in> set (ALLOWED (state e))"
      "r' = AList.update k (e\<lparr>state := s\<rparr>) r"
  using assms
  by (cases op) (auto simp: registerIntent_def advanceIntent_def Let_def split: option.splits if_splits)

lemma registry_wf_update:
  "registry_wf r \<Longrightarrow> idempotencyKey e = k \<Longrightarrow> registry_wf (AList.update k e r)"
  by (simp add: registry_wf_def)

lemma registry_wf_key: "registry_wf r \<Longrightarrow> map_of r k = Some e \<Longrightarrow> idempotencyKey e = k"
  by (simp add: registry_wf_def)

interpretation ir: event_machine registry_step registry_wf
proof
  fix r op r' assume wf: "registry_wf r" and st: "registry_step r op = Inr r'"
  from st show "registry_wf r'"
    by (cases rule: registry_step_cases) (use wf in \<open>auto intro!: registry_wf_update dest: registry_wf_key\<close>)
qed

interpretation irc: event_machine registry_step "claimed k i" for k i
proof
  fix r op r' assume c: "claimed k i r" and st: "registry_step r op = Inr r'"
  from st show "claimed k i r'"
    by (cases rule: registry_step_cases) (use c in \<open>auto simp: claimed_def\<close>)
qed

interpretation irs: event_machine registry_step "settled k e" for k e
proof
  fix r op r' assume c: "settled k e r" and st: "registry_step r op = Inr r'"
  from st show "settled k e r'"
    by (cases rule: registry_step_cases) (use c in \<open>auto simp: settled_def ALLOWED_from_terminal\<close>)
qed

section \<open>Properties\<close>

text \<open>
  An idempotency key is claimed for good. Whatever is registered or advanced after a key
  was claimed, a redelivery under that key is answered DUPLICATE with the same intent and leaves
  the registry as it was; once the intent is terminal its entry never changes.
\<close>

theorem key_claimed_permanently:
  assumes "map_of r k = Some e"
  shows "\<exists>e'. registerIntent (run_events registry_step r ops) i k
              = R_DUPLICATE (run_events registry_step r ops) e'
            \<and> intentId e' = intentId e \<and> (isIntentTerminal (state e) \<longrightarrow> e' = e)"
proof -
  have "claimed k (intentId e) (run_events registry_step r ops)"
    by (rule irc.run_inv) (use assms in \<open>simp add: claimed_def\<close>)
  then obtain e' where e': "map_of (run_events registry_step r ops) k = Some e'" "intentId e' = intentId e"
    by (auto simp: claimed_def)
  have "isIntentTerminal (state e) \<Longrightarrow> settled k e (run_events registry_step r ops)"
    by (rule irs.run_inv) (use assms in \<open>simp add: settled_def\<close>)
  with e' show ?thesis by (auto simp: registerIntent_def settled_def)
qed

theorem key_claimed_permanently_witness:
  "\<exists>e'. registerIntent (run_events registry_step [(''k'', \<lparr>intentId = ''i1'', idempotencyKey = ''k'', state = CREATED\<rparr>)]
            [AdvanceOp ''k'' AUTHORIZED, AdvanceOp ''k'' FAILED]) ''i2'' ''k''
          = R_DUPLICATE (run_events registry_step [(''k'', \<lparr>intentId = ''i1'', idempotencyKey = ''k'', state = CREATED\<rparr>)]
            [AdvanceOp ''k'' AUTHORIZED, AdvanceOp ''k'' FAILED]) e' \<and> intentId e' = ''i1''"
  using key_claimed_permanently
    [of "[(''k'', \<lparr>intentId = ''i1'', idempotencyKey = ''k'', state = CREATED\<rparr>)]" "''k''"
        "\<lparr>intentId = ''i1'', idempotencyKey = ''k'', state = CREATED\<rparr>"
        "[AdvanceOp ''k'' AUTHORIZED, AdvanceOp ''k'' FAILED]" "''i2''"]
  by auto

end
