(* ===== verification/Idempotency.thy ===== *)
theory Idempotency imports IntentRegistry Journal begin

text \<open>
  The executor's idempotency registry (\<open>apps/execution-service/src/idempotency/intents.ts\<close>): the
  pure registry of \<open>IntentRegistry\<close> held in one field and rebuilt from the durable journal after
  a restart. A key claimed in the journal stays with the first intent that claimed it.
\<close>

section \<open>The registry\<close>

record claim_result =
  duplicate :: bool
  claim_state :: IntentLifecycleState
  claim_intentId :: uuid

definition claim :: "IntentRegistry \<Rightarrow> uuid \<Rightarrow> idempotency_key \<Rightarrow> claim_result \<times> IntentRegistry" where
  "claim r i k = (case registerIntent r i k of
       R_CREATED r' e \<Rightarrow> (\<lparr>duplicate = False, claim_state = state e, claim_intentId = intentId e\<rparr>, r')
     | R_DUPLICATE r' e \<Rightarrow> (\<lparr>duplicate = True, claim_state = state e, claim_intentId = intentId e\<rparr>, r'))"

definition advance :: "IntentRegistry \<Rightarrow> idempotency_key \<Rightarrow> IntentLifecycleState \<Rightarrow> bool \<times> IntentRegistry" where
  "advance r k to = (case advanceIntent r k to of Inl _ \<Rightarrow> (False, r) | Inr (r', _) \<Rightarrow> (True, r'))"

definition peek :: "IntentRegistry \<Rightarrow> idempotency_key \<Rightarrow> (uuid \<times> IntentLifecycleState) option" where
  "peek r k = map_option (\<lambda>e. (intentId e, state e)) (map_of r k)"

definition key_state :: "IntentRegistry \<Rightarrow> idempotency_key \<Rightarrow> IntentLifecycleState option" where
  "key_state r k = map_option state (map_of r k)"

text \<open>\<open>if (r.state(k) === s) r.advance(k, to)\<close>\<close>

definition advance_if :: "IntentLifecycleState list \<Rightarrow> IntentLifecycleState \<Rightarrow> idempotency_key \<Rightarrow> IntentRegistry \<Rightarrow> IntentRegistry" where
  "advance_if from to k r = (case key_state r k of
       Some s \<Rightarrow> if s \<in> set from then snd (advance r k to) else r | None \<Rightarrow> r)"

section \<open>Rebuilding from the journal\<close>

definition lifecycle_of :: "string \<Rightarrow> IntentLifecycleState option" where
  "lifecycle_of s = (if s = ''COMPLETED'' then Some COMPLETED else if s = ''FAILED'' then Some FAILED
     else if s = ''EXPIRED'' then Some IntentLifecycleState.EXPIRED else if s = ''CANCELLED'' then Some CANCELLED else None)"

definition replay_entry :: "IntentRegistry \<Rightarrow> JournalEntry \<Rightarrow> IntentRegistry" where
  "replay_entry r e = (case (get_text e ''idempotencyKey'', get_text e ''intentId'') of
     (Some k, Some i) \<Rightarrow>
       if kind e = ATTEMPT_PREPARED then snd (claim r i k)
       else if kind e = ATTEMPT_SUBMITTED then snd (advance (advance_if [CREATED] AUTHORIZED k r) k EXECUTING)
       else if kind e = ATTEMPT_RESULT then
         (case get_text e ''lifecycle'' of
            None \<Rightarrow> r
          | Some t \<Rightarrow> (case lifecycle_of t of
                None \<Rightarrow> r
              | Some s \<Rightarrow> let r' = (if s = COMPLETED
                            then advance_if [AUTHORIZED, APPROVED] EXECUTING k (advance_if [CREATED] AUTHORIZED k r) else r)
                        in snd (advance r' k s)))
       else r
   | _ \<Rightarrow> r)"

definition fromJournal :: "JournalEntry list \<Rightarrow> IntentRegistry" where
  "fromJournal es = foldl replay_entry emptyIntentRegistry es"

section \<open>Every change is a registry operation\<close>

lemma claim_event: "snd (claim r i k) = apply_event registry_step r (RegisterOp i k)"
  by (simp add: claim_def apply_event_def split: RegisterResult.split)

lemma advance_event: "snd (advance r k to) = apply_event registry_step r (AdvanceOp k to)"
  by (simp add: advance_def apply_event_def split: sum.split prod.split)

lemma replay_keeps:
  assumes step: "\<And>r op. P r \<Longrightarrow> P (apply_event registry_step r op)"
  shows "P r \<Longrightarrow> P (replay_entry r e)"
proof -
  have a: "P r \<Longrightarrow> P (advance_if fs to k r)" for fs to k r
    by (simp add: advance_if_def advance_event step split: option.split)
  show "P r \<Longrightarrow> P (replay_entry r e)"
    by (auto simp: replay_entry_def claim_event advance_event Let_def intro!: step a split: option.split)
qed

lemma replay_all_keeps:
  assumes step: "\<And>r op. P r \<Longrightarrow> P (apply_event registry_step r op)"
  shows "P r \<Longrightarrow> P (foldl replay_entry r es)"
  by (induction es arbitrary: r) (simp_all add: replay_keeps [where P = P, OF step])

lemma fromJournal_wf: "registry_wf (fromJournal es)"
  unfolding fromJournal_def
  by (rule replay_all_keeps) (rule ir.apply_inv, assumption, simp add: registry_wf_def emptyIntentRegistry_def)

text \<open>An entry that claims the key, and a registry in which nobody did.\<close>

definition claims_key :: "idempotency_key \<Rightarrow> JournalEntry \<Rightarrow> bool" where
  "claims_key k e \<longleftrightarrow> kind e = ATTEMPT_PREPARED \<and> get_text e ''idempotencyKey'' = Some k \<and> get_text e ''intentId'' \<noteq> None"

lemma advance_unclaimed: "map_of r k = None \<Longrightarrow> map_of (snd (advance r k' to)) k = None"
  by (auto simp: advance_def advanceIntent_def Let_def split: option.split)

lemma advance_if_unclaimed: "map_of r k = None \<Longrightarrow> map_of (advance_if from to k' r) k = None"
  by (simp add: advance_if_def advance_unclaimed split: option.split)

lemma replay_unclaimed:
  "map_of r k = None \<Longrightarrow> \<not> claims_key k e \<Longrightarrow> map_of (replay_entry r e) k = None"
  by (auto simp: replay_entry_def claims_key_def Let_def claim_def registerIntent_def
      advance_unclaimed advance_if_unclaimed split: option.split)

lemma replay_all_unclaimed:
  "map_of r k = None \<Longrightarrow> \<forall>e \<in> set es. \<not> claims_key k e \<Longrightarrow> map_of (foldl replay_entry r es) k = None"
  by (induction es arbitrary: r) (simp_all add: replay_unclaimed)

section \<open>Properties\<close>

text \<open>
  C10: a redelivery after a crash can never become a second entry. Once the journal holds an
  ATTEMPT_PREPARED line for a key, a registry rebuilt from the journal, whatever lines follow,
  answers every claim of that key with DUPLICATE and the intent of the first such line, and the
  claim leaves the registry unchanged.
\<close>

theorem redelivery_after_restart:
  assumes e: "kind e = ATTEMPT_PREPARED" "get_text e ''idempotencyKey'' = Some k" "get_text e ''intentId'' = Some i"
    and first: "\<forall>e' \<in> set pre. \<not> claims_key k e'"
  shows "\<exists>s. claim (fromJournal (pre @ e # post)) j k
     = (\<lparr>duplicate = True, claim_state = s, claim_intentId = i\<rparr>, fromJournal (pre @ e # post))"
proof -
  have "map_of (fromJournal pre) k = None"
    unfolding fromJournal_def by (rule replay_all_unclaimed) (use first in \<open>simp_all add: emptyIntentRegistry_def\<close>)
  then have "claimed k i (replay_entry (fromJournal pre) e)"
    using e by (simp add: replay_entry_def claim_def registerIntent_def claimed_def Let_def)
  then have "claimed k i (foldl replay_entry (replay_entry (fromJournal pre) e) post)"
    by (rule replay_all_keeps [rotated]) (rule irc.apply_inv)
  then have "claimed k i (fromJournal (pre @ e # post))" by (simp add: fromJournal_def)
  then show ?thesis by (auto simp: claimed_def claim_def registerIntent_def)
qed

definition toy_prepared :: JournalEntry where
  "toy_prepared = \<lparr>sequence = 0, entry_at = 0, kind = ATTEMPT_PREPARED, correlationId = ''i1'',
     entry_payload = [(''intentId'', JStr ''i1''), (''idempotencyKey'', JStr ''key-0001'')], previousHash = [], hash = []\<rparr>"

theorem redelivery_after_restart_witness:
  "\<exists>s r. claim (fromJournal [toy_prepared, toy_prepared\<lparr>kind := ATTEMPT_SUBMITTED\<rparr>]) ''i2'' ''key-0001''
     = (\<lparr>duplicate = True, claim_state = s, claim_intentId = ''i1''\<rparr>, r)"
  using redelivery_after_restart [of toy_prepared "''key-0001''" "''i1''" "[]" "[toy_prepared\<lparr>kind := ATTEMPT_SUBMITTED\<rparr>]" "''i2''"]
  by (auto simp: toy_prepared_def get_text_def)

end
