(* ===== verification/Effects.thy ===== *)
theory Effects imports Prelude begin

text \<open>
  Triples for programs with a state and exceptions: from a state with \<open>P\<close> the program either
  returns a value and a state with \<open>Q\<close>, or throws and leaves a state with \<open>E\<close>. One rule per
  combinator; \<^const>\<open>keeps\<close> is the triple whose three assertions are one invariant.
\<close>

definition triple :: "('s \<Rightarrow> bool) \<Rightarrow> ('s, 'e, 'a) prog \<Rightarrow> ('a \<Rightarrow> 's \<Rightarrow> bool) \<Rightarrow> ('e \<Rightarrow> 's \<Rightarrow> bool) \<Rightarrow> bool" where
  "triple P m Q E \<longleftrightarrow> (\<forall>s. P s \<longrightarrow> (case m s of (Inl e, t) \<Rightarrow> E e t | (Inr a, t) \<Rightarrow> Q a t))"

lemma tripleI:
  "(\<And>s e t. P s \<Longrightarrow> m s = (Inl e, t) \<Longrightarrow> E e t) \<Longrightarrow> (\<And>s a t. P s \<Longrightarrow> m s = (Inr a, t) \<Longrightarrow> Q a t) \<Longrightarrow> triple P m Q E"
  by (auto simp: triple_def split: prod.split sum.split)

lemma triple_Inr: "triple P m Q E \<Longrightarrow> P s \<Longrightarrow> m s = (Inr a, t) \<Longrightarrow> Q a t"
  by (fastforce simp: triple_def)

lemma triple_Inl: "triple P m Q E \<Longrightarrow> P s \<Longrightarrow> m s = (Inl e, t) \<Longrightarrow> E e t"
  by (fastforce simp: triple_def)

lemma keeps_triple: "keeps P (m :: ('s, 'e, 'a) prog) \<longleftrightarrow> triple P m (\<lambda>_. P) (\<lambda>_. P)"
proof -
  have "(case r of (Inl e, t) \<Rightarrow> P t | (Inr a, t) \<Rightarrow> P t) = P (snd r)" for r :: "('e + 'a) \<times> 's"
    by (simp split: prod.split sum.split)
  then show ?thesis by (simp add: keeps_def triple_def)
qed

lemma triple_conseq:
  "triple P m Q E \<Longrightarrow> (\<And>s. P' s \<Longrightarrow> P s) \<Longrightarrow> (\<And>a s. Q a s \<Longrightarrow> Q' a s) \<Longrightarrow> (\<And>e s. E e s \<Longrightarrow> E' e s) \<Longrightarrow> triple P' m Q' E'"
  by (fastforce simp: triple_def split: prod.splits sum.splits)

lemma triple_pre: "triple P m Q E \<Longrightarrow> (\<And>s. P' s \<Longrightarrow> P s) \<Longrightarrow> triple P' m Q E"
  by (rule triple_conseq)

lemma triple_bind: "triple P m Q E \<Longrightarrow> (\<And>a. triple (Q a) (f a) R E) \<Longrightarrow> triple P (bind m f) R E"
  by (fastforce simp: triple_def bind_run split: prod.splits sum.splits)

lemma triple_andthen: "triple P m (\<lambda>_. Q) E \<Longrightarrow> triple Q n R E \<Longrightarrow> triple P (andthen m n) R E"
  unfolding andthen_def by (rule triple_bind)

lemma triple_return: "(\<And>s. P s \<Longrightarrow> Q a s) \<Longrightarrow> triple P (return a) Q E"
  by (simp add: triple_def)

lemma triple_throw: "(\<And>s. P s \<Longrightarrow> E e s) \<Longrightarrow> triple P (throw e) Q E"
  by (simp add: triple_def)

lemma triple_asks: "(\<And>s. P s \<Longrightarrow> Q (f s) s) \<Longrightarrow> triple P (asks f) Q E"
  by (simp add: triple_def)

lemma triple_modify: "(\<And>s. P s \<Longrightarrow> Q () (f s)) \<Longrightarrow> triple P (modify f) Q E"
  by (simp add: triple_def)

lemma triple_lift: "(\<And>e s. r = Inl e \<Longrightarrow> P s \<Longrightarrow> E e s) \<Longrightarrow> (\<And>a s. r = Inr a \<Longrightarrow> P s \<Longrightarrow> Q a s) \<Longrightarrow> triple P (lift_result r) Q E"
  by (cases r) (simp_all add: triple_def)

lemma triple_when: "(b \<Longrightarrow> triple P m Q E) \<Longrightarrow> (\<And>s. \<not> b \<Longrightarrow> P s \<Longrightarrow> Q () s) \<Longrightarrow> triple P (when_cond b m) Q E"
  by (simp add: triple_def when_cond_def)

lemma triple_if: "(b \<Longrightarrow> triple P m Q E) \<Longrightarrow> (\<not> b \<Longrightarrow> triple P n Q E) \<Longrightarrow> triple P (if b then m else n) Q E"
  by simp

lemma triple_for_each: "(\<And>x. x \<in> set xs \<Longrightarrow> triple P (f x) (\<lambda>_. P) E) \<Longrightarrow> triple P (for_each xs f) (\<lambda>_. P) E"
  by (induction xs) (auto intro: triple_return triple_andthen)

lemma triple_value: "keeps P m \<Longrightarrow> (\<And>s a t. m s = (Inr a, t) \<Longrightarrow> \<phi> a) \<Longrightarrow> triple P m (\<lambda>a s. P s \<and> \<phi> a) (\<lambda>_. P)"
  by (fastforce simp: triple_def keeps_def split: prod.splits sum.splits)

lemma triple_pure: "(\<phi> \<Longrightarrow> triple P m Q E) \<Longrightarrow> triple (\<lambda>s. P s \<and> \<phi>) m Q E"
  by (auto simp: triple_def)

text \<open>\<open>try { m } catch (e) { h e }\<close>, and \<open>keeps\<close> for case distinctions.\<close>

definition try_catch :: "('s, 'e, 'a) prog \<Rightarrow> ('e \<Rightarrow> ('s, 'e, 'a) prog) \<Rightarrow> ('s, 'e, 'a) prog" where
  "try_catch m h = (\<lambda>s. case m s of (Inl e, t) \<Rightarrow> h e t | (Inr a, t) \<Rightarrow> (Inr a, t))"

lemma triple_try: "triple P m Q E \<Longrightarrow> (\<And>e. triple (E e) (h e) Q F) \<Longrightarrow> triple P (try_catch m h) Q F"
  by (fastforce simp: triple_def try_catch_def split: prod.splits sum.splits)

lemma keeps_try [inv_intros]: "keeps P m \<Longrightarrow> (\<And>e. keeps P (h e)) \<Longrightarrow> keeps P (try_catch m h)"
  unfolding keeps_triple by (rule triple_try)

lemma keeps_case_option [inv_intros]:
  "(x = None \<Longrightarrow> keeps P m) \<Longrightarrow> (\<And>a. x = Some a \<Longrightarrow> keeps P (f a)) \<Longrightarrow> keeps P (case x of None \<Rightarrow> m | Some a \<Rightarrow> f a)"
  by (cases x) simp_all

lemma keeps_case_sum [inv_intros]:
  "(\<And>a. x = Inl a \<Longrightarrow> keeps P (f a)) \<Longrightarrow> (\<And>b. x = Inr b \<Longrightarrow> keeps P (g b)) \<Longrightarrow> keeps P (case x of Inl a \<Rightarrow> f a | Inr b \<Rightarrow> g b)"
  by (cases x) simp_all

lemma keeps_case_prod [inv_intros]:
  "(\<And>a b. x = (a, b) \<Longrightarrow> keeps P (f a b)) \<Longrightarrow> keeps P (case x of (a, b) \<Rightarrow> f a b)"
  by (cases x) simp

end
