(* ===== verification/LiveAdapter.thy ===== *)
theory LiveAdapter imports Deltas OrderAttempt Idempotency Effects begin

text \<open>
  The live execution adapter (\<open>libs/execution/src/adapter/live-adapter.ts\<close>): order, checks, structure,
  simulation, recheck, signature, journal, gate, submission, observation. Everything the class takes
  in its options is an effect on the caller's state: the router, the signer, the simulation endpoint,
  the clock and the hooks of the executor. Base64 texts are identified with the bytes they spell.
\<close>

section \<open>Records\<close>

record QuoteRequest =
  qr_inputMint :: mint_address
  qr_outputMint :: mint_address
  qr_inputAmount :: amount
  qr_maxSlippageBps :: int
  qr_taker :: string
  qr_cluster :: string
  qr_requestedAt :: instant

record JupiterOrder =
  jo_requestId :: string
  jo_quote :: Quote
  jo_transaction :: bytes
  jo_taker :: string
  jo_router :: "string option"
  jo_lastValidBlockHeight :: "int option"

record JupiterExecuteResult =
  je_success :: bool
  je_signature :: "tx_signature option"
  je_slot :: "slot option"
  je_code :: "int option"
  je_error :: "string option"
  je_inputAmount :: "amount option"
  je_outputAmount :: "amount option"

record SimulationOutcome =
  so_slot :: slot
  so_failed :: bool
  so_logs :: "string list"
  so_accounts :: "AccountSnapshot option list"

record ExecutionRequest =
  r_intent :: TradeIntent
  r_capitalAuthority :: CapitalAuthority
  r_authorization :: "RiskAuthorizedIntent SignedEnvelope option"
  r_approvalHash :: "sha256_hex option"
  r_executionPath :: ExecutionPath

record Order =
  or_id :: uuid
  or_intentId :: uuid
  or_authorizationHash :: "sha256_hex option"
  or_executionPath :: ExecutionPath
  or_transactionClass :: TransactionClass
  or_createdAt :: instant

record SubmissionResult =
  sub_at :: instant
  sub_path :: ExecutionPath
  sub_signature :: "tx_signature option"

record Attempt =
  a_id :: uuid
  a_orderId :: uuid
  a_intentId :: uuid
  a_authorizationHash :: "sha256_hex option"
  a_state :: OrderAttemptState
  a_jupiterRequestId :: "string option"
  a_router :: "string option"
  a_signedTxHash :: "sha256_hex option"
  a_expectedTxSignature :: "tx_signature option"
  a_lastValidBlockHeight :: "int option"
  a_quoteExpiresAt :: "instant option"
  a_signedAt :: "instant option"
  a_submittedAt :: "instant option"
  a_submissions :: "SubmissionResult list"
  a_confirmedAt :: "instant option"
  a_confirmedSlot :: "slot option"
  a_finalizedAt :: "instant option"
  a_finalizedSlot :: "slot option"
  a_reorgDetectedAt :: "instant option"
  a_notLandedReason :: "string option"
  a_reconciliationOutcome :: "string option"
  a_createdAt :: instant

record Fill =
  fi_id :: uuid
  fi_orderAttemptId :: uuid
  fi_txSignature :: tx_signature
  fi_commitment :: ChainCommitment
  fi_slot :: slot
  fi_inputMint :: mint_address
  fi_outputMint :: mint_address
  fi_inputAmount :: amount
  fi_outputAmount :: amount
  fi_executionShortfallBps :: "jsnum option"
  fi_executionPath :: ExecutionPath
  fi_lotAllocations :: "(uuid \<times> amount) list"
  fi_filledAt :: instant

record ExecutionResult =
  re_intentId :: uuid
  re_attemptId :: uuid
  re_state :: OrderAttemptState
  re_executionPath :: ExecutionPath
  re_quote :: "Quote option"
  re_simulation :: "SimulationReport option"
  re_signedTxHash :: "sha256_hex option"
  re_txSignature :: "tx_signature option"
  re_fillId :: "uuid option"
  re_rejectionReasons :: "string list"
  re_completedAt :: instant

record DetailedExecution =
  x_result :: ExecutionResult
  x_order :: Order
  x_attempt :: Attempt
  x_fill :: "Fill option"
  x_decisionQuote :: "Quote option"

section \<open>Errors, effects and options\<close>

datatype Boundary = AFTER_PREPARED | AFTER_SIGNED_JOURNAL | AFTER_SUBMITTED_JOURNAL | AFTER_RESPONSE

datatype exec_error =
    PROVIDER_ERROR string | SIGNER_TIMEOUT | CRASH Boundary | JOURNAL_ERROR journal_error
  | LEDGER_ERROR ledger_error | ARITH_ERROR arith_error | CODEC_ERROR codec_error
  | TRANSITION_REJECTED OrderAttemptRejection | NO_EMERGENCY_PATH mint_address string

type_synonym ('s, 'a) eff = "('s, exec_error, 'a) prog"

text \<open>\<open>None\<close> from the order and decision-quote clients is a thrown \<open>NoRouteError\<close>.\<close>

record 's LiveAdapterOptions =
  o_order :: "QuoteRequest \<Rightarrow> ('s, JupiterOrder option) eff"
  o_execute :: "bytes \<Rightarrow> string \<Rightarrow> ('s, JupiterExecuteResult) eff"
  o_decisionQuote :: "TradeIntent \<Rightarrow> ('s, Quote option option) eff"
  o_publicKey :: string
  o_sign :: "bytes \<Rightarrow> uuid \<Rightarrow> uuid \<Rightarrow> sha256_hex \<Rightarrow> ('s, tx_signature) eff"
  o_accounts :: "string list \<Rightarrow> ('s, AccountSnapshot option list) eff"
  o_simulate :: "bytes \<Rightarrow> string list \<Rightarrow> ('s, SimulationOutcome) eff"
  o_label :: string
  o_now :: "('s, instant) eff"
  o_newId :: "('s, uuid) eff"
  o_cluster :: string
  o_structure :: StructureExpectation
  o_maxSolDebitLamports :: int
  o_journal :: "Order \<Rightarrow> Attempt \<Rightarrow> ('s, unit) eff"
  o_beforeSubmit :: "ExecutionBounds \<Rightarrow> ('s, string option) eff"
  o_awaitFinalized :: "tx_signature \<Rightarrow> int option \<Rightarrow> ('s, slot option) eff"
  o_proveDead :: "tx_signature \<Rightarrow> int option \<Rightarrow> ('s, (bool \<times> bool) option) eff"
  o_currentBlockHeight :: "('s, int option) eff"
  o_registry :: "('s, IntentRegistry) eff"
  o_setRegistry :: "IntentRegistry \<Rightarrow> ('s, unit) eff"
  o_sha :: "bytes \<Rightarrow> sha256_hex"

text \<open>The locals of \<open>executeDetailed\<close> that its closure \<open>reject\<close> reads.\<close>

record live_locals =
  l_order :: Order
  l_attemptId :: uuid
  l_machine :: OrderAttemptRecord
  l_quoteExpiresAt :: "instant option"
  l_signedAt :: "instant option"
  l_submittedAt :: "instant option"
  l_confirmedAt :: "instant option"
  l_finalizedAt :: "instant option"
  l_requestId :: "string option"
  l_router :: "string option"
  l_simulation :: "SimulationReport option"

section \<open>Texts of the reasons\<close>

fun order_rejection_text :: "OrderRejection \<Rightarrow> string" where
  "order_rejection_text REQUEST_ID_MISSING = ''REQUEST_ID_MISSING''"
| "order_rejection_text INPUT_MINT_MISMATCH = ''INPUT_MINT_MISMATCH''"
| "order_rejection_text OUTPUT_MINT_MISMATCH = ''OUTPUT_MINT_MISMATCH''"
| "order_rejection_text AMOUNT_ABOVE_AUTHORIZED = ''AMOUNT_ABOVE_AUTHORIZED''"
| "order_rejection_text AMOUNT_ZERO = ''AMOUNT_ZERO''"
| "order_rejection_text SLIPPAGE_ABOVE_AUTHORIZED = ''SLIPPAGE_ABOVE_AUTHORIZED''"
| "order_rejection_text IMPACT_ABOVE_AUTHORIZED = ''IMPACT_ABOVE_AUTHORIZED''"
| "order_rejection_text IMPACT_UNKNOWN = ''IMPACT_UNKNOWN''"
| "order_rejection_text MIN_OUT_BELOW_SLIPPAGE_FLOOR = ''MIN_OUT_BELOW_SLIPPAGE_FLOOR''"
| "order_rejection_text TAKER_MISMATCH = ''TAKER_MISMATCH''"
| "order_rejection_text QUOTE_TOO_OLD = ''QUOTE_TOO_OLD''"
| "order_rejection_text QUOTE_EXPIRED = ''QUOTE_EXPIRED''"
| "order_rejection_text BLOCK_HEIGHT_EXPIRED = ''BLOCK_HEIGHT_EXPIRED''"
| "order_rejection_text TRANSACTION_HASH_MISMATCH = ''TRANSACTION_HASH_MISMATCH''"
| "order_rejection_text AUTHORIZATION_EXPIRED = ''AUTHORIZATION_EXPIRED''"

fun structure_rejection_text :: "StructureRejection \<Rightarrow> string" where
  "structure_rejection_text NO_INSTRUCTIONS = ''NO_INSTRUCTIONS''"
| "structure_rejection_text VERSION_UNSUPPORTED = ''VERSION_UNSUPPORTED''"
| "structure_rejection_text FEE_PAYER_MISMATCH = ''FEE_PAYER_MISMATCH''"
| "structure_rejection_text UNEXPECTED_SIGNER = ''UNEXPECTED_SIGNER''"
| "structure_rejection_text WALLET_NOT_SIGNER = ''WALLET_NOT_SIGNER''"
| "structure_rejection_text PROGRAM_VIA_LOOKUP_TABLE = ''PROGRAM_VIA_LOOKUP_TABLE''"
| "structure_rejection_text PROGRAM_NOT_ALLOWED = ''PROGRAM_NOT_ALLOWED''"
| "structure_rejection_text LOOKUP_TABLES_NOT_ALLOWED = ''LOOKUP_TABLES_NOT_ALLOWED''"
| "structure_rejection_text SYSTEM_TRANSFER_TO_UNAPPROVED_RECIPIENT = ''SYSTEM_TRANSFER_TO_UNAPPROVED_RECIPIENT''"
| "structure_rejection_text ALREADY_SIGNED_BY_OTHERS = ''ALREADY_SIGNED_BY_OTHERS''"

fun delta_rejection_text :: "DeltaRejection \<Rightarrow> string" where
  "delta_rejection_text SIMULATION_FAILED = ''SIMULATION_FAILED''"
| "delta_rejection_text INPUT_DECREASE_ABOVE_AUTHORIZED = ''INPUT_DECREASE_ABOVE_AUTHORIZED''"
| "delta_rejection_text OUTPUT_INCREASE_BELOW_MINIMUM = ''OUTPUT_INCREASE_BELOW_MINIMUM''"
| "delta_rejection_text UNRELATED_TOKEN_DECREASE = ''UNRELATED_TOKEN_DECREASE''"
| "delta_rejection_text SOL_DEBIT_ABOVE_MODELED = ''SOL_DEBIT_ABOVE_MODELED''"
| "delta_rejection_text ACCOUNT_OWNER_CHANGED = ''ACCOUNT_OWNER_CHANGED''"
| "delta_rejection_text DELEGATE_INTRODUCED = ''DELEGATE_INTRODUCED''"
| "delta_rejection_text CLOSE_AUTHORITY_INTRODUCED = ''CLOSE_AUTHORITY_INTRODUCED''"
| "delta_rejection_text ACCOUNT_FROZEN = ''ACCOUNT_FROZEN''"
| "delta_rejection_text ACCOUNT_CLOSED = ''ACCOUNT_CLOSED''"
| "delta_rejection_text WALLET_STATE_MISSING = ''WALLET_STATE_MISSING''"

text \<open>The parity vocabulary leads, the validator's own reasons follow.\<close>

definition canonical_reason :: "OrderRejection \<Rightarrow> string option" where
  "canonical_reason r = (case r of
     IMPACT_ABOVE_AUTHORIZED \<Rightarrow> Some ''IMPACT_ABOVE_MAX'' | IMPACT_UNKNOWN \<Rightarrow> Some ''IMPACT_ABOVE_MAX''
   | AUTHORIZATION_EXPIRED \<Rightarrow> Some ''INTENT_EXPIRED'' | QUOTE_TOO_OLD \<Rightarrow> Some ''QUOTE_STALE''
   | QUOTE_EXPIRED \<Rightarrow> Some ''QUOTE_STALE'' | BLOCK_HEIGHT_EXPIRED \<Rightarrow> Some ''QUOTE_STALE''
   | SLIPPAGE_ABOVE_AUTHORIZED \<Rightarrow> Some ''SLIPPAGE_EXCEEDED'' | _ \<Rightarrow> None)"

definition canonicalReasons :: "OrderRejection list \<Rightarrow> string list" where
  "canonicalReasons rs = (case find (\<lambda>c. c \<noteq> None) (map canonical_reason rs) of
     Some (Some first) \<Rightarrow> first # map order_rejection_text rs
   | _ \<Rightarrow> map order_rejection_text rs)"

section \<open>Results\<close>

definition result_of ::
  "'s LiveAdapterOptions \<Rightarrow> ExecutionRequest \<Rightarrow> live_locals \<Rightarrow> Quote option \<Rightarrow> sha256_hex option \<Rightarrow>
     tx_signature option \<Rightarrow> uuid option \<Rightarrow> string list \<Rightarrow> ('s, ExecutionResult) eff" where
  "result_of opts req l q txHash sig fillId reasons = bind (o_now opts) (\<lambda>t. return
     \<lparr>re_intentId = ti_id (r_intent req), re_attemptId = l_attemptId l, re_state = OrderAttemptRecord.state (l_machine l),
      re_executionPath = r_executionPath req, re_quote = q, re_simulation = l_simulation l, re_signedTxHash = txHash,
      re_txSignature = sig, re_fillId = fillId, re_rejectionReasons = reasons, re_completedAt = t\<rparr>)"

definition toAttempt :: "live_locals \<Rightarrow> string list \<Rightarrow> Attempt" where
  "toAttempt l reasons = (let m = l_machine l; ord = l_order l in
     \<lparr>a_id = l_attemptId l, a_orderId = or_id ord, a_intentId = or_intentId ord,
      a_authorizationHash = or_authorizationHash ord, a_state = OrderAttemptRecord.state m,
      a_jupiterRequestId = l_requestId l, a_router = l_router l, a_signedTxHash = signedTxHash m,
      a_expectedTxSignature = expectedTxSignature m, a_lastValidBlockHeight = lastValidBlockHeight m,
      a_quoteExpiresAt = l_quoteExpiresAt l, a_signedAt = l_signedAt l, a_submittedAt = l_submittedAt l,
      a_submissions = map (\<lambda>p. \<lparr>sub_at = default (or_createdAt ord) (l_submittedAt l), sub_path = p,
         sub_signature = expectedTxSignature m\<rparr>) (submissionPaths m),
      a_confirmedAt = l_confirmedAt l, a_confirmedSlot = confirmedSlot m, a_finalizedAt = l_finalizedAt l,
      a_finalizedSlot = finalizedSlot m, a_reorgDetectedAt = reorgDetectedAt m, a_notLandedReason = notLandedReason m,
      a_reconciliationOutcome = (case reasons of [] \<Rightarrow> None | r # _ \<Rightarrow> Some (''REJECTED:'' @ r)),
      a_createdAt = or_createdAt ord\<rparr>)"

text \<open>The closure \<open>reject\<close>.\<close>

definition reject ::
  "'s LiveAdapterOptions \<Rightarrow> ExecutionRequest \<Rightarrow> live_locals \<Rightarrow> string list \<Rightarrow> Quote option \<Rightarrow> ('s, DetailedExecution) eff" where
  "reject opts req l reasons q = bind (result_of opts req l q None None None reasons) (\<lambda>r. return
     \<lparr>x_result = r, x_order = l_order l, x_attempt = toAttempt l reasons, x_fill = None, x_decisionQuote = q\<rparr>)"

definition must :: "OrderAttemptRecord \<Rightarrow> OrderAttemptEvent \<Rightarrow> ('s, OrderAttemptRecord) eff" where
  "must m e = (case attemptTransition m e of Inl r \<Rightarrow> throw (TRANSITION_REJECTED r) | Inr m' \<Rightarrow> return m')"

section \<open>The steps before the signature\<close>

text \<open>What an envelope's payload offers as bounds.\<close>

definition bounds_of :: "RiskAuthorizedIntent \<Rightarrow> ExecutionBounds" where
  "bounds_of p = \<lparr>b_inputMint = RiskAuthorizedIntent.inputMint p, b_outputMint = RiskAuthorizedIntent.outputMint p, b_maxInputAmount = RiskAuthorizedIntent.maxInputAmount p,
     b_maxSlippageBps = RiskAuthorizedIntent.maxSlippageBps p, b_maxPriceImpactBps = RiskAuthorizedIntent.maxPriceImpactBps p,
     b_chaseToleranceBps = Some (RiskAuthorizedIntent.chaseToleranceBps p), b_maxQuoteAgeMs = RiskAuthorizedIntent.maxQuoteAgeMs p,
     b_expiresAt = RiskAuthorizedIntent.expiresAt p, b_exposureEffect = RiskAuthorizedIntent.exposureEffect p\<rparr>"

text \<open>The bounds to act on with the envelope's hash, or the reason to refuse.\<close>

definition live_bounds ::
  "ExecutionRequest \<Rightarrow> ExecutionBounds option \<Rightarrow> string + ExecutionBounds \<times> sha256_hex option" where
  "live_bounds req emergency =
     (if r_capitalAuthority req \<noteq> LIVE_APPROVAL \<and> r_capitalAuthority req \<noteq> LIVE_AUTO then Inl ''NOT_LIVE_AUTHORITY''
      else case emergency of
          Some b \<Rightarrow> if b_exposureEffect b \<noteq> ExposureEffect.REDUCE then Inl ''EMERGENCY_NOT_RISK_REDUCING'' else Inr (b, None)
        | None \<Rightarrow> (case r_authorization req of
              None \<Rightarrow> Inl ''AUTHORIZATION_MISSING''
            | Some env \<Rightarrow>
                if RiskAuthorizedIntent.intentId (payload env) \<noteq> ti_id (r_intent req) then Inl ''AUTHORIZATION_MISSING''
                else if r_capitalAuthority req = LIVE_APPROVAL \<and> r_approvalHash req = None then Inl ''APPROVAL_MISSING''
                else Inr (bounds_of (payload env), Some (payloadHash env))))"

definition order_facts :: "JupiterOrder \<Rightarrow> JupiterOrderFacts" where
  "order_facts b = (let q = jo_quote b in
     \<lparr>f_requestId = Some (jo_requestId b), f_inputMint = q_inputMint q, f_outputMint = q_outputMint q,
      inAmount = inputAmount q, outAmount = expectedOutputAmount q, minOutAmount = minOutputAmount q,
      f_slippageBps = q_slippageBps q, f_priceImpactBps = priceImpactBps q, taker = jo_taker b,
      f_quotedAt = quotedAt q, f_expiresAt = q_expiresAt q, f_lastValidBlockHeight = jo_lastValidBlockHeight b,
      transactionBytes = jo_transaction b, reportedTransactionHash = None\<rparr>)"

text \<open>Does the executable price chase beyond the tolerance?\<close>

definition chase_exceeded :: "Quote option \<Rightarrow> Quote \<Rightarrow> int option \<Rightarrow> arith_error + bool" where
  "chase_exceeded decision q tolerance = (case decision of
     None \<Rightarrow> Inr False
   | Some d \<Rightarrow> ebind (chaseWorseBps d q) (\<lambda>worse. Inr (case (worse, tolerance) of
       (Some w, Some t) \<Rightarrow> nlt (Fin (of_int t)) w | _ \<Rightarrow> False)))"

definition lift_arith :: "arith_error + 'a \<Rightarrow> ('s, 'a) eff" where
  "lift_arith r = lift_result (map_sum ARITH_ERROR (\<lambda>a. a) r)"

text \<open>A rejection with its quote, or what the later steps need.\<close>

type_synonym 'a checked = "(string list \<times> Quote option) + 'a"

definition refuse :: "string list \<Rightarrow> Quote option \<Rightarrow> ('s, 'a checked) eff" where
  "refuse reasons q = return (Inl (reasons, q))"

definition proceed :: "'a \<Rightarrow> ('s, 'a checked) eff" where
  "proceed a = return (Inr a)"

text \<open>Step 1: the decision quote, then the order for exactly the authorized pair and amount.\<close>

definition decision_step ::
  "'s LiveAdapterOptions \<Rightarrow> TradeIntent \<Rightarrow> ExecutionBounds \<Rightarrow> ('s, Quote option checked) eff" where
  "decision_step opts intent bounds = (case b_chaseToleranceBps bounds of
     None \<Rightarrow> proceed None
   | Some _ \<Rightarrow> bind (o_decisionQuote opts intent) (\<lambda>r. case r of
       None \<Rightarrow> refuse [''NO_ROUTE''] None
     | Some None \<Rightarrow> refuse [''DECISION_QUOTE_MISSING''] None
     | Some (Some d) \<Rightarrow> proceed (Some d)))"

definition order_step ::
  "'s LiveAdapterOptions \<Rightarrow> ExecutionBounds \<Rightarrow> instant \<Rightarrow> ('s, JupiterOrder checked) eff" where
  "order_step opts bounds now = bind (o_order opts
       \<lparr>qr_inputMint = b_inputMint bounds, qr_outputMint = b_outputMint bounds, qr_inputAmount = b_maxInputAmount bounds,
        qr_maxSlippageBps = b_maxSlippageBps bounds, qr_taker = o_publicKey opts, qr_cluster = o_cluster opts, qr_requestedAt = now\<rparr>)
     (\<lambda>r. case r of None \<Rightarrow> refuse [''NO_ROUTE''] None | Some built \<Rightarrow> proceed built)"

text \<open>Steps 2 to 4: the order against the bounds, the chase, the structure.\<close>

definition validate_step ::
  "'s LiveAdapterOptions \<Rightarrow> ExecutionBounds \<Rightarrow> Quote option \<Rightarrow> JupiterOrder \<Rightarrow> instant \<Rightarrow> ('s, DecodedTransaction checked) eff" where
  "validate_step opts bounds decision built now = bind (o_currentBlockHeight opts) (\<lambda>height.
     let q = Some (jo_quote built) in
     case checkOrderAgainstAuthorization (o_sha opts) (order_facts built) bounds (o_publicKey opts) now height of
       Inl rs \<Rightarrow> refuse (canonicalReasons rs) q
     | Inr _ \<Rightarrow> bind (lift_arith (chase_exceeded decision (jo_quote built) (b_chaseToleranceBps bounds))) (\<lambda>chase.
         if chase then refuse [''CHASE_EXCEEDED''] q
         else (case decodeTransaction (jo_transaction built) of
             Inl _ \<Rightarrow> refuse [''TRANSACTION_UNDECODABLE''] q
           | Inr tx \<Rightarrow> (case checkTransactionStructure tx ((o_structure opts)\<lparr>x_tradingWallet := o_publicKey opts\<rparr>) of
               Inl rs \<Rightarrow> refuse (map structure_rejection_text rs) q
             | Inr _ \<Rightarrow> proceed tx))))"

text \<open>\<open>accounts[keys.indexOf(wallet)]?.lamports\<close>\<close>

fun index_of :: "'a list \<Rightarrow> 'a \<Rightarrow> nat option" where
  "index_of [] x = None"
| "index_of (y # ys) x = (if y = x then Some 0 else map_option Suc (index_of ys x))"

definition lamports_at :: "AccountSnapshot option list \<Rightarrow> nat option \<Rightarrow> int option" where
  "lamports_at accs i = (case i of None \<Rightarrow> None
     | Some k \<Rightarrow> if k < length accs then map_option lamports (accs ! k) else None)"

text \<open>Steps 5 and 6: the independent simulation and its deltas.\<close>

definition delta_expectation ::
  "'s LiveAdapterOptions \<Rightarrow> ExecutionBounds \<Rightarrow> JupiterOrder \<Rightarrow> DecodedTransaction \<Rightarrow>
     AccountSnapshot option list \<Rightarrow> SimulationOutcome \<Rightarrow> DeltaExpectation" where
  "delta_expectation opts bounds built tx accs sim = (let i = index_of (staticAccountKeys (message tx)) (o_publicKey opts) in
     \<lparr>d_tradingWallet = o_publicKey opts, d_inputMint = b_inputMint bounds, d_outputMint = b_outputMint bounds,
      maxInputDecrease = b_maxInputAmount bounds, minOutputIncrease = minOutputAmount (jo_quote built),
      maxSolDebitLamports = o_maxSolDebitLamports opts, pre_accounts = map the (filter (\<lambda>a. a \<noteq> None) accs),
      preWalletLamports = default 0 (lamports_at accs i), post_accounts = so_accounts sim,
      postWalletLamports = lamports_at (so_accounts sim) i, simulationFailed = so_failed sim, d_logs = so_logs sim,
      d_slot = so_slot sim, rpcLabel = o_label opts\<rparr>)"

definition simulate_step ::
  "'s LiveAdapterOptions \<Rightarrow> ExecutionBounds \<Rightarrow> JupiterOrder \<Rightarrow> DecodedTransaction \<Rightarrow>
     ('s, SimulationReport \<times> DeltaRejection list \<times> slot) eff" where
  "simulate_step opts bounds built tx = (let keys = staticAccountKeys (message tx) in
     bind (o_accounts opts keys) (\<lambda>accs. bind (o_simulate opts (jo_transaction built) keys) (\<lambda>sim.
       case assertSemanticDeltas (delta_expectation opts bounds built tx accs sim) of
         (report, reasons) \<Rightarrow> return (report, reasons, so_slot sim))))"

text \<open>Step 7: the order is checked again at the time after the simulation, and the intent's expiry.\<close>

definition recheck_step ::
  "'s LiveAdapterOptions \<Rightarrow> TradeIntent \<Rightarrow> ExecutionBounds \<Rightarrow> JupiterOrder \<Rightarrow> ('s, unit checked) eff" where
  "recheck_step opts intent bounds built = bind (o_now opts) (\<lambda>now. bind (o_currentBlockHeight opts) (\<lambda>height.
     let q = Some (jo_quote built) in
     case checkOrderAgainstAuthorization (o_sha opts) (order_facts built) bounds (o_publicKey opts) now height of
       Inl rs \<Rightarrow> refuse (canonicalReasons rs) q
     | Inr _ \<Rightarrow> bind (o_now opts) (\<lambda>now'.
         if now' \<ge> ti_expiresAt intent then refuse [''INTENT_EXPIRED''] q else proceed ())))"

section \<open>Signature, submission and observation\<close>

definition lower_char :: "char \<Rightarrow> char" where
  "lower_char c = (if 65 \<le> (of_char c :: nat) \<and> (of_char c :: nat) \<le> 90 then char_of ((of_char c :: nat) + 32) else c)"

definition contains_text :: "string \<Rightarrow> string \<Rightarrow> bool" where
  "contains_text needle t = list_ex (\<lambda>k. take (length needle) (drop k t) = needle) [0..<Suc (length t)]"

text \<open>\<open>/slippage/i.test(error)\<close>, or the provider's code.\<close>

definition execute_reason :: "JupiterExecuteResult \<Rightarrow> string" where
  "execute_reason e = (if contains_text ''slippage'' (map lower_char (default [] (je_error e))) then ''SLIPPAGE_EXCEEDED''
     else ''EXECUTE_FAILED'' @ (case je_code e of None \<Rightarrow> [] | Some c \<Rightarrow> ''_'' @ show_int c))"

record signed_attempt =
  s_locals :: live_locals
  s_bytes :: bytes
  s_signature :: tx_signature
  s_txHash :: sha256_hex

text \<open>Steps 8 to 10: sign, derive the identifiers, persist before submitting.\<close>

definition sign_step ::
  "'s LiveAdapterOptions \<Rightarrow> TradeIntent \<Rightarrow> live_locals \<Rightarrow> JupiterOrder \<Rightarrow> DecodedTransaction \<Rightarrow> ('s, signed_attempt) eff" where
  "sign_step opts intent l built tx =
     bind (o_sign opts (DecodedTransaction.messageBytes tx) (ti_id intent) (l_attemptId l) (o_sha opts (DecodedTransaction.messageBytes tx))) (\<lambda>sig.
     case encodeTransaction (case signatures tx of [] \<Rightarrow> [] | _ # rest \<Rightarrow> Some sig # rest) (message tx) of
       Inl e \<Rightarrow> throw (CODEC_ERROR e)
     | Inr signedBytes \<Rightarrow> bind (o_now opts) (\<lambda>signedAt.
         let h = o_sha opts signedBytes in
         bind (must (l_machine l) (E_SIGNED signedAt h (Some sig) (jo_lastValidBlockHeight built))) (\<lambda>m.
         let l1 = l\<lparr>l_machine := m, l_signedAt := Some signedAt\<rparr> in
         bind (o_journal opts (l_order l1) (toAttempt l1 [])) (\<lambda>_.
         bind (must m (E_JOURNALED signedAt)) (\<lambda>m'. return
           \<lparr>s_locals = l1\<lparr>l_machine := m'\<rparr>, s_bytes = signedBytes, s_signature = sig, s_txHash = h\<rparr>)))))"

text \<open>A failed \<open>/execute\<close>: NOT_LANDED only on a proof of death.\<close>

definition failed_step ::
  "'s LiveAdapterOptions \<Rightarrow> ExecutionRequest \<Rightarrow> live_locals \<Rightarrow> JupiterOrder \<Rightarrow> JupiterExecuteResult \<Rightarrow> tx_signature \<Rightarrow>
     sha256_hex \<Rightarrow> ('s, DetailedExecution) eff" where
  "failed_step opts req l built e sig h = (let reason = execute_reason e; q = Some (jo_quote built) in
     bind (o_proveDead opts sig (jo_lastValidBlockHeight built)) (\<lambda>proof.
     bind (case proof of
             None \<Rightarrow> return (l_machine l)
           | Some (expired, noHistory) \<Rightarrow> bind (o_now opts) (\<lambda>t. return
               (case attemptTransition (l_machine l) (E_CONCLUSIVELY_DEAD t expired noHistory (default reason (je_error e))) of
                  Inl _ \<Rightarrow> l_machine l | Inr m \<Rightarrow> m))) (\<lambda>m.
     let l1 = l\<lparr>l_machine := m\<rparr> in
     bind (result_of opts req l1 q (Some h) (Some sig) None [reason]) (\<lambda>r. return
       \<lparr>x_result = r, x_order = l_order l1, x_attempt = toAttempt l1 [reason], x_fill = None, x_decisionQuote = q\<rparr>))))"

definition shortfall_bps :: "amount \<Rightarrow> amount \<Rightarrow> jsnum option" where
  "shortfall_bps expected out = (if amountToBigInt expected > 0
     then Some (number_of_bigint (((amountToBigInt expected - amountToBigInt out) * 10000) sdiv amountToBigInt expected))
     else None)"

text \<open>Step 13: a fill exists from confirmation, and is promoted when finality arrives in time.\<close>

definition observe_step ::
  "'s LiveAdapterOptions \<Rightarrow> ExecutionRequest \<Rightarrow> live_locals \<Rightarrow> ExecutionBounds \<Rightarrow> JupiterOrder \<Rightarrow> JupiterExecuteResult \<Rightarrow>
     tx_signature \<Rightarrow> sha256_hex \<Rightarrow> slot \<Rightarrow> ('s, DetailedExecution) eff" where
  "observe_step opts req l bounds built e sig h simSlot = (let confSlot = default simSlot (je_slot e); q = jo_quote built in
     bind (o_now opts) (\<lambda>confirmedAt.
     bind (must (l_machine l) (E_OBSERVED confirmedAt confirmed confSlot)) (\<lambda>m.
     let l1 = l\<lparr>l_machine := m, l_confirmedAt := Some confirmedAt\<rparr> in
     bind (o_awaitFinalized opts sig (jo_lastValidBlockHeight built)) (\<lambda>final.
     bind (case final of
             None \<Rightarrow> return l1
           | Some fslot \<Rightarrow> bind (o_now opts) (\<lambda>finalizedAt.
               bind (must m (E_OBSERVED finalizedAt finalized fslot)) (\<lambda>m'.
                 return (l1\<lparr>l_machine := m', l_finalizedAt := Some finalizedAt\<rparr>)))) (\<lambda>l2.
     let inAmt = default (inputAmount q) (je_inputAmount e); outAmt = default (minOutputAmount q) (je_outputAmount e) in
     bind (o_newId opts) (\<lambda>fid.
     let fill = \<lparr>fi_id = fid, fi_orderAttemptId = l_attemptId l2, fi_txSignature = sig,
           fi_commitment = (if final = None then confirmed else finalized), fi_slot = default confSlot final,
           fi_inputMint = b_inputMint bounds, fi_outputMint = b_outputMint bounds, fi_inputAmount = inAmt, fi_outputAmount = outAmt,
           fi_executionShortfallBps = shortfall_bps (expectedOutputAmount q) outAmt, fi_executionPath = r_executionPath req,
           fi_lotAllocations = map (\<lambda>lot. (lot, inAmt)) (ti_targetLotIds (r_intent req)),
           fi_filledAt = default confirmedAt (l_finalizedAt l2)\<rparr> in
     bind (result_of opts req l2 (Some q) (Some h) (Some sig) (Some fid) []) (\<lambda>r. return
       \<lparr>x_result = r, x_order = l_order l2, x_attempt = toAttempt l2 [], x_fill = Some fill, x_decisionQuote = Some q\<rparr>)))))))"

text \<open>The gate read immediately before the submission, then steps 11 and 12.\<close>

definition submit_step ::
  "'s LiveAdapterOptions \<Rightarrow> ExecutionRequest \<Rightarrow> signed_attempt \<Rightarrow> ExecutionBounds \<Rightarrow> JupiterOrder \<Rightarrow> slot \<Rightarrow>
     ('s, DetailedExecution) eff" where
  "submit_step opts req sa bounds built simSlot = (let l = s_locals sa; h = s_txHash sa; q = Some (jo_quote built) in
     bind (o_beforeSubmit opts bounds) (\<lambda>gate. case gate of
       Some reason \<Rightarrow> bind (reject opts req l [reason] q) (\<lambda>d.
         bind (result_of opts req l q (Some h) None None [reason]) (\<lambda>r. return (d\<lparr>x_result := r\<rparr>)))
     | None \<Rightarrow> bind (o_now opts) (\<lambda>submittedAt.
         bind (must (l_machine l) (E_SUBMITTED submittedAt (r_executionPath req))) (\<lambda>m.
         let l1 = l\<lparr>l_machine := m, l_submittedAt := Some submittedAt\<rparr> in
         bind (o_execute opts (s_bytes sa) (jo_requestId built)) (\<lambda>e.
         let sig = default (s_signature sa) (je_signature e) in
         if \<not> je_success e then failed_step opts req l1 built e sig h
         else observe_step opts req l1 bounds built e sig h simSlot)))))"

section \<open>The whole attempt\<close>

text \<open>The value of a step that did not refuse; a refusal ends the attempt.\<close>

definition or_reject ::
  "'s LiveAdapterOptions \<Rightarrow> ExecutionRequest \<Rightarrow> live_locals \<Rightarrow> ('s, 'a checked) eff \<Rightarrow> ('a \<Rightarrow> ('s, DetailedExecution) eff) \<Rightarrow>
     ('s, DetailedExecution) eff" where
  "or_reject opts req l step next_step = bind step (\<lambda>r. case r of
     Inl (reasons, q) \<Rightarrow> reject opts req l reasons q | Inr a \<Rightarrow> next_step a)"

text \<open>From the registered intent to the end.\<close>

definition live_attempt ::
  "'s LiveAdapterOptions \<Rightarrow> ExecutionRequest \<Rightarrow> live_locals \<Rightarrow> ExecutionBounds \<Rightarrow> ('s, DetailedExecution) eff" where
  "live_attempt opts req l bounds = (let intent = r_intent req in bind (o_now opts) (\<lambda>now.
     if now \<ge> ti_expiresAt intent then reject opts req l [''INTENT_EXPIRED''] None
     else or_reject opts req l (decision_step opts intent bounds) (\<lambda>decision.
       or_reject opts req l (order_step opts bounds now) (\<lambda>built.
       let l1 = l\<lparr>l_requestId := Some (jo_requestId built), l_router := jo_router built,
                  l_quoteExpiresAt := q_expiresAt (jo_quote built)\<rparr> in
       or_reject opts req l1 (validate_step opts bounds decision built now) (\<lambda>tx.
       bind (simulate_step opts bounds built tx) (\<lambda>(report, reasons, simSlot).
       let l2 = l1\<lparr>l_simulation := Some report\<rparr> in
       if \<not> sim_passed report then reject opts req l2 (map delta_rejection_text reasons) (Some (jo_quote built))
       else or_reject opts req l2 (recheck_step opts intent bounds built) (\<lambda>_.
         bind (sign_step opts intent l2 built tx) (\<lambda>sa. submit_step opts req sa bounds built simSlot))))))))"

definition executeDetailed ::
  "'s LiveAdapterOptions \<Rightarrow> ExecutionRequest \<Rightarrow> ExecutionBounds option \<Rightarrow> ('s, DetailedExecution) eff" where
  "executeDetailed opts req emergency =
     bind (o_newId opts) (\<lambda>orderId. bind (o_now opts) (\<lambda>createdAt. bind (o_newId opts) (\<lambda>attemptId.
     let intent = r_intent req;
         l = \<lparr>l_order = \<lparr>or_id = orderId, or_intentId = ti_id intent, or_authorizationHash = None,
                or_executionPath = r_executionPath req, or_transactionClass = SWAP_V2, or_createdAt = createdAt\<rparr>,
              l_attemptId = attemptId, l_machine = newOrderAttempt, l_quoteExpiresAt = None, l_signedAt = None,
              l_submittedAt = None, l_confirmedAt = None, l_finalizedAt = None, l_requestId = None, l_router = None,
              l_simulation = None\<rparr>
     in case live_bounds req emergency of
          Inl reason \<Rightarrow>
            reject opts req (if reason = ''APPROVAL_MISSING''
                then l\<lparr>l_order := (l_order l)\<lparr>or_authorizationHash := map_option payloadHash (r_authorization req)\<rparr>\<rparr> else l) [reason] None
        | Inr (bounds, authHash) \<Rightarrow>
            let l1 = l\<lparr>l_order := (l_order l)\<lparr>or_authorizationHash := authHash\<rparr>\<rparr>
            in bind (o_registry opts) (\<lambda>reg. case registerIntent reg (ti_id intent) (ti_idempotencyKey intent) of
                 R_DUPLICATE _ _ \<Rightarrow> reject opts req l1 [''DUPLICATE_INTENT''] None
               | R_CREATED reg' _ \<Rightarrow> bind (o_setRegistry opts reg') (\<lambda>_. live_attempt opts req l1 bounds)))))"

section \<open>The protocol of a submission\<close>

text \<open>
  The bytes of a message that passed every check against the bounds: they are the message of a
  transaction the router built within the bounds, whose structure is safe for the wallet and whose
  independent simulation passed the delta assertions.
\<close>

definition checked_message :: "'s LiveAdapterOptions \<Rightarrow> ExecutionBounds \<Rightarrow> bytes \<Rightarrow> bool" where
  "checked_message opts bounds msg \<longleftrightarrow> (\<exists>built tx now accs sim.
     decodeTransaction (jo_transaction built) = Inr tx \<and> DecodedTransaction.messageBytes tx = msg \<and>
     structure_safe ((o_structure opts)\<lparr>x_tradingWallet := o_publicKey opts\<rparr>) tx \<and>
     within_bounds bounds (o_publicKey opts) now (order_facts built) \<and>
     snd (assertSemanticDeltas (delta_expectation opts bounds built tx accs sim)) = [])"

text \<open>The steps that ask the world without acting on it, and what follows from their keeping an invariant.\<close>

lemma keeps_must: "keeps P (must m e)"
  by (simp add: must_def keeps_throw keeps_return split: sum.split)

locale quiet_adapter =
  fixes opts :: "'s LiveAdapterOptions" and I :: "'s \<Rightarrow> bool"
  assumes quiet: "keeps I (o_now opts)" "keeps I (o_newId opts)" "keeps I (o_order opts q)"
      "keeps I (o_decisionQuote opts i)" "keeps I (o_accounts opts ks)" "keeps I (o_simulate opts b ks)"
      "keeps I (o_currentBlockHeight opts)" "keeps I (o_registry opts)" "keeps I (o_setRegistry opts reg)"
      "keeps I (o_awaitFinalized opts sig v)" "keeps I (o_proveDead opts sig v)"
begin

lemma keeps_result: "keeps I (result_of opts req l q h sig f rs)"
  unfolding result_of_def by (intro inv_intros quiet)

lemma keeps_reject: "keeps I (reject opts req l rs q)"
  unfolding reject_def by (intro inv_intros keeps_result)

lemma keeps_failed: "keeps I (failed_step opts req l built e sig h)"
  unfolding failed_step_def Let_def by (intro inv_intros keeps_result quiet)

lemma keeps_observe: "keeps I (observe_step opts req l b built e sig h k)"
  unfolding observe_step_def Let_def by (intro inv_intros keeps_result keeps_must quiet)

text \<open>The steps before the signature.\<close>

lemma keeps_steps:
  "keeps I (decision_step opts i bnd)" "keeps I (order_step opts bnd now)"
  "keeps I (validate_step opts bnd d built now)" "keeps I (simulate_step opts bnd built tx)"
  "keeps I (recheck_step opts i bnd built)"
proof -
  have l: "keeps I (lift_arith r)" for r :: "arith_error + 'b"
    unfolding lift_arith_def by (rule keeps_lift_result)
  note d = refuse_def proceed_def Let_def case_prod_unfold
  show "keeps I (decision_step opts i bnd)"
    unfolding decision_step_def d by (intro inv_intros quiet)
  show "keeps I (order_step opts bnd now)"
    unfolding order_step_def d by (intro inv_intros quiet)
  show "keeps I (validate_step opts bnd d built now)"
    unfolding validate_step_def d by (intro inv_intros quiet l)
  show "keeps I (simulate_step opts bnd built tx)"
    unfolding simulate_step_def d by (intro inv_intros quiet)
  show "keeps I (recheck_step opts i bnd built)"
    unfolding recheck_step_def d by (intro inv_intros quiet)
qed

end

text \<open>
  What the executor promises of the options it passes, over an invariant \<open>I\<close> of its state: \<open>S1\<close> is
  established by the journal hook, \<open>S2\<close> by a gate that allows; only the signature of a checked
  message and a submission after the gate are known to keep \<open>I\<close>.
\<close>

locale submission_protocol = quiet_adapter opts I
  for opts :: "'s LiveAdapterOptions" and I :: "'s \<Rightarrow> bool" +
  fixes S1 S2 :: "'s \<Rightarrow> bool" and bounds :: ExecutionBounds
  assumes now_gated: "keeps (\<lambda>s. I s \<and> S2 s) (o_now opts)"
    and signs: "checked_message opts bounds msg \<Longrightarrow> keeps I (o_sign opts msg i' a h)"
    and journals: "triple I (o_journal opts ord att) (\<lambda>_ s. I s \<and> S1 s) (\<lambda>_. I)"
    and gate: "triple (\<lambda>s. I s \<and> S1 s) (o_beforeSubmit opts bounds) (\<lambda>r s. I s \<and> (r = None \<longrightarrow> S2 s)) (\<lambda>_. I)"
    and submits: "triple (\<lambda>s. I s \<and> S2 s) (o_execute opts b rid) (\<lambda>_. I) (\<lambda>_. I)"
begin

lemma submit_step_keeps: "triple (\<lambda>s. I s \<and> S1 s) (submit_step opts req sa bounds built k) (\<lambda>_. I) (\<lambda>_. I)"
  unfolding submit_step_def Let_def
proof (rule triple_bind [OF gate], goal_cases)
  case (1 r)
  show ?case
  proof (cases r)
    case None
    have "triple (\<lambda>s. I s \<and> S2 s) (o_now opts) (\<lambda>_ s. I s \<and> S2 s) (\<lambda>_. I)"
      by (rule triple_conseq [OF now_gated [unfolded keeps_triple]]) auto
    moreover have "triple (\<lambda>s. I s \<and> S2 s) (must m e) (\<lambda>_ s. I s \<and> S2 s) (\<lambda>_. I)" for m e
      by (rule triple_conseq [OF keeps_must [of "\<lambda>s. I s \<and> S2 s" m e, unfolded keeps_triple]]) auto
    ultimately show ?thesis
      by (auto simp: None intro!: triple_bind [OF _ triple_bind [OF _ triple_bind [OF submits]]]
          keeps_failed [unfolded keeps_triple] keeps_observe [unfolded keeps_triple])
  next
    case (Some reason)
    have r: "keeps I (bind (reject opts req l rs q) (\<lambda>d. bind (result_of opts req l q h sig f rs) (\<lambda>r. return (d\<lparr>x_result := r\<rparr>))))"
      for l rs q h sig f by (intro inv_intros keeps_reject keeps_result)
    show ?thesis unfolding Some option.case by (rule triple_pre [OF r [unfolded keeps_triple]]) simp
  qed
qed

lemma sign_step_keeps:
  assumes "checked_message opts bounds (DecodedTransaction.messageBytes tx)"
  shows "triple I (sign_step opts i l built tx) (\<lambda>_ s. I s \<and> S1 s) (\<lambda>_. I)"
proof -
  have m: "triple P (must m e) (\<lambda>_. P) (\<lambda>_. I)" if "\<And>s. P s \<Longrightarrow> I s" for P m e
    by (rule triple_conseq [OF keeps_must [of P m e, unfolded keeps_triple]]) (use that in auto)
  have t: "triple I (o_sign opts (DecodedTransaction.messageBytes tx) a b c) (\<lambda>_. I) (\<lambda>_. I)"
    "triple I (o_now opts) (\<lambda>_. I) (\<lambda>_. I)" for a b c
    using signs [OF assms] quiet(1) by (simp_all add: keeps_triple)
  show ?thesis
    unfolding sign_step_def Let_def
    by (rule triple_bind [OF t(1)])
      (auto split: sum.split intro!: triple_throw triple_bind [OF t(2)] triple_bind [OF m] triple_bind [OF journals] triple_return)
qed

text \<open>What the steps before the signature establish when they go on.\<close>

lemma validate_step_checked:
  "validate_step opts bounds d built now s = (Inr (Inr tx), t) \<Longrightarrow>
     decodeTransaction (jo_transaction built) = Inr tx \<and>
     structure_safe ((o_structure opts)\<lparr>x_tradingWallet := o_publicKey opts\<rparr>) tx \<and>
     within_bounds bounds (o_publicKey opts) now (order_facts built)"
  by (auto simp: validate_step_def bind_run refuse_def proceed_def lift_arith_def Let_def
      dest: structure_ok_safe order_ok_within split: prod.splits sum.splits if_splits)

lemma passed_iff: "assertSemanticDeltas x = (report, rs) \<Longrightarrow> sim_passed report \<Longrightarrow> snd (assertSemanticDeltas x) = []"
  by (auto simp: assertSemanticDeltas_def Let_def)

lemma simulate_step_checked:
  "simulate_step opts bounds built tx s = (Inr (report, rs, k), t) \<Longrightarrow> sim_passed report \<Longrightarrow>
     \<exists>accs sim. snd (assertSemanticDeltas (delta_expectation opts bounds built tx accs sim)) = []"
  by (auto simp: simulate_step_def bind_run Let_def split: prod.splits sum.splits dest!: passed_iff)

lemma or_reject_keeps:
  assumes "keeps I step" and "\<And>a s t. I s \<Longrightarrow> step s = (Inr (Inr a), t) \<Longrightarrow> keeps I (next_step a)"
  shows "keeps I (or_reject opts req l step next_step)"
proof (rule keepsI)
  fix s assume s: "I s"
  show "I (snd (or_reject opts req l step next_step s))"
  proof (cases "step s")
    case (Pair r t)
    with assms(1) s have t: "I t" by (rule keeps_run)
    show ?thesis
    proof (cases r)
      case (Inr v)
      show ?thesis
      proof (cases v)
        case (Inr a)
        with assms(2) [OF s] Pair \<open>r = Inr v\<close> have "keeps I (next_step a)" by simp
        with t Pair \<open>r = Inr v\<close> Inr show ?thesis by (simp add: or_reject_def bind_run keepsD)
      qed (use t Pair Inr keepsD [OF keeps_reject t] in \<open>simp add: or_reject_def bind_run split: prod.split\<close>)
    qed (use t Pair in \<open>simp add: or_reject_def bind_run\<close>)
  qed
qed

lemma live_attempt_keeps: "keeps I (live_attempt opts req l bounds)"
proof -
  have ss: "keeps I (bind (sign_step opts i l built tx) (\<lambda>sa. submit_step opts req sa bounds built k))"
    if "checked_message opts bounds (DecodedTransaction.messageBytes tx)" for i l built tx k
    unfolding keeps_triple by (rule triple_bind [OF sign_step_keeps [OF that] submit_step_keeps])
  have sim: "keeps I (bind (simulate_step opts bounds built tx) (\<lambda>(report, reasons, k).
      if \<not> sim_passed report then reject opts req (f report) (map delta_rejection_text reasons) q
      else or_reject opts req (f report) (recheck_step opts i bounds built) (\<lambda>_.
        bind (sign_step opts i (f report) built tx) (\<lambda>sa. submit_step opts req sa bounds built k))))"
    if v: "decodeTransaction (jo_transaction built) = Inr tx"
      "structure_safe ((o_structure opts)\<lparr>x_tradingWallet := o_publicKey opts\<rparr>) tx"
      "within_bounds bounds (o_publicKey opts) now (order_facts built)" for built tx now i f q
  proof (rule keepsI)
    fix s assume s: "I s"
    obtain r t where st: "simulate_step opts bounds built tx s = (r, t)" by (cases "simulate_step opts bounds built tx s")
    with keeps_steps(4) s have t: "I t" by (rule keeps_run)
    show "I (snd (bind (simulate_step opts bounds built tx) (\<lambda>(report, reasons, k).
      if \<not> sim_passed report then reject opts req (f report) (map delta_rejection_text reasons) q
      else or_reject opts req (f report) (recheck_step opts i bounds built) (\<lambda>_.
        bind (sign_step opts i (f report) built tx) (\<lambda>sa. submit_step opts req sa bounds built k))) s))"
    proof (cases r)
      case (Inr v)
      then obtain report reasons k where r: "r = Inr (report, reasons, k)" by (cases v) auto
      show ?thesis
      proof (cases "sim_passed report")
        case True
        with simulate_step_checked [of built tx s report reasons k t] st r v
        have "checked_message opts bounds (DecodedTransaction.messageBytes tx)"
          unfolding checked_message_def by blast
        from or_reject_keeps [OF keeps_steps(5), where next_step = "\<lambda>_. bind (sign_step opts i (f report) built tx) (\<lambda>sa. submit_step opts req sa bounds built k)", OF ss [OF this]]
        show ?thesis using t r st True by (simp add: bind_run keepsD)
      qed (use t r st keeps_reject in \<open>simp add: bind_run keepsD\<close>)
    qed (use t st in \<open>simp add: bind_run\<close>)
  qed
  show ?thesis
    unfolding live_attempt_def Let_def
    by (rule keeps_bind [OF quiet(1)], rule keeps_if, rule keeps_reject, rule or_reject_keeps [OF keeps_steps(1)],
        rule or_reject_keeps [OF keeps_steps(2)], rule or_reject_keeps [OF keeps_steps(3)],
        drule validate_step_checked, elim conjE, rule sim)
qed

lemma execute_keeps:
  assumes "live_bounds req emergency = Inr (bounds, h) \<or> (\<exists>r. live_bounds req emergency = Inl r)"
  shows "keeps I (executeDetailed opts req emergency)"
proof -
  have "keeps I (case registerIntent reg i k of R_DUPLICATE a b \<Rightarrow> reject opts req l [''DUPLICATE_INTENT''] None
      | R_CREATED reg' e \<Rightarrow> bind (o_setRegistry opts reg') (\<lambda>_. live_attempt opts req l bounds))" for reg i k l
    by (cases "registerIntent reg i k") (auto intro!: keeps_bind quiet live_attempt_keeps keeps_reject)
  with assms show ?thesis
    unfolding executeDetailed_def Let_def
    by (auto intro!: keeps_bind quiet keeps_reject)
qed

end

end
