(* ===== verification/Quorum.thy ===== *)
theory Quorum imports Vocabulary begin

text \<open>
  One signature read through several independent RPC views
  (\<open>libs/execution/src/chain/quorum.ts\<close>, \<open>observer.ts\<close>). A view is external: each of its three
  calls is the answer it gives at that moment, a value or the error it raised. The verdict is
  sound for every set of views, depends on no order, and a death proof excludes every landing.
\<close>

section \<open>Views and readings\<close>

record SignatureStatus =
  slot :: int
  confirmationStatus :: ChainCommitment
  err :: "string option"

text \<open>\<open>head\<close> is the optional method \<open>headSlot\<close>.\<close>

record QuorumObserver =
  label :: string
  signatureStatus :: "string \<Rightarrow> string + SignatureStatus option"
  blockHeight :: "string + int"
  head :: "(string + int) option"

datatype ViewReading =
    LANDED string SignatureStatus
  | FAILED string SignatureStatus
  | MISSING string "int option"
  | UNAVAILABLE string string

datatype QuorumVerdictKind =
    V_FINALIZED | V_CONFIRMED | V_PROCESSED | V_FAILED | V_MISSING | V_DIVERGENT | V_UNAVAILABLE

record QuorumVerdict =
  verdict :: QuorumVerdictKind
  verdict_slot :: "int option"
  readings :: "ViewReading list"
  answered :: int

definition ok_or_null :: "'e + 'a \<Rightarrow> 'a option" where
  "ok_or_null r = (case r of Inl _ \<Rightarrow> None | Inr a \<Rightarrow> Some a)"

definition read_view :: "string \<Rightarrow> QuorumObserver \<Rightarrow> ViewReading" where
  "read_view sig v = (case signatureStatus v sig of
       Inl e \<Rightarrow> UNAVAILABLE (label v) e
     | Inr None \<Rightarrow> MISSING (label v) (case head v of None \<Rightarrow> None | Some h \<Rightarrow> ok_or_null h)
     | Inr (Some status) \<Rightarrow>
         if err status = None then LANDED (label v) status else FAILED (label v) status)"

definition readSignature :: "QuorumObserver list \<Rightarrow> string \<Rightarrow> ViewReading list" where
  "readSignature observers sig = map (read_view sig) observers"

section \<open>The verdict\<close>

fun is_unavailable :: "ViewReading \<Rightarrow> bool" where
  "is_unavailable (UNAVAILABLE _ _) \<longleftrightarrow> True"
| "is_unavailable _ \<longleftrightarrow> False"

fun is_missing :: "ViewReading \<Rightarrow> bool" where
  "is_missing (MISSING _ _) \<longleftrightarrow> True"
| "is_missing _ \<longleftrightarrow> False"

fun landed_status :: "ViewReading \<Rightarrow> SignatureStatus list" where
  "landed_status (LANDED _ s) = [s]"
| "landed_status _ = []"

fun failed_status :: "ViewReading \<Rightarrow> SignatureStatus list" where
  "failed_status (FAILED _ s) = [s]"
| "failed_status _ = []"

text \<open>A view past the slot by the grace that still does not know the signature.\<close>

fun contradicts :: "int \<Rightarrow> int \<Rightarrow> ViewReading \<Rightarrow> bool" where
  "contradicts txSlot grace (MISSING _ (Some h)) \<longleftrightarrow> h > txSlot + grace"
| "contradicts txSlot grace _ \<longleftrightarrow> False"

definition quorumVerdict :: "ViewReading list \<Rightarrow> int \<Rightarrow> QuorumVerdict" where
  "quorumVerdict rs graceSlots = (let
     ans = filter (\<lambda>r. \<not> is_unavailable r) rs;
     result = (\<lambda>v s. \<lparr>verdict = v, verdict_slot = s, readings = rs, answered = int (length ans)\<rparr>);
     landed = concat (map landed_status ans);
     failed = concat (map failed_status ans);
     missing = filter is_missing ans
   in if ans = [] then result V_UNAVAILABLE None
      else if landed \<noteq> [] \<and> failed \<noteq> [] then result V_DIVERGENT None
      else if landed \<noteq> [] then
        (let txSlot = math_max (map slot landed) in
         if list_ex (contradicts txSlot graceSlots) missing then result V_DIVERGENT None
         else let fin = filter (\<lambda>s. confirmationStatus s = finalized) landed in
           if length fin = length landed then result V_FINALIZED (Some (slot (hd fin)))
           else result (if list_ex (\<lambda>s. confirmationStatus s = processed) landed
                        then V_PROCESSED else V_CONFIRMED) (Some txSlot))
      else if failed \<noteq> [] then
        (let contradicting = list_ex (contradicts (math_max (map slot failed)) graceSlots) missing
         in result (if contradicting then V_DIVERGENT else V_FAILED) (Some (slot (hd failed))))
      else result V_MISSING None)"

section \<open>Proofs of death\<close>

text \<open>The two flags of the proof object, both true whenever one is returned.\<close>

definition proveDeadAcrossViews ::
  "QuorumObserver list \<Rightarrow> string \<Rightarrow> int option \<Rightarrow> (bool \<times> bool) option" where
  "proveDeadAcrossViews observers sig lastValidBlockHeight = (case lastValidBlockHeight of
       None \<Rightarrow> None
     | Some last_height \<Rightarrow>
         if observers = [] then None
         else let rs = readSignature observers sig in
           if list_ex is_unavailable rs then None
           else if \<not> list_all is_missing rs then None
           else let heights = map (\<lambda>v. ok_or_null (blockHeight v)) observers in
             if list_ex (\<lambda>h. case h of None \<Rightarrow> True | Some n \<Rightarrow> n \<le> last_height) heights then None
             else Some (True, True))"

definition proveDead ::
  "QuorumObserver \<Rightarrow> string \<Rightarrow> int option \<Rightarrow> string + (bool \<times> bool) option" where
  "proveDead view sig lastValidBlockHeight = ebind (signatureStatus view sig) (\<lambda>status.
     if status \<noteq> None then Inr None
     else case lastValidBlockHeight of
         None \<Rightarrow> Inr None
       | Some last_height \<Rightarrow> ebind (blockHeight view) (\<lambda>height.
           if height \<le> last_height then Inr None else Inr (Some (True, True))))"

section \<open>Reading the verdict\<close>

lemma landed_in: "s \<in> set (concat (map landed_status rs)) \<longleftrightarrow> (\<exists>l. LANDED l s \<in> set rs)"
proof (induction rs)
  case (Cons r rs)
  then show ?case by (cases r) auto
qed simp

lemma failed_in: "s \<in> set (concat (map failed_status rs)) \<longleftrightarrow> (\<exists>l. FAILED l s \<in> set rs)"
proof (induction rs)
  case (Cons r rs)
  then show ?case by (cases r) auto
qed simp

lemma landed_answered [simp]:
  "concat (map landed_status (filter (\<lambda>r. \<not> is_unavailable r) rs)) = concat (map landed_status rs)"
  by (induction rs) (auto elim: is_unavailable.elims)

lemma failed_answered [simp]:
  "concat (map failed_status (filter (\<lambda>r. \<not> is_unavailable r) rs)) = concat (map failed_status rs)"
  by (induction rs) (auto elim: is_unavailable.elims)

lemma missing_answered [simp]:
  "filter is_missing (filter (\<lambda>r. \<not> is_unavailable r) rs) = filter is_missing rs"
  by (induction rs) (auto elim: is_unavailable.elims)

lemma contradicts_missing [simp]: "list_ex (contradicts t g) (filter is_missing rs) = list_ex (contradicts t g) rs"
  by (induction rs) (auto elim: contradicts.elims)

lemma contradicts_in: "list_ex (contradicts t g) rs \<longleftrightarrow> (\<exists>l h. MISSING l (Some h) \<in> set rs \<and> t + g < h)"
  by (auto simp: list_ex_iff elim!: contradicts.elims) force

abbreviation landed_slots :: "ViewReading list \<Rightarrow> int set" where
  "landed_slots rs \<equiv> slot ` set (concat (map landed_status rs))"

abbreviation failed_slots :: "ViewReading list \<Rightarrow> int set" where
  "failed_slots rs \<equiv> slot ` set (concat (map failed_status rs))"

text \<open>The verdict as a function of the set of readings alone.\<close>

lemma verdict_by_set:
  "verdict (quorumVerdict rs g) =
     (let L = set (concat (map landed_status rs)); F = set (concat (map failed_status rs)) in
      if \<forall>r \<in> set rs. is_unavailable r then V_UNAVAILABLE
      else if L \<noteq> {} \<and> F \<noteq> {} then V_DIVERGENT
      else if L \<noteq> {} then
        if \<exists>l h. MISSING l (Some h) \<in> set rs \<and> Max (slot ` L) + g < h then V_DIVERGENT
        else if \<forall>s \<in> L. confirmationStatus s = finalized then V_FINALIZED
        else if \<exists>s \<in> L. confirmationStatus s = processed then V_PROCESSED else V_CONFIRMED
      else if F \<noteq> {} then
        if \<exists>l h. MISSING l (Some h) \<in> set rs \<and> Max (slot ` F) + g < h then V_DIVERGENT else V_FAILED
      else V_MISSING)"
proof -
  have fin: "length (filter P xs) = length xs \<longleftrightarrow> (\<forall>x \<in> set xs. P x)" for P and xs :: "SignatureStatus list"
    by (metis filter_id_conv length_filter_less nless_le)
  define L where "L = concat (map landed_status rs)"
  define F where "F = concat (map failed_status rs)"
  have un: "filter (\<lambda>r. \<not> is_unavailable r) rs = [] \<longleftrightarrow> (\<forall>r \<in> set rs. is_unavailable r)"
    by (simp add: filter_empty_conv)
  show ?thesis
    unfolding quorumVerdict_def Let_def landed_answered failed_answered missing_answered
      contradicts_missing contradicts_in un L_def [symmetric] F_def [symmetric]
    by (cases "L = []"; cases "F = []") (simp_all add: fin list_ex_iff)
qed

lemma verdict_slot_finalized:
  "verdict (quorumVerdict rs g) = V_FINALIZED \<Longrightarrow>
     \<exists>s \<in> set (concat (map landed_status rs)). confirmationStatus s = finalized \<and>
        verdict_slot (quorumVerdict rs g) = Some (slot s)"
proof -
  define L where "L = concat (map landed_status rs)"
  define F where "F = concat (map failed_status rs)"
  have hd: "length (filter P xs) = length xs \<Longrightarrow> xs \<noteq> [] \<Longrightarrow> hd (filter P xs) \<in> set xs \<and> P (hd (filter P xs))"
    for P and xs :: "SignatureStatus list"
    by (metis filter_id_conv hd_in_set length_filter_less nless_le)
  assume "verdict (quorumVerdict rs g) = V_FINALIZED"
  then show ?thesis
    unfolding quorumVerdict_def Let_def landed_answered failed_answered missing_answered
      contradicts_missing L_def [symmetric] F_def [symmetric]
    using hd [of "\<lambda>s. confirmationStatus s = finalized" L]
    by (cases "L = []"; cases "F = []") (auto split: if_splits)
qed

section \<open>Properties\<close>

text \<open>
  The quorum never picks a winner between contradicting views. A FINALIZED verdict means that
  some view reports the signature finalized, no view reports it failed, no view reports a weaker
  commitment and no view that misses it is past its slot by the grace; and the verdict depends on
  no order or repetition of the readings.
\<close>

theorem quorum_never_picks_winner:
  shows "(verdict (quorumVerdict rs g) = V_FINALIZED \<longrightarrow>
            (\<exists>l s. LANDED l s \<in> set rs \<and> verdict_slot (quorumVerdict rs g) = Some (slot s)) \<and>
            (\<forall>l s. LANDED l s \<in> set rs \<longrightarrow> confirmationStatus s = finalized) \<and>
            (\<forall>l s. FAILED l s \<notin> set rs) \<and>
            (\<forall>l h l' s. MISSING l (Some h) \<in> set rs \<and> LANDED l' s \<in> set rs \<longrightarrow>
               (\<exists>l'' s'. LANDED l'' s' \<in> set rs \<and> h \<le> slot s' + g)))
       \<and> (set rs' = set rs \<longrightarrow> verdict (quorumVerdict rs' g) = verdict (quorumVerdict rs g))"
proof (intro conjI impI)
  define L where "L = set (concat (map landed_status rs))"
  define F where "F = set (concat (map failed_status rs))"
  have Lin: "s \<in> L \<longleftrightarrow> (\<exists>l. LANDED l s \<in> set rs)" and Fin: "s \<in> F \<longleftrightarrow> (\<exists>l. FAILED l s \<in> set rs)" for s
    by (simp_all only: L_def F_def landed_in failed_in)
  show "verdict (quorumVerdict rs' g) = verdict (quorumVerdict rs g)" if "set rs' = set rs"
  proof -
    have "set (concat (map landed_status rs')) = L" "set (concat (map failed_status rs')) = F"
      unfolding L_def F_def by (rule set_eqI, simp only: landed_in failed_in that)+
    then show ?thesis by (simp only: verdict_by_set Let_def L_def F_def that)
  qed
  assume v: "verdict (quorumVerdict rs g) = V_FINALIZED"
  then have fin: "L \<noteq> {}" "F = {}" "\<forall>s \<in> L. confirmationStatus s = finalized"
      "\<And>l h. MISSING l (Some h) \<in> set rs \<Longrightarrow> h \<le> Max (slot ` L) + g"
    unfolding verdict_by_set Let_def L_def [symmetric] F_def [symmetric]
    by (auto simp: not_less split: if_splits)
  show "\<exists>l s. LANDED l s \<in> set rs \<and> verdict_slot (quorumVerdict rs g) = Some (slot s)"
    using verdict_slot_finalized [OF v] by (metis landed_in)
  show "\<forall>l s. LANDED l s \<in> set rs \<longrightarrow> confirmationStatus s = finalized" using fin(3) Lin by blast
  show "\<forall>l s. FAILED l s \<notin> set rs" using fin(2) Fin by blast
  have "Max (slot ` L) \<in> slot ` L" using fin(1) by (intro Max_in) (simp_all add: L_def)
  then obtain m where m: "m \<in> L" "Max (slot ` L) = slot m" by blast
  show "\<forall>l h l' s. MISSING l (Some h) \<in> set rs \<and> LANDED l' s \<in> set rs \<longrightarrow>
               (\<exists>l'' s'. LANDED l'' s' \<in> set rs \<and> h \<le> slot s' + g)"
    using fin(4) m Lin by metis
qed

definition sample_status :: SignatureStatus where
  "sample_status = \<lparr>slot = 7, confirmationStatus = finalized, err = None\<rparr>"

theorem quorum_never_picks_winner_witness:
  "FAILED ''b'' sample_status \<notin> set [LANDED ''a'' sample_status, MISSING ''c'' (Some 9)]"
proof -
  have "verdict (quorumVerdict [LANDED ''a'' sample_status, MISSING ''c'' (Some 9)] 4) = V_FINALIZED"
    by (simp add: quorumVerdict_def Let_def math_max_def sample_status_def)
  then show ?thesis
    using quorum_never_picks_winner [of "[LANDED ''a'' sample_status, MISSING ''c'' (Some 9)]" 4] by blast
qed

lemma readSignature_missing:
  "list_all is_missing (readSignature vs sig) \<longleftrightarrow> (\<forall>v \<in> set vs. signatureStatus v sig = Inr None)"
proof -
  have "is_missing (read_view sig v) \<longleftrightarrow> signatureStatus v sig = Inr None" for v
    by (cases "signatureStatus v sig" rule: sum.exhaust) (auto simp: read_view_def split: option.split)
  then show ?thesis by (simp add: readSignature_def list_all_iff)
qed

lemma all_missing_verdict:
  "list_all is_missing rs \<Longrightarrow> rs \<noteq> [] \<Longrightarrow> verdict (quorumVerdict rs g) = V_MISSING"
proof -
  assume m: "list_all is_missing rs" and ne: "rs \<noteq> []"
  have "landed_status r = [] \<and> failed_status r = [] \<and> \<not> is_unavailable r" if "r \<in> set rs" for r
    using m that by (cases r) (auto simp: list_all_iff)
  then show ?thesis using ne hd_in_set [OF ne] by (auto simp: verdict_by_set Let_def)
qed

text \<open>
  C21: a proof of death across views is never premature. It is issued exactly when a last valid
  block height is known, at least one view is asked, every view answered that it does not know the
  signature, and every view answered a block height past that one; the same readings then give the
  verdict MISSING, so no view ever proved dead what another saw land.
\<close>

theorem death_proof_exact:
  "(proveDeadAcrossViews vs sig last_height \<noteq> None \<longleftrightarrow>
      (\<exists>h. last_height = Some h \<and> vs \<noteq> [] \<and> (\<forall>v \<in> set vs. signatureStatus v sig = Inr None \<and>
         (\<exists>b. blockHeight v = Inr b \<and> h < b))))
   \<and> (proveDeadAcrossViews vs sig last_height \<in> {None, Some (True, True)})
   \<and> (proveDeadAcrossViews vs sig last_height \<noteq> None \<longrightarrow>
        verdict (quorumVerdict (readSignature vs sig) g) = V_MISSING)"
proof -
  have h: "list_ex (\<lambda>h. case h of None \<Rightarrow> True | Some n \<Rightarrow> n \<le> l) (map (\<lambda>v. ok_or_null (blockHeight v)) vs)
      \<longleftrightarrow> \<not> (\<forall>v \<in> set vs. \<exists>b. blockHeight v = Inr b \<and> l < b)" for l
    by (auto simp: list_ex_iff ok_or_null_def split: sum.splits option.splits)
      (metis not_less sum.exhaust)+
  have u: "list_all is_missing rs \<Longrightarrow> \<not> list_ex is_unavailable rs" for rs
    by (auto simp: list_all_iff list_ex_iff elim!: is_unavailable.elims)
  have m: "list_all is_missing (readSignature vs sig) \<Longrightarrow> vs \<noteq> [] \<Longrightarrow>
      verdict (quorumVerdict (readSignature vs sig) g) = V_MISSING"
    by (rule all_missing_verdict) (simp_all add: readSignature_def)
  show ?thesis
    using m u [of "readSignature vs sig"]
    by (auto simp: proveDeadAcrossViews_def Let_def h readSignature_missing split: option.splits)
qed

theorem death_proof_exact_witness:
  "verdict (quorumVerdict (readSignature
     [\<lparr>label = ''a'', signatureStatus = \<lambda>_. Inr None, blockHeight = Inr 12, head = None\<rparr>] ''sig'') 0) = V_MISSING"
  using death_proof_exact
    [of "[\<lparr>label = ''a'', signatureStatus = \<lambda>_. Inr None, blockHeight = Inr 12, head = None\<rparr>]" "''sig''" "Some 10" 0]
  by simp

end
