(* ===== verification/Executor.thy ===== *)
theory Executor imports LiveAdapter Quorum begin

text \<open>
  The executor's pipeline (\<open>apps/execution-service/src/pipeline/pipeline.ts\<close>): its state, the
  journal lines it writes, the adapter it builds for one attempt, \<open>submit\<close> and \<open>record\<close>. The world
  outside answers every call anew: an answer is a function of the number of calls made so far.
\<close>

section \<open>What the pipeline is given\<close>

datatype signer_answer = SIGNED_WITH tx_signature | TIMED_OUT | SIGNER_FAILED string

record Deps =
  e_crypto :: crypto
  e_is_uuid :: "string \<Rightarrow> bool"
  e_parse :: "string \<Rightarrow> instant"
  e_sha :: "bytes \<Rightarrow> sha256_hex"
  e_guardrails :: ExecutorGuardrails
  e_authorizerKeys :: "VerificationKey list"
  e_approverKeys :: "VerificationKey list"
  e_operatorKeys :: "VerificationKey list"
  e_settlementMints :: "mint_address list option"
  e_slippageBps :: int
  e_maxPriceImpactBps :: int
  e_maxQuoteAgeMs :: int
  e_validityMs :: int
  e_publicKey :: string
  e_cluster :: string
  e_label :: string
  e_structure :: StructureExpectation
  e_maxSolDebitLamports :: int
  e_maxSkewMs :: int
  e_signerRetries :: "nat option"
  e_graceSlots :: "int option"
  e_clock :: "nat \<Rightarrow> instant"
  e_newId :: "nat \<Rightarrow> uuid"
  e_mode :: "nat \<Rightarrow> ModeFacts"
  e_chain :: "nat \<Rightarrow> QuorumObserver"
  e_secondaryChains :: "nat \<Rightarrow> QuorumObserver list"
  e_custody :: "nat \<Rightarrow> string + slot \<times> Holding list"
  e_order :: "nat \<Rightarrow> QuoteRequest \<Rightarrow> string + JupiterOrder option"
  e_execute :: "nat \<Rightarrow> bytes \<Rightarrow> string \<Rightarrow> string + JupiterExecuteResult"
  e_decisionQuote :: "nat \<Rightarrow> TradeIntent \<Rightarrow> string + Quote option option"
  e_accounts :: "nat \<Rightarrow> string list \<Rightarrow> string + AccountSnapshot option list"
  e_simulate :: "nat \<Rightarrow> bytes \<Rightarrow> string list \<Rightarrow> string + SimulationOutcome"
  e_signer :: "nat \<Rightarrow> bytes \<Rightarrow> signer_answer"
  e_awaitFinalized :: "nat \<Rightarrow> tx_signature \<Rightarrow> int option \<Rightarrow> string + slot option"
  e_crashes :: "nat \<Rightarrow> Boundary \<Rightarrow> bool"

text \<open>The calls that cannot be taken back, each with the number of journal lines at its time.\<close>

datatype call = C_SIGN uuid bytes | C_EXECUTE uuid bytes

record ExecutorPipeline =
  p_registry :: IntentRegistry
  p_ledger :: ExposureLedger
  p_paused :: bool
  p_pauseReason :: "string option"
  p_files :: journal_fs
  p_journal :: ExecutorJournal
  p_adapterRegistry :: IntentRegistry
  p_signedAttempt :: "Attempt option"
  p_tick :: nat
  p_calls :: "(call \<times> nat) list"

type_synonym 'a pipe = "(ExecutorPipeline, 'a) eff"

text \<open>One call of the world outside, whose failure is a thrown error.\<close>

definition outside :: "(nat \<Rightarrow> exec_error + 'a) \<Rightarrow> 'a pipe" where
  "outside f = (\<lambda>s. (f (p_tick s), s\<lparr>p_tick := Suc (p_tick s)\<rparr>))"

definition provider :: "string + 'a \<Rightarrow> exec_error + 'a" where
  "provider r = (case r of Inl e \<Rightarrow> Inl (PROVIDER_ERROR e) | Inr a \<Rightarrow> Inr a)"

definition clock_now :: "Deps \<Rightarrow> instant pipe" where
  "clock_now d = outside (\<lambda>n. Inr (e_clock d n))"

definition new_id :: "Deps \<Rightarrow> uuid pipe" where
  "new_id d = outside (\<lambda>n. Inr (e_newId d n))"

definition probe :: "Deps \<Rightarrow> Boundary \<Rightarrow> unit pipe" where
  "probe d b = outside (\<lambda>n. if e_crashes d n b then Inl (CRASH b) else Inr ())"

definition note_call :: "call \<Rightarrow> unit pipe" where
  "note_call c = modify (\<lambda>s. s\<lparr>p_calls := p_calls s @ [(c, length (entries (p_journal s)))]\<rparr>)"

section \<open>Journal lines\<close>

definition journal_append :: "Deps \<Rightarrow> ExecutorJournalKind \<Rightarrow> string \<Rightarrow> json_record \<Rightarrow> unit pipe" where
  "journal_append d k corr p = (\<lambda>s.
     let s' = s\<lparr>p_tick := Suc (p_tick s)\<rparr> in
     case append_entry (e_crypto d) (e_clock d (p_tick s)) k corr p (p_files s) (p_journal s) of
       Inl e \<Rightarrow> (Inl (JOURNAL_ERROR e), s')
     | Inr (fs, j) \<Rightarrow> (Inr (), s'\<lparr>p_files := fs, p_journal := j\<rparr>))"

definition amount_json :: "amount \<Rightarrow> json" where
  "amount_json a = JStr (show_int a)"

definition text_json :: "string option \<Rightarrow> json" where
  "text_json = opt_json JStr"

fun path_text :: "ExecutionPath \<Rightarrow> string" where
  "path_text JUPITER_ORDER = ''JUPITER_ORDER''"
| "path_text PROVIDER_PROTECTIVE = ''PROVIDER_PROTECTIVE''"
| "path_text DIRECT_POOL_PRIVATE = ''DIRECT_POOL_PRIVATE''"
| "path_text DIRECT_POOL_RPC = ''DIRECT_POOL_RPC''"

fun attempt_state_text :: "OrderAttemptState \<Rightarrow> string" where
  "attempt_state_text PREPARED = ''PREPARED''"
| "attempt_state_text SIGNED_NOT_SUBMITTED = ''SIGNED_NOT_SUBMITTED''"
| "attempt_state_text SUBMITTED = ''SUBMITTED''"
| "attempt_state_text CONFIRMED_PROVISIONAL = ''CONFIRMED_PROVISIONAL''"
| "attempt_state_text FINALIZED = ''FINALIZED''"
| "attempt_state_text REORG_PENDING = ''REORG_PENDING''"
| "attempt_state_text NOT_LANDED = ''NOT_LANDED''"

fun gate_text :: "ModeGateReason \<Rightarrow> string" where
  "gate_text PAUSED = ''PAUSED''"
| "gate_text LOCAL_PAUSE = ''LOCAL_PAUSE''"
| "gate_text ACTIVITY_FORBIDS_ENTRIES = ''ACTIVITY_FORBIDS_ENTRIES''"
| "gate_text AUTHORITY_FORBIDS_LIVE = ''AUTHORITY_FORBIDS_LIVE''"
| "gate_text LIVE_CAPABILITY_DISABLED = ''LIVE_CAPABILITY_DISABLED''"

fun cap_text :: "CapRejection \<Rightarrow> string" where
  "cap_text CLUSTER_MISMATCH = ''CLUSTER_MISMATCH''"
| "cap_text SETTLEMENT_MINT_NOT_ALLOWED = ''SETTLEMENT_MINT_NOT_ALLOWED''"
| "cap_text SLIPPAGE_ABOVE_HARD_MAX = ''SLIPPAGE_ABOVE_HARD_MAX''"
| "cap_text PER_ENTRY_CAP = ''PER_ENTRY_CAP''"
| "cap_text AGGREGATE_EXPOSURE_CAP = ''AGGREGATE_EXPOSURE_CAP''"
| "cap_text SIGNER_OUTAGE_CAP = ''SIGNER_OUTAGE_CAP''"
| "cap_text CAP_LIVE_CAPABILITY_DISABLED = ''LIVE_CAPABILITY_DISABLED''"

definition texts_json :: "string list \<Rightarrow> json" where
  "texts_json ts = JArr (map JStr ts)"

text \<open>An exposure event as the payload of its line, and read back from one.\<close>

definition event_json :: "Deps \<Rightarrow> ExposureEvent \<Rightarrow> json_record" where
  "event_json d e = (let at' = (\<lambda>t. (''at'', JStr (iso (e_crypto d) t))) in case e of
     ENTRY_AUTHORIZED t i m n pm \<Rightarrow> [(''kind'', JStr ''ENTRY_AUTHORIZED''), at' t, (''intentId'', JStr i), (''mint'', JStr m),
        (''notional'', amount_json n), (''protectionMode'', JStr (protection_text pm))]
   | ENTRY_CONFIRMED t i c \<Rightarrow> [(''kind'', JStr ''ENTRY_CONFIRMED''), at' t, (''intentId'', JStr i), (''costBasis'', amount_json c)]
   | ENTRY_RELEASED t i r \<Rightarrow> [(''kind'', JStr ''ENTRY_RELEASED''), at' t, (''intentId'', JStr i), (''reason'', JStr r)]
   | EXIT_CONFIRMED t i c \<Rightarrow> [(''kind'', JStr ''EXIT_CONFIRMED''), at' t, (''intentId'', JStr i), (''costReleased'', amount_json c)]
   | PROTECTION_CHANGED t i pm \<Rightarrow> [(''kind'', JStr ''PROTECTION_CHANGED''), at' t, (''intentId'', JStr i),
        (''protectionMode'', JStr (protection_text pm))])"

definition member_text :: "json_record \<Rightarrow> string \<Rightarrow> string" where
  "member_text p k = (case map_of p k of Some (JStr t) \<Rightarrow> t | _ \<Rightarrow> [])"

definition read_int :: "string \<Rightarrow> int" where
  "read_int t = (if take 1 t = ''-'' then - int (read_nat (drop 1 t)) else int (read_nat t))"

definition member_amount :: "json_record \<Rightarrow> string \<Rightarrow> amount" where
  "member_amount p k = read_int (member_text p k)"

definition mode_of_text :: "string \<Rightarrow> ProtectionMode" where
  "mode_of_text t = (if t = ''JUPITER_TRIGGER'' then JUPITER_TRIGGER else MONITORED_EXIT)"

definition event_of :: "Deps \<Rightarrow> json_record \<Rightarrow> ExposureEvent option" where
  "event_of d p = (let k = member_text p ''kind''; t = e_parse d (member_text p ''at''); i = member_text p ''intentId'' in
     if k = ''ENTRY_AUTHORIZED'' then Some (ENTRY_AUTHORIZED t i (member_text p ''mint'') (member_amount p ''notional'')
       (mode_of_text (member_text p ''protectionMode'')))
     else if k = ''ENTRY_CONFIRMED'' then Some (ENTRY_CONFIRMED t i (member_amount p ''costBasis''))
     else if k = ''ENTRY_RELEASED'' then Some (ENTRY_RELEASED t i (member_text p ''reason''))
     else if k = ''EXIT_CONFIRMED'' then Some (EXIT_CONFIRMED t i (member_amount p ''costReleased''))
     else if k = ''PROTECTION_CHANGED'' then Some (PROTECTION_CHANGED t i (mode_of_text (member_text p ''protectionMode'')))
     else None)"

definition journal_events :: "Deps \<Rightarrow> JournalEntry list \<Rightarrow> ExposureEvent list" where
  "journal_events d es = concat (map (\<lambda>e. case event_of d (entry_payload e) of None \<Rightarrow> [] | Some ev \<Rightarrow> [ev])
     (filter (\<lambda>e. kind e = EXPOSURE_LEDGER_UPDATED) es))"

section \<open>Construction and pauses\<close>

definition last_pause :: "JournalEntry list \<Rightarrow> JournalEntry option" where
  "last_pause es = find_last (\<lambda>e. kind e = PAUSE_APPLIED \<or> kind e = PAUSE_CLEARED) es"

definition start_pipeline :: "Deps \<Rightarrow> journal_fs \<Rightarrow> ExecutorJournal \<Rightarrow> nat \<Rightarrow> exec_error + ExecutorPipeline" where
  "start_pipeline d fs j n = (let es = entries j in
     case ledger_replay (journal_events d es) of
       Inl e \<Rightarrow> Inl (LEDGER_ERROR e)
     | Inr l \<Rightarrow> Inr \<lparr>p_registry = fromJournal es, p_ledger = l,
          p_paused = (case last_pause es of Some e \<Rightarrow> kind e = PAUSE_APPLIED | None \<Rightarrow> False),
          p_pauseReason = (case last_pause es of
             Some e \<Rightarrow> if kind e = PAUSE_APPLIED then get_text e ''reason'' else None | None \<Rightarrow> None),
          p_files = fs, p_journal = j, p_adapterRegistry = emptyIntentRegistry, p_signedAttempt = None,
          p_tick = n, p_calls = []\<rparr>)"

definition facts :: "Deps \<Rightarrow> ModeFacts pipe" where
  "facts d = bind (outside (\<lambda>n. Inr (e_mode d n))) (\<lambda>f. asks (\<lambda>s. f\<lparr>localPause := localPause f \<or> p_paused s\<rparr>))"

definition applyLocalPause :: "Deps \<Rightarrow> string \<Rightarrow> unit pipe" where
  "applyLocalPause d reason = bind (asks p_paused) (\<lambda>active. if active then return () else
     andthen (modify (\<lambda>s. s\<lparr>p_paused := True, p_pauseReason := Some reason\<rparr>))
       (bind (clock_now d) (\<lambda>t. journal_append d PAUSE_APPLIED ''ops'' [(''reason'', JStr reason), (''at'', JStr (iso (e_crypto d) t))])))"

definition clearLocalPause :: "Deps \<Rightarrow> string \<Rightarrow> unit pipe" where
  "clearLocalPause d by' = bind (asks p_paused) (\<lambda>active. if \<not> active then return () else
     andthen (modify (\<lambda>s. s\<lparr>p_paused := False, p_pauseReason := None\<rparr>))
       (bind (clock_now d) (\<lambda>t. journal_append d PAUSE_CLEARED ''ops'' [(''by'', JStr by'), (''at'', JStr (iso (e_crypto d) t))])))"

definition ledgerEvent :: "Deps \<Rightarrow> string \<Rightarrow> ExposureEvent \<Rightarrow> unit pipe" where
  "ledgerEvent d corr ev = (\<lambda>s. case ledger_apply (p_ledger s) ev of
       Inl e \<Rightarrow> (Inl (LEDGER_ERROR e), s)
     | Inr l \<Rightarrow> journal_append d EXPOSURE_LEDGER_UPDATED corr (event_json d ev) (s\<lparr>p_ledger := l\<rparr>))"

definition advance_key :: "idempotency_key \<Rightarrow> IntentLifecycleState \<Rightarrow> unit pipe" where
  "advance_key k to = modify (\<lambda>s. s\<lparr>p_registry := snd (advance (p_registry s) k to)\<rparr>)"

text \<open>\<open>if (registry.state(key) === from) registry.advance(key, to)\<close>\<close>

definition advance_key_if :: "IntentLifecycleState \<Rightarrow> idempotency_key \<Rightarrow> IntentLifecycleState \<Rightarrow> unit pipe" where
  "advance_key_if from' k to = modify (\<lambda>s. s\<lparr>p_registry := advance_if [from'] to k (p_registry s)\<rparr>)"

section \<open>Events survive the journal\<close>

lemma read_show_int [simp]: "read_int (show_int a) = a"
proof -
  have "take 1 (show_nat n) \<noteq> ''-''" for n
    using show_nat_digits [of n] by (cases "show_nat n") (auto simp: is_digit_def)
  then show ?thesis by (simp add: read_int_def show_int_def)
qed

lemma event_roundtrip:
  assumes "\<And>t. e_parse d (iso (e_crypto d) t) = t"
  shows "event_of d (event_json d ev) = Some ev"
proof -
  have "mode_of_text (protection_text pm) = pm" for pm
    by (cases pm) (simp_all add: mode_of_text_def protection_text_def)
  with assms show ?thesis
    by (cases ev) (simp_all add: event_of_def event_json_def member_text_def member_amount_def amount_json_def Let_def)
qed

lemma journal_events_append: "journal_events d (es @ fs) = journal_events d es @ journal_events d fs"
  by (simp add: journal_events_def)

section \<open>A deployment to evaluate on\<close>

definition toy_deps :: Deps where
  "toy_deps = \<lparr>e_crypto = toy_crypto\<lparr>iso := show_int\<rparr>, e_is_uuid = (\<lambda>_. True), e_parse = read_int,
     e_sha = (\<lambda>_. []), e_guardrails = toy_guardrails, e_authorizerKeys = [verification_half toy_key], e_approverKeys = [],
     e_operatorKeys = [], e_settlementMints = None, e_slippageBps = 100, e_maxPriceImpactBps = 100, e_maxQuoteAgeMs = 1000,
     e_validityMs = 60000, e_publicKey = ''w'', e_cluster = ''devnet'', e_label = ''rpc'',
     e_structure = \<lparr>x_tradingWallet = ''w'', allowedPrograms = [], allowLookupTables = False, allowedTransferRecipients = []\<rparr>,
     e_maxSolDebitLamports = 0, e_maxSkewMs = 10, e_signerRetries = None, e_graceSlots = None, e_clock = (\<lambda>n. int n),
     e_newId = (\<lambda>n. show_nat n), e_mode = (\<lambda>_. toy_mode),
     e_chain = (\<lambda>_. \<lparr>label = ''rpc'', signatureStatus = (\<lambda>_. Inr None), blockHeight = Inr 1000, head = Some (Inr 1000)\<rparr>),
     e_secondaryChains = (\<lambda>_. []), e_custody = (\<lambda>_. Inr (1000, [])), e_order = (\<lambda>_ _. Inr None),
     e_execute = (\<lambda>_ _ _. Inl ''down''), e_decisionQuote = (\<lambda>_ _. Inr None), e_accounts = (\<lambda>_ _. Inl ''down''),
     e_simulate = (\<lambda>_ _ _. Inl ''down''), e_signer = (\<lambda>_ _. TIMED_OUT), e_awaitFinalized = (\<lambda>_ _ _. Inr None),
     e_crashes = (\<lambda>_ _. False)\<rparr>"

definition toy_journal :: ExecutorJournal where
  "toy_journal = \<lparr>token = ''t1'', entries = []\<rparr>"

definition toy_files :: journal_fs where
  "toy_files = \<lparr>lock = Some \<lparr>lock_token = ''t1'', acquiredAt = 0, released = False\<rparr>, lines = []\<rparr>"

definition toy_pipeline :: ExecutorPipeline where
  "toy_pipeline = \<lparr>p_registry = emptyIntentRegistry, p_ledger = emptyLedger, p_paused = False, p_pauseReason = None,
     p_files = toy_files, p_journal = toy_journal, p_adapterRegistry = emptyIntentRegistry, p_signedAttempt = None,
     p_tick = 0, p_calls = []\<rparr>"

definition toy_request :: ExecutionRequest where
  "toy_request = \<lparr>r_intent = toy_row, r_capitalAuthority = LIVE_AUTO, r_authorization = None, r_approvalHash = None,
     r_executionPath = JUPITER_ORDER\<rparr>"

lemma toy_started: "start_pipeline toy_deps toy_files toy_journal 0 = Inr toy_pipeline"
  by (simp add: start_pipeline_def toy_journal_def toy_pipeline_def journal_events_def ledger_replay_def fromJournal_def
      last_pause_def)

end
