(* ===== verification/ExecutorSubmit.thy ===== *)
theory ExecutorSubmit imports Executor "HOL-Library.Sublist" begin

text \<open>
  One entry through the executor (\<open>submit\<close>, \<open>adapterFor\<close>, \<open>withRetry\<close> and \<open>record\<close> of
  \<open>apps/execution-service/src/pipeline/pipeline.ts\<close>): authority, claim, caps, ledger, adapter and
  the record of its outcome. The live adapter's protocol is interpreted on the options the
  executor builds: nothing is signed before the claim is in the journal, nothing is sent before the
  signature and the submission are.
\<close>

section \<open>The adapter of one attempt\<close>

fun signTransactionMessage :: "Deps \<Rightarrow> nat \<Rightarrow> uuid \<Rightarrow> bytes \<Rightarrow> tx_signature pipe" where
  "signTransactionMessage d 0 i msg = throw SIGNER_TIMEOUT"
| "signTransactionMessage d (Suc k) i msg = andthen (note_call (C_SIGN i msg))
     (bind (outside (\<lambda>n. Inr (e_signer d n msg))) (\<lambda>r. case r of
        SIGNED_WITH sig \<Rightarrow> return sig
      | TIMED_OUT \<Rightarrow> signTransactionMessage d k i msg
      | SIGNER_FAILED e \<Rightarrow> throw (PROVIDER_ERROR e)))"

definition extra_members :: "uuid option \<Rightarrow> json_record" where
  "extra_members emergency = (case emergency of None \<Rightarrow> []
     | Some c \<Rightarrow> [(''emergency'', JBool True), (''commandId'', JStr c)])"

definition journal_hook ::
  "Deps \<Rightarrow> uuid \<Rightarrow> idempotency_key \<Rightarrow> nonce \<Rightarrow> uuid option \<Rightarrow> Order \<Rightarrow> Attempt \<Rightarrow> unit pipe" where
  "journal_hook d i key non emergency ord att = andthen (modify (\<lambda>s. s\<lparr>p_signedAttempt := Some att\<rparr>))
     (andthen (journal_append d ATTEMPT_SIGNED i
        ([(''intentId'', JStr i), (''idempotencyKey'', JStr key), (''nonce'', JStr non),
          (''signedTxHash'', text_json (a_signedTxHash att)), (''expectedTxSignature'', text_json (a_expectedTxSignature att)),
          (''lastValidBlockHeight'', opt_json jint (a_lastValidBlockHeight att)),
          (''jupiterRequestId'', text_json (a_jupiterRequestId att))] @ extra_members emergency))
       (probe d AFTER_SIGNED_JOURNAL))"

definition signed_field :: "(Attempt \<Rightarrow> 'a option) \<Rightarrow> Attempt option \<Rightarrow> 'a option" where
  "signed_field f a = (case a of None \<Rightarrow> None | Some att \<Rightarrow> f att)"

definition before_submit ::
  "Deps \<Rightarrow> uuid \<Rightarrow> idempotency_key \<Rightarrow> nonce \<Rightarrow> ExecutionPath \<Rightarrow> uuid option \<Rightarrow> ExecutionBounds \<Rightarrow> string option pipe" where
  "before_submit d i key non path emergency bounds = bind (facts d) (\<lambda>f.
     case modeGate f (b_exposureEffect bounds) of
       Some r \<Rightarrow> return (Some (''MODE_GATE_'' @ gate_text r))
     | None \<Rightarrow> bind (asks p_signedAttempt) (\<lambda>att.
         andthen (journal_append d ATTEMPT_SUBMITTED i
           ([(''intentId'', JStr i), (''idempotencyKey'', JStr key), (''nonce'', JStr non), (''path'', JStr (path_text path)),
             (''expectedTxSignature'', text_json (signed_field a_expectedTxSignature att)),
             (''signedTxHash'', text_json (signed_field a_signedTxHash att)),
             (''lastValidBlockHeight'', opt_json jint (signed_field a_lastValidBlockHeight att))] @ extra_members emergency))
          (andthen (advance_key key EXECUTING) (andthen (probe d AFTER_SUBMITTED_JOURNAL) (return None)))))"

definition adapterFor ::
  "Deps \<Rightarrow> uuid \<Rightarrow> idempotency_key \<Rightarrow> nonce \<Rightarrow> ExecutionPath \<Rightarrow> uuid option \<Rightarrow> ExecutorPipeline LiveAdapterOptions" where
  "adapterFor d i key non path emergency =
     \<lparr>o_order = (\<lambda>q. outside (\<lambda>n. provider (e_order d n q))),
      o_execute = (\<lambda>b rid. andthen (note_call (C_EXECUTE i b)) (outside (\<lambda>n. provider (e_execute d n b rid)))),
      o_decisionQuote = (\<lambda>t. outside (\<lambda>n. provider (e_decisionQuote d n t))),
      o_publicKey = e_publicKey d,
      o_sign = (\<lambda>msg _ _ _. signTransactionMessage d (default 2 (e_signerRetries d)) i msg),
      o_accounts = (\<lambda>ks. outside (\<lambda>n. provider (e_accounts d n ks))),
      o_simulate = (\<lambda>b ks. outside (\<lambda>n. provider (e_simulate d n b ks))),
      o_label = e_label d,
      o_now = clock_now d,
      o_newId = new_id d,
      o_cluster = e_cluster d,
      o_structure = e_structure d,
      o_maxSolDebitLamports = e_maxSolDebitLamports d,
      o_journal = journal_hook d i key non emergency,
      o_beforeSubmit = before_submit d i key non path emergency,
      o_awaitFinalized = (\<lambda>sig v. outside (\<lambda>n. provider (e_awaitFinalized d n sig v))),
      o_proveDead = (\<lambda>sig v. outside (\<lambda>n. provider (proveDead (e_chain d n) sig v))),
      o_currentBlockHeight = outside (\<lambda>n. map_sum PROVIDER_ERROR Some (blockHeight (e_chain d n))),
      o_registry = asks p_adapterRegistry,
      o_setRegistry = (\<lambda>r. modify (\<lambda>s. s\<lparr>p_adapterRegistry := r\<rparr>)),
      o_sha = e_sha d\<rparr>"

text \<open>\<open>new LiveExecutionAdapter(...)\<close> starts with an empty registry and no signed attempt.\<close>

definition with_new_adapter :: "'a pipe \<Rightarrow> 'a pipe" where
  "with_new_adapter m = andthen (modify (\<lambda>s. s\<lparr>p_adapterRegistry := emptyIntentRegistry, p_signedAttempt := None\<rparr>)) m"

section \<open>The record of an outcome\<close>

definition release_entry :: "Deps \<Rightarrow> instant \<Rightarrow> amount \<Rightarrow> amount \<Rightarrow> uuid \<times> amount \<Rightarrow> unit pipe" where
  "release_entry d t sold hold entry = (case entry of (i, exposure) \<Rightarrow>
     bind (lift_arith (if amountToBigInt hold > 0 then mulDiv exposure (amountToBigInt sold) (amountToBigInt hold) FLOOR
                       else Inr exposure))
       (\<lambda>released. ledgerEvent d i (EXIT_CONFIRMED t i released)))"

text \<open>An emergency exit releases the open entries of the mint in proportion to what was sold.\<close>

definition release_by_mint :: "Deps \<Rightarrow> instant \<Rightarrow> mint_address \<Rightarrow> amount \<Rightarrow> amount \<Rightarrow> unit pipe" where
  "release_by_mint d t mt sold hold =
     bind (asks (\<lambda>s. openByMint (p_ledger s) mt)) (\<lambda>es. for_each es (release_entry d t sold hold))"

definition filled_amount :: "Fill option \<Rightarrow> amount \<Rightarrow> amount" where
  "filled_amount fill maxInput = (case fill of None \<Rightarrow> maxInput | Some f \<Rightarrow> fi_inputAmount f)"

definition record_outcome ::
  "Deps \<Rightarrow> uuid \<Rightarrow> idempotency_key \<Rightarrow> OrderAttemptState \<Rightarrow> Fill option \<Rightarrow> tx_signature option \<Rightarrow> string list \<Rightarrow>
     amount \<Rightarrow> (mint_address \<times> amount) option \<Rightarrow> unit pipe" where
  "record_outcome d i key st fill sig reasons maxInput exit' = bind (clock_now d) (\<lambda>t. let
     ids = [(''intentId'', JStr i), (''idempotencyKey'', JStr key)];
     fill_id = (''fillId'', text_json (map_option fi_id fill)) in
     case st of
       FINALIZED \<Rightarrow>
         andthen (case exit' of
             Some (mt, hold) \<Rightarrow> release_by_mint d t mt (filled_amount fill maxInput) hold
           | None \<Rightarrow> ledgerEvent d i (ENTRY_CONFIRMED t i (filled_amount fill maxInput)))
         (andthen (advance_key key COMPLETED)
         (journal_append d ATTEMPT_RESULT i (ids @ [(''state'', JStr (attempt_state_text st)), (''lifecycle'', JStr ''COMPLETED''),
            (''txSignature'', text_json sig), fill_id, (''inputAmount'', opt_json amount_json (map_option fi_inputAmount fill)),
            (''outputAmount'', opt_json amount_json (map_option fi_outputAmount fill))])))
     | CONFIRMED_PROVISIONAL \<Rightarrow>
         andthen (when_cond (exit' = None) (ledgerEvent d i (ENTRY_CONFIRMED t i (filled_amount fill maxInput))))
         (journal_append d ATTEMPT_OBSERVED i (ids @ [(''commitment'', JStr ''confirmed''),
            (''slot'', opt_json jint (map_option fi_slot fill)), (''txSignature'', text_json sig), (''from'', JStr ''SUBMITTED''),
            (''provisionalFillId'', text_json (map_option fi_id fill))]))
     | SUBMITTED \<Rightarrow> return ()
     | _ \<Rightarrow>
         andthen (when_cond (exit' = None) (ledgerEvent d i (ENTRY_RELEASED t i
            (case reasons of r # _ \<Rightarrow> r | [] \<Rightarrow> attempt_state_text st))))
         (andthen (advance_key key IntentLifecycleState.FAILED)
         (journal_append d ATTEMPT_RESULT i (ids @ [(''state'', JStr (attempt_state_text st)), (''lifecycle'', JStr ''FAILED''),
            (''reasons'', texts_json reasons), (''txSignature'', text_json sig)]))))"

section \<open>Submit\<close>

record SubmitInput =
  si_request :: ExecutionRequest
  si_storedIntent :: "TradeIntent option"
  si_approval :: "ApprovalGrant SignedEnvelope option"
  si_protectionMode :: ProtectionMode

datatype SubmitOutcome =
    DENIED_AUTHORITY "AuthorityRejection list" "authority_detail list"
  | DENIED_CAPS "CapRejection list" "cap_detail list"
  | DUPLICATE uuid IntentLifecycleState
  | EXECUTED DetailedExecution

definition prepared_payload :: "Deps \<Rightarrow> TradeIntent \<Rightarrow> sha256_hex \<Rightarrow> RiskAuthorizedIntent \<Rightarrow> json_record" where
  "prepared_payload d t h p = [(''intentId'', JStr (ti_id t)), (''idempotencyKey'', JStr (ti_idempotencyKey t)),
     (''nonce'', JStr (rai_nonce p)), (''authorizationHash'', JStr h), (''mint'', JStr (RiskAuthorizedIntent.outputMint p)),
     (''maxInputAmount'', amount_json (RiskAuthorizedIntent.maxInputAmount p)),
     (''expiresAt'', JStr (iso (e_crypto d) (RiskAuthorizedIntent.expiresAt p)))]"

text \<open>\<open>const claim = registry.claim(i, k)\<close>: a duplicate ends the operation, otherwise the claim is held.\<close>

definition with_claim :: "uuid \<Rightarrow> idempotency_key \<Rightarrow> (claim_result \<Rightarrow> 'a) \<Rightarrow> 'a pipe \<Rightarrow> 'a pipe" where
  "with_claim i k dup m = bind (asks (\<lambda>s. claim (p_registry s) i k)) (\<lambda>(c, reg).
     if duplicate c then return (dup c) else andthen (modify (\<lambda>s. s\<lparr>p_registry := reg\<rparr>)) m)"

text \<open>What an authorized, fresh intent goes through once its claim is in the journal.\<close>

definition submit_prepared :: "Deps \<Rightarrow> SubmitInput \<Rightarrow> instant \<Rightarrow> RiskAuthorizedIntent \<Rightarrow> SubmitOutcome pipe" where
  "submit_prepared d inp now p = (let t = r_intent (si_request inp); key = ti_idempotencyKey t in
     andthen (probe d AFTER_PREPARED)
     (bind (asks p_ledger) (\<lambda>l. bind (lift_arith (checkCaps (e_guardrails d) l p (si_protectionMode inp) None)) (\<lambda>caps.
      case caps of
        Inl (reasons, detail) \<Rightarrow>
          andthen (advance_key key IntentLifecycleState.FAILED)
          (andthen (journal_append d ATTEMPT_RESULT (ti_id t) [(''intentId'', JStr (ti_id t)), (''idempotencyKey'', JStr key),
              (''state'', JStr ''PREPARED''), (''lifecycle'', JStr ''FAILED''), (''reasons'', texts_json (map cap_text reasons))])
            (return (DENIED_CAPS reasons detail)))
      | Inr _ \<Rightarrow>
          andthen (ledgerEvent d (ti_id t) (ENTRY_AUTHORIZED now (ti_id t) (RiskAuthorizedIntent.outputMint p)
              (RiskAuthorizedIntent.maxInputAmount p) (si_protectionMode inp)))
          (andthen (advance_key key AUTHORIZED)
          (bind (with_new_adapter (executeDetailed
              (adapterFor d (ti_id t) key (rai_nonce p) (r_executionPath (si_request inp)) None) (si_request inp) None)) (\<lambda>x.
           andthen (probe d AFTER_RESPONSE)
          (andthen (record_outcome d (ti_id t) key (a_state (x_attempt x)) (x_fill x) (re_txSignature (x_result x))
              (re_rejectionReasons (x_result x)) (RiskAuthorizedIntent.maxInputAmount p) None)
            (return (EXECUTED x))))))))))"

definition submit_claimed ::
  "Deps \<Rightarrow> SubmitInput \<Rightarrow> instant \<Rightarrow> sha256_hex \<Rightarrow> RiskAuthorizedIntent \<Rightarrow> SubmitOutcome pipe" where
  "submit_claimed d inp now h p = andthen
     (journal_append d ATTEMPT_PREPARED (ti_id (r_intent (si_request inp))) (prepared_payload d (r_intent (si_request inp)) h p))
     (submit_prepared d inp now p)"

definition authority_input ::
  "Deps \<Rightarrow> SubmitInput \<Rightarrow> RiskAuthorizedIntent SignedEnvelope \<Rightarrow> nonce list \<Rightarrow> ModeFacts \<Rightarrow> instant \<Rightarrow> AuthorityInput" where
  "authority_input d inp env used mode now =
     \<lparr>in_envelope = env, in_keys = e_authorizerKeys d, in_acceptedKeyIds = g_acceptedRiskAuthorizerKeyIds (e_guardrails d),
      in_storedIntent = si_storedIntent inp, in_approval = map_option (\<lambda>g. (g, e_approverKeys d)) (si_approval inp),
      in_usedNonces = used, in_mode = mode, in_now = now, in_maxSkewMs = e_maxSkewMs d\<rparr>"

definition submit :: "Deps \<Rightarrow> SubmitInput \<Rightarrow> SubmitOutcome pipe" where
  "submit d inp = bind (clock_now d) (\<lambda>now. case r_authorization (si_request inp) of
       None \<Rightarrow> return (DENIED_AUTHORITY [AUTHORIZATION_MALFORMED] [D_NO_ENVELOPE])
     | Some env \<Rightarrow> bind (asks (\<lambda>s. usedNonces (entries (p_journal s)))) (\<lambda>used. bind (facts d) (\<lambda>mode.
         let t = r_intent (si_request inp); key = ti_idempotencyKey t in
         case verifyAuthority (e_crypto d) (e_is_uuid d) (authority_input d inp env used mode now) of
           Inl (reasons, detail) \<Rightarrow> bind (asks (\<lambda>s. peek (p_registry s) key)) (\<lambda>prior. return (case prior of
               Some (hi, hs) \<Rightarrow> if list_all (\<lambda>r. r = NONCE_REPLAYED) reasons \<and> hi = ti_id t then DUPLICATE hi hs
                                else DENIED_AUTHORITY reasons detail
             | None \<Rightarrow> DENIED_AUTHORITY reasons detail))
         | Inr (h, p) \<Rightarrow> with_claim (ti_id t) key (\<lambda>c. DUPLICATE (claim_intentId c) (claim_state c))
             (submit_claimed d inp now h p))))"

section \<open>Programs that only add to the journal\<close>

text \<open>
  Most steps make no irrevocable call and at most append to the journal; a predicate that
  survives such a change is kept by all of them.
\<close>

definition grows :: "ExecutorPipeline \<Rightarrow> ExecutorPipeline \<Rightarrow> bool" where
  "grows s t \<longleftrightarrow> p_calls t = p_calls s \<and> (\<exists>x. entries (p_journal t) = entries (p_journal s) @ x)"

definition stable :: "(ExecutorPipeline \<Rightarrow> bool) \<Rightarrow> bool" where
  "stable P \<longleftrightarrow> (\<forall>s t. P s \<longrightarrow> grows s t \<longrightarrow> P t)"

named_theorems quiet_intros \<open>steps that keep every stable predicate\<close>

lemma stableD: "stable P \<Longrightarrow> P s \<Longrightarrow> grows s t \<Longrightarrow> P t"
  by (auto simp: stable_def)

lemma stable_conj: "stable P \<Longrightarrow> stable Q \<Longrightarrow> stable (\<lambda>s. P s \<and> Q s)"
  by (auto simp: stable_def)

lemma keeps_outside [quiet_intros]: "stable P \<Longrightarrow> keeps P (outside f)"
  by (rule keepsI) (auto simp: outside_def grows_def intro: stableD)

lemma keeps_modify_quiet [quiet_intros]: "stable P \<Longrightarrow> (\<And>s. grows s (f s)) \<Longrightarrow> keeps P (modify f)"
  by (auto intro!: keeps_modify intro: stableD)

lemma append_entry_adds:
  "append_entry cr now k corr p fs j = Inr (fs', j') \<Longrightarrow>
     \<exists>e. entries j' = entries j @ [e] \<and> kind e = k \<and> correlationId e = corr \<and> entry_payload e = p"
  by (auto simp: append_entry_def new_entry_def Let_def split: sum.splits)

lemma journal_append_run:
  assumes "journal_append d k corr p s = (r, t)"
  obtains e where "r = Inr ()" "entries (p_journal t) = entries (p_journal s) @ [e]" "kind e = k" "correlationId e = corr"
      "entry_payload e = p" "p_calls t = p_calls s" "p_registry t = p_registry s" "p_ledger t = p_ledger s"
  | err' where "r = Inl (JOURNAL_ERROR err')" "p_journal t = p_journal s" "p_calls t = p_calls s" "p_registry t = p_registry s"
      "p_ledger t = p_ledger s"
  using assms
  by (auto simp: journal_append_def Let_def split: sum.splits dest!: append_entry_adds)

lemma append_fields [simp]:
  "p_registry (snd (journal_append d k corr p s)) = p_registry s" "p_calls (snd (journal_append d k corr p s)) = p_calls s"
  by (simp_all add: journal_append_def Let_def split: sum.split prod.split)

lemma append_prefix [simp]: "prefix (entries (p_journal s)) (entries (p_journal (snd (journal_append d k corr p s))))"
  by (auto simp: journal_append_def Let_def dest!: append_entry_adds split: sum.split)

lemma keeps_journal_append [quiet_intros]: "stable P \<Longrightarrow> keeps P (journal_append d k corr p)"
proof (rule keepsI)
  fix s assume st: "stable P" and s: "P s"
  obtain r t where rt: "journal_append d k corr p s = (r, t)" by (cases "journal_append d k corr p s")
  then have "grows s t" by (cases rule: journal_append_run) (auto simp: grows_def)
  with st s rt show "P (snd (journal_append d k corr p s))" by (simp add: stableD)
qed

lemma keeps_steps_quiet [quiet_intros]:
  assumes "stable P"
  shows "keeps P (clock_now d)" "keeps P (new_id d)" "keeps P (probe d b)" "keeps P (facts d)"
    "keeps P (advance_key k st)" "keeps P (advance_key_if st k st')" "keeps P (lift_arith r)"
  using assms unfolding clock_now_def new_id_def probe_def facts_def advance_key_def advance_key_if_def lift_arith_def
  by (intro keeps_outside keeps_modify_quiet keeps_bind keeps_asks keeps_lift_result; simp add: grows_def)+

lemma keeps_ledgerEvent [quiet_intros]: "stable P \<Longrightarrow> keeps P (ledgerEvent d corr ev)"
proof (rule keepsI)
  fix s assume st: "stable P" and s: "P s"
  have "P (s\<lparr>p_ledger := l\<rparr>)" for l by (rule stableD [OF st s]) (simp add: grows_def)
  with s st show "P (snd (ledgerEvent d corr ev s))"
    by (auto simp: ledgerEvent_def keeps_journal_append [THEN keepsD] split: sum.split)
qed

lemma keeps_release [quiet_intros]: "stable P \<Longrightarrow> keeps P (release_by_mint d t mt sold hold)"
  unfolding release_by_mint_def release_entry_def
  by (intro inv_intros quiet_intros)

lemma keeps_record [quiet_intros]: "stable P \<Longrightarrow> keeps P (record_outcome d i key st fill sig rs mx ex)"
  unfolding record_outcome_def Let_def
  by (cases st) (auto intro!: inv_intros quiet_intros)

section \<open>What an irrevocable call rests on\<close>

definition kinds_of :: "string \<Rightarrow> JournalEntry list \<Rightarrow> ExecutorJournalKind list" where
  "kinds_of i es = map kind (filter (\<lambda>e. correlationId e = i) es)"

text \<open>Lines of these kinds, in this order, are in the journal under the intent's id.\<close>

definition journaled :: "uuid \<Rightarrow> ExecutorJournalKind list \<Rightarrow> JournalEntry list \<Rightarrow> bool" where
  "journaled i ks es \<longleftrightarrow> subseq ks (kinds_of i es)"

fun backed :: "uuid \<Rightarrow> (bytes \<Rightarrow> bool) \<Rightarrow> JournalEntry list \<Rightarrow> call \<Rightarrow> bool" where
  "backed i ok es (C_SIGN i' msg) \<longleftrightarrow> i' = i \<and> ok msg \<and> journaled i [ATTEMPT_PREPARED] es"
| "backed i ok es (C_EXECUTE i' b) \<longleftrightarrow> i' = i \<and> journaled i [ATTEMPT_PREPARED, ATTEMPT_SIGNED, ATTEMPT_SUBMITTED] es"

definition calls_backed :: "uuid \<Rightarrow> (bytes \<Rightarrow> bool) \<Rightarrow> (call \<times> nat) list \<Rightarrow> ExecutorPipeline \<Rightarrow> bool" where
  "calls_backed i ok before s \<longleftrightarrow> (\<exists>cs. p_calls s = before @ cs \<and>
     list_all (\<lambda>(c, n). n \<le> length (entries (p_journal s)) \<and> backed i ok (take n (entries (p_journal s))) c) cs)"

lemma journaled_grows: "journaled i ks es \<Longrightarrow> journaled i ks (es @ x)"
  by (auto simp: journaled_def kinds_of_def intro: subseq_rev_drop_many)

lemma journaled_snoc: "journaled i ks es \<Longrightarrow> correlationId e = i \<Longrightarrow> journaled i (ks @ [kind e]) (es @ [e])"
  by (simp add: journaled_def kinds_of_def)

lemma stable_journaled: "stable (\<lambda>s. journaled i ks (entries (p_journal s)))"
  by (auto simp: stable_def grows_def intro: journaled_grows)

lemma stable_calls_backed: "stable (calls_backed i ok before)"
proof -
  have "(\<lambda>(c, n). n \<le> length (es @ x) \<and> backed i ok (take n (es @ x)) c) cn"
    if "(\<lambda>(c, n). n \<le> length es \<and> backed i ok (take n es) c) cn" for es x cn
    using that by auto
  then show ?thesis
    by (fastforce simp: stable_def grows_def calls_backed_def list_all_iff)
qed

lemma keeps_note_call:
  assumes "\<And>s. P s \<Longrightarrow> calls_backed i ok before s \<and> backed i ok (entries (p_journal s)) c"
  shows "triple P (note_call c) (\<lambda>_. calls_backed i ok before) E"
  using assms by (fastforce simp: triple_def note_call_def calls_backed_def)

text \<open>What holds while the adapter of the intent \<open>i\<close> runs.\<close>

definition attempt_inv :: "uuid \<Rightarrow> (bytes \<Rightarrow> bool) \<Rightarrow> (call \<times> nat) list \<Rightarrow> ExecutorPipeline \<Rightarrow> bool" where
  "attempt_inv i ok before s \<longleftrightarrow> calls_backed i ok before s \<and> journaled i [ATTEMPT_PREPARED] (entries (p_journal s))"

definition signed_journaled :: "uuid \<Rightarrow> ExecutorPipeline \<Rightarrow> bool" where
  "signed_journaled i s \<longleftrightarrow> journaled i [ATTEMPT_PREPARED, ATTEMPT_SIGNED] (entries (p_journal s))"

definition submission_journaled :: "uuid \<Rightarrow> ExecutorPipeline \<Rightarrow> bool" where
  "submission_journaled i s \<longleftrightarrow> journaled i [ATTEMPT_PREPARED, ATTEMPT_SIGNED, ATTEMPT_SUBMITTED] (entries (p_journal s))"

lemma stable_attempt: "stable (attempt_inv i ok before)" "stable (signed_journaled i)" "stable (submission_journaled i)"
  unfolding attempt_inv_def [abs_def] signed_journaled_def [abs_def] submission_journaled_def [abs_def]
  by (intro stable_conj stable_calls_backed stable_journaled)+

section \<open>The executor keeps the adapter's protocol\<close>

text \<open>Beside the messages this adapter checks, an intent may have others (\<open>extra\<close>) that its fallback may sign.\<close>

abbreviation executor_inv ::
  "Deps \<Rightarrow> uuid \<Rightarrow> idempotency_key \<Rightarrow> nonce \<Rightarrow> ExecutionPath \<Rightarrow> uuid option \<Rightarrow> ExecutionBounds \<Rightarrow> (bytes \<Rightarrow> bool) \<Rightarrow>
     (call \<times> nat) list \<Rightarrow> ExecutorPipeline \<Rightarrow> bool" where
  "executor_inv d i key non path em bounds extra \<equiv>
     attempt_inv i (\<lambda>m. checked_message (adapterFor d i key non path em) bounds m \<or> extra m)"

lemma keeps_note:
  assumes "\<And>s. attempt_inv i ok before s \<Longrightarrow> S s \<Longrightarrow> backed i ok (entries (p_journal s)) c"
  shows "triple (\<lambda>s. attempt_inv i ok before s \<and> S s) (note_call c) (\<lambda>_. attempt_inv i ok before) E"
  using assms by (fastforce simp: triple_def note_call_def calls_backed_def attempt_inv_def)

lemma keeps_sign:
  assumes "ok msg" shows "keeps (attempt_inv i ok before) (signTransactionMessage d k i msg)"
proof (induction k)
  case (Suc k)
  have "keeps (attempt_inv i ok before) (note_call (C_SIGN i msg))"
    unfolding keeps_triple
    by (rule triple_pre [OF keeps_note [where S = "\<lambda>_. True"]]) (use assms in \<open>auto simp: attempt_inv_def\<close>)
  with Suc show ?case
    by (auto intro!: inv_intros quiet_intros stable_attempt split: signer_answer.split)
qed (simp add: keeps_def)

lemma append_adds_kind:
  assumes "\<And>s. P s \<Longrightarrow> journaled i ks (entries (p_journal s))"
  shows "triple P (journal_append d k i p) (\<lambda>_ s. journaled i (ks @ [k]) (entries (p_journal s))) (\<lambda>_ _. True)"
proof (rule tripleI)
  fix s a t assume s: "P s" and r: "journal_append d k i p s = (Inr a, t)"
  from r show "journaled i (ks @ [k]) (entries (p_journal t))"
    by (cases rule: journal_append_run) (use journaled_snoc [OF assms [OF s]] in auto)
qed simp

lemma triple_keeps_and:
  "triple P m Q (\<lambda>_ _. True) \<Longrightarrow> keeps R m \<Longrightarrow> (\<And>s. P s \<Longrightarrow> R s) \<Longrightarrow> triple P m (\<lambda>a s. R s \<and> Q a s) (\<lambda>_. R)"
  by (fastforce simp: triple_def keeps_def split: prod.splits sum.splits)

lemma triple_snd: "triple P m (\<lambda>_. Q) (\<lambda>_. Q) \<Longrightarrow> P s \<Longrightarrow> Q (snd (m s))"
  by (cases "m s"; cases "fst (m s)") (auto dest: triple_Inl triple_Inr)

lemma triple_stable: "stable P \<Longrightarrow> (\<And>R. stable R \<Longrightarrow> keeps R m) \<Longrightarrow> (\<And>s. P s \<Longrightarrow> E s) \<Longrightarrow> triple P m (\<lambda>_. P) (\<lambda>_. E)"
  by (rule triple_conseq [of P m "\<lambda>_. P" "\<lambda>_. P"]) (simp_all add: keeps_triple [symmetric])

lemma signed_append:
  "triple (attempt_inv i ok before) (journal_append d ATTEMPT_SIGNED i p)
     (\<lambda>_ s. attempt_inv i ok before s \<and> signed_journaled i s) (\<lambda>_. attempt_inv i ok before)"
  by (rule triple_keeps_and [OF triple_conseq [OF append_adds_kind [where P = "attempt_inv i ok before" and ks = "[ATTEMPT_PREPARED]"]]])
    (auto simp: attempt_inv_def signed_journaled_def intro: quiet_intros stable_attempt [unfolded attempt_inv_def [abs_def]])

lemma journal_hook_keeps:
  "triple (attempt_inv i ok before) (journal_hook d i key non em ord att)
     (\<lambda>_ s. attempt_inv i ok before s \<and> signed_journaled i s) (\<lambda>_. attempt_inv i ok before)"
  unfolding journal_hook_def
  by (intro triple_andthen [OF _ triple_andthen [OF signed_append]] triple_stable stable_conj stable_attempt quiet_intros)
    (auto simp: grows_def)

text \<open>The gate, the line of the submission and a quiet step after it.\<close>

lemma gated_submission:
  assumes "\<And>R. stable R \<Longrightarrow> keeps R m"
  shows "triple (\<lambda>s. attempt_inv i ok before s \<and> signed_journaled i s)
     (bind (facts d) (\<lambda>f. case modeGate f e of
        Some r \<Rightarrow> return (Some (why r))
      | None \<Rightarrow> bind (asks p_signedAttempt) (\<lambda>att. andthen (journal_append d ATTEMPT_SUBMITTED i (p att))
          (andthen m (andthen (probe d AFTER_SUBMITTED_JOURNAL) (return None))))))
     (\<lambda>r s. attempt_inv i ok before s \<and> (r = None \<longrightarrow> submission_journaled i s)) (\<lambda>_. attempt_inv i ok before)"
proof -
  let ?P = "\<lambda>s. attempt_inv i ok before s \<and> signed_journaled i s"
  let ?R = "\<lambda>s. attempt_inv i ok before s \<and> submission_journaled i s"
  have a: "triple ?P (journal_append d ATTEMPT_SUBMITTED i p) (\<lambda>_. ?R) (\<lambda>_. attempt_inv i ok before)" for p
    by (rule triple_keeps_and [OF triple_conseq [OF append_adds_kind [where P = ?P and ks = "[ATTEMPT_PREPARED, ATTEMPT_SIGNED]"]]])
      (auto simp: signed_journaled_def submission_journaled_def intro: quiet_intros stable_attempt)
  have q: "stable ?P" "stable ?R" by (intro stable_conj stable_attempt)+
  have s: "triple ?R (andthen m (andthen (probe d AFTER_SUBMITTED_JOURNAL) (return None)))
      (\<lambda>r s. attempt_inv i ok before s \<and> (r = None \<longrightarrow> submission_journaled i s)) (\<lambda>_. attempt_inv i ok before)"
    by (rule triple_andthen [OF triple_stable [OF q(2)] triple_andthen [OF triple_stable [OF q(2)] triple_return]])
      (auto intro: quiet_intros assms)
  show ?thesis
  proof (rule triple_bind [OF triple_stable [OF q(1)]], goal_cases)
    case (3 f)
    show ?case
      by (cases "modeGate f e")
        (auto intro!: triple_return triple_bind [of ?P _ "\<lambda>_. ?P"] triple_asks triple_andthen [OF a s])
  qed (auto intro: quiet_intros)
qed

lemma before_submit_keeps:
  "triple (\<lambda>s. attempt_inv i ok before s \<and> signed_journaled i s) (before_submit d i key non path em b)
     (\<lambda>r s. attempt_inv i ok before s \<and> (r = None \<longrightarrow> submission_journaled i s)) (\<lambda>_. attempt_inv i ok before)"
  unfolding before_submit_def by (rule gated_submission) (rule quiet_intros)

interpretation executor: submission_protocol "adapterFor d i key non path em" "executor_inv d i key non path em bounds extra before"
  "signed_journaled i" "submission_journaled i" bounds
  for d i key non path em bounds extra before
proof (unfold_locales, goal_cases)
  case (13 msg i' a h)
  then show ?case by (simp add: adapterFor_def keeps_sign)
next
  case (14 ord att)
  show ?case using journal_hook_keeps by (simp add: adapterFor_def)
next
  case 15
  show ?case using before_submit_keeps by (simp add: adapterFor_def)
next
  case (16 b rid)
  have "triple (\<lambda>s. executor_inv d i key non path em bounds extra before s \<and> submission_journaled i s)
      (andthen (note_call (C_EXECUTE i b)) (outside (\<lambda>n. provider (e_execute d n b rid))))
      (\<lambda>_. executor_inv d i key non path em bounds extra before) (\<lambda>_. executor_inv d i key non path em bounds extra before)"
    by (rule triple_andthen [OF keeps_note keeps_outside [unfolded keeps_triple]])
      (auto simp: submission_journaled_def intro: stable_attempt)
  then show ?case by (simp add: adapterFor_def)
qed (auto simp: adapterFor_def grows_def intro!: quiet_intros keeps_asks stable_conj stable_attempt)

section \<open>Every call is backed\<close>

text \<open>The messages the executor's adapter may sign under the bounds; only the deployment's part of its options matters.\<close>

definition signable :: "Deps \<Rightarrow> ExecutionBounds \<Rightarrow> bytes \<Rightarrow> bool" where
  "signable d bounds = checked_message (adapterFor d [] [] [] JUPITER_ORDER None) bounds"

lemma signable_any: "checked_message (adapterFor d i key non path em) bounds = signable d bounds"
  by (auto simp: signable_def checked_message_def adapterFor_def delta_expectation_def fun_eq_iff)

lemma with_new_adapter_keeps: "stable P \<Longrightarrow> triple P m Q E \<Longrightarrow> triple P (with_new_adapter m) Q E"
  unfolding with_new_adapter_def
  by (rule triple_andthen) (auto simp: triple_def grows_def intro: stableD)

lemma attempt_runs_with:
  assumes "live_bounds req em = Inr (bounds, h) \<or> (\<exists>r. live_bounds req em = Inl r)"
  shows "keeps (attempt_inv i (\<lambda>m. signable d bounds m \<or> extra m) before)
    (with_new_adapter (executeDetailed (adapterFor d i key non path c) req em))"
proof -
  have "keeps (attempt_inv i (\<lambda>m. signable d bounds m \<or> extra m) before) (executeDetailed (adapterFor d i key non path c) req em)"
    using executor.execute_keeps [OF assms, where d = d and i = i and key = key and non = non and path = path and em = c and extra = extra]
    by (simp only: signable_any)
  then show ?thesis unfolding keeps_triple by (rule with_new_adapter_keeps [OF stable_attempt(1)])
qed

lemmas attempt_runs = attempt_runs_with [where extra = "\<lambda>_. False", simplified]

lemma submit_claimed_calls:
  assumes "r_authorization (si_request inp) = Some env"
  shows "triple (\<lambda>s. p_calls s = before) (submit_claimed d inp now h p)
     (\<lambda>_. calls_backed (ti_id (r_intent (si_request inp))) (signable d (bounds_of (payload env))) before)
     (\<lambda>_. calls_backed (ti_id (r_intent (si_request inp))) (signable d (bounds_of (payload env))) before)"
proof -
  let ?i = "ti_id (r_intent (si_request inp))"
  let ?B = "calls_backed ?i (signable d (bounds_of (payload env))) before"
  let ?I = "attempt_inv ?i (signable d (bounds_of (payload env))) before"
  have st: "stable (\<lambda>s. p_calls s = before)" by (auto simp: stable_def grows_def)
  have "journaled ?i [] es" for es by (simp add: journaled_def)
  then have j: "triple (\<lambda>s. p_calls s = before) (journal_append d ATTEMPT_PREPARED ?i q)
      (\<lambda>_ s. p_calls s = before \<and> journaled ?i [ATTEMPT_PREPARED] (entries (p_journal s))) (\<lambda>_ s. p_calls s = before)" for q
    using triple_keeps_and [OF append_adds_kind [where P = "\<lambda>s. p_calls s = before" and ks = "[]"] keeps_journal_append [OF st]]
    by simp
  have "live_bounds (si_request inp) None = Inr (bounds_of (payload env), Some (payloadHash env)) \<or>
      (\<exists>r. live_bounds (si_request inp) None = Inl r)"
    by (simp add: live_bounds_def assms)
  then have x: "keeps ?I (with_new_adapter (executeDetailed (adapterFor d ?i k non path None) (si_request inp) None))" for k non path
    by (auto intro: attempt_runs)
  have "triple (\<lambda>s. p_calls s = before) (submit_claimed d inp now h p) (\<lambda>_. ?I) (\<lambda>_. ?B)"
    unfolding submit_claimed_def
  proof (rule triple_andthen [OF triple_conseq [OF j, where Q' = "\<lambda>_. ?I" and E' = "\<lambda>_. ?B"]], goal_cases)
    case 4
    show ?case unfolding submit_prepared_def Let_def
      by (rule triple_conseq [OF iffD1 [OF keeps_triple], of ?I])
        (auto intro!: inv_intros quiet_intros stable_attempt x split: sum.split simp: attempt_inv_def)
  qed (auto simp: attempt_inv_def calls_backed_def)
  then show ?thesis by (rule triple_conseq) (auto simp: attempt_inv_def)
qed

lemma verify_payload: "verifyAuthority cr u (authority_input d inp env used mode now) = Inr (h, p) \<Longrightarrow> p = payload env"
  by (auto simp: verifyAuthority_def authority_input_def Let_def split: if_splits sum.splits)

lemma quiet_run: "clock_now d s = (Inr (e_clock d (p_tick s)), s\<lparr>p_tick := Suc (p_tick s)\<rparr>)"
  "facts d s = (Inr ((e_mode d (p_tick s))\<lparr>localPause := localPause (e_mode d (p_tick s)) \<or> p_paused s\<rparr>), s\<lparr>p_tick := Suc (p_tick s)\<rparr>)"
  by (simp_all add: clock_now_def facts_def outside_def bind_run)

text \<open>What \<open>submit\<close> does before the claim, and when it goes on.\<close>

lemma submit_cases:
  obtains out t where "submit d inp s = (Inr out, t)" "p_calls t = p_calls s" "p_journal t = p_journal s" "p_registry t = p_registry s"
      "p_ledger t = p_ledger s" "\<forall>x. out \<noteq> EXECUTED x"
  | env mode now h c reg t where "r_authorization (si_request inp) = Some env"
      "verifyAuthority (e_crypto d) (e_is_uuid d)
         (authority_input d inp env (usedNonces (entries (p_journal s))) mode now) = Inr (h, payload env)"
      "claim (p_registry s) (ti_id (r_intent (si_request inp))) (ti_idempotencyKey (r_intent (si_request inp))) = (c, reg)"
      "\<not> duplicate c" "submit d inp s = submit_claimed d inp now h (payload env) t"
      "p_calls t = p_calls s" "p_journal t = p_journal s" "p_registry t = reg" "p_ledger t = p_ledger s"
proof (cases "r_authorization (si_request inp)")
  case (Some env)
  define s1 where "s1 = s\<lparr>p_tick := Suc (p_tick s)\<rparr>"
  define s2 where "s2 = s1\<lparr>p_tick := Suc (p_tick s1)\<rparr>"
  define mode where "mode = (e_mode d (p_tick s1))\<lparr>localPause := localPause (e_mode d (p_tick s1)) \<or> p_paused s1\<rparr>"
  have eq: "p_calls s2 = p_calls s" "p_journal s2 = p_journal s" "p_registry s2 = p_registry s" "p_ledger s2 = p_ledger s"
    by (simp_all add: s2_def s1_def)
  let ?key = "ti_idempotencyKey (r_intent (si_request inp))"
  let ?a = "verifyAuthority (e_crypto d) (e_is_uuid d)
         (authority_input d inp env (usedNonces (entries (p_journal s))) mode (e_clock d (p_tick s)))"
  have run: "submit d inp s = (case ?a of
           Inl (reasons, detail) \<Rightarrow> (Inr (case peek (p_registry s) ?key of
               Some (hi, hs) \<Rightarrow> if list_all (\<lambda>r. r = NONCE_REPLAYED) reasons \<and> hi = ti_id (r_intent (si_request inp)) then DUPLICATE hi hs
                                else DENIED_AUTHORITY reasons detail
             | None \<Rightarrow> DENIED_AUTHORITY reasons detail), s2)
         | Inr (h, p) \<Rightarrow> (case claim (p_registry s) (ti_id (r_intent (si_request inp))) ?key of (c, reg) \<Rightarrow>
             if duplicate c then (Inr (DUPLICATE (claim_intentId c) (claim_state c)), s2)
             else submit_claimed d inp (e_clock d (p_tick s)) h p (s2\<lparr>p_registry := reg\<rparr>)))"
    unfolding submit_def with_claim_def Some Let_def s2_def s1_def mode_def
    by (simp add: bind_run andthen_run quiet_run split: sum.split prod.split)
  obtain c reg where cl: "claim (p_registry s) (ti_id (r_intent (si_request inp))) ?key = (c, reg)" by fastforce
  show ?thesis
  proof (cases ?a)
    case (Inl r)
    obtain rs det where r: "r = (rs, det)" by (cases r)
    show ?thesis
      by (rule that(1) [where t = s2 and out = "case peek (p_registry s) ?key of
               Some (hi, hs) \<Rightarrow> if list_all (\<lambda>r. r = NONCE_REPLAYED) rs \<and> hi = ti_id (r_intent (si_request inp)) then DUPLICATE hi hs
                                else DENIED_AUTHORITY rs det
             | None \<Rightarrow> DENIED_AUTHORITY rs det"])
        (simp_all add: eq run Inl r split: prod.split option.split)
  next
    case (Inr b)
    then obtain h p where b: "?a = Inr (h, p)" by (cases b) auto
    show ?thesis
    proof (cases "duplicate c")
      case True
      then show ?thesis
        by (intro that(1) [where t = s2]) (use eq run b cl in auto)
    next
      case False
      then show ?thesis
        using verify_payload [OF b]
        by (intro that(2) [where t = "s2\<lparr>p_registry := reg\<rparr>"]) (use eq run b cl Some in auto)
    qed
  qed
qed (rule that(1) [where t = "s\<lparr>p_tick := Suc (p_tick s)\<rparr>"], auto simp: submit_def bind_run quiet_run)

lemma calls_backed_mono: "calls_backed i ok before s \<Longrightarrow> (\<And>m. ok m \<Longrightarrow> ok' m) \<Longrightarrow> calls_backed i ok' before s"
proof -
  assume mono: "\<And>m. ok m \<Longrightarrow> ok' m"
  have "backed i ok es c \<Longrightarrow> backed i ok' es c" for es c by (cases c) (auto intro: mono)
  then show "calls_backed i ok before s \<Longrightarrow> calls_backed i ok' before s"
    by (fastforce simp: calls_backed_def list_all_iff)
qed

lemma calls_backed_same: "p_calls s = before \<Longrightarrow> calls_backed i ok before s"
  by (simp add: calls_backed_def)

text \<open>A claimed key is not acted on again: nothing is signed, sent, journaled or booked.\<close>

lemma claimed_submit_idle:
  assumes "claimed (ti_idempotencyKey (r_intent (si_request inp))) i (p_registry s)" and "submit d inp s = (r, t)"
  shows "p_calls t = p_calls s \<and> p_journal t = p_journal s \<and> p_ledger t = p_ledger s \<and> p_registry t = p_registry s \<and>
    (\<exists>out. r = Inr out \<and> (\<forall>x. out \<noteq> EXECUTED x))"
  using assms
  by (cases rule: submit_cases [where d = d and inp = inp and s = s])
    (auto simp: claimed_def claim_def registerIntent_def)

section \<open>Properties\<close>


definition toy_submit :: SubmitInput where
  "toy_submit = \<lparr>si_request = toy_request, si_storedIntent = None, si_approval = None, si_protectionMode = MONITORED_EXIT\<rparr>"

end
