(* ===== verification/ExecutorFinality.thy ===== *)
theory ExecutorFinality imports ExecutorSubmit begin

text \<open>
  Restart recovery, staged finality and the position shadow (\<open>recover\<close>, \<open>trackFinality\<close> and
  \<open>syncShadow\<close> of \<open>apps/execution-service/src/pipeline/pipeline.ts\<close>): what the executor does for
  the attempts its journal still holds open, decided from chain truth alone.
\<close>

section \<open>Reading the journal back\<close>

definition get_int :: "JournalEntry \<Rightarrow> string \<Rightarrow> int option" where
  "get_int e k = (case map_of (entry_payload e) k of Some (JNum (Fin r)) \<Rightarrow> Some \<lfloor>r\<rfloor> | _ \<Rightarrow> None)"

definition get_flag :: "JournalEntry \<Rightarrow> string \<Rightarrow> bool" where
  "get_flag e k \<longleftrightarrow> map_of (entry_payload e) k = Some (JBool True)"

definition get_amount :: "JournalEntry \<Rightarrow> string \<Rightarrow> amount option" where
  "get_amount e k = map_option read_int (get_text e k)"

definition opt_get :: "('a \<Rightarrow> 'b option) \<Rightarrow> 'a option \<Rightarrow> 'b option" where
  "opt_get f a = (case a of None \<Rightarrow> None | Some e \<Rightarrow> f e)"

definition journal_of :: "JournalEntry list pipe" where
  "journal_of = asks (\<lambda>s. entries (p_journal s))"

definition ledger_open :: "uuid \<Rightarrow> bool pipe" where
  "ledger_open i = asks (\<lambda>s. i \<in> set (openIntents (p_ledger s)))"

text \<open>\<open>if (ledger.openIntents().includes(i)) await ledgerEvent(...)\<close>, at the clock's time.\<close>

definition if_open :: "Deps \<Rightarrow> uuid \<Rightarrow> (instant \<Rightarrow> ExposureEvent) \<Rightarrow> unit pipe" where
  "if_open d i ev = bind (ledger_open i) (\<lambda>b. when_cond b (bind (clock_now d) (\<lambda>t. ledgerEvent d i (ev t))))"

definition lastShadowSequence :: "JournalEntry list \<Rightarrow> int option" where
  "lastShadowSequence es = opt_get (\<lambda>e. get_int e ''sequence'') (find_last (\<lambda>e. kind e = SHADOW_SYNCED) es)"

section \<open>Recovery\<close>

record SeenAttempt =
  seen_signed :: bool
  seen_done :: bool
  seen_expiresAt :: "string option"
  seen_key :: "string option"

definition seen_entry :: "(string \<times> SeenAttempt) list \<Rightarrow> JournalEntry \<Rightarrow> (string \<times> SeenAttempt) list" where
  "seen_entry m e = (let
     c = correlationId e;
     m1 = (if kind e = ATTEMPT_PREPARED
           then AList.update c \<lparr>seen_signed = False, seen_done = False, seen_expiresAt = get_text e ''expiresAt'',
                seen_key = get_text e ''idempotencyKey''\<rparr> m else m)
   in case map_of m1 c of
        None \<Rightarrow> m1
      | Some x \<Rightarrow> AList.update c (x\<lparr>seen_signed := seen_signed x \<or> kind e = ATTEMPT_SIGNED \<or> kind e = ATTEMPT_SUBMITTED,
                                     seen_done := seen_done x \<or> kind e = ATTEMPT_RESULT\<rparr>) m1)"

definition seen_attempts :: "JournalEntry list \<Rightarrow> (string \<times> SeenAttempt) list" where
  "seen_attempts es = foldl seen_entry [] es"

datatype RecoveryResolution =
    LANDED_FINALIZED | LANDED_CONFIRMED_PENDING | RECOVERED_NOT_LANDED | STILL_LANDABLE | EXPIRED_UNSIGNED

record Recovery =
  rec_correlationId :: string
  rec_resolution :: RecoveryResolution
  rec_signature :: "tx_signature option"

definition text_or_null :: "string option \<Rightarrow> string option" where
  "text_or_null t = (if t = Some [] then None else t)"

definition recover_unsigned :: "Deps \<Rightarrow> instant \<Rightarrow> string \<times> SeenAttempt \<Rightarrow> Recovery list pipe" where
  "recover_unsigned d now x = (case x of (c, m) \<Rightarrow>
     (case (text_or_null (seen_expiresAt m), text_or_null (seen_key m)) of
        (Some t, Some k) \<Rightarrow>
          if seen_signed m \<or> seen_done m \<or> now < e_parse d t then return []
          else andthen (if_open d c (\<lambda>t. ENTRY_RELEASED t c ''EXPIRED_UNSIGNED''))
            (andthen (advance_key k IntentLifecycleState.EXPIRED)
            (andthen (journal_append d ATTEMPT_RESULT c [(''intentId'', JStr c), (''idempotencyKey'', JStr k),
                (''state'', JStr ''PREPARED''), (''lifecycle'', JStr ''EXPIRED''), (''recovered'', JBool True),
                (''reason'', JStr ''EXPIRED_UNSIGNED'')])
             (return [\<lparr>rec_correlationId = c, rec_resolution = EXPIRED_UNSIGNED, rec_signature = None\<rparr>])))
      | _ \<Rightarrow> return []))"

definition chain_status :: "Deps \<Rightarrow> tx_signature \<Rightarrow> SignatureStatus option pipe" where
  "chain_status d sig = outside (\<lambda>n. provider (signatureStatus (e_chain d n) sig))"

definition prove_dead :: "Deps \<Rightarrow> tx_signature \<Rightarrow> int option \<Rightarrow> (bool \<times> bool) option pipe" where
  "prove_dead d sig v = outside (\<lambda>n. provider (proveDead (e_chain d n) sig v))"

text \<open>The last ATTEMPT_SIGNED and the first ATTEMPT_PREPARED line of an attempt.\<close>

definition signed_line :: "JournalEntry list \<Rightarrow> string \<Rightarrow> JournalEntry option" where
  "signed_line es c = find_last (\<lambda>e. correlationId e = c \<and> kind e = ATTEMPT_SIGNED) es"

definition prepared_line :: "JournalEntry list \<Rightarrow> string \<Rightarrow> JournalEntry option" where
  "prepared_line es c = find (\<lambda>e. correlationId e = c \<and> kind e = ATTEMPT_PREPARED) es"

definition attempt_signature :: "JournalEntry list \<Rightarrow> UnresolvedAttempt \<Rightarrow> tx_signature option" where
  "attempt_signature es u = orelse (u_expectedTxSignature u)
     (opt_get (\<lambda>e. get_text e ''expectedTxSignature'') (signed_line es (u_correlationId u)))"

definition attempt_key :: "JournalEntry list \<Rightarrow> UnresolvedAttempt \<Rightarrow> idempotency_key option" where
  "attempt_key es u = opt_get (\<lambda>e. get_text e ''idempotencyKey'') (signed_line es (u_correlationId u))"

definition attempt_notional :: "JournalEntry list \<Rightarrow> string \<Rightarrow> amount" where
  "attempt_notional es c = default 0 (opt_get (\<lambda>e. get_amount e ''maxInputAmount'') (prepared_line es c))"

definition recovered_dead :: "Deps \<Rightarrow> uuid \<Rightarrow> idempotency_key \<Rightarrow> tx_signature \<Rightarrow> string \<Rightarrow> Recovery list pipe" where
  "recovered_dead d c key sig reason =
     andthen (bind (clock_now d) (\<lambda>t. ledgerEvent d c (ENTRY_RELEASED t c reason)))
     (andthen (advance_key_if AUTHORIZED key EXECUTING)
     (andthen (advance_key key IntentLifecycleState.FAILED)
     (andthen (journal_append d ATTEMPT_RESULT c [(''intentId'', JStr c), (''idempotencyKey'', JStr key),
         (''state'', JStr ''NOT_LANDED''), (''lifecycle'', JStr ''FAILED''), (''txSignature'', JStr sig),
         (''recovered'', JBool True), (''reason'', JStr reason)])
      (return [\<lparr>rec_correlationId = c, rec_resolution = RECOVERED_NOT_LANDED, rec_signature = Some sig\<rparr>]))))"

definition recovery_of :: "uuid \<Rightarrow> RecoveryResolution \<Rightarrow> tx_signature option \<Rightarrow> Recovery list pipe" where
  "recovery_of c r sg = return [\<lparr>rec_correlationId = c, rec_resolution = r, rec_signature = sg\<rparr>]"

definition recovered_landed :: "Deps \<Rightarrow> uuid \<Rightarrow> idempotency_key \<Rightarrow> tx_signature \<Rightarrow> amount \<Rightarrow> Recovery list pipe" where
  "recovered_landed d c key sig notional =
     andthen (if_open d c (\<lambda>t. ENTRY_CONFIRMED t c notional))
     (andthen (advance_key_if AUTHORIZED key EXECUTING)
     (andthen (advance_key key COMPLETED)
     (andthen (journal_append d ATTEMPT_RESULT c [(''intentId'', JStr c), (''idempotencyKey'', JStr key),
         (''state'', JStr ''FINALIZED''), (''lifecycle'', JStr ''COMPLETED''), (''txSignature'', JStr sig),
         (''recovered'', JBool True)])
      (recovery_of c LANDED_FINALIZED (Some sig)))))"

definition recover_signed :: "Deps \<Rightarrow> JournalEntry list \<Rightarrow> uuid \<Rightarrow> idempotency_key \<Rightarrow> tx_signature \<Rightarrow> Recovery list pipe" where
  "recover_signed d es c key sig = bind (chain_status d sig) (\<lambda>status. case status of
       Some st \<Rightarrow>
         if err st = None \<and> confirmationStatus st = finalized then recovered_landed d c key sig (attempt_notional es c)
         else if err st = None then recovery_of c LANDED_CONFIRMED_PENDING (Some sig)
         else recovered_dead d c key sig ''TX_FAILED_ON_CHAIN''
     | None \<Rightarrow> bind (prove_dead d sig (opt_get (\<lambda>e. get_int e ''lastValidBlockHeight'') (signed_line es c))) (\<lambda>dead.
         if dead \<noteq> None then recovered_dead d c key sig ''BLOCK_HEIGHT_EXPIRED''
         else recovery_of c STILL_LANDABLE (Some sig)))"

definition recover_attempt :: "Deps \<Rightarrow> UnresolvedAttempt \<Rightarrow> Recovery list pipe" where
  "recover_attempt d u = bind journal_of (\<lambda>es.
     case (text_or_null (attempt_signature es u), text_or_null (attempt_key es u)) of
       (Some sig, Some key) \<Rightarrow> recover_signed d es (u_correlationId u) key sig
     | _ \<Rightarrow> recovery_of (u_correlationId u) STILL_LANDABLE (attempt_signature es u))"

definition recover :: "Deps \<Rightarrow> Recovery list pipe" where
  "recover d = bind (clock_now d) (\<lambda>now. bind journal_of (\<lambda>es.
     bind (for_collect (seen_attempts es) (recover_unsigned d now)) (\<lambda>r1.
     bind journal_of (\<lambda>es'. bind (for_collect (unresolvedAttempts es') (recover_attempt d)) (\<lambda>r2.
       return (concat r1 @ concat r2))))))"

section \<open>Staged finality\<close>

record FinalityUpdate =
  fu_intentId :: uuid
  fu_signature :: tx_signature
  fu_from :: OrderAttemptState
  fu_to :: OrderAttemptState
  fu_verdict :: QuorumVerdictKind
  fu_slot :: "int option"
  fu_views :: int
  fu_note :: "string option"

fun verdict_text :: "QuorumVerdictKind \<Rightarrow> string" where
  "verdict_text V_FINALIZED = ''FINALIZED''"
| "verdict_text V_CONFIRMED = ''CONFIRMED''"
| "verdict_text V_PROCESSED = ''PROCESSED''"
| "verdict_text V_FAILED = ''FAILED''"
| "verdict_text V_MISSING = ''MISSING''"
| "verdict_text V_DIVERGENT = ''DIVERGENT''"
| "verdict_text V_UNAVAILABLE = ''UNAVAILABLE''"

fun commitment_text :: "ChainCommitment \<Rightarrow> string" where
  "commitment_text processed = ''processed''"
| "commitment_text confirmed = ''confirmed''"
| "commitment_text finalized = ''finalized''"

definition status_members :: "SignatureStatus \<Rightarrow> json_record" where
  "status_members st = [(''slot'', jint (slot st)), (''commitment'', JStr (commitment_text (confirmationStatus st)))]"

fun reading_json :: "ViewReading \<Rightarrow> json" where
  "reading_json (LANDED l st) = JObj ([(''label'', JStr l), (''kind'', JStr ''LANDED'')] @ status_members st)"
| "reading_json (ViewReading.FAILED l st) = JObj ([(''label'', JStr l), (''kind'', JStr ''FAILED'')] @ status_members st)"
| "reading_json (MISSING l h) = JObj [(''label'', JStr l), (''kind'', JStr ''MISSING''), (''headSlot'', opt_json jint h)]"
| "reading_json (UNAVAILABLE l e) = JObj [(''label'', JStr l), (''kind'', JStr ''UNAVAILABLE''), (''error'', JStr e)]"

definition views_json :: "QuorumVerdict \<Rightarrow> json" where
  "views_json q = JArr (map reading_json (readings q))"

definition observers :: "Deps \<Rightarrow> nat \<Rightarrow> QuorumObserver list" where
  "observers d n = e_chain d n # e_secondaryChains d n"

definition quorum :: "Deps \<Rightarrow> tx_signature \<Rightarrow> QuorumVerdict pipe" where
  "quorum d sig = outside (\<lambda>n. Inr (quorumVerdict (readSignature (observers d n) sig) (default 64 (e_graceSlots d))))"

definition prove_dead_views :: "Deps \<Rightarrow> tx_signature \<Rightarrow> int option \<Rightarrow> (bool \<times> bool) option pipe" where
  "prove_dead_views d sig v = outside (\<lambda>n. Inr (proveDeadAcrossViews (observers d n) sig v))"

definition observed_line :: "JournalEntry list \<Rightarrow> string \<Rightarrow> JournalEntry option" where
  "observed_line es c =
     find_last (\<lambda>e. correlationId e = c \<and> (kind e = ATTEMPT_OBSERVED \<or> kind e = ATTEMPT_REORG_PENDING)) es"

definition prior_state :: "JournalEntry option \<Rightarrow> OrderAttemptState" where
  "prior_state o' = (case o' of None \<Rightarrow> SUBMITTED
     | Some e \<Rightarrow> if kind e = ATTEMPT_REORG_PENDING then REORG_PENDING else CONFIRMED_PROVISIONAL)"

text \<open>What one turn of the loop knows of its attempt.\<close>

record tracked =
  t_intentId :: uuid
  t_key :: idempotency_key
  t_signature :: tx_signature
  t_lastValid :: "int option"
  t_prior :: OrderAttemptState
  t_machine :: OrderAttemptRecord
  t_emergency :: bool
  t_mint :: "mint_address option"
  t_notional :: amount
  t_held :: amount

definition tracked_of :: "JournalEntry list \<Rightarrow> UnresolvedAttempt \<Rightarrow> tracked option" where
  "tracked_of es u = (let c = u_correlationId u; observed = observed_line es c; prior = prior_state observed;
       prepared = prepared_line es c; lastValid = opt_get (\<lambda>e. get_int e ''lastValidBlockHeight'') (signed_line es c);
       notional = attempt_notional es c in
     case (text_or_null (attempt_signature es u), text_or_null (attempt_key es u)) of
       (Some sig, Some key) \<Rightarrow> Some \<lparr>t_intentId = c, t_key = key, t_signature = sig, t_lastValid = lastValid, t_prior = prior,
          t_machine = newOrderAttempt\<lparr>OrderAttemptRecord.state := prior, journaled := True,
            OrderAttemptRecord.expectedTxSignature := Some sig, OrderAttemptRecord.lastValidBlockHeight := lastValid,
            confirmedSlot := opt_get (\<lambda>e. get_int e ''slot'') observed\<rparr>,
          t_emergency = opt_get (\<lambda>e. Some (get_flag e ''emergency'')) prepared = Some True,
          t_mint = text_or_null (opt_get (\<lambda>e. get_text e ''mint'') prepared), t_notional = notional,
          t_held = default notional (opt_get (\<lambda>e. get_amount e ''heldAmount'') prepared)\<rparr>
     | _ \<Rightarrow> None)"

definition update_of :: "tracked \<Rightarrow> QuorumVerdict \<Rightarrow> OrderAttemptState \<Rightarrow> string option \<Rightarrow> FinalityUpdate" where
  "update_of t q st note = \<lparr>fu_intentId = t_intentId t, fu_signature = t_signature t, fu_from = t_prior t, fu_to = st,
     fu_verdict = verdict q, fu_slot = verdict_slot q, fu_views = answered q, fu_note = note\<rparr>"

definition track_members :: "tracked \<Rightarrow> json_record" where
  "track_members t = [(''intentId'', JStr (t_intentId t)), (''idempotencyKey'', JStr (t_key t))]"

text \<open>The updates one turn adds to \<open>out\<close>, and what it adds to \<open>uncertain\<close>.\<close>

type_synonym turn = "FinalityUpdate list \<times> nat"

definition if_ledger_open :: "Deps \<Rightarrow> uuid \<Rightarrow> ExposureEvent \<Rightarrow> unit pipe" where
  "if_ledger_open d i ev = bind (ledger_open i) (\<lambda>b. when_cond b (ledgerEvent d i ev))"

definition track_finalized :: "Deps \<Rightarrow> tracked \<Rightarrow> QuorumVerdict \<Rightarrow> instant \<Rightarrow> turn pipe" where
  "track_finalized d t q now =
     (case attemptTransition (t_machine t) (E_OBSERVED now finalized (default 0 (verdict_slot q))) of
        Inl _ \<Rightarrow> return ([], 0)
      | Inr _ \<Rightarrow>
          andthen (if t_emergency t
              then (case t_mint t of None \<Rightarrow> return () | Some mt \<Rightarrow> release_by_mint d now mt (t_notional t) (t_held t))
              else if_ledger_open d (t_intentId t) (ENTRY_CONFIRMED now (t_intentId t) (t_notional t)))
          (andthen (advance_key_if AUTHORIZED (t_key t) EXECUTING)
          (andthen (advance_key_if EXECUTING (t_key t) COMPLETED)
          (andthen (journal_append d ATTEMPT_RESULT (t_intentId t) (track_members t @ [(''state'', JStr ''FINALIZED''),
              (''lifecycle'', JStr ''COMPLETED''), (''txSignature'', JStr (t_signature t)),
              (''finalizedSlot'', opt_json jint (verdict_slot q)), (''tracked'', JBool True),
              (''from'', JStr (attempt_state_text (t_prior t))), (''views'', views_json q)]))
           (return ([update_of t q FINALIZED None], 0))))))"

definition track_confirmed :: "Deps \<Rightarrow> tracked \<Rightarrow> QuorumVerdict \<Rightarrow> instant \<Rightarrow> turn pipe" where
  "track_confirmed d t q now =
     (if t_prior t = CONFIRMED_PROVISIONAL then return ([], 0)
      else case attemptTransition (t_machine t) (E_OBSERVED now confirmed (default 0 (verdict_slot q))) of
        Inl _ \<Rightarrow> return ([], 0)
      | Inr _ \<Rightarrow>
          andthen (when_cond (\<not> t_emergency t)
              (if_ledger_open d (t_intentId t) (ENTRY_CONFIRMED now (t_intentId t) (t_notional t))))
          (andthen (advance_key_if AUTHORIZED (t_key t) EXECUTING)
          (andthen (journal_append d ATTEMPT_OBSERVED (t_intentId t) (track_members t @ [(''commitment'', JStr ''confirmed''),
              (''slot'', opt_json jint (verdict_slot q)), (''txSignature'', JStr (t_signature t)),
              (''from'', JStr (attempt_state_text (t_prior t))), (''views'', views_json q)]))
           (return ([update_of t q CONFIRMED_PROVISIONAL None], 0)))))"

definition track_reorg :: "Deps \<Rightarrow> tracked \<Rightarrow> QuorumVerdict \<Rightarrow> instant \<Rightarrow> turn pipe" where
  "track_reorg d t q now = (case attemptTransition (t_machine t) (E_MISSING_OR_CONFLICTING now) of
       Inl _ \<Rightarrow> return ([], 0)
     | Inr m \<Rightarrow>
         if OrderAttemptRecord.state m \<noteq> REORG_PENDING then return ([], 0)
         else andthen (journal_append d ATTEMPT_REORG_PENDING (t_intentId t) (track_members t @
                [(''txSignature'', JStr (t_signature t)), (''verdict'', JStr (verdict_text (verdict q))), (''views'', views_json q),
                 (''at'', JStr (iso (e_crypto d) now))]))
           (andthen (applyLocalPause d (''REORG_PENDING:'' @ t_signature t))
             (return ([update_of t q REORG_PENDING None], 1))))"

text \<open>A failed transaction is consumed on chain; a missing one is dead only when every view proves it.\<close>

definition track_dead :: "Deps \<Rightarrow> tracked \<Rightarrow> QuorumVerdict \<Rightarrow> instant \<Rightarrow> string \<Rightarrow> turn pipe" where
  "track_dead d t q now reason =
     andthen (when_cond (\<not> t_emergency t)
         (if_ledger_open d (t_intentId t) (ENTRY_RELEASED now (t_intentId t) reason)))
     (andthen (advance_key_if AUTHORIZED (t_key t) EXECUTING)
     (andthen (advance_key_if EXECUTING (t_key t) IntentLifecycleState.FAILED)
     (andthen (journal_append d ATTEMPT_RESULT (t_intentId t) (track_members t @ [(''state'', JStr ''NOT_LANDED''),
         (''lifecycle'', JStr ''FAILED''), (''txSignature'', JStr (t_signature t)), (''reason'', JStr reason),
         (''tracked'', JBool True), (''from'', JStr (attempt_state_text (t_prior t))), (''views'', views_json q)]))
      (return ([update_of t q NOT_LANDED (Some reason)], 0)))))"

definition reorg_count :: "tracked \<Rightarrow> nat" where
  "reorg_count t = (if t_prior t = REORG_PENDING then 1 else 0)"

definition track_unlanded :: "Deps \<Rightarrow> tracked \<Rightarrow> QuorumVerdict \<Rightarrow> instant \<Rightarrow> turn pipe" where
  "track_unlanded d t q now =
     (if t_prior t = CONFIRMED_PROVISIONAL then track_reorg d t q now
      else if verdict q = V_DIVERGENT then
        andthen (applyLocalPause d (''RPC_DIVERGENCE:'' @ t_signature t))
          (return ([update_of t q (t_prior t) (Some ''views contradict; no state change'')], 1))
      else if verdict q = V_FAILED then track_dead d t q now ''TX_FAILED_ON_CHAIN''
      else bind (prove_dead_views d (t_signature t) (t_lastValid t)) (\<lambda>dead. case dead of
          None \<Rightarrow> return ([update_of t q (t_prior t) (Some ''still potentially landable'')], reorg_count t)
        | Some (expired, noHistory) \<Rightarrow>
            (case attemptTransition (t_machine t) (E_CONCLUSIVELY_DEAD now expired noHistory ''BLOCK_HEIGHT_EXPIRED'') of
               Inl _ \<Rightarrow> return ([], 0)
             | Inr _ \<Rightarrow> track_dead d t q now ''BLOCK_HEIGHT_EXPIRED'')))"

definition track_attempt :: "Deps \<Rightarrow> UnresolvedAttempt \<Rightarrow> turn pipe" where
  "track_attempt d u = bind journal_of (\<lambda>es. case tracked_of es u of
       None \<Rightarrow> return ([], 0)
     | Some t \<Rightarrow> bind (quorum d (t_signature t)) (\<lambda>q. bind (clock_now d) (\<lambda>now.
         case verdict q of
           V_FINALIZED \<Rightarrow> track_finalized d t q now
         | V_PROCESSED \<Rightarrow> return ([], reorg_count t)
         | V_CONFIRMED \<Rightarrow> track_confirmed d t q now
         | V_UNAVAILABLE \<Rightarrow> return ([update_of t q (t_prior t) (Some ''no RPC view answered'')], reorg_count t)
         | _ \<Rightarrow> track_unlanded d t q now)))"

definition starts_with :: "string \<Rightarrow> string \<Rightarrow> bool" where
  "starts_with p t \<longleftrightarrow> take (length p) t = p"

definition custody_holdings :: "Deps \<Rightarrow> (slot \<times> Holding list) pipe" where
  "custody_holdings d = outside (\<lambda>n. provider (e_custody d n))"

text \<open>The tracker's own pause is released once nothing is uncertain and custody was read again.\<close>

definition release_pause :: "Deps \<Rightarrow> string \<Rightarrow> unit pipe" where
  "release_pause d reason = try_catch
     (bind (custody_holdings d) (\<lambda>(sl, hs). bind (clock_now d) (\<lambda>t.
        andthen (journal_append d CUSTODY_RECONCILED ''ops'' [(''slot'', jint sl),
            (''holdings'', JArr (map (\<lambda>h. JObj [(''mint'', JStr (holding_mint h)), (''amount'', amount_json (holding_amount h))]) hs)),
            (''releasing'', JStr reason), (''at'', JStr (iso (e_crypto d) t))])
          (clearLocalPause d ''finality-tracker:custody-reconciled''))))
     (\<lambda>_. return ())"

definition trackFinality :: "Deps \<Rightarrow> FinalityUpdate list pipe" where
  "trackFinality d = bind journal_of (\<lambda>es. bind (for_collect (unresolvedAttempts es) (track_attempt d)) (\<lambda>turns.
     bind (asks (\<lambda>s. (p_paused s, default [] (p_pauseReason s)))) (\<lambda>(active, reason).
       andthen (when_cond (active \<and> sum_list (map snd turns) = 0 \<and>
                    (starts_with ''REORG_PENDING:'' reason \<or> starts_with ''RPC_DIVERGENCE:'' reason))
          (release_pause d reason))
        (return (concat (map fst turns))))))"

section \<open>The position shadow\<close>

datatype ShadowSync = SHADOW_APPENDED int | SHADOW_IN_SYNC int | SHADOW_REGRESSION int

text \<open>The shadow's own text inside the line is a parameter of the line.\<close>

definition append_shadow :: "Deps \<Rightarrow> (PositionRiskShadow \<Rightarrow> json) \<Rightarrow> PositionRiskShadow \<Rightarrow> ShadowSync pipe" where
  "append_shadow d shadow_json sh = andthen (journal_append d SHADOW_SYNCED (''shadow:'' @ show_int (shadow_sequence sh))
       [(''sequence'', jint (shadow_sequence sh)), (''asOf'', JStr (iso (e_crypto d) (shadow_asOf sh))),
        (''positions'', jint (int (length (shadow_positions sh)))), (''shadow'', shadow_json sh)])
     (return (SHADOW_APPENDED (shadow_sequence sh)))"

definition syncShadow :: "Deps \<Rightarrow> (PositionRiskShadow \<Rightarrow> json) \<Rightarrow> PositionRiskShadow \<Rightarrow> ShadowSync pipe" where
  "syncShadow d shadow_json sh = bind (asks (\<lambda>s. lastShadowSequence (entries (p_journal s)))) (\<lambda>last_seq. let q = shadow_sequence sh in
     case last_seq of
       Some n \<Rightarrow> if q < n then return (SHADOW_REGRESSION n) else if q = n then return (SHADOW_IN_SYNC q)
                 else append_shadow d shadow_json sh
     | None \<Rightarrow> append_shadow d shadow_json sh)"

section \<open>Programs that leave the ledger alone\<close>

text \<open>The ledger and its lines are as they were; other lines may have been added.\<close>

definition calm :: "ExecutorPipeline \<Rightarrow> ExecutorPipeline \<Rightarrow> bool" where
  "calm s t \<longleftrightarrow> p_ledger t = p_ledger s \<and>
     (\<exists>x. entries (p_journal t) = entries (p_journal s) @ x \<and> (\<forall>e \<in> set x. kind e \<noteq> EXPOSURE_LEDGER_UPDATED))"

definition steady :: "(ExecutorPipeline \<Rightarrow> bool) \<Rightarrow> bool" where
  "steady P \<longleftrightarrow> (\<forall>s t. P s \<longrightarrow> calm s t \<longrightarrow> P t)"

named_theorems steady_intros \<open>steps that keep every steady predicate\<close>

lemma steadyD: "steady P \<Longrightarrow> P s \<Longrightarrow> calm s t \<Longrightarrow> P t"
  by (auto simp: steady_def)

lemma steady_conj [steady_intros]: "steady P \<Longrightarrow> steady Q \<Longrightarrow> steady (\<lambda>s. P s \<and> Q s)"
  by (auto simp: steady_def)

lemma steady_prefix [steady_intros]: "steady (\<lambda>s. prefix es (entries (p_journal s)))"
  by (auto simp: steady_def calm_def prefix_def)

lemma steady_outside [steady_intros]: "steady P \<Longrightarrow> keeps P (outside f)"
  by (rule keepsI) (auto simp: outside_def calm_def intro: steadyD)

lemma steady_modify: "steady P \<Longrightarrow> (\<And>s. calm s (f s)) \<Longrightarrow> keeps P (modify f)"
  by (auto intro!: keeps_modify intro: steadyD)

lemma steady_append [steady_intros]:
  assumes "steady P" and "k \<noteq> EXPOSURE_LEDGER_UPDATED"
  shows "keeps P (journal_append d k corr p)"
proof (rule keepsI)
  fix s assume s: "P s"
  obtain r t where rt: "journal_append d k corr p s = (r, t)" by (cases "journal_append d k corr p s")
  then have "calm s t" by (cases rule: journal_append_run) (use assms(2) in \<open>auto simp: calm_def\<close>)
  with assms(1) s rt show "P (snd (journal_append d k corr p s))" by (simp add: steadyD)
qed

lemma steady_basic [steady_intros]:
  assumes "steady P"
  shows "keeps P (clock_now d)" "keeps P (new_id d)" "keeps P (probe d b)" "keeps P (facts d)" "keeps P (note_call c)"
    "keeps P (advance_key k st)" "keeps P (advance_key_if st k st')" "keeps P (lift_arith r)" "keeps P journal_of"
    "keeps P (ledger_open i)" "keeps P (chain_status d sig)" "keeps P (prove_dead d sig v)" "keeps P (quorum d sig)"
    "keeps P (prove_dead_views d sig v)" "keeps P (custody_holdings d)"
  using assms
  unfolding clock_now_def new_id_def probe_def facts_def note_call_def advance_key_def advance_key_if_def lift_arith_def
    journal_of_def ledger_open_def chain_status_def prove_dead_def quorum_def prove_dead_views_def custody_holdings_def
  by (intro steady_outside steady_modify keeps_bind keeps_asks keeps_lift_result; simp add: calm_def)+

lemma steady_pauses [steady_intros]:
  assumes "steady P" shows "keeps P (applyLocalPause d r)" "keeps P (clearLocalPause d r)"
  unfolding applyLocalPause_def clearLocalPause_def
  by (intro keeps_bind keeps_asks keeps_if keeps_return keeps_andthen steady_modify steady_intros assms;
      simp add: calm_def)+

lemma keeps_read_journal:
  assumes "\<And>es s. P s \<Longrightarrow> entries (p_journal s) = es \<Longrightarrow> keeps (\<lambda>s. P s \<and> prefix es (entries (p_journal s))) (f es)"
  shows "keeps P (bind journal_of f)"
proof (rule keepsI)
  fix s assume "P s"
  with keepsD [OF assms [of s "entries (p_journal s)"], of s] show "P (snd (bind journal_of f s))"
    by (simp add: bind_run journal_of_def)
qed

lemma keeps_bind_outside:
  assumes "steady P" and "\<And>n a. r n = Inr a \<Longrightarrow> keeps P (f a)"
  shows "keeps P (bind (outside r) f)"
proof (rule keepsI)
  fix s assume s: "P s"
  then have s': "P (s\<lparr>p_tick := Suc (p_tick s)\<rparr>)" by (rule steadyD [OF assms(1)]) (simp add: calm_def)
  show "P (snd (bind (outside r) f s))"
    by (cases "r (p_tick s)") (use s' assms(2) in \<open>auto simp: bind_run outside_def dest: keepsD\<close>)
qed

section \<open>What the ledger events rest on\<close>

definition ledger_grown ::
  "(JournalEntry list \<Rightarrow> ExposureEvent \<Rightarrow> bool) \<Rightarrow> ExposureEvent list \<Rightarrow> ExecutorPipeline \<Rightarrow> bool" where
  "ledger_grown J before s \<longleftrightarrow> (\<exists>evs. events (p_ledger s) = before @ evs \<and> list_all (J (entries (p_journal s))) evs)"

definition lasting :: "(JournalEntry list \<Rightarrow> ExposureEvent \<Rightarrow> bool) \<Rightarrow> bool" where
  "lasting J \<longleftrightarrow> (\<forall>es x ev. J es ev \<longrightarrow> J (es @ x) ev)"

lemma steady_grown [steady_intros]: "lasting J \<Longrightarrow> steady (ledger_grown J before)"
  by (fastforce simp: steady_def calm_def ledger_grown_def lasting_def list_all_iff)

text \<open>A justified event keeps the account; \<open>es\<close> is what the step has read of the journal.\<close>

lemma keeps_justified:
  assumes J: "lasting J" and ev: "J es ev"
  shows "keeps (\<lambda>s. ledger_grown J before s \<and> prefix es (entries (p_journal s))) (ledgerEvent d i ev)"
proof (rule keepsI)
  fix s assume s: "ledger_grown J before s \<and> prefix es (entries (p_journal s))"
  then obtain x evs where x: "entries (p_journal s) = es @ x" "events (p_ledger s) = before @ evs"
    "list_all (J (es @ x)) evs" by (auto simp: ledger_grown_def prefix_def)
  show "ledger_grown J before (snd (ledgerEvent d i ev s)) \<and> prefix es (entries (p_journal (snd (ledgerEvent d i ev s))))"
  proof (cases "ledger_apply (p_ledger s) ev")
    case (Inr l)
    let ?s = "s\<lparr>p_ledger := l\<rparr>"
    have l: "events l = before @ evs @ [ev]" using Inr x by (auto simp: ledger_apply_def)
    obtain r t where rt: "journal_append d EXPOSURE_LEDGER_UPDATED i (event_json d ev) ?s = (r, t)" by fastforce
    have "\<exists>y. entries (p_journal t) = es @ x @ y \<and> p_ledger t = l"
      using rt x by (cases rule: journal_append_run) auto
    moreover have "list_all (J (es @ x @ y)) (evs @ [ev])" for y
      using J x(3) ev by (fastforce simp: lasting_def list_all_iff)
    ultimately show ?thesis
      using l Inr rt by (fastforce simp: ledgerEvent_def ledger_grown_def prefix_def)
  qed (use s in \<open>simp add: ledgerEvent_def\<close>)
qed

definition signature_in :: "JournalEntry list \<Rightarrow> uuid \<Rightarrow> tx_signature \<Rightarrow> bool" where
  "signature_in es i sig \<longleftrightarrow> (\<exists>e \<in> set es. correlationId e = i \<and> get_text e ''expectedTxSignature'' = Some sig)"

lemma unresolved_in:
  assumes "u \<in> set (unresolvedAttempts es)"
  shows "\<exists>e \<in> set es. correlationId e = u_correlationId u \<and> get_text e ''expectedTxSignature'' = u_expectedTxSignature u \<and>
    kind e \<in> {ATTEMPT_SIGNED, ATTEMPT_SUBMITTED}"
proof -
  let ?f = "\<lambda>m e. if kind e \<in> {ATTEMPT_SIGNED, ATTEMPT_SUBMITTED, ATTEMPT_RESULT} then AList.update (correlationId e) e m else m"
  have upd: "set (map snd (AList.update k v m)) \<subseteq> insert v (set (map snd m))" for k v and m :: "(string \<times> JournalEntry) list"
    by (induction m) auto
  have "set (map snd (foldl ?f m es)) \<subseteq> set (map snd m) \<union> {e \<in> set es. kind e \<in> {ATTEMPT_SIGNED, ATTEMPT_SUBMITTED, ATTEMPT_RESULT}}" for m
  proof (induction es arbitrary: m)
    case (Cons e es)
    have "set (map snd (?f m e)) \<subseteq> set (map snd m) \<union> {e' \<in> {e}. kind e' \<in> {ATTEMPT_SIGNED, ATTEMPT_SUBMITTED, ATTEMPT_RESULT}}"
      using upd [of "correlationId e" e m]
      by (cases "kind e \<in> {ATTEMPT_SIGNED, ATTEMPT_SUBMITTED, ATTEMPT_RESULT}") auto
    with Cons [of "?f m e"] show ?case unfolding foldl.simps list.set by blast
  qed simp
  from this [of "[]"] assms show ?thesis
    unfolding unresolvedAttempts_def Let_def by fastforce
qed

lemma signed_line_in: "signed_line es c = Some e \<Longrightarrow> e \<in> set es \<and> correlationId e = c \<and> kind e = ATTEMPT_SIGNED"
  unfolding signed_line_def find_last.simps by (drule find_Some_in) simp

lemma signature_found:
  assumes "u \<in> set (unresolvedAttempts es0)" and "prefix es0 es" and "attempt_signature es u = Some sig"
  shows "signature_in es (u_correlationId u) sig"
proof -
  have "set es0 \<subseteq> set es" using assms(2) by (auto simp: prefix_def)
  with unresolved_in [OF assms(1)] assms(3) show ?thesis
    by (cases "u_expectedTxSignature u")
      (auto simp: signature_in_def attempt_signature_def opt_get_def split: option.splits dest!: signed_line_in)
qed

section \<open>The events of staged finality\<close>

definition verdict_seen :: "Deps \<Rightarrow> tx_signature \<Rightarrow> QuorumVerdictKind list \<Rightarrow> bool" where
  "verdict_seen d sig vs \<longleftrightarrow>
     (\<exists>n. verdict (quorumVerdict (readSignature (observers d n) sig) (default 64 (e_graceSlots d))) \<in> set vs)"

definition dead_everywhere :: "Deps \<Rightarrow> tx_signature \<Rightarrow> bool" where
  "dead_everywhere d sig \<longleftrightarrow> (\<exists>n v. proveDeadAcrossViews (observers d n) sig v \<noteq> None)"

definition tracked_event :: "Deps \<Rightarrow> JournalEntry list \<Rightarrow> ExposureEvent \<Rightarrow> bool" where
  "tracked_event d es ev = (case ev of
     ENTRY_CONFIRMED t i c \<Rightarrow> \<exists>sig. signature_in es i sig \<and> verdict_seen d sig [V_CONFIRMED, V_FINALIZED]
   | ENTRY_RELEASED t i r \<Rightarrow> \<exists>sig. signature_in es i sig \<and> (verdict_seen d sig [V_FAILED] \<or> dead_everywhere d sig)
   | EXIT_CONFIRMED t i c \<Rightarrow> \<exists>c sig. signature_in es c sig \<and> verdict_seen d sig [V_FINALIZED]
   | _ \<Rightarrow> False)"

lemma signature_in_append: "signature_in es i sig \<Longrightarrow> signature_in (es @ x) i sig"
  by (auto simp: signature_in_def)

lemma lasting_tracked: "lasting (tracked_event d)"
  by (auto simp: lasting_def tracked_event_def intro: signature_in_append split: ExposureEvent.splits)

lemma tracked_of_facts:
  "tracked_of es u = Some t \<Longrightarrow> t_intentId t = u_correlationId u \<and> attempt_signature es u = Some (t_signature t)"
  by (auto simp: tracked_of_def Let_def text_or_null_def split: option.splits if_splits)

lemma keeps_if_ledger_open:
  "lasting J \<Longrightarrow> J es ev \<Longrightarrow> keeps (\<lambda>s. ledger_grown J b s \<and> prefix es (entries (p_journal s))) (if_ledger_open d i ev)"
  unfolding if_ledger_open_def
  by (intro keeps_bind keeps_when_cond keeps_justified steady_intros)

lemma keeps_releases:
  assumes "lasting J" and "\<And>i c. J es (EXIT_CONFIRMED now i c)"
  shows "keeps (\<lambda>s. ledger_grown J b s \<and> prefix es (entries (p_journal s))) (release_by_mint d now mt sold hold)"
  unfolding release_by_mint_def release_entry_def
  by (intro inv_intros keeps_justified steady_intros assms)

abbreviation tracked_so_far :: "Deps \<Rightarrow> ExposureEvent list \<Rightarrow> JournalEntry list \<Rightarrow> ExecutorPipeline \<Rightarrow> bool" where
  "tracked_so_far d b es s \<equiv> ledger_grown (tracked_event d) b s \<and> prefix es (entries (p_journal s))"

lemmas steady_so_far = steady_conj [OF steady_grown [OF lasting_tracked] steady_prefix]

lemma track_dead_events:
  assumes "signature_in es (t_intentId t) (t_signature t)"
    and "verdict_seen d (t_signature t) [V_FAILED] \<or> dead_everywhere d (t_signature t)"
  shows "keeps (tracked_so_far d b es) (track_dead d t q now r)"
proof -
  have "tracked_event d es (ENTRY_RELEASED now (t_intentId t) r)" using assms by (auto simp: tracked_event_def)
  then show ?thesis
    unfolding track_dead_def by (intro inv_intros keeps_if_ledger_open lasting_tracked steady_intros) simp_all
qed

lemma track_finalized_events:
  assumes "signature_in es (t_intentId t) (t_signature t)" and "verdict_seen d (t_signature t) [V_FINALIZED]"
  shows "keeps (tracked_so_far d b es) (track_finalized d t q now)"
proof -
  have "tracked_event d es (ENTRY_CONFIRMED now (t_intentId t) c)" "tracked_event d es (EXIT_CONFIRMED now i c)" for i c
    using assms by (auto simp: tracked_event_def verdict_seen_def)
  then show ?thesis
    unfolding track_finalized_def
    by (intro inv_intros keeps_if_ledger_open keeps_releases lasting_tracked steady_intros) simp_all
qed

lemma track_confirmed_events:
  assumes "signature_in es (t_intentId t) (t_signature t)" and "verdict_seen d (t_signature t) [V_CONFIRMED]"
  shows "keeps (tracked_so_far d b es) (track_confirmed d t q now)"
proof -
  have "tracked_event d es (ENTRY_CONFIRMED now (t_intentId t) c)" for c
    using assms by (auto simp: tracked_event_def verdict_seen_def)
  then show ?thesis
    unfolding track_confirmed_def
    by (intro inv_intros keeps_if_ledger_open lasting_tracked steady_intros) simp_all
qed

lemma dead_views:
  assumes "\<And>a. a \<noteq> None \<Longrightarrow> dead_everywhere d sig \<Longrightarrow> keeps (tracked_so_far d b es) (f a)"
    and "keeps (tracked_so_far d b es) (f None)"
  shows "keeps (tracked_so_far d b es) (bind (prove_dead_views d sig v) f)"
  unfolding prove_dead_views_def
proof (rule keeps_bind_outside [OF steady_so_far])
  fix n a assume "Inr (proveDeadAcrossViews (observers d n) sig v) = (Inr a :: exec_error + (bool \<times> bool) option)"
  then have "a \<noteq> None \<Longrightarrow> dead_everywhere d sig" by (auto simp: dead_everywhere_def)
  with assms show "keeps (tracked_so_far d b es) (f a)" by (cases "a = None") auto
qed

lemma track_unlanded_events:
  assumes "signature_in es (t_intentId t) (t_signature t)" and "verdict_seen d (t_signature t) [verdict q]"
  shows "keeps (tracked_so_far d b es) (track_unlanded d t q now)"
  unfolding track_unlanded_def track_reorg_def
  by (intro keeps_if keeps_case_sum keeps_andthen keeps_return steady_intros lasting_tracked track_dead_events dead_views)
    (use assms in \<open>auto split: option.split sum.split intro!: keeps_return track_dead_events\<close>)

lemma track_attempt_events:
  assumes u: "u \<in> set (unresolvedAttempts es0)"
  shows "keeps (tracked_so_far d b es0) (track_attempt d u)"
  unfolding track_attempt_def
proof (rule keeps_read_journal, elim conjE)
  fix es s assume "prefix es0 (entries (p_journal s))" and "entries (p_journal s) = es"
  then have pre: "prefix es0 es" by simp
  then have K: "(\<lambda>s. tracked_so_far d b es0 s \<and> prefix es (entries (p_journal s))) = tracked_so_far d b es"
    by (auto intro: prefix_order.trans)
  show "keeps (\<lambda>s. tracked_so_far d b es0 s \<and> prefix es (entries (p_journal s)))
     (case tracked_of es u of None \<Rightarrow> return ([], 0)
      | Some t \<Rightarrow> bind (quorum d (t_signature t)) (\<lambda>q. bind (clock_now d) (\<lambda>now.
         case verdict q of
           V_FINALIZED \<Rightarrow> track_finalized d t q now
         | V_PROCESSED \<Rightarrow> return ([], reorg_count t)
         | V_CONFIRMED \<Rightarrow> track_confirmed d t q now
         | V_UNAVAILABLE \<Rightarrow> return ([update_of t q (t_prior t) (Some ''no RPC view answered'')], reorg_count t)
         | _ \<Rightarrow> track_unlanded d t q now)))"
    unfolding K quorum_def
  proof (rule keeps_case_option [OF keeps_return],
      rule keeps_bind_outside [OF steady_so_far], rule keeps_bind [OF steady_basic(1) [OF steady_so_far]])
    fix t n q now assume t: "tracked_of es u = Some t"
      and "Inr (quorumVerdict (readSignature (observers d n) (t_signature t)) (default 64 (e_graceSlots d))) = (Inr q :: exec_error + QuorumVerdict)"
    then have q: "verdict_seen d (t_signature t) [verdict q]" by (auto simp: verdict_seen_def)
    have sig: "signature_in es (t_intentId t) (t_signature t)"
      using tracked_of_facts [OF t] signature_found [OF u pre] by simp
    show "keeps (tracked_so_far d b es) (case verdict q of V_FINALIZED \<Rightarrow> track_finalized d t q now
         | V_CONFIRMED \<Rightarrow> track_confirmed d t q now | V_PROCESSED \<Rightarrow> return ([], reorg_count t)
         | V_UNAVAILABLE \<Rightarrow> return ([update_of t q (t_prior t) (Some ''no RPC view answered'')], reorg_count t)
         | _ \<Rightarrow> track_unlanded d t q now)"
      using q track_finalized_events [OF sig] track_confirmed_events [OF sig] track_unlanded_events [OF sig q]
      by (cases "verdict q") (simp_all add: keeps_return)
  qed
qed

lemma trackFinality_events: "keeps (ledger_grown (tracked_event d) b) (trackFinality d)"
proof (rule keepsI)
  fix s assume s: "ledger_grown (tracked_event d) b s"
  let ?es = "entries (p_journal s)"
  have "keeps (tracked_so_far d b ?es) (bind (for_collect (unresolvedAttempts ?es) (track_attempt d)) (\<lambda>turns.
     bind (asks (\<lambda>s. (p_paused s, default [] (p_pauseReason s)))) (\<lambda>(active, reason).
       andthen (when_cond (active \<and> sum_list (map snd turns) = 0 \<and>
                    (starts_with ''REORG_PENDING:'' reason \<or> starts_with ''RPC_DIVERGENCE:'' reason))
          (release_pause d reason))
        (return (concat (map fst turns))))))"
    unfolding release_pause_def
    by (intro inv_intros track_attempt_events steady_intros lasting_tracked) simp_all
  from keepsD [OF this, of s] s show "ledger_grown (tracked_event d) b (snd (trackFinality d s))"
    by (simp add: trackFinality_def bind_run journal_of_def)
qed

section \<open>The pause of the tracker\<close>

named_theorems paused_intros \<open>steps that never clear the local pause\<close>

lemma paused_outside [paused_intros]: "keeps p_paused (outside f)"
  by (simp add: keeps_def outside_def)

lemma paused_append [paused_intros]: "keeps p_paused (journal_append d k c p)"
  by (simp add: keeps_def journal_append_def Let_def split: sum.split prod.split)

lemma paused_basic [paused_intros]:
  "keeps p_paused (clock_now d)" "keeps p_paused (advance_key k st)" "keeps p_paused (advance_key_if st k st')"
  "keeps p_paused (lift_arith r)" "keeps p_paused journal_of" "keeps p_paused (ledger_open i)" "keeps p_paused (quorum d sig)"
  "keeps p_paused (prove_dead_views d sig v)"
  unfolding clock_now_def advance_key_def advance_key_if_def lift_arith_def journal_of_def ledger_open_def quorum_def prove_dead_views_def
  by (intro paused_outside keeps_asks keeps_lift_result keeps_modify; simp)+

lemma paused_ledgerEvent [paused_intros]: "keeps p_paused (ledgerEvent d i ev)"
  using paused_append by (auto simp: keeps_def ledgerEvent_def split: sum.split)

lemma paused_apply [paused_intros]: "keeps p_paused (applyLocalPause d r)"
  unfolding applyLocalPause_def by (intro inv_intros paused_intros) simp

lemma paused_track: "keeps p_paused (track_attempt d u)"
  unfolding track_attempt_def track_finalized_def track_confirmed_def track_unlanded_def track_reorg_def track_dead_def
    if_ledger_open_def release_by_mint_def release_entry_def
  by (intro inv_intros paused_intros) (auto intro!: inv_intros paused_intros split: QuorumVerdictKind.split)

lemma applies_pause: "triple (\<lambda>_. True) (applyLocalPause d r) (\<lambda>_. p_paused) (\<lambda>_. p_paused)"
proof (rule tripleI)
  have *: "p_paused (snd (applyLocalPause d r s))" for s
    using keepsD [OF keeps_bind [OF paused_basic(1) paused_append], of "s\<lparr>p_paused := True, p_pauseReason := Some r\<rparr>"]
    by (simp add: applyLocalPause_def bind_run andthen_run)
  show "p_paused t" if "applyLocalPause d r s = (Inl e, t)" for s e t using * [of s] that by simp
  show "p_paused t" if "applyLocalPause d r s = (Inr a, t)" for s a t using * [of s] that by simp
qed

text \<open>A turn that reports a reorganisation counts as uncertain; a new one leaves the pause on.\<close>

definition turn_ok :: "turn \<Rightarrow> ExecutorPipeline \<Rightarrow> bool" where
  "turn_ok r s \<longleftrightarrow> (\<forall>up \<in> set (fst r). fu_to up = REORG_PENDING \<longrightarrow>
     0 < snd r \<and> (fu_from up = REORG_PENDING \<or> p_paused s))"

lemma triple_any: "triple P m (\<lambda>_ _. True) (\<lambda>_ _. True)"
  by (simp add: triple_def split: prod.split sum.split)

lemma triple_last: "(\<And>a. triple (\<lambda>_. True) (f a) R (\<lambda>_ _. True)) \<Longrightarrow> triple (\<lambda>_. True) (bind m f) R (\<lambda>_ _. True)"
  by (rule triple_bind [OF triple_any])

lemma triple_last': "triple (\<lambda>_. True) n R (\<lambda>_ _. True) \<Longrightarrow> triple (\<lambda>_. True) (andthen m n) R (\<lambda>_ _. True)"
  by (rule triple_andthen [OF triple_any])

lemma turn_return: "(\<And>s. P s \<Longrightarrow> turn_ok r s) \<Longrightarrow> triple P (return r) turn_ok (\<lambda>_ _. True)"
  by (rule triple_return)

lemma track_attempt_turn: "triple (\<lambda>_. True) (track_attempt d u) turn_ok (\<lambda>_ _. True)"
proof -
  have pause: "triple (\<lambda>_. True) (andthen (applyLocalPause d r) (return x)) turn_ok (\<lambda>_ _. True)"
    if "0 < snd x" for r x
    by (rule triple_andthen [OF triple_conseq [OF applies_pause] turn_return]) (use that in \<open>auto simp: turn_ok_def\<close>)
  have plain: "triple (\<lambda>_. True) (return x) turn_ok (\<lambda>_ _. True)"
    if "\<forall>up \<in> set (fst x). fu_to up = REORG_PENDING \<longrightarrow> 0 < snd x \<and> fu_from up = REORG_PENDING" for x
    by (rule turn_return) (use that in \<open>auto simp: turn_ok_def\<close>)
  have reorg: "triple (\<lambda>_. True) (track_reorg d t q now) turn_ok (\<lambda>_ _. True)" for t q now
    unfolding track_reorg_def
    by (auto split: sum.split simp: turn_ok_def intro!: turn_return triple_last' pause)
  have dead: "triple (\<lambda>_. True) (track_dead d t q now r) turn_ok (\<lambda>_ _. True)" for t q now r
    unfolding track_dead_def by (intro triple_last' plain) (simp add: update_of_def)
  have unl: "triple (\<lambda>_. True) (track_unlanded d t q now) turn_ok (\<lambda>_ _. True)" for t q now
    unfolding track_unlanded_def
    by (auto intro!: reorg pause dead triple_last plain split: option.split sum.split simp: update_of_def reorg_count_def)
  show ?thesis
    unfolding track_attempt_def track_finalized_def track_confirmed_def
    by (auto intro!: triple_last triple_last' plain unl split: option.split sum.split QuorumVerdictKind.split
        simp: update_of_def reorg_count_def)
qed

lemma turn_ok_keeps: "keeps (turn_ok r) (track_attempt d u)"
proof (rule keepsI)
  fix s assume r: "turn_ok r s"
  show "turn_ok r (snd (track_attempt d u s))"
    using r keepsD [OF paused_track, of s] by (auto simp: turn_ok_def)
qed

lemma triple_for_collect:
  assumes "\<And>x. triple (\<lambda>_. True) (f x) R (\<lambda>_ _. True)" and "\<And>x a. keeps (R a) (f x)"
  shows "triple (\<lambda>_. True) (for_collect xs f) (\<lambda>as s. \<forall>a \<in> set as. R a s) (\<lambda>_ _. True)"
proof (induction xs)
  case (Cons x xs)
  have k: "keeps (R a) (for_collect xs f)" for a by (rule keeps_for_collect) (rule assms(2))
  have "triple (R a) (for_collect xs f) (\<lambda>as s. R a s \<and> (\<forall>b \<in> set as. R b s)) (\<lambda>_ _. True)" for a
  proof (rule tripleI)
    fix s as t assume s: "R a s" and run: "for_collect xs f s = (Inr as, t)"
    show "R a t \<and> (\<forall>b \<in> set as. R b t)"
      using keeps_run [OF k s run] triple_Inr [OF Cons _ run] by simp
  qed simp
  then show ?case
    by (auto intro!: triple_bind [OF assms(1)] triple_bind triple_return)
qed (simp add: triple_def)

section \<open>The events of recovery\<close>

text \<open>The last ATTEMPT_PREPARED of the intent expired by \<open>now\<close> with no signature, submission or result after it.\<close>

definition expired_unsigned :: "Deps \<Rightarrow> JournalEntry list \<Rightarrow> uuid \<Rightarrow> instant \<Rightarrow> bool" where
  "expired_unsigned d es i now \<longleftrightarrow> (\<exists>pre e post x. es = pre @ e # post \<and> kind e = ATTEMPT_PREPARED \<and> correlationId e = i \<and>
     get_text e ''expiresAt'' = Some x \<and> e_parse d x \<le> now \<and>
     (\<forall>e' \<in> set post. correlationId e' = i \<longrightarrow> kind e' \<notin> {ATTEMPT_SIGNED, ATTEMPT_SUBMITTED, ATTEMPT_RESULT}))"

definition recovered_event :: "Deps \<Rightarrow> JournalEntry list \<Rightarrow> instant \<Rightarrow> JournalEntry list \<Rightarrow> ExposureEvent \<Rightarrow> bool" where
  "recovered_event d es0 now es ev = (case ev of
     ENTRY_CONFIRMED t i c \<Rightarrow> \<exists>sig n st. signature_in es i sig \<and> signatureStatus (e_chain d n) sig = Inr (Some st) \<and>
       err st = None \<and> confirmationStatus st = finalized
   | ENTRY_RELEASED t i r \<Rightarrow> expired_unsigned d es0 i now \<or> (\<exists>sig n. signature_in es i sig \<and>
       ((\<exists>st. signatureStatus (e_chain d n) sig = Inr (Some st) \<and> err st \<noteq> None) \<or>
        (\<exists>v x. proveDead (e_chain d n) sig v = Inr (Some x))))
   | _ \<Rightarrow> False)"

lemma lasting_recovered: "lasting (recovered_event d es0 now)"
proof -
  have "recovered_event d es0 now es ev \<Longrightarrow> recovered_event d es0 now (es @ x) ev" for es x ev
    using signature_in_append [of es _ _ x] by (cases ev) (simp_all add: recovered_event_def, blast+)
  then show ?thesis by (auto simp: lasting_def)
qed

text \<open>What \<open>seen_attempts\<close> knows of an attempt: its last ATTEMPT_PREPARED and what came after.\<close>

lemma seen_attempts_facts:
  "map_of (seen_attempts es) c = Some m \<Longrightarrow> \<exists>pre e post. es = pre @ e # post \<and> kind e = ATTEMPT_PREPARED \<and> correlationId e = c \<and>
     get_text e ''expiresAt'' = seen_expiresAt m \<and>
     (\<not> seen_signed m \<and> \<not> seen_done m \<longrightarrow>
       (\<forall>e' \<in> set post. correlationId e' = c \<longrightarrow> kind e' \<notin> {ATTEMPT_SIGNED, ATTEMPT_SUBMITTED, ATTEMPT_RESULT}))"
proof (induction es arbitrary: m rule: rev_induct)
  case (snoc x es)
  have run: "seen_attempts (es @ [x]) = seen_entry (seen_attempts es) x" by (simp add: seen_attempts_def)
  show ?case
  proof (cases "correlationId x = c \<and> kind x = ATTEMPT_PREPARED")
    case True
    with snoc.prems have "seen_expiresAt m = get_text x ''expiresAt''"
      by (auto simp: run seen_entry_def Let_def split: if_splits)
    with True show ?thesis by (intro exI [of _ es] exI [of _ x] exI [of _ "[]"]) simp
  next
    case False
    have "\<exists>m'. map_of (seen_attempts es) c = Some m' \<and> seen_expiresAt m' = seen_expiresAt m \<and>
      (\<not> seen_signed m \<and> \<not> seen_done m \<longrightarrow> \<not> seen_signed m' \<and> \<not> seen_done m' \<and>
         (correlationId x = c \<longrightarrow> kind x \<notin> {ATTEMPT_SIGNED, ATTEMPT_SUBMITTED, ATTEMPT_RESULT}))"
      using False snoc.prems
      by (cases "map_of (seen_attempts es) c"; cases "correlationId x = c")
        (auto simp: run seen_entry_def Let_def split: option.splits if_splits)
    then obtain m' where m': "map_of (seen_attempts es) c = Some m'" "seen_expiresAt m' = seen_expiresAt m"
      "\<not> seen_signed m \<and> \<not> seen_done m \<longrightarrow> \<not> seen_signed m' \<and> \<not> seen_done m' \<and>
         (correlationId x = c \<longrightarrow> kind x \<notin> {ATTEMPT_SIGNED, ATTEMPT_SUBMITTED, ATTEMPT_RESULT})"
      by blast
    from snoc.IH [OF m'(1)] obtain pre e post where e: "es = pre @ e # post" "kind e = ATTEMPT_PREPARED" "correlationId e = c"
      "get_text e ''expiresAt'' = seen_expiresAt m'"
      "\<not> seen_signed m' \<and> \<not> seen_done m' \<longrightarrow>
       (\<forall>e' \<in> set post. correlationId e' = c \<longrightarrow> kind e' \<notin> {ATTEMPT_SIGNED, ATTEMPT_SUBMITTED, ATTEMPT_RESULT})" by blast
    show ?thesis
      by (rule exI [of _ pre], rule exI [of _ e], rule exI [of _ "post @ [x]"]) (use e m'(2,3) in auto)
  qed
qed (simp add: seen_attempts_def)

lemma seen_distinct: "distinct (map fst (seen_attempts es))"
proof -
  have "distinct (map fst m) \<Longrightarrow> distinct (map fst (foldl seen_entry m es))" for m
  proof (induction es arbitrary: m)
    case (Cons e es)
    have "distinct (map fst (seen_entry m e))"
      using Cons.prems by (auto simp: seen_entry_def Let_def distinct_update split: option.split)
    with Cons.IH show ?case by simp
  qed simp
  then show ?thesis by (simp add: seen_attempts_def)
qed

abbreviation recovered_so_far ::
  "Deps \<Rightarrow> JournalEntry list \<Rightarrow> instant \<Rightarrow> ExposureEvent list \<Rightarrow> JournalEntry list \<Rightarrow> ExecutorPipeline \<Rightarrow> bool" where
  "recovered_so_far d es0 now b es s \<equiv> ledger_grown (recovered_event d es0 now) b s \<and> prefix es (entries (p_journal s))"

lemmas steady_recovered = steady_conj [OF steady_grown [OF lasting_recovered] steady_prefix]

lemma recover_unsigned_events:
  assumes "x \<in> set (seen_attempts es0)"
  shows "keeps (recovered_so_far d es0 now b es) (recover_unsigned d now x)"
proof -
  obtain c m where x: "x = (c, m)" by (cases x)
  have "map_of (seen_attempts es0) c = Some m" using assms x seen_distinct by simp
  have "recovered_event d es0 now es (ENTRY_RELEASED t c r)"
    if "text_or_null (seen_expiresAt m) = Some e" "\<not> (seen_signed m \<or> seen_done m \<or> now < e_parse d e)" for t r e
  proof -
    have "seen_expiresAt m = Some e" "e_parse d e \<le> now" "\<not> seen_signed m \<and> \<not> seen_done m"
      using that by (auto simp: text_or_null_def split: if_splits)
    with seen_attempts_facts [OF \<open>map_of (seen_attempts es0) c = Some m\<close>] have "expired_unsigned d es0 c now"
      unfolding expired_unsigned_def by metis
    then show ?thesis by (simp add: recovered_event_def)
  qed
  then show ?thesis
    unfolding recover_unsigned_def x if_open_def
    by (auto intro!: inv_intros keeps_justified lasting_recovered steady_intros split: option.split)
qed

lemma recovered_dead_events:
  assumes "\<And>t. recovered_event d es0 now es (ENTRY_RELEASED t c r)"
  shows "keeps (recovered_so_far d es0 now b es) (recovered_dead d c key sig r)"
  unfolding recovered_dead_def
  by (intro inv_intros keeps_justified lasting_recovered steady_intros assms) simp_all

lemma recover_signed_events:
  assumes "signature_in es c sig"
  shows "keeps (recovered_so_far d es0 now b es) (recover_signed d es' c key sig)"
  unfolding recover_signed_def chain_status_def
proof (rule keeps_bind_outside [OF steady_recovered], rule keeps_case_option)
  fix n status
  let ?dead = "prove_dead d sig (opt_get (\<lambda>e. get_int e ''lastValidBlockHeight'') (signed_line es' c))"
  show "keeps (recovered_so_far d es0 now b es) (bind ?dead (\<lambda>dead.
      if dead \<noteq> None then recovered_dead d c key sig ''BLOCK_HEIGHT_EXPIRED'' else recovery_of c STILL_LANDABLE (Some sig)))"
    unfolding prove_dead_def recovery_of_def
  proof (rule keeps_bind_outside [OF steady_recovered], rule keeps_if [OF recovered_dead_events keeps_return])
    fix n dead t
    assume "provider (proveDead (e_chain d n) sig (opt_get (\<lambda>e. get_int e ''lastValidBlockHeight'') (signed_line es' c))) = Inr dead"
      and "dead \<noteq> None"
    then have "\<exists>n v x. proveDead (e_chain d n) sig v = Inr (Some x)" by (auto simp: provider_def split: sum.splits)
    with assms show "recovered_event d es0 now es (ENTRY_RELEASED t c ''BLOCK_HEIGHT_EXPIRED'')"
      unfolding recovered_event_def ExposureEvent.case by blast
  qed
  fix st assume st: "provider (signatureStatus (e_chain d n) sig) = Inr status" "status = Some st"
  then have s: "signatureStatus (e_chain d n) sig = Inr (Some st)" by (simp add: provider_def split: sum.splits)
  have landed: "keeps (recovered_so_far d es0 now b es) (recovered_landed d c key sig m)"
    if "err st = None \<and> confirmationStatus st = finalized" for m
  proof -
    have "recovered_event d es0 now es (ENTRY_CONFIRMED t c m)" for t
      unfolding recovered_event_def ExposureEvent.case using assms s that by blast
    then show ?thesis
      unfolding recovered_landed_def if_open_def recovery_of_def
      by (intro inv_intros keeps_justified lasting_recovered steady_intros) simp_all
  qed
  have dead: "keeps (recovered_so_far d es0 now b es) (recovered_dead d c key sig r)" if "err st \<noteq> None" for r
    by (rule recovered_dead_events) (unfold recovered_event_def ExposureEvent.case, use assms s that in blast)
  show "keeps (recovered_so_far d es0 now b es)
     (if err st = None \<and> confirmationStatus st = finalized then recovered_landed d c key sig (attempt_notional es' c)
      else if err st = None then recovery_of c LANDED_CONFIRMED_PENDING (Some sig)
      else recovered_dead d c key sig ''TX_FAILED_ON_CHAIN'')"
    using landed dead by (auto simp: recovery_of_def intro: keeps_return)
qed

lemma recover_attempt_events:
  assumes u: "u \<in> set (unresolvedAttempts es1)"
  shows "keeps (recovered_so_far d es0 now b es1) (recover_attempt d u)"
  unfolding recover_attempt_def
proof (rule keeps_read_journal, elim conjE)
  fix es s assume "prefix es1 (entries (p_journal s))" and "entries (p_journal s) = es"
  then have pre: "prefix es1 es" by simp
  then have K: "(\<lambda>s. recovered_so_far d es0 now b es1 s \<and> prefix es (entries (p_journal s))) = recovered_so_far d es0 now b es"
    by (auto intro: prefix_order.trans)
  have "signature_in es (u_correlationId u) sg" if "text_or_null (attempt_signature es u) = Some sg" for sg
    using that signature_found [OF u pre] by (auto simp: text_or_null_def split: if_splits)
  then show "keeps (\<lambda>s. recovered_so_far d es0 now b es1 s \<and> prefix es (entries (p_journal s)))
      (case (text_or_null (attempt_signature es u), text_or_null (attempt_key es u)) of
         (Some sig, Some key) \<Rightarrow> recover_signed d es (u_correlationId u) key sig
       | _ \<Rightarrow> recovery_of (u_correlationId u) STILL_LANDABLE (attempt_signature es u))"
    unfolding K by (auto simp: recovery_of_def intro: recover_signed_events keeps_return split: option.split)
qed

lemma recover_events:
  assumes "clock_now d s = (Inr now, s1)"
  shows "ledger_grown (recovered_event d (entries (p_journal s)) now) (events (p_ledger s)) (snd (recover d s))"
proof -
  let ?es = "entries (p_journal s)"
  let ?G = "ledger_grown (recovered_event d ?es now) (events (p_ledger s))"
  have s1: "entries (p_journal s1) = ?es" "p_ledger s1 = p_ledger s" using assms by (auto simp: quiet_run)
  have rest: "keeps ?G (bind journal_of (\<lambda>es'. bind (for_collect (unresolvedAttempts es') (recover_attempt d)) (\<lambda>r2.
       return (concat r1 @ concat r2))))" for r1 :: "Recovery list list"
    by (rule keeps_read_journal) (intro inv_intros recover_attempt_events)
  have "keeps ?G (for_collect (seen_attempts ?es) (recover_unsigned d now))"
  proof (rule keepsI)
    fix t assume "?G t"
    have "keeps (recovered_so_far d ?es now (events (p_ledger s)) (entries (p_journal t)))
        (for_collect (seen_attempts ?es) (recover_unsigned d now))"
      by (intro keeps_for_collect recover_unsigned_events)
    from keepsD [OF this, of t] \<open>?G t\<close> show "?G (snd (for_collect (seen_attempts ?es) (recover_unsigned d now) t))" by simp
  qed
  then have "keeps ?G (bind (for_collect (seen_attempts ?es) (recover_unsigned d now)) (\<lambda>r1.
     bind journal_of (\<lambda>es'. bind (for_collect (unresolvedAttempts es') (recover_attempt d)) (\<lambda>r2.
       return (concat r1 @ concat r2)))))" by (rule keeps_bind) (rule rest)
  from keepsD [OF this, of s1] show ?thesis
    using s1 assms by (simp add: recover_def bind_run journal_of_def ledger_grown_def)
qed

section \<open>Properties\<close>



text \<open>
  C19: a reorganisation pauses entries. When a run of the tracker reports an attempt as newly
  REORG_PENDING, the local pause is active when the run returns; when it was active before, it stays
  active as long as any attempt is reported REORG_PENDING.
\<close>

theorem reorg_pauses_entries:
  assumes run: "trackFinality d s = (Inr ups, t)" and up: "up \<in> set ups" "fu_to up = REORG_PENDING"
    and new: "fu_from up \<noteq> REORG_PENDING \<or> p_paused s"
  shows "p_paused t"
proof -
  let ?us = "unresolvedAttempts (entries (p_journal s))"
  obtain r u where loop: "for_collect ?us (track_attempt d) s = (r, u)" by fastforce
  then obtain turns where turns: "r = Inr turns"
    using run by (cases r) (simp_all add: trackFinality_def bind_run journal_of_def)
  have ok: "\<forall>x \<in> set turns. turn_ok x u"
    using triple_Inr [OF triple_for_collect [OF track_attempt_turn turn_ok_keeps] _ loop [unfolded turns]] by simp
  have ups: "ups = concat (map fst turns)" and t: "sum_list (map snd turns) \<noteq> 0 \<Longrightarrow> t = u"
    using run loop turns
    by (auto simp: trackFinality_def bind_run andthen_run when_cond_run journal_of_def split: prod.splits sum.splits if_splits)
  from up ups obtain x where x: "x \<in> set turns" "up \<in> set (fst x)" by auto
  with ok up have "0 < snd x" "fu_from up = REORG_PENDING \<or> p_paused u" by (auto simp: turn_ok_def)
  moreover have "p_paused s \<Longrightarrow> p_paused u"
    using keeps_run [OF keeps_for_collect [OF paused_track] _ loop] by blast
  moreover have "sum_list (map snd turns) \<noteq> 0"
    using x(1) \<open>0 < snd x\<close> by (metis gr_implies_not_zero image_eqI set_map sum_list_eq_0_iff)
  ultimately show ?thesis using t new by auto
qed

definition toy_line :: "ExecutorJournalKind \<Rightarrow> json_record \<Rightarrow> JournalEntry" where
  "toy_line k p = \<lparr>sequence = 0, entry_at = 0, kind = k, correlationId = ''i1'', entry_payload = p, previousHash = [], hash = []\<rparr>"

text \<open>A pipeline whose journal holds one attempt that was confirmed, before a chain that does not know it.\<close>

definition toy_confirmed :: ExecutorPipeline where
  "toy_confirmed = toy_pipeline\<lparr>p_journal := \<lparr>token = ''t1'', entries =
     [toy_line ATTEMPT_PREPARED [(''intentId'', JStr ''i1''), (''idempotencyKey'', JStr ''k1'')],
      toy_line ATTEMPT_SIGNED [(''idempotencyKey'', JStr ''k1''), (''expectedTxSignature'', JStr ''s1'')],
      toy_line ATTEMPT_OBSERVED [(''slot'', JNum (Fin 7))]]\<rparr>\<rparr>"

theorem reorg_pauses_entries_witness:
  "\<exists>up t. trackFinality toy_deps toy_confirmed = (Inr [up], t) \<and> fu_to up = REORG_PENDING \<and> p_paused t"
proof -
  have "case trackFinality toy_deps toy_confirmed of
      (Inr [up], t) \<Rightarrow> fu_to up = REORG_PENDING \<and> fu_from up = CONFIRMED_PROVISIONAL | _ \<Rightarrow> False"
    by code_simp
  then obtain up t where run: "trackFinality toy_deps toy_confirmed = (Inr [up], t)"
    "fu_to up = REORG_PENDING" "fu_from up = CONFIRMED_PROVISIONAL"
    by (auto split: prod.splits sum.splits list.splits)
  with reorg_pauses_entries [OF run(1), of up] show ?thesis by simp
qed

end
