(* ===== verification/ExecutorEmergency.thy ===== *)
theory ExecutorEmergency imports ExecutorFinality begin

text \<open>
  Out-of-band emergency closes through the executor (\<open>emergency\<close>, \<open>emergencyAction\<close>,
  \<open>emergencyPolicy\<close> and \<open>emergencyDryRun\<close> of \<open>apps/execution-service/src/pipeline/pipeline.ts\<close>): the
  command is verified or taken from the monitor, the plan is built from chain custody, every action
  runs through the live adapter under its own bounds, and any close pauses new entries. The fallback
  of a deployment (\<open>deps.directPool\<close>) is an argument: absent, or a program that may answer with
  an execution of its own; \<open>ExecutorDirect\<close> has the direct-pool one.
\<close>

section \<open>Commands and outcomes\<close>

record MonitorRequest =
  mr_commandId :: uuid
  mr_type :: EmergencyCommandType
  mr_mint :: "mint_address option"
  mr_maxAmount :: "amount option"
  mr_reason :: string
  mr_shadowSequence :: "int option"

datatype EmergencyInput = SIGNED_COMMAND "EmergencyCommand SignedEnvelope" | MONITOR_REQUEST MonitorRequest

record EmergencyCmd =
  ec_commandId :: uuid
  ec_type :: EmergencyCommandType
  ec_mint :: "mint_address option"
  ec_maxAmount :: "amount option"
  ec_issuer :: EmergencyIssuer
  ec_reason :: string
  ec_nonce :: nonce
  ec_shadowSequence :: "int option"

record EmergencyActionOutcome =
  eo_mint :: mint_address
  eo_amount :: amount
  eo_heldAmount :: amount
  eo_state :: "OrderAttemptState option" \<comment> \<open>\<open>None\<close> is the state SKIPPED\<close>
  eo_txSignature :: "tx_signature option"
  eo_reasons :: "string list"
  eo_executionPath :: "ExecutionPath option"
  eo_fallbackFrom :: "string option"

datatype emergency_rejection =
    COMMAND_REJECTED EmergencyCommandRejection | PLAN_REJECTED EmergencyPlanRejection | SHADOW_STALE

datatype EmergencyOutcome =
    EMERGENCY_REJECTED "emergency_rejection list"
  | EMERGENCY_PAUSED uuid
  | EMERGENCY_CLOSED uuid "EmergencyActionOutcome list" "(mint_address \<times> EmergencyPlanRejection) list"

fun command_rejection_text :: "EmergencyCommandRejection \<Rightarrow> string" where
  "command_rejection_text OPERATOR_KEY_NOT_ACCEPTED = ''OPERATOR_KEY_NOT_ACCEPTED''"
| "command_rejection_text COMMAND_SIGNATURE_INVALID = ''COMMAND_SIGNATURE_INVALID''"
| "command_rejection_text COMMAND_MALFORMED = ''COMMAND_MALFORMED''"
| "command_rejection_text CMD_CLUSTER_MISMATCH = ''CLUSTER_MISMATCH''"
| "command_rejection_text COMMAND_EXPIRED = ''COMMAND_EXPIRED''"
| "command_rejection_text COMMAND_NOT_YET_VALID = ''COMMAND_NOT_YET_VALID''"
| "command_rejection_text CMD_NONCE_REPLAYED = ''NONCE_REPLAYED''"

fun plan_rejection_text :: "EmergencyPlanRejection \<Rightarrow> string" where
  "plan_rejection_text ASSET_NOT_HELD = ''ASSET_NOT_HELD''"
| "plan_rejection_text ASSET_IS_SETTLEMENT = ''ASSET_IS_SETTLEMENT''"
| "plan_rejection_text ASSET_FROZEN = ''ASSET_FROZEN''"
| "plan_rejection_text NO_SETTLEMENT_MINT = ''NO_SETTLEMENT_MINT''"
| "plan_rejection_text PLAN_SLIPPAGE_ABOVE_HARD_MAX = ''SLIPPAGE_ABOVE_HARD_MAX''"
| "plan_rejection_text NOTHING_TO_CLOSE = ''NOTHING_TO_CLOSE''"

definition emergencyPolicy :: "Deps \<Rightarrow> EmergencyClosePolicy" where
  "emergencyPolicy d = (let g = e_guardrails d in
     \<lparr>settlementMints = default (g_allowedSettlementMints g) (e_settlementMints d), slippageBps = e_slippageBps d,
      hardMaxProtectiveSlippageBps = g_hardMaxProtectiveSlippageBps g, maxPriceImpactBps = e_maxPriceImpactBps d,
      pol_maxQuoteAgeMs = e_maxQuoteAgeMs d, validityMs = e_validityMs d, maxTxBaseUnits = g_maxEmergencyCloseTx g\<rparr>)"

section \<open>One action\<close>

definition action_key :: "EmergencyCmd \<Rightarrow> EmergencyCloseAction \<Rightarrow> idempotency_key" where
  "action_key cmd a = ''emergency:'' @ ec_commandId cmd @ '':'' @ act_mint a"

definition action_intent :: "EmergencyCmd \<Rightarrow> EmergencyCloseAction \<Rightarrow> uuid \<Rightarrow> instant \<Rightarrow> TradeIntent" where
  "action_intent cmd a i createdAt = (let c = ec_commandId cmd; b = act_bounds a in
     \<lparr>ti_id = i, ti_idempotencyKey = action_key cmd a, ti_accountId = c, ti_strategyVersionId = ''EMERGENCY_CLOSE@1'',
      ti_sleeveId = None, ti_assetId = c, ti_action = IntentAction.EMERGENCY_CLOSE, ti_side = SELL,
      ti_exposureEffect = ExposureEffect.REDUCE, ti_inputMint = act_mint a, ti_outputMint = act_outputMint a,
      ti_maxInputAmount = act_amount a, ti_riskEvaluationId = c, ti_actionCycleId = c, ti_clearedCutoffVersion = 1,
      ti_constraints = \<lparr>c_maxSlippageBps = b_maxSlippageBps b, c_maxPriceImpactBps = b_maxPriceImpactBps b,
        c_chaseToleranceBps = 0, c_maxQuoteAgeMs = b_maxQuoteAgeMs b\<rparr>,
      ti_protectionPolicyRef = None, ti_targetLotIds = [], ti_approvalRequired = False, ti_createdAt = createdAt,
      ti_expiresAt = b_expiresAt b\<rparr>)"

definition action_prepared :: "Deps \<Rightarrow> EmergencyCmd \<Rightarrow> EmergencyCloseAction \<Rightarrow> uuid \<Rightarrow> json_record" where
  "action_prepared d cmd a i = [(''intentId'', JStr i), (''idempotencyKey'', JStr (action_key cmd a)), (''nonce'', JStr (ec_nonce cmd)),
     (''emergency'', JBool True), (''commandId'', JStr (ec_commandId cmd)), (''mint'', JStr (act_mint a)),
     (''maxInputAmount'', amount_json (act_amount a)), (''heldAmount'', amount_json (act_heldAmount a)),
     (''outputMint'', JStr (act_outputMint a)), (''expiresAt'', JStr (iso (e_crypto d) (b_expiresAt (act_bounds a))))]"

definition error_text :: "exec_error \<Rightarrow> string" where
  "error_text e = (case e of PROVIDER_ERROR m \<Rightarrow> m | SIGNER_TIMEOUT \<Rightarrow> ''signer timed out'' | _ \<Rightarrow> [])"

text \<open>\<open>PRIMARY_UNAVAILABLE\<close>: outcomes that mean the provider could not be used.\<close>

definition primary_unavailable :: "string \<Rightarrow> bool" where
  "primary_unavailable r = list_ex (\<lambda>p. prefix p r) [''NO_ROUTE'', ''TRANSACTION_UNDECODABLE'', ''PROVIDER_'', ''EXECUTE_FAILED_5'',
     ''VERSION_UNSUPPORTED'', ''UNEXPECTED_SIGNER'', ''FEE_PAYER_MISMATCH'', ''PROGRAM_'']"

text \<open>
  The primary path: why it failed, if it did, and its execution. When the adapter throws while the key is still
  AUTHORIZED the primary path counts as unavailable, later the error is rethrown; a crash ends the process either way.
\<close>

definition primary_attempt ::
  "Deps \<Rightarrow> EmergencyCmd \<Rightarrow> EmergencyCloseAction \<Rightarrow> uuid \<Rightarrow> ExecutionRequest \<Rightarrow> (string option \<times> DetailedExecution option) pipe" where
  "primary_attempt d cmd a i req = try_catch
     (bind (with_new_adapter (executeDetailed (adapterFor d i (action_key cmd a) (ec_nonce cmd) JUPITER_ORDER (Some (ec_commandId cmd)))
        req (Some (act_bounds a)))) (\<lambda>x. return
          (case re_rejectionReasons (x_result x) of
             r # _ \<Rightarrow> if a_state (x_attempt x) = PREPARED \<and> primary_unavailable r then Some r else None
           | [] \<Rightarrow> None, Some x)))
     (\<lambda>e. case e of CRASH b \<Rightarrow> throw e
        | _ \<Rightarrow> bind (asks (\<lambda>s. key_state (p_registry s) (action_key cmd a))) (\<lambda>st.
            if st \<noteq> Some AUTHORIZED then throw e
            else return (Some (take 160 (''PROVIDER_ERROR:'' @ error_text e)), None)))"

text \<open>The fallback of the deployment: the action, its intent's id and request, and why the primary path failed.\<close>

type_synonym fallback = "EmergencyCmd \<Rightarrow> EmergencyCloseAction \<Rightarrow> uuid \<Rightarrow> ExecutionRequest \<Rightarrow> string \<Rightarrow> DetailedExecution option pipe"

definition with_fallback ::
  "fallback option \<Rightarrow> EmergencyCmd \<Rightarrow> EmergencyCloseAction \<Rightarrow> uuid \<Rightarrow> ExecutionRequest \<Rightarrow> string option \<times> DetailedExecution option \<Rightarrow>
     DetailedExecution pipe" where
  "with_fallback fb cmd a i req primary = (case primary of (failure, ex) \<Rightarrow>
     bind (case (failure, fb) of
             (Some why, Some f) \<Rightarrow> bind (f cmd a i req why) (\<lambda>r. return (case r of Some x \<Rightarrow> Some x | None \<Rightarrow> ex))
           | _ \<Rightarrow> return ex)
       (\<lambda>ex'. case ex' of None \<Rightarrow> throw (NO_EMERGENCY_PATH (act_mint a) (default [] failure)) | Some x \<Rightarrow> return x))"

text \<open>From the claimed key on.\<close>

definition close_claimed :: "Deps \<Rightarrow> fallback option \<Rightarrow> EmergencyCmd \<Rightarrow> EmergencyCloseAction \<Rightarrow> uuid \<Rightarrow> EmergencyActionOutcome pipe" where
  "close_claimed d fb cmd a i = (let key = action_key cmd a in
     andthen (journal_append d ATTEMPT_PREPARED i (action_prepared d cmd a i))
     (andthen (advance_key key AUTHORIZED)
     (bind (clock_now d) (\<lambda>createdAt. bind (clock_now d) (\<lambda>requestedAt.
      let req = \<lparr>r_intent = action_intent cmd a i createdAt, r_capitalAuthority = LIVE_AUTO,
          r_authorization = None, r_approvalHash = None, r_executionPath = JUPITER_ORDER\<rparr> in
      bind (primary_attempt d cmd a i req) (\<lambda>primary. bind (with_fallback fb cmd a i req primary) (\<lambda>x.
      andthen (record_outcome d i key (a_state (x_attempt x)) (x_fill x) (re_txSignature (x_result x))
          (re_rejectionReasons (x_result x)) (b_maxInputAmount (act_bounds a)) (Some (act_mint a, act_heldAmount a)))
        (return \<lparr>eo_mint = act_mint a, eo_amount = act_amount a, eo_heldAmount = act_heldAmount a,
           eo_state = Some (a_state (x_attempt x)), eo_txSignature = re_txSignature (x_result x),
           eo_reasons = re_rejectionReasons (x_result x), eo_executionPath = Some (re_executionPath (x_result x)),
           eo_fallbackFrom = (if re_executionPath (x_result x) = DIRECT_POOL_RPC then fst primary else None)\<rparr>))))))))"

definition emergencyAction :: "Deps \<Rightarrow> fallback option \<Rightarrow> EmergencyCmd \<Rightarrow> EmergencyCloseAction \<Rightarrow> EmergencyActionOutcome pipe" where
  "emergencyAction d fb cmd a = bind (new_id d) (\<lambda>i.
     with_claim i (action_key cmd a)
       (\<lambda>_. \<lparr>eo_mint = act_mint a, eo_amount = act_amount a, eo_heldAmount = act_heldAmount a,
          eo_state = None, eo_txSignature = None, eo_reasons = [''DUPLICATE_COMMAND''], eo_executionPath = None, eo_fallbackFrom = None\<rparr>)
       (close_claimed d fb cmd a i))"

section \<open>A whole command\<close>

definition rejected_line :: "Deps \<Rightarrow> string \<Rightarrow> json_record \<Rightarrow> emergency_rejection list \<Rightarrow> EmergencyOutcome pipe" where
  "rejected_line d corr p rs = andthen (journal_append d EMERGENCY_COMMAND_REJECTED corr p) (return (EMERGENCY_REJECTED rs))"

definition received_payload :: "EmergencyCmd \<Rightarrow> json_record" where
  "received_payload cmd = [(''commandId'', JStr (ec_commandId cmd)), (''type'', JStr (command_type_text (ec_type cmd))),
     (''mint'', text_json (ec_mint cmd)), (''maxAmount'', opt_json amount_json (ec_maxAmount cmd)),
     (''issuer'', JStr (issuer_text (ec_issuer cmd))), (''reason'', JStr (ec_reason cmd)), (''nonce'', JStr (ec_nonce cmd)),
     (''shadowSequence'', opt_json jint (ec_shadowSequence cmd))]"

text \<open>The plan from what custody holds, its actions one by one, then the pause.\<close>

definition close_held :: "Deps \<Rightarrow> fallback option \<Rightarrow> instant \<Rightarrow> EmergencyCmd \<Rightarrow> slot \<times> Holding list \<Rightarrow> EmergencyOutcome pipe" where
  "close_held d fb now cmd = (\<lambda>(sl, hs).
     case planEmergencyClose \<lparr>close_type = ec_type cmd, close_mint = ec_mint cmd, close_maxAmount = ec_maxAmount cmd\<rparr> hs
            (emergencyPolicy d) now of
       Inl rs \<Rightarrow> rejected_line d (ec_commandId cmd)
         [(''reasons'', texts_json (map plan_rejection_text rs)), (''custodySlot'', jint sl)] (map PLAN_REJECTED rs)
     | Inr (acts, skipped) \<Rightarrow> bind (for_collect acts (emergencyAction d fb cmd)) (\<lambda>outs.
         andthen (applyLocalPause d (''EMERGENCY_ACTION:'' @ ec_commandId cmd))
           (return (EMERGENCY_CLOSED (ec_commandId cmd) outs skipped))))"

text \<open>From the accepted command on.\<close>

definition emergency_accepted :: "Deps \<Rightarrow> fallback option \<Rightarrow> instant \<Rightarrow> EmergencyCmd \<Rightarrow> EmergencyOutcome pipe" where
  "emergency_accepted d fb now cmd = andthen (journal_append d EMERGENCY_COMMAND_RECEIVED (ec_commandId cmd) (received_payload cmd))
     (if ec_type cmd = PAUSE_NEW_ENTRIES
      then andthen (applyLocalPause d (''EMERGENCY_COMMAND:'' @ ec_commandId cmd)) (return (EMERGENCY_PAUSED (ec_commandId cmd)))
      else bind (custody_holdings d) (close_held d fb now cmd))"

definition monitor_command :: "MonitorRequest \<Rightarrow> EmergencyCmd" where
  "monitor_command m = \<lparr>ec_commandId = mr_commandId m, ec_type = mr_type m, ec_mint = mr_mint m, ec_maxAmount = mr_maxAmount m,
     ec_issuer = POSITION_MONITOR, ec_reason = mr_reason m, ec_nonce = ''monitor:'' @ mr_commandId m,
     ec_shadowSequence = mr_shadowSequence m\<rparr>"

definition emergency_with :: "Deps \<Rightarrow> fallback option \<Rightarrow> EmergencyInput \<Rightarrow> EmergencyOutcome pipe" where
  "emergency_with d fb inp = bind (clock_now d) (\<lambda>now. bind journal_of (\<lambda>es. case inp of
     SIGNED_COMMAND env \<Rightarrow> (let g = e_guardrails d in
       case verifyEmergencyCommand (e_crypto d) (e_is_uuid d) env (e_operatorKeys d) (g_acceptedEmergencyOperatorKeyIds g)
              (g_cluster g) (usedNonces es) now (e_maxSkewMs d) of
         Inl rs \<Rightarrow> rejected_line d (payloadHash env)
           [(''reasons'', texts_json (map command_rejection_text rs)), (''keyId'', JStr (keyId env))] (map COMMAND_REJECTED rs)
       | Inr c \<Rightarrow> emergency_accepted d fb now
           \<lparr>ec_commandId = commandId c, ec_type = cmd_type c, ec_mint = cmd_mint c, ec_maxAmount = cmd_maxAmount c,
            ec_issuer = issuer c, ec_reason = cmd_reason c, ec_nonce = cmd_nonce c, ec_shadowSequence = None\<rparr>)
   | MONITOR_REQUEST m \<Rightarrow>
       (case (mr_shadowSequence m, lastShadowSequence es) of
          (Some q, Some n) \<Rightarrow> if q < n
            then rejected_line d (mr_commandId m)
              [(''reasons'', texts_json [''SHADOW_STALE'']), (''shadowSequence'', jint q), (''lastSynced'', jint n)] [SHADOW_STALE]
            else emergency_accepted d fb now (monitor_command m)
        | _ \<Rightarrow> emergency_accepted d fb now (monitor_command m))))"

text \<open>A deployment without a fallback.\<close>

definition emergency :: "Deps \<Rightarrow> EmergencyInput \<Rightarrow> EmergencyOutcome pipe" where
  "emergency d inp = emergency_with d None inp"

section \<open>The drill\<close>

record DryRun =
  dr_actions :: nat
  dr_skipped :: nat
  dr_holdings :: nat
  dr_closeable :: nat
  dr_plannedMints :: "mint_address list"
  dr_skippedMints :: "(mint_address \<times> EmergencyPlanRejection) list"
  dr_custodySlot :: slot
  dr_shadowSequence :: "int option"
  dr_unresolved :: nat
  dr_localPause :: "bool \<times> string option"

record RefusedDryRun =
  rd_reasons :: "EmergencyPlanRejection list"
  rd_custodySlot :: slot
  rd_shadowSequence :: "int option"
  rd_holdings :: nat

definition closeable_holdings :: "Deps \<Rightarrow> Holding list \<Rightarrow> nat" where
  "closeable_holdings d hs =
     length (filter (\<lambda>h. holding_mint h \<notin> set (settlementMints (emergencyPolicy d)) \<and> holding_amount h > 0) hs)"

definition emergencyDryRun :: "Deps \<Rightarrow> (RefusedDryRun + DryRun) pipe" where
  "emergencyDryRun d = bind (clock_now d) (\<lambda>now. bind (custody_holdings d) (\<lambda>(sl, hs). bind (asks (\<lambda>s. s)) (\<lambda>s. let
     es = entries (p_journal s) in
     return (case planEmergencyClose \<lparr>close_type = EMERGENCY_CLOSE_ALL, close_mint = None, close_maxAmount = None\<rparr> hs
                    (emergencyPolicy d) now of
       Inl rs \<Rightarrow> Inl \<lparr>rd_reasons = rs, rd_custodySlot = sl, rd_shadowSequence = lastShadowSequence es,
                      rd_holdings = closeable_holdings d hs\<rparr>
     | Inr (acts, skipped) \<Rightarrow> Inr \<lparr>dr_actions = length acts, dr_skipped = length skipped, dr_holdings = length hs,
          dr_closeable = closeable_holdings d hs, dr_plannedMints = map act_mint acts, dr_skippedMints = skipped,
          dr_custodySlot = sl, dr_shadowSequence = lastShadowSequence es,
          dr_unresolved = length (unresolvedAttempts es), dr_localPause = (p_paused s, p_pauseReason s)\<rparr>))))"

section \<open>Every emergency call is backed by a planned action\<close>

lemma emergency_bounds:
  "live_bounds req (Some b) = Inr (b, None) \<or> (\<exists>r. live_bounds req (Some b) = Inl r)"
  by (simp add: live_bounds_def)

lemma stable_calls: "stable (\<lambda>s. p_calls s = before)"
  by (auto simp: stable_def grows_def)

text \<open>The messages an action may have signed: those of the primary path, and those its fallback may sign.\<close>

abbreviation action_messages :: "Deps \<Rightarrow> (EmergencyCloseAction \<Rightarrow> bytes \<Rightarrow> bool) \<Rightarrow> EmergencyCloseAction \<Rightarrow> bytes \<Rightarrow> bool" where
  "action_messages d extra a \<equiv> (\<lambda>m. signable d (act_bounds a) m \<or> extra a m)"

lemma primary_keeps: "keeps (attempt_inv i (action_messages d extra a) before) (primary_attempt d cmd a i req)"
  unfolding primary_attempt_def
  by (intro inv_intros attempt_runs_with [OF emergency_bounds]) (auto intro!: inv_intros split: exec_error.split)

text \<open>A fallback that keeps what the action's attempt rests on.\<close>

definition fallback_ok :: "Deps \<Rightarrow> (EmergencyCloseAction \<Rightarrow> bytes \<Rightarrow> bool) \<Rightarrow> fallback option \<Rightarrow> bool" where
  "fallback_ok d extra fb \<longleftrightarrow> (\<forall>f cmd a i req why before. fb = Some f \<longrightarrow>
     keeps (attempt_inv i (action_messages d extra a) before) (f cmd a i req why))"

lemma no_fallback_ok: "fallback_ok d extra None"
  by (simp add: fallback_ok_def)

lemma with_fallback_keeps:
  "fallback_ok d extra fb \<Longrightarrow> keeps (attempt_inv i (action_messages d extra a) before) (with_fallback fb cmd a i req primary)"
  unfolding with_fallback_def
  by (auto simp: fallback_ok_def intro!: inv_intros split: option.split prod.split)

lemma prepared_append:
  "triple (\<lambda>s. p_calls s = before) (journal_append d ATTEMPT_PREPARED i p) (\<lambda>_. attempt_inv i ok before)
     (\<lambda>_. calls_backed i ok before)"
proof -
  have "triple (\<lambda>s. p_calls s = before) (journal_append d ATTEMPT_PREPARED i p)
      (\<lambda>_ s. p_calls s = before \<and> journaled i ([] @ [ATTEMPT_PREPARED]) (entries (p_journal s))) (\<lambda>_ s. p_calls s = before)"
    by (rule triple_keeps_and [OF append_adds_kind keeps_journal_append [OF stable_calls]]) (simp_all add: journaled_def)
  then show ?thesis
    by (rule triple_conseq) (auto simp: attempt_inv_def calls_backed_same)
qed

lemma close_claimed_calls:
  assumes "fallback_ok d extra fb"
  shows "triple (\<lambda>s. p_calls s = before) (close_claimed d fb cmd a i) (\<lambda>_. calls_backed i (action_messages d extra a) before)
     (\<lambda>_. calls_backed i (action_messages d extra a) before)"
  unfolding close_claimed_def Let_def
proof (rule triple_andthen [OF prepared_append], rule triple_conseq [OF iffD1 [OF keeps_triple]])
  show "keeps (attempt_inv i (action_messages d extra a) before) (andthen (advance_key key AUTHORIZED)
       (bind (clock_now d) (\<lambda>createdAt. bind (clock_now d) (\<lambda>requestedAt.
        bind (primary_attempt d cmd a i (req createdAt)) (\<lambda>primary. bind (with_fallback fb cmd a i (req createdAt) primary)
         (\<lambda>x. andthen (record_outcome d i key (st x) (fi x) (sg x) (rs x) mx ex) (return (out x primary))))))))"
    for key req st fi sg rs mx ex
      and out :: "DetailedExecution \<Rightarrow> string option \<times> DetailedExecution option \<Rightarrow> EmergencyActionOutcome"
    by (intro inv_intros primary_keeps with_fallback_keeps [OF assms] quiet_intros stable_attempt)
qed (auto simp: attempt_inv_def)

lemma emergencyAction_calls:
  assumes "fallback_ok d extra fb"
  shows "triple (\<lambda>s. p_calls s = before) (emergencyAction d fb cmd a)
     (\<lambda>_ s. \<exists>i. calls_backed i (action_messages d extra a) before s) (\<lambda>_ s. \<exists>i. calls_backed i (action_messages d extra a) before s)"
  unfolding emergencyAction_def
proof (rule triple_bind [OF triple_stable [OF stable_calls keeps_steps_quiet(2)]], assumption)
  fix i
  let ?B = "\<lambda>s. \<exists>i. calls_backed i (action_messages d extra a) before s"
  have "triple (\<lambda>s. p_calls s = before) (andthen (modify (\<lambda>s. s\<lparr>p_registry := reg\<rparr>)) (close_claimed d fb cmd a i)) (\<lambda>_. ?B) (\<lambda>_. ?B)" for reg
    by (rule triple_andthen [OF triple_modify triple_conseq [OF close_claimed_calls [OF assms]]]) auto
  then show "triple (\<lambda>s. p_calls s = before) (with_claim i (action_key cmd a) dup (close_claimed d fb cmd a i)) (\<lambda>_. ?B) (\<lambda>_. ?B)" for dup
    unfolding with_claim_def
    by (intro triple_bind [of _ _ "\<lambda>_ s. p_calls s = before", OF triple_asks])
      (auto intro!: triple_return simp: calls_backed_same)
qed (simp add: calls_backed_same)

end
