(* ===== verification/ExecutorRun.thy ===== *)
theory ExecutorRun imports ExecutorEmergency begin

text \<open>
  The executor as a whole: what every operation of the pipeline maintains, stated once as a locale
  over an invariant and interpreted for the claims of the registry, for the journal file, for the
  lines of the journal and for the agreement of the exposure ledger with them; then the runs of
  operations, crashes and restarts, in which no key is acted on twice and a restart finds the
  books as they were.
\<close>

section \<open>Maintaining an invariant\<close>

text \<open>From \<open>P\<close>, a program that returns leaves \<open>P\<close>, and one that throws leaves at least \<open>E\<close>.\<close>

definition maintains :: "('s \<Rightarrow> bool) \<Rightarrow> ('s \<Rightarrow> bool) \<Rightarrow> ('s, 'e, 'a) prog \<Rightarrow> bool" where
  "maintains P E m \<longleftrightarrow> triple P m (\<lambda>_. P) (\<lambda>_. E)"

named_theorems maintain_intros \<open>rules for programs that maintain an invariant\<close>

lemma keeps_maintains: "(\<And>s. P s \<Longrightarrow> E s) \<Longrightarrow> keeps P m \<Longrightarrow> maintains P E m"
  unfolding maintains_def keeps_triple by (erule triple_conseq)

lemma maintains_rules [maintain_intros]:
  "maintains P E m1 \<Longrightarrow> (\<And>a. maintains P E (f a)) \<Longrightarrow> maintains P E (bind m1 f)"
  "maintains P E m2 \<Longrightarrow> maintains P E n2 \<Longrightarrow> maintains P E (andthen m2 n2)"
  "maintains P E (return a)" "maintains P E (asks g)"
  "(b \<Longrightarrow> maintains P E m3) \<Longrightarrow> (\<not> b \<Longrightarrow> maintains P E n3) \<Longrightarrow> maintains P E (if b then m3 else n3)"
  "(b \<Longrightarrow> maintains P E u) \<Longrightarrow> maintains P E (when_cond b u)"
  "(x = None \<Longrightarrow> maintains P E m4) \<Longrightarrow> (\<And>y. x = Some y \<Longrightarrow> maintains P E (h y)) \<Longrightarrow>
     maintains P E (case x of None \<Rightarrow> m4 | Some y \<Rightarrow> h y)"
  "(\<And>y. z = Inl y \<Longrightarrow> maintains P E (k y)) \<Longrightarrow> (\<And>y. z = Inr y \<Longrightarrow> maintains P E (l y)) \<Longrightarrow>
     maintains P E (case z of Inl y \<Rightarrow> k y | Inr y \<Rightarrow> l y)"
  "(\<And>y w. v = (y, w) \<Longrightarrow> maintains P E (j y w)) \<Longrightarrow> maintains P E (case v of (y, w) \<Rightarrow> j y w)"
  unfolding maintains_def
  by (auto intro: triple_bind triple_andthen triple_return triple_asks triple_if triple_when split: option.split sum.split prod.split)

lemma maintains_loops [maintain_intros]:
  "(\<And>x. x \<in> set xs \<Longrightarrow> maintains P E (f x)) \<Longrightarrow> maintains P E (for_each xs f)"
  "(\<And>x. x \<in> set xs \<Longrightarrow> maintains P E (g x)) \<Longrightarrow> maintains P E (for_collect xs g)"
proof -
  show "(\<And>x. x \<in> set xs \<Longrightarrow> maintains P E (f x)) \<Longrightarrow> maintains P E (for_each xs f)"
    by (induction xs) (auto intro: maintains_rules simp del: return_run)
  show "(\<And>x. x \<in> set xs \<Longrightarrow> maintains P E (g x)) \<Longrightarrow> maintains P E (for_collect xs g)"
    by (induction xs) (auto intro!: maintains_rules)
qed

section \<open>The operations of the pipeline\<close>

locale executor_invariant =
  fixes d :: Deps and P E :: "ExecutorPipeline \<Rightarrow> bool"
  assumes weaker: "P s \<Longrightarrow> E s"
    and fields: "P s \<Longrightarrow> P (s\<lparr>p_tick := n\<rparr>)" "P s \<Longrightarrow> P (s\<lparr>p_calls := cs\<rparr>)" "P s \<Longrightarrow> P (s\<lparr>p_signedAttempt := a\<rparr>)"
      "P s \<Longrightarrow> P (s\<lparr>p_adapterRegistry := r\<rparr>)" "P s \<Longrightarrow> P (s\<lparr>p_paused := b, p_pauseReason := x\<rparr>)"
    and registry: "P s \<Longrightarrow> P (s\<lparr>p_registry := snd (claim (p_registry s) i k)\<rparr>)"
      "P s \<Longrightarrow> P (s\<lparr>p_registry := snd (advance (p_registry s) k st)\<rparr>)"
    and journal: "k' \<noteq> EXPOSURE_LEDGER_UPDATED \<Longrightarrow> keeps P (journal_append d k' corr p)"
    and ledger: "triple P (ledgerEvent d corr ev) (\<lambda>_. P) (\<lambda>_. E)"
begin

lemma outside_keeps: "keeps P (outside f)"
  by (rule keepsI) (simp add: outside_def fields(1))

lemma basic_keeps:
  "keeps P (clock_now d)" "keeps P (new_id d)" "keeps P (probe d bo)" "keeps P (facts d)" "keeps P (note_call c)"
  "keeps P (advance_key k st)" "keeps P (advance_key_if st k st')" "keeps P (lift_arith ar)" "keeps P journal_of"
  "keeps P (ledger_open i)" "keeps P (chain_status d sig)" "keeps P (prove_dead d sig v)" "keeps P (quorum d sig)"
  "keeps P (prove_dead_views d sig v)" "keeps P (custody_holdings d)"
  unfolding clock_now_def new_id_def probe_def facts_def note_call_def advance_key_def advance_key_if_def lift_arith_def
    journal_of_def ledger_open_def chain_status_def prove_dead_def quorum_def prove_dead_views_def custody_holdings_def
  by (intro outside_keeps keeps_bind keeps_asks keeps_lift_result keeps_modify;
      simp add: fields registry advance_if_def split: option.split)+

lemma pauses_keep: "keeps P (applyLocalPause d r)" "keeps P (clearLocalPause d r)"
  unfolding applyLocalPause_def clearLocalPause_def
  by (intro inv_intros basic_keeps journal; simp add: fields)+

lemma sign_keeps: "keeps P (signTransactionMessage d n i msg)"
proof (induction n)
  case (Suc n)
  then show ?case by (auto intro!: inv_intros outside_keeps basic_keeps split: signer_answer.split)
qed (simp add: keeps_def)

lemma hooks_keep: "keeps P (journal_hook d i key non em ord att)" "keeps P (before_submit d i key non path em bo)"
  unfolding journal_hook_def before_submit_def
  by (intro inv_intros basic_keeps journal; simp add: fields)+

lemma adapter_protocol: "submission_protocol (adapterFor d i key non path em) P (\<lambda>_. True) (\<lambda>_. True) bo"
proof (unfold_locales, goal_cases)
  case (14 ord att)
  then show ?case using hooks_keep(1) by (simp add: adapterFor_def keeps_triple)
next
  case 15
  then show ?case using hooks_keep(2) by (simp add: adapterFor_def keeps_triple)
next
  case (16 b rid)
  have "keeps P (andthen (note_call (C_EXECUTE i b)) (outside (\<lambda>n. provider (e_execute d n b rid))))"
    by (intro inv_intros basic_keeps outside_keeps)
  then show ?case by (simp add: adapterFor_def keeps_triple)
qed (auto simp: adapterFor_def intro!: outside_keeps basic_keeps sign_keeps keeps_modify keeps_asks fields)

lemma execute_keeps: "keeps P (with_new_adapter (executeDetailed (adapterFor d i key non path em) req eb))"
proof -
  have "keeps P (executeDetailed (adapterFor d i key non path em) req eb)"
  proof (cases "live_bounds req eb")
    case (Inr bh)
    then show ?thesis using submission_protocol.execute_keeps [OF adapter_protocol] by (cases bh) auto
  qed (use submission_protocol.execute_keeps [OF adapter_protocol] in auto)
  then show ?thesis
    unfolding with_new_adapter_def by (intro inv_intros) (auto simp: fields)
qed

lemma quietly: "keeps P m \<Longrightarrow> maintains P E m"
  by (rule keeps_maintains) (rule weaker)

lemmas quiet_maintains [maintain_intros] =
  basic_keeps [THEN quietly] pauses_keep [THEN quietly] execute_keeps [THEN quietly]

lemma append_maintains: "k' \<noteq> EXPOSURE_LEDGER_UPDATED \<Longrightarrow> maintains P E (journal_append d k' corr p)"
  by (rule quietly) (rule journal)

lemma ledger_maintains: "maintains P E (ledgerEvent d corr ev)"
  unfolding maintains_def by (rule ledger)

lemma if_open_maintains: "maintains P E (if_open d i e)" "maintains P E (if_ledger_open d i ev)"
  unfolding if_open_def if_ledger_open_def by (intro maintain_intros ledger_maintains)+

lemma release_maintains: "maintains P E (release_by_mint d t mt sold hold)"
  unfolding release_by_mint_def release_entry_def by (intro maintain_intros ledger_maintains)

lemma record_maintains: "maintains P E (record_outcome d i key st fill sig rs mx ex)"
  unfolding record_outcome_def Let_def
  by (cases st) (auto intro!: maintain_intros ledger_maintains release_maintains append_maintains)

lemma claim_maintains: "maintains P E m \<Longrightarrow> maintains P E (with_claim i k dup m)"
proof -
  assume m: "maintains P E m"
  have *: "case with_claim i k dup m s of (Inl e, t) \<Rightarrow> E t | (Inr a, t) \<Rightarrow> P t" if "P s" for s
    using m registry(1) [OF that, of i k] that
    by (cases "claim (p_registry s) i k")
      (auto simp: with_claim_def bind_run andthen_run maintains_def triple_def split: prod.splits sum.splits)
  then show ?thesis by (simp add: maintains_def triple_def)
qed

lemma submit_prepared_maintains: "maintains P E (submit_prepared d inp now p)"
  unfolding submit_prepared_def Let_def
  by (intro maintain_intros record_maintains ledger_maintains append_maintains) simp_all

lemma submit_claimed_maintains: "maintains P E (submit_claimed d inp now h p)"
  unfolding submit_claimed_def
  by (intro maintain_intros append_maintains submit_prepared_maintains) simp

lemma submit_maintains: "maintains P E (submit d inp)"
  unfolding submit_def Let_def
  by (intro maintain_intros claim_maintains submit_claimed_maintains)

lemma recover_maintains: "maintains P E (recover d)"
  unfolding recover_def recover_unsigned_def recover_attempt_def recover_signed_def recovered_landed_def recovered_dead_def
    recovery_of_def
  by (intro maintain_intros if_open_maintains ledger_maintains append_maintains) simp_all

lemma release_pause_keeps: "keeps P (release_pause d r)"
  unfolding release_pause_def by (intro inv_intros basic_keeps pauses_keep journal) simp

lemma track_maintains: "maintains P E (track_attempt d u)"
proof -
  have dead: "maintains P E (track_dead d t q now r)" for t q now r
    unfolding track_dead_def by (intro maintain_intros if_open_maintains append_maintains) simp_all
  have reorg: "maintains P E (track_reorg d t q now)" for t q now
    unfolding track_reorg_def by (intro maintain_intros append_maintains) simp_all
  have "maintains P E (track_finalized d t q now)" "maintains P E (track_confirmed d t q now)"
    "maintains P E (track_unlanded d t q now)" for t q now
    unfolding track_finalized_def track_confirmed_def track_unlanded_def
    by (intro maintain_intros if_open_maintains release_maintains append_maintains dead reorg; simp)+
  then show ?thesis
    unfolding track_attempt_def
    by (intro maintain_intros) (auto intro!: maintain_intros split: QuorumVerdictKind.split)
qed

lemma trackFinality_maintains: "maintains P E (trackFinality d)"
  unfolding trackFinality_def
  by (intro maintain_intros track_maintains quietly [OF release_pause_keeps])

lemma shadow_maintains: "maintains P E (syncShadow d sj sh)"
  unfolding syncShadow_def append_shadow_def Let_def
  by (intro maintain_intros append_maintains) simp_all

lemma action_maintains:
  assumes "\<And>f c a i req why. fb = Some f \<Longrightarrow> maintains P E (f c a i req why)"
  shows "maintains P E (emergencyAction d fb cmd a)"
proof -
  have p: "maintains P E (primary_attempt d cmd a i req)" for i req
    unfolding primary_attempt_def
    by (rule quietly, intro inv_intros execute_keeps) (auto intro!: inv_intros split: exec_error.split)
  have w: "maintains P E (with_fallback fb cmd a i req primary)" for i req primary
  proof -
    have t: "maintains P E (throw e)" for e :: exec_error
      by (rule quietly) (rule keeps_throw)
    obtain failure ex where pr: "primary = (failure, ex)" by (cases primary)
    show ?thesis
      unfolding with_fallback_def pr
      by (cases failure; cases fb; simp only: prod.case option.case; intro maintain_intros t assms; simp)
  qed
  show ?thesis
    unfolding emergencyAction_def close_claimed_def Let_def
    by (intro maintain_intros claim_maintains append_maintains record_maintains p w) simp_all
qed

lemma emergency_with_maintains:
  assumes "\<And>f c a i req why. fb = Some f \<Longrightarrow> maintains P E (f c a i req why)"
  shows "maintains P E (emergency_with d fb inp)"
proof -
  have r: "maintains P E (rejected_line d c p rs)" for c p rs
    unfolding rejected_line_def by (intro maintain_intros append_maintains) simp
  have "maintains P E (emergency_accepted d fb now cmd)" for now cmd
    unfolding emergency_accepted_def close_held_def
    by (intro maintain_intros append_maintains action_maintains assms r) simp_all
  with r show ?thesis
    unfolding emergency_with_def Let_def
    by (cases inp) (auto intro!: maintain_intros split: option.split)
qed

lemma emergency_maintains: "maintains P E (emergency d inp)"
  unfolding emergency_def by (rule emergency_with_maintains) simp

end

section \<open>What every operation maintains\<close>

text \<open>A claim of the registry is never lost.\<close>

interpretation ex_claim: executor_invariant d "\<lambda>s. claimed k i (p_registry s)" "\<lambda>s. claimed k i (p_registry s)" for d k i
  by (unfold_locales)
    (auto simp: claim_event advance_event irc.apply_inv keeps_triple [symmetric] keeps_def ledgerEvent_def split: sum.split)

text \<open>The journal only grows.\<close>

lemma ledgerEvent_prefix [simp]: "prefix (entries (p_journal s)) (entries (p_journal (snd (ledgerEvent d corr ev s))))"
  using append_prefix [of "s\<lparr>p_ledger := l\<rparr>" for l] by (simp add: ledgerEvent_def split: sum.split)

interpretation ex_lines: executor_invariant d "\<lambda>s. prefix es (entries (p_journal s))" "\<lambda>s. prefix es (entries (p_journal s))" for d es
  by (unfold_locales) (auto simp: keeps_triple [symmetric] keeps_def intro: prefix_order.trans)

text \<open>The journal file and the journal in memory agree.\<close>

definition file_agrees :: "Deps \<Rightarrow> ExecutorPipeline \<Rightarrow> bool" where
  "file_agrees d s \<longleftrightarrow> synced (e_crypto d) (p_files s) (p_journal s)"

lemma append_file_agrees: "file_agrees d s \<Longrightarrow> file_agrees d (snd (journal_append d k corr p s))"
  by (auto simp: file_agrees_def journal_append_def Let_def dest: append_synced split: sum.split)

interpretation ex_file: executor_invariant d "file_agrees d" "file_agrees d" for d
proof (unfold_locales, goal_cases)
  case (9 k' corr p)
  show ?case by (rule keepsI) (rule append_file_agrees)
next
  case (10 corr ev)
  have "file_agrees d (s\<lparr>p_ledger := l\<rparr>)" if "file_agrees d s" for s l using that by (simp add: file_agrees_def)
  then show ?case
    by (simp add: keeps_triple [symmetric] keeps_def ledgerEvent_def append_file_agrees split: sum.split)
qed (simp_all add: file_agrees_def)

text \<open>The ledger is what its lines in the journal replay to, as long as no append failed.\<close>

definition books_agree :: "Deps \<Rightarrow> ExecutorPipeline \<Rightarrow> bool" where
  "books_agree d s \<longleftrightarrow> ledger_replay (journal_events d (entries (p_journal s))) = Inr (p_ledger s)"

definition dates_read_back :: "Deps \<Rightarrow> bool" where
  "dates_read_back d \<longleftrightarrow> (\<forall>t. e_parse d (iso (e_crypto d) t) = t)"

lemma replay_snoc: "ledger_replay evs = Inr l \<Longrightarrow> ledger_replay (evs @ [ev]) = ledger_apply l ev"
  by (cases "ledger_apply l ev") (simp_all add: ledger_replay_def efold_append)

interpretation ex_books: executor_invariant d "\<lambda>s. dates_read_back d \<longrightarrow> books_agree d s" "\<lambda>_. True" for d
proof (unfold_locales, goal_cases)
  case (9 k' corr p)
  show ?case
  proof (rule keepsI)
    fix s assume s: "dates_read_back d \<longrightarrow> books_agree d s"
    obtain r t where rt: "journal_append d k' corr p s = (r, t)" by fastforce
    then have "dates_read_back d \<longrightarrow> books_agree d t"
      using s 9 by (cases rule: journal_append_run) (auto simp: books_agree_def journal_events_append, auto simp: journal_events_def)
    with rt show "dates_read_back d \<longrightarrow> books_agree d (snd (journal_append d k' corr p s))" by simp
  qed
next
  case (10 corr ev)
  have "dates_read_back d \<longrightarrow> books_agree d t"
    if s: "dates_read_back d \<longrightarrow> books_agree d s" and run: "ledgerEvent d corr ev s = (Inr a, t)" for s a t
  proof
    assume dates: "dates_read_back d"
    from run obtain l where l: "ledger_apply (p_ledger s) ev = Inr l"
      "journal_append d EXPOSURE_LEDGER_UPDATED corr (event_json d ev) (s\<lparr>p_ledger := l\<rparr>) = (Inr a, t)"
      by (auto simp: ledgerEvent_def split: sum.splits)
    have ev: "event_of d (event_json d ev) = Some ev" by (rule event_roundtrip) (use dates in \<open>simp add: dates_read_back_def\<close>)
    from l(2) show "books_agree d t"
      by (cases rule: journal_append_run)
        (use s dates l(1) ev replay_snoc in \<open>auto simp: books_agree_def journal_events_append, auto simp: journal_events_def\<close>)
  qed
  then show ?case by (rule tripleI [rotated]) simp_all
qed (simp_all add: books_agree_def)

section \<open>Runs and restarts\<close>

datatype executor_op =
    OP_SUBMIT SubmitInput | OP_EMERGENCY EmergencyInput | OP_RECOVER | OP_TRACK | OP_SHADOW PositionRiskShadow
  | OP_PAUSE string | OP_RESUME string | OP_RESTART string instant

text \<open>A new process over the same files: \<open>ExecutorJournal.open\<close>, then \<open>new ExecutorPipeline\<close>.\<close>

definition restart :: "Deps \<Rightarrow> string \<Rightarrow> instant \<Rightarrow> ExecutorPipeline \<Rightarrow> ExecutorPipeline option" where
  "restart d tok now s = (case open_journal (e_crypto d) now tok (p_files s) of
       (Inl e, fs) \<Rightarrow> None
     | (Inr j, fs) \<Rightarrow> (case start_pipeline d fs j (p_tick s) of Inl e \<Rightarrow> None | Inr s' \<Rightarrow> Some s'))"

text \<open>The state after an operation, whether it returned or threw.\<close>

fun executor_step :: "Deps \<Rightarrow> (PositionRiskShadow \<Rightarrow> json) \<Rightarrow> executor_op \<Rightarrow> ExecutorPipeline \<Rightarrow> ExecutorPipeline option" where
  "executor_step d sj (OP_SUBMIT i) s = Some (snd (submit d i s))"
| "executor_step d sj (OP_EMERGENCY i) s = Some (snd (emergency d i s))"
| "executor_step d sj OP_RECOVER s = Some (snd (recover d s))"
| "executor_step d sj OP_TRACK s = Some (snd (trackFinality d s))"
| "executor_step d sj (OP_SHADOW sh) s = Some (snd (syncShadow d sj sh s))"
| "executor_step d sj (OP_PAUSE r) s = Some (snd (applyLocalPause d r s))"
| "executor_step d sj (OP_RESUME r) s = Some (snd (clearLocalPause d r s))"
| "executor_step d sj (OP_RESTART tok now) s = restart d tok now s"

fun executor_run :: "Deps \<Rightarrow> (PositionRiskShadow \<Rightarrow> json) \<Rightarrow> executor_op list \<Rightarrow> ExecutorPipeline \<Rightarrow> ExecutorPipeline option" where
  "executor_run d sj [] s = Some s"
| "executor_run d sj (op # ops) s = Option.bind (executor_step d sj op s) (executor_run d sj ops)"

lemma maintains_snd: "maintains P E m \<Longrightarrow> (\<And>s. E s \<Longrightarrow> P s) \<Longrightarrow> P s \<Longrightarrow> P (snd (m s))"
  by (cases "m s"; cases "fst (m s)") (auto simp: maintains_def dest: triple_Inl triple_Inr)

context executor_invariant begin

lemma step_keeps:
  assumes "\<And>s. E s \<Longrightarrow> P s" and "\<forall>tok now. op \<noteq> OP_RESTART tok now" and "P s" and "executor_step d sj op s = Some s'"
  shows "P s'"
  using assms(2-4) maintains_snd [OF submit_maintains assms(1)] maintains_snd [OF emergency_maintains assms(1)]
    maintains_snd [OF recover_maintains assms(1)] maintains_snd [OF trackFinality_maintains assms(1)]
    maintains_snd [OF shadow_maintains assms(1)] keepsD [OF pauses_keep(1)] keepsD [OF pauses_keep(2)]
  by (cases op) auto

end

text \<open>A restart reads back the journal it left.\<close>

lemma restart_reads:
  assumes "file_agrees d s" and "restart d tok now s = Some s'"
  shows "file_agrees d s' \<and> entries (p_journal s') = entries (p_journal s) \<and>
    p_registry s' = fromJournal (entries (p_journal s)) \<and> ledger_replay (journal_events d (entries (p_journal s))) = Inr (p_ledger s')"
  using assms
  by (auto simp: restart_def open_journal_def start_pipeline_def file_agrees_def synced_def load_def Let_def
      split: option.splits if_splits sum.splits)

lemma fromJournal_claims:
  assumes "e \<in> set es" and "claims_key k e" shows "\<exists>i. claimed k i (fromJournal es)"
proof -
  from assms(1) obtain pre post where es: "es = pre @ e # post" by (meson split_list)
  from assms(2) obtain j where e: "kind e = ATTEMPT_PREPARED" "get_text e ''idempotencyKey'' = Some k" "get_text e ''intentId'' = Some j"
    by (auto simp: claims_key_def)
  have "\<exists>i. claimed k i (replay_entry r e)" for r
    using e by (cases "map_of r k") (auto simp: replay_entry_def claim_def registerIntent_def claimed_def Let_def)
  then obtain i where "claimed k i (replay_entry (foldl replay_entry emptyIntentRegistry pre) e)" by blast
  then have "claimed k i (foldl replay_entry (replay_entry (foldl replay_entry emptyIntentRegistry pre) e) post)"
    by (rule replay_all_keeps [rotated]) (rule irc.apply_inv)
  then show ?thesis by (auto simp: fromJournal_def es)
qed

text \<open>The key is claimed, in memory and on disk.\<close>

definition key_held :: "Deps \<Rightarrow> idempotency_key \<Rightarrow> ExecutorPipeline \<Rightarrow> bool" where
  "key_held d k s \<longleftrightarrow> file_agrees d s \<and> (\<exists>i. claimed k i (p_registry s)) \<and> (\<exists>e \<in> set (entries (p_journal s)). claims_key k e)"

lemma key_held_step:
  assumes "key_held d k s" and "executor_step d sj op s = Some s'" shows "key_held d k s'"
proof (cases "\<exists>tok now. op = OP_RESTART tok now")
  case True
  with assms restart_reads fromJournal_claims show ?thesis by (fastforce simp: key_held_def)
next
  case False
  from assms(1) obtain i e where h: "file_agrees d s" "claimed k i (p_registry s)" "e \<in> set (entries (p_journal s))" "claims_key k e"
    by (auto simp: key_held_def)
  have "file_agrees d s'" by (rule ex_file.step_keeps [OF _ _ h(1) assms(2)]) (use False in auto)
  moreover have "claimed k i (p_registry s')" by (rule ex_claim.step_keeps [OF _ _ h(2) assms(2)]) (use False in auto)
  moreover have "prefix (entries (p_journal s)) (entries (p_journal s'))"
    by (rule ex_lines.step_keeps [OF _ _ _ assms(2)]) (use False in auto)
  ultimately show ?thesis using h by (auto simp: key_held_def prefix_def)
qed

lemma key_held_run: "key_held d k s \<Longrightarrow> executor_run d sj ops s = Some s' \<Longrightarrow> key_held d k s'"
  by (induction ops arbitrary: s) (auto simp: bind_eq_Some_conv dest: key_held_step)

text \<open>A \<open>submit\<close> that made a call has claimed its key, in memory and on disk.\<close>

lemma submit_holds_key:
  assumes "file_agrees d s" and "p_calls (snd (submit d inp s)) \<noteq> p_calls s"
  shows "key_held d (ti_idempotencyKey (r_intent (si_request inp))) (snd (submit d inp s))"
proof (cases rule: submit_cases [where d = d and inp = inp and s = s])
  case (1 out t)
  with assms(2) show ?thesis by simp
next
  case (2 env mode now h c reg t)
  let ?t = "r_intent (si_request inp)" and ?k = "ti_idempotencyKey (r_intent (si_request inp))"
  have "claimed ?k (ti_id ?t) reg"
    using 2(3,4) by (auto simp: claim_def registerIntent_def claimed_def Let_def split: option.splits)
  with 2(8) have c: "claimed ?k (ti_id ?t) (p_registry (snd (submit d inp s)))"
    unfolding 2(5) by (auto intro: maintains_snd [OF ex_claim.submit_claimed_maintains])
  have f: "file_agrees d (snd (submit d inp s))"
    by (rule maintains_snd [OF ex_file.submit_maintains _ assms(1)])
  obtain r u where ap: "journal_append d ATTEMPT_PREPARED (ti_id ?t) (prepared_payload d ?t h (payload env)) t = (r, u)" by fastforce
  have "\<exists>e \<in> set (entries (p_journal (snd (submit d inp s)))). claims_key ?k e"
  proof (cases r)
    case (Inl e)
    then have "p_calls (snd (submit d inp s)) = p_calls s"
      using ap 2(6) by (cases rule: journal_append_run [OF ap]) (auto simp: 2(5) submit_claimed_def andthen_run)
    with assms(2) show ?thesis by simp
  next
    case (Inr a)
    then obtain e where e: "entries (p_journal u) = entries (p_journal t) @ [e]" "claims_key ?k e"
      by (cases rule: journal_append_run [OF ap]) (auto simp: claims_key_def get_text_def prepared_payload_def)
    have "prefix (entries (p_journal u)) (entries (p_journal (snd (submit d inp s))))"
      using maintains_snd [OF ex_lines.submit_prepared_maintains] ap Inr
      by (simp add: 2(5) submit_claimed_def andthen_run)
    with e show ?thesis by (auto simp: prefix_def)
  qed
  with c f show ?thesis by (auto simp: key_held_def)
qed

section \<open>Calls of several emergency actions\<close>

text \<open>
  Each call belongs to one of the planned actions and is backed by that action's own journal lines; \<open>ok\<close> says which
  messages an action may have signed.
\<close>

definition actions_backed ::
  "(EmergencyCloseAction \<Rightarrow> bytes \<Rightarrow> bool) \<Rightarrow> EmergencyCloseAction list \<Rightarrow> (call \<times> nat) list \<Rightarrow> ExecutorPipeline \<Rightarrow> bool" where
  "actions_backed ok acts before s \<longleftrightarrow> (\<exists>cs. p_calls s = before @ cs \<and>
     list_all (\<lambda>(c, n). n \<le> length (entries (p_journal s)) \<and>
       list_ex (\<lambda>a. \<exists>i. backed i (ok a) (take n (entries (p_journal s))) c) acts) cs)"

lemma actions_backed_same: "p_calls s = before \<Longrightarrow> actions_backed ok acts before s"
  by (simp add: actions_backed_def)

lemma stable_actions: "stable (actions_backed ok acts before)"
  by (fastforce simp: stable_def grows_def actions_backed_def list_all_iff)

text \<open>A fallback as the executor may use it: it keeps the attempt and only adds lines to the journal.\<close>

definition fallback_backed :: "Deps \<Rightarrow> (EmergencyCloseAction \<Rightarrow> bytes \<Rightarrow> bool) \<Rightarrow> fallback option \<Rightarrow> bool" where
  "fallback_backed d extra fb \<longleftrightarrow> fallback_ok d extra fb \<and>
     (\<forall>f cmd a i req why es. fb = Some f \<longrightarrow>
       maintains (\<lambda>s. prefix es (entries (p_journal s))) (\<lambda>s. prefix es (entries (p_journal s))) (f cmd a i req why))"

lemma action_keeps_backed:
  assumes "a \<in> set acts" and "fallback_backed d extra fb"
  shows "keeps (actions_backed (action_messages d extra) acts before) (emergencyAction d fb cmd a)"
proof (rule keepsI)
  let ?ok = "action_messages d extra"
  fix s assume "actions_backed ?ok acts before s"
  then obtain cs where cs: "p_calls s = before @ cs" "list_all (\<lambda>(c, n). n \<le> length (entries (p_journal s)) \<and>
       list_ex (\<lambda>a. \<exists>i. backed i (?ok a) (take n (entries (p_journal s))) c) acts) cs"
    by (auto simp: actions_backed_def)
  let ?t = "snd (emergencyAction d fb cmd a s)"
  have "prefix (entries (p_journal s)) (entries (p_journal ?t))"
    by (rule maintains_snd [OF ex_lines.action_maintains]) (use assms(2) in \<open>auto simp: fallback_backed_def\<close>)
  then obtain x where x: "entries (p_journal ?t) = entries (p_journal s) @ x" by (auto simp: prefix_def)
  obtain i where "calls_backed i (?ok a) (p_calls s) ?t"
    using triple_snd [OF emergencyAction_calls [OF conjunct1 [OF assms(2) [unfolded fallback_backed_def]]] refl] by blast
  then obtain cs' where cs': "p_calls ?t = p_calls s @ cs'" "list_all (\<lambda>(c, n). n \<le> length (entries (p_journal ?t)) \<and>
       backed i (?ok a) (take n (entries (p_journal ?t))) c) cs'"
    by (auto simp: calls_backed_def)
  have "list_all (\<lambda>(c, n). n \<le> length (entries (p_journal ?t)) \<and>
       list_ex (\<lambda>a. \<exists>i. backed i (?ok a) (take n (entries (p_journal ?t))) c) acts) (cs @ cs')"
    using cs(2) cs'(2) assms(1) x by (fastforce simp: list_all_iff list_ex_iff)
  with cs(1) cs'(1) show "actions_backed ?ok acts before ?t" by (simp add: actions_backed_def)
qed

text \<open>The plan of a command from what custody held at some moment of the run.\<close>

definition planned :: "Deps \<Rightarrow> EmergencyCloseAction list \<Rightarrow> bool" where
  "planned d acts \<longleftrightarrow> (\<exists>n sl hs req now sk. e_custody d n = Inr (sl, hs) \<and>
     planEmergencyClose req hs (emergencyPolicy d) now = Inr (acts, sk))"

definition plan_backed ::
  "Deps \<Rightarrow> (EmergencyCloseAction \<Rightarrow> bytes \<Rightarrow> bool) \<Rightarrow> (call \<times> nat) list \<Rightarrow> ExecutorPipeline \<Rightarrow> bool" where
  "plan_backed d ok before s \<longleftrightarrow> p_calls s = before \<or> (\<exists>acts. planned d acts \<and> actions_backed ok acts before s)"

lemma idle_backed: "(\<And>R. stable R \<Longrightarrow> keeps R m) \<Longrightarrow> triple (\<lambda>s. p_calls s = before) m (\<lambda>_ s. p_calls s = before) (\<lambda>_. plan_backed d ok before)"
  by (rule triple_stable [OF stable_calls]) (auto simp: plan_backed_def)

lemma pause_quiet [quiet_intros]: "stable R \<Longrightarrow> keeps R (applyLocalPause d r)"
  unfolding applyLocalPause_def by (intro inv_intros keeps_modify_quiet quiet_intros) (simp_all add: grows_def)

lemma rejected_quiet [quiet_intros]: "stable R \<Longrightarrow> keeps R (rejected_line d c p rs)"
  unfolding rejected_line_def by (intro inv_intros quiet_intros)

lemma close_held_backed:
  assumes "e_custody d n = Inr p" and "fallback_backed d extra fb"
  shows "triple (\<lambda>s. p_calls s = before) (close_held d fb now cmd p) (\<lambda>_. plan_backed d (action_messages d extra) before)
    (\<lambda>_. plan_backed d (action_messages d extra) before)"
proof -
  obtain sl hs where p: "p = (sl, hs)" by (cases p)
  show ?thesis
  proof (cases "planEmergencyClose \<lparr>close_type = ec_type cmd, close_mint = ec_mint cmd, close_maxAmount = ec_maxAmount cmd\<rparr> hs
               (emergencyPolicy d) now")
    case (Inl rs)
    then show ?thesis
      unfolding p close_held_def
      by (auto intro!: triple_conseq [OF idle_backed] quiet_intros simp: plan_backed_def)
  next
    case (Inr v)
    then obtain acts sk where v: "v = (acts, sk)" by (cases v)
    have "planned d acts" unfolding planned_def using Inr v assms(1) p by blast
    moreover have "keeps (actions_backed (action_messages d extra) acts before) (close_held d fb now cmd p)"
      unfolding p close_held_def split_conv Inr v sum.case
      by (intro inv_intros action_keeps_backed assms(2) quiet_intros stable_actions)
    ultimately show ?thesis
      unfolding keeps_triple by (elim triple_conseq) (auto simp: plan_backed_def intro: actions_backed_same)
  qed
qed

lemma emergency_backed:
  assumes "fallback_backed d extra fb"
  shows "triple (\<lambda>s. p_calls s = before) (emergency_with d fb inp) (\<lambda>_. plan_backed d (action_messages d extra) before)
    (\<lambda>_. plan_backed d (action_messages d extra) before)"
proof -
  let ?B = "plan_backed d (action_messages d extra) before"
  note same = triple_conseq [OF idle_backed [where before = before and d = d and ok = "action_messages d extra"], where Q' = "\<lambda>_. ?B" and E' = "\<lambda>_. ?B"]
  have idle: "triple (\<lambda>s. p_calls s = before) m (\<lambda>_. ?B) (\<lambda>_. ?B)" if "\<And>R. stable R \<Longrightarrow> keeps R m" for m :: "'a pipe"
    by (rule same) (use that in \<open>auto simp: plan_backed_def\<close>)
  have custody: "triple (\<lambda>s. p_calls s = before) (custody_holdings d) (\<lambda>p s. p_calls s = before \<and> (\<exists>n. e_custody d n = Inr p)) (\<lambda>_. ?B)"
    by (rule tripleI) (auto simp: custody_holdings_def outside_def provider_def plan_backed_def split: sum.splits)
  have close: "triple (\<lambda>s. p_calls s = before \<and> (\<exists>n. e_custody d n = Inr p)) (close_held d fb now cmd p) (\<lambda>_. ?B) (\<lambda>_. ?B)" for now cmd p
    using close_held_backed [of d _ p extra fb before now cmd] assms by (fastforce simp: triple_def)
  have acc: "triple (\<lambda>s. p_calls s = before) (emergency_accepted d fb now cmd) (\<lambda>_. ?B) (\<lambda>_. ?B)" for now cmd
    unfolding emergency_accepted_def
    by (rule triple_andthen [OF idle_backed [OF keeps_journal_append]], assumption, rule triple_if)
      (auto intro!: idle inv_intros quiet_intros triple_bind [OF custody close])
  have rej: "triple (\<lambda>s. p_calls s = before) (rejected_line d c p rs) (\<lambda>_. ?B) (\<lambda>_. ?B)" for c p rs
    by (rule idle) (intro quiet_intros)
  show ?thesis
    unfolding emergency_with_def Let_def
    by (rule triple_bind [OF idle_backed [OF keeps_steps_quiet(1)]], assumption,
        rule triple_bind [of _ _ "\<lambda>_ s. p_calls s = before"], simp add: triple_def journal_of_def)
      (auto intro!: acc rej split: EmergencyInput.split sum.split option.split prod.split)
qed

lemma no_fallback_backed: "fallback_backed d extra None"
  by (simp add: fallback_backed_def no_fallback_ok)

section \<open>The books through a run\<close>

fun op_returns :: "Deps \<Rightarrow> (PositionRiskShadow \<Rightarrow> json) \<Rightarrow> executor_op \<Rightarrow> ExecutorPipeline \<Rightarrow> bool" where
  "op_returns d sj (OP_SUBMIT i) s = (\<exists>a. fst (submit d i s) = Inr a)"
| "op_returns d sj (OP_EMERGENCY i) s = (\<exists>a. fst (emergency d i s) = Inr a)"
| "op_returns d sj OP_RECOVER s = (\<exists>a. fst (recover d s) = Inr a)"
| "op_returns d sj OP_TRACK s = (\<exists>a. fst (trackFinality d s) = Inr a)"
| "op_returns d sj (OP_SHADOW sh) s = (\<exists>a. fst (syncShadow d sj sh s) = Inr a)"
| "op_returns d sj _ s = True"

fun run_returns :: "Deps \<Rightarrow> (PositionRiskShadow \<Rightarrow> json) \<Rightarrow> executor_op list \<Rightarrow> ExecutorPipeline \<Rightarrow> bool" where
  "run_returns d sj [] s = True"
| "run_returns d sj (op # ops) s = (op_returns d sj op s \<and>
     (case executor_step d sj op s of None \<Rightarrow> False | Some t \<Rightarrow> run_returns d sj ops t))"

lemma maintains_returns: "maintains P E m \<Longrightarrow> P s \<Longrightarrow> \<exists>a. fst (m s) = Inr a \<Longrightarrow> P (snd (m s))"
  by (cases "m s") (auto simp: maintains_def dest: triple_Inr)

lemma file_agrees_step: "file_agrees d s \<Longrightarrow> executor_step d sj op s = Some s' \<Longrightarrow> file_agrees d s'"
  by (cases "\<exists>tok now. op = OP_RESTART tok now") (auto dest: restart_reads intro: ex_file.step_keeps)

lemma books_agree_step:
  assumes dates: "dates_read_back d" and s: "file_agrees d s" "books_agree d s"
    and step: "executor_step d sj op s = Some s'" and ret: "op_returns d sj op s"
  shows "books_agree d s'"
proof -
  have P: "dates_read_back d \<longrightarrow> books_agree d s" using s by simp
  show ?thesis
    using step ret P dates s(1) restart_reads
      maintains_returns [OF ex_books.submit_maintains P] maintains_returns [OF ex_books.emergency_maintains P]
      maintains_returns [OF ex_books.recover_maintains P] maintains_returns [OF ex_books.trackFinality_maintains P]
      maintains_returns [OF ex_books.shadow_maintains P]
      keepsD [OF ex_books.pauses_keep(1) P] keepsD [OF ex_books.pauses_keep(2) P]
    by (cases op) (auto, fastforce simp: books_agree_def)
qed

lemma books_agree_run:
  "dates_read_back d \<Longrightarrow> file_agrees d s \<Longrightarrow> books_agree d s \<Longrightarrow> executor_run d sj ops s = Some t \<Longrightarrow>
     run_returns d sj ops s \<Longrightarrow> file_agrees d t \<and> books_agree d t"
  by (induction ops arbitrary: s)
    (auto simp: bind_eq_Some_conv dest: books_agree_step file_agrees_step split: option.splits)

section \<open>Properties\<close>





text \<open>
  An emergency without a fallback can only do what its plan allows. The calls one emergency command adds are
  signatures and submissions of actions planned from what custody reported: each message signed is
  the message of a safe, simulated transaction within that action's bounds, after the action's own
  ATTEMPT_PREPARED line, and each submission follows its own ATTEMPT_PREPARED, ATTEMPT_SIGNED and
  ATTEMPT_SUBMITTED lines; if there is no plan there is no call.
\<close>

lemma emergency_calls_backed:
  "plan_backed d (\<lambda>a. signable d (act_bounds a)) (p_calls s) (snd (emergency d inp s))"
  using triple_snd [OF emergency_backed [OF no_fallback_backed, where extra = "\<lambda>_ _. False"] refl]
  by (simp add: emergency_def)

end
