(* ===== verification/RiskPolicy.thy ===== *)
theory RiskPolicy imports Vocabulary Canonical begin

text \<open>
  The deterministic risk policy (\<open>libs/contracts/src/policy/risk.ts\<close>) and the gates that are
  pure functions of stored facts: the capital attestation ceiling, the readiness of the
  provider-independent exit route and the signer-outage cap (\<open>libs/risk/src/policy\<close>). Fractions
  and prices are numbers of the language, milliseconds and counts the integers the schemas make
  them. Reason codes are the strings of the source's lists: they travel as strings into denials.
\<close>

section \<open>The policy\<close>

datatype StopModel = ATR | STRUCTURE_LOW | PERCENTAGE | STRATEGY_INVALIDATION

datatype TakeProfitPolicy =
    FIXED_R | PARTIAL_TIERS | TRAILING_AFTER_THRESHOLD | VOLATILITY_TRAIL | MOMENTUM_DECAY | TIME_STOP

record StopRule =
  stop_model :: StopModel
  atrMultiple :: jsnum
  maxStopFraction :: jsnum

record TakeProfitRule =
  tp_policy :: TakeProfitPolicy
  targetRMultiple :: jsnum
  trailAfterRMultiple :: jsnum
  trailFraction :: jsnum
  maxHoldMs :: int

record RiskPolicy =
  rp_version :: version_id
  maxTotalExposureFraction :: jsnum
  minSettlementReserveBaseUnits :: amount
  minGasReserveLamports :: amount
  maxOpenPositions :: int
  maxExposurePerTokenFraction :: jsnum
  maxCohortExposureFraction :: jsnum
  maxClusterExposureFraction :: jsnum
  requireCohortCapacity :: bool
  maxDailyDrawdownFraction :: jsnum
  maxRollingDrawdownFraction :: jsnum
  maxConsecutiveLosses :: int
  cooldownAfterBreakerMs :: int
  maxInFlightExposureIncreasing :: int
  riskPerTradeFraction :: jsnum
  maxPositionValueBaseUnits :: amount
  liquidityCapFraction :: jsnum
  rp_maxImpactBps :: int
  rp_maxSlippageBps :: int
  rp_chaseToleranceBps :: int
  rp_maxQuoteAgeMs :: int
  minRewardToRiskRatio :: jsnum
  maxClockDriftMs :: int
  maxExecutionAnomalies :: int
  stop_rule :: StopRule
  takeProfit :: TakeProfitRule

text \<open>A decimal literal of the source is the double nearest to the decimal.\<close>

definition lit :: "rat \<Rightarrow> jsnum" where
  "lit x = rnd x"

definition DEFAULT_RISK_POLICY :: RiskPolicy where
  "DEFAULT_RISK_POLICY = \<lparr>
     rp_version = ''risk-v1'',
     maxTotalExposureFraction = lit (5 / 10),
     minSettlementReserveBaseUnits = 50000000,
     minGasReserveLamports = 50000000,
     maxOpenPositions = 3,
     maxExposurePerTokenFraction = lit (2 / 10),
     maxCohortExposureFraction = lit (3 / 10),
     maxClusterExposureFraction = lit (3 / 10),
     requireCohortCapacity = False,
     maxDailyDrawdownFraction = lit (3 / 100),
     maxRollingDrawdownFraction = lit (8 / 100),
     maxConsecutiveLosses = 3,
     cooldownAfterBreakerMs = 4 * 3600000,
     maxInFlightExposureIncreasing = 1,
     riskPerTradeFraction = lit (5 / 1000),
     maxPositionValueBaseUnits = 200000000,
     liquidityCapFraction = lit (5 / 1000),
     rp_maxImpactBps = 100,
     rp_maxSlippageBps = 100,
     rp_chaseToleranceBps = 75,
     rp_maxQuoteAgeMs = 15000,
     minRewardToRiskRatio = lit (15 / 10),
     maxClockDriftMs = 5000,
     maxExecutionAnomalies = 2,
     stop_rule = \<lparr>stop_model = ATR, atrMultiple = lit 2, maxStopFraction = lit (8 / 100)\<rparr>,
     takeProfit = \<lparr>tp_policy = TRAILING_AFTER_THRESHOLD, targetRMultiple = lit 3, trailAfterRMultiple = lit 1,
       trailFraction = lit (4 / 100), maxHoldMs = 6 * 3600000\<rparr>\<rparr>"

type_synonym RiskReason = string

definition RISK_REASONS :: "RiskReason list" where
  "RISK_REASONS = [''NOT_ELIGIBLE'', ''PROPOSAL_EXPIRED'', ''DATA_STALE'', ''QUOTE_MISSING'', ''QUOTE_STALE'',
     ''CHASE_EXCEEDED'', ''IMPACT_ABOVE_MAX'', ''SLIPPAGE_ABOVE_MAX'', ''TOKEN2022_INCOMPATIBLE'',
     ''REWARD_RISK_BELOW_MIN'', ''STOP_UNDEFINED'', ''SIZE_ZERO'', ''INSUFFICIENT_BALANCE'', ''DUPLICATE_INTENT'',
     ''EXPOSURE_IN_FLIGHT'', ''MAX_POSITIONS'', ''TOTAL_EXPOSURE_CAP'', ''TOKEN_EXPOSURE_CAP'', ''COHORT_CAP'',
     ''CLUSTER_CAP'', ''COHORT_UNKNOWN'', ''SLEEVE_INACTIVE'', ''SETTLEMENT_RESERVE'', ''GAS_RESERVE'',
     ''DRAWDOWN_LIMIT'', ''CIRCUIT_BREAKER'', ''CUSTODY_MISMATCH'', ''FEEDS_STALE'', ''DB_UNAVAILABLE'',
     ''EXECUTION_ANOMALIES'', ''PROVIDER_AUTH_FAILURE'', ''CLOCK_DRIFT'', ''OPERATOR_KILL'',
     ''SESSION_NOT_ACTIVE'', ''SYSTEM_DEGRADED'']"

section \<open>Capital attestation ceiling\<close>

record CapitalAttestationFacts =
  ceilingUsd :: jsnum
  recognizedUsd :: jsnum
  reattestRequired :: bool

text \<open>The verdict is the reason new exposure is refused for, if it is.\<close>

definition capitalAttestationVerdict :: "CapitalAttestationFacts \<Rightarrow> string option" where
  "capitalAttestationVerdict f =
     (if \<not> nlt (Fin 0) (ceilingUsd f) \<or> \<not> is_finite_num (ceilingUsd f) \<or>
         \<not> is_finite_num (recognizedUsd f) \<or> nlt (recognizedUsd f) (Fin 0)
      then Some ''CAPITAL_ATTESTATION_INVALID''
      else if reattestRequired f then Some ''CAPITAL_REATTEST_REQUIRED''
      else if nlt (ceilingUsd f) (recognizedUsd f) then Some ''CAPITAL_CEILING_EXCEEDED''
      else None)"

section \<open>Readiness of the emergency exit route\<close>

datatype DirectPoolProgram = RAYDIUM_AMM_V4 | RAYDIUM_CPMM | RAYDIUM_CLMM | ORCA_WHIRLPOOL | METEORA_DLMM

record DirectPoolHop =
  hop_program :: DirectPoolProgram
  hop_programId :: sol_address
  hop_poolAddress :: sol_address
  hop_inputMint :: mint_address
  hop_outputMint :: mint_address

record LastDryRun =
  dr_at :: instant
  dr_ok :: bool
  simulatedOutputAmount :: "amount option"
  dr_error :: "string option"

record RouteCapacity =
  cap_inputAmount :: amount
  cap_expectedOutputAmount :: amount
  cap_impactBps :: int

record EmergencyExitRouteSnapshot =
  route_id :: uuid
  route_assetId :: uuid
  route_hops :: "DirectPoolHop list"
  route_settlementMint :: mint_address
  poolStateRef :: string
  lastRefreshedAt :: instant
  lastRefreshSlot :: slot
  capacity :: "RouteCapacity list"
  token2022Compatible :: bool
  lastDryRun :: "LastDryRun option"

record EmergencyRoutePolicy =
  erp_version :: version_id
  dryRunIntervalMs :: int
  maxDryRunAgeMs :: int
  computeUnitLimit :: int
  computeUnitPriceMicroLamports :: int
  dryRunSlippageBps :: int
  maxTargetsPerCycle :: int
  supportedPrograms :: "DirectPoolProgram list"

definition DEFAULT_EMERGENCY_ROUTE_POLICY :: EmergencyRoutePolicy where
  "DEFAULT_EMERGENCY_ROUTE_POLICY = \<lparr>erp_version = ''emergency-route-v1'', dryRunIntervalMs = 3600000,
     maxDryRunAgeMs = 6 * 3600000, computeUnitLimit = 400000, computeUnitPriceMicroLamports = 50000,
     dryRunSlippageBps = 300, maxTargetsPerCycle = 40,
     supportedPrograms = [RAYDIUM_CPMM, RAYDIUM_AMM_V4, METEORA_DLMM, RAYDIUM_CLMM, ORCA_WHIRLPOOL]\<rparr>"

datatype EmergencyRouteReadiness = READY | STALE | FAILED | UNSUPPORTED | MISSING

record EmergencyRouteVerdict =
  readiness :: EmergencyRouteReadiness
  er_reason :: "string option"
  dryRunAgeMs :: "int option"

fun program_text :: "DirectPoolProgram \<Rightarrow> string" where
  "program_text RAYDIUM_AMM_V4 = ''RAYDIUM_AMM_V4''"
| "program_text RAYDIUM_CPMM = ''RAYDIUM_CPMM''"
| "program_text RAYDIUM_CLMM = ''RAYDIUM_CLMM''"
| "program_text ORCA_WHIRLPOOL = ''ORCA_WHIRLPOOL''"
| "program_text METEORA_DLMM = ''METEORA_DLMM''"

text \<open>\<open>Math.round(age / 60_000)\<close> as text; an age is an integer the division keeps finite.\<close>

definition minutes_text :: "int \<Rightarrow> string" where
  "minutes_text age = (case math_round (ndiv (number_of_bigint age) (Fin 60000)) of
       Fin m \<Rightarrow> show_int \<lfloor>m\<rfloor> | _ \<Rightarrow> ''Infinity'')"

definition emergencyRouteReadiness ::
  "EmergencyExitRouteSnapshot option \<Rightarrow> instant \<Rightarrow> EmergencyRoutePolicy \<Rightarrow> EmergencyRouteVerdict" where
  "emergencyRouteReadiness snapshot now pol = (case snapshot of
       None \<Rightarrow> \<lparr>readiness = MISSING, er_reason = Some ''no emergency route snapshot'', dryRunAgeMs = None\<rparr>
     | Some s \<Rightarrow>
         (case route_hops s of
            [] \<Rightarrow> \<lparr>readiness = UNSUPPORTED, er_reason = Some ''no local adapter for missing hop'', dryRunAgeMs = None\<rparr>
          | hop # _ \<Rightarrow>
              if hop_program hop \<notin> set (supportedPrograms pol)
              then \<lparr>readiness = UNSUPPORTED, er_reason = Some (''no local adapter for '' @ program_text (hop_program hop)),
                    dryRunAgeMs = None\<rparr>
              else (case lastDryRun s of
                  None \<Rightarrow> \<lparr>readiness = STALE, er_reason = Some ''no dry-run recorded'', dryRunAgeMs = None\<rparr>
                | Some r \<Rightarrow>
                    let age = now - dr_at r
                    in if \<not> dr_ok r
                       then \<lparr>readiness = FAILED, er_reason = Some (default ''dry-run failed'' (dr_error r)), dryRunAgeMs = Some age\<rparr>
                       else if age > maxDryRunAgeMs pol
                       then \<lparr>readiness = STALE, er_reason = Some (''dry-run '' @ minutes_text age @ '' min old''),
                             dryRunAgeMs = Some age\<rparr>
                       else \<lparr>readiness = READY, er_reason = None, dryRunAgeMs = Some age\<rparr>)))"

definition emergencyRoutePermitsEntry :: "EmergencyRouteVerdict \<Rightarrow> CapitalAuthority \<Rightarrow> bool" where
  "emergencyRoutePermitsEntry v authority \<longleftrightarrow> authority \<noteq> LIVE_AUTO \<or> readiness v = READY"

section \<open>Signer-outage cap\<close>

record SignerOutageCapInput =
  so_capBaseUnits :: amount
  currentMonitoredExposureBaseUnits :: amount
  newEntryNotionalBaseUnits :: amount
  newEntryProtectionMode :: ProtectionMode
  so_authority :: CapitalAuthority

text \<open>The verdict and the exposure projected with the entry.\<close>

definition signerOutageCapVerdict :: "SignerOutageCapInput \<Rightarrow> arith_error + (bool \<times> amount)" where
  "signerOutageCapVerdict i =
     (let adds = so_authority i = LIVE_AUTO \<and> newEntryProtectionMode i = MONITORED_EXIT
      in ebind (if adds then addAmounts [currentMonitoredExposureBaseUnits i, newEntryNotionalBaseUnits i]
                else Inr (currentMonitoredExposureBaseUnits i)) (\<lambda>projected.
         Inr (\<not> (adds \<and> compareAmounts projected (so_capBaseUnits i) > 0), projected)))"

section \<open>What the gates guarantee\<close>

lemma capital_verdict_None: "capitalAttestationVerdict f = None \<longleftrightarrow>
    (\<exists>c r. ceilingUsd f = Fin c \<and> recognizedUsd f = Fin r \<and> 0 < c \<and> 0 \<le> r \<and> r \<le> c) \<and> \<not> reattestRequired f"
  by (cases "ceilingUsd f"; cases "recognizedUsd f") (auto simp: capitalAttestationVerdict_def not_less)

lemma route_READY: "readiness (emergencyRouteReadiness s now pol) = READY \<longleftrightarrow>
    (\<exists>r hop hops dr. s = Some r \<and> route_hops r = hop # hops \<and> hop_program hop \<in> set (supportedPrograms pol) \<and>
       lastDryRun r = Some dr \<and> dr_ok dr \<and> now - dr_at dr \<le> maxDryRunAgeMs pol)"
  by (auto simp: emergencyRouteReadiness_def Let_def split: option.splits list.splits)

lemma signer_cap_allows:
  assumes "signerOutageCapVerdict i = Inr (True, p)"
    and "currentMonitoredExposureBaseUnits i \<le> so_capBaseUnits i"
  shows "p \<le> so_capBaseUnits i"
  using assms by (auto simp: signerOutageCapVerdict_def Let_def split: if_splits)

end
