(* ===== verification/PoolBytes.thy ===== *)
theory PoolBytes imports Deltas RiskPolicy "HOL-Library.Signed_Division" begin

unbundle bit_operations_syntax

text \<open>
  The byte level of the direct-pool adapters (\<open>libs/execution/src/direct-pool/bytes.ts\<close>, \<open>types.ts\<close> and
  \<open>token2022.ts\<close>): the little-endian reader over account data, the writers of instruction data,
  program-derived addresses with the ed25519 curve test, the Token-2022 transfer fee and the
  constant-product estimate. SHA-256 is a parameter. A \<open>RawAccount\<close> has the fields of an
  \<open>AccountSnapshot\<close>; an error keeps its class and, for a \<open>PoolDecodeError\<close>, the first words of its message.
\<close>

section \<open>Reading account data\<close>

type_synonym RawAccount = AccountSnapshot

datatype pool_error =
    RANGE_ERROR
  | POOL_DECODE DirectPoolProgram string
  | TOKEN_ACCOUNT_SHORT
  | BIGINT_DIV_ZERO
  | NO_PROGRAM_ADDRESS
  | BAD_BASE58

record ByteReader =
  rb_buf :: bytes
  rb_pos :: int

type_synonym 'a byte_prog = "(ByteReader, pool_error, 'a) prog"

definition rd_offset :: "int byte_prog" where
  "rd_offset = asks rb_pos"

definition rd_seek :: "int \<Rightarrow> unit byte_prog" where
  "rd_seek k = (\<lambda>r. if k < 0 \<or> k > int (length (rb_buf r)) then (Inl RANGE_ERROR, r) else (Inr (), r\<lparr>rb_pos := k\<rparr>))"

definition rd_skip :: "int \<Rightarrow> unit byte_prog" where
  "rd_skip n = bind rd_offset (\<lambda>p. rd_seek (p + n))"

text \<open>\<open>need(n)\<close>: the next \<open>n\<close> bytes, or a \<open>RangeError\<close>.\<close>

definition rd_need :: "int \<Rightarrow> bytes byte_prog" where
  "rd_need n = (\<lambda>r. if rb_pos r + n > int (length (rb_buf r)) then (Inl RANGE_ERROR, r)
     else (Inr (slice (nat (rb_pos r)) (nat n) (rb_buf r)), r\<lparr>rb_pos := rb_pos r + n\<rparr>))"

definition rd_le :: "int \<Rightarrow> int byte_prog" where
  "rd_le n = bind (rd_need n) (\<lambda>bs. return (int (le_value bs)))"

text \<open>\<open>BigInt.asIntN\<close>, and the signed getters of a \<open>DataView\<close>.\<close>

definition as_int_n :: "nat \<Rightarrow> int \<Rightarrow> int" where
  "as_int_n w v = (let u = v mod 2 ^ w in if u < 2 ^ (w - 1) then u else u - 2 ^ w)"

definition rd_u8 :: "int byte_prog" where "rd_u8 = rd_le 1"
definition rd_u16 :: "int byte_prog" where "rd_u16 = rd_le 2"
definition rd_u32 :: "int byte_prog" where "rd_u32 = rd_le 4"
definition rd_i32 :: "int byte_prog" where "rd_i32 = bind (rd_le 4) (\<lambda>v. return (as_int_n 32 v))"
definition rd_u64 :: "int byte_prog" where "rd_u64 = rd_le 8"
definition rd_i64 :: "int byte_prog" where "rd_i64 = bind (rd_le 8) (\<lambda>v. return (as_int_n 64 v))"

definition rd_u128 :: "int byte_prog" where
  "rd_u128 = bind rd_u64 (\<lambda>lo. bind rd_u64 (\<lambda>hi. return (push_bit 64 hi OR lo)))"

definition rd_pubkey :: "string byte_prog" where
  "rd_pubkey = bind (rd_need 32) (\<lambda>bs. return (base58Encode bs))"

definition rd_bytes :: "int \<Rightarrow> bytes byte_prog" where
  "rd_bytes n = rd_need n"

text \<open>\<open>new ByteReader(data).seek(k)\<close>, then the reads.\<close>

definition reading :: "bytes \<Rightarrow> int \<Rightarrow> 'a byte_prog \<Rightarrow> pool_error + 'a" where
  "reading bs k m = fst (andthen (rd_seek k) m \<lparr>rb_buf = bs, rb_pos = 0\<rparr>)"

section \<open>Writing instruction data\<close>

definition le_bytes :: "nat \<Rightarrow> int \<Rightarrow> bytes" where
  "le_bytes n v = map (\<lambda>i. word_of_int (v div 256 ^ i)) [0..<n]"

definition u64le :: "int \<Rightarrow> pool_error + bytes" where
  "u64le v = (if v < 0 \<or> v > 0xffffffffffffffff then Inl RANGE_ERROR else Inr (le_bytes 8 v))"

text \<open>The setters of a \<open>DataView\<close> wrap.\<close>

definition u32le :: "int \<Rightarrow> bytes" where "u32le v = le_bytes 4 v"
definition i32le :: "int \<Rightarrow> bytes" where "i32le v = le_bytes 4 v"
definition i32be :: "int \<Rightarrow> bytes" where "i32be v = rev (le_bytes 4 v)"
definition i64le :: "int \<Rightarrow> bytes" where "i64le v = le_bytes 8 v"

definition u128le :: "int \<Rightarrow> pool_error + bytes" where
  "u128le v = (if v < 0 \<or> v \<ge> push_bit 128 1 then Inl RANGE_ERROR
     else Inr (le_bytes 8 (v AND (push_bit 64 1 - 1)) @ le_bytes 8 (drop_bit 64 v)))"

definition utf8 :: "string \<Rightarrow> bytes" where
  "utf8 t = map (\<lambda>c. word_of_nat (of_char c)) t"

definition pk :: "string \<Rightarrow> pool_error + bytes" where
  "pk key = (case base58Decode key of None \<Rightarrow> Inl BAD_BASE58 | Some b \<Rightarrow> Inr b)"

definition anchorDiscriminator :: "(bytes \<Rightarrow> bytes) \<Rightarrow> string \<Rightarrow> bytes" where
  "anchorDiscriminator sha name = slice 0 8 (sha (utf8 (''global:'' @ name)))"

definition anchorAccountDiscriminator :: "(bytes \<Rightarrow> bytes) \<Rightarrow> string \<Rightarrow> bytes" where
  "anchorAccountDiscriminator sha name = slice 0 8 (sha (utf8 (''account:'' @ name)))"

section \<open>Program-derived addresses\<close>

definition P25519 :: int where
  "P25519 = push_bit 255 1 - 19"

definition mod_p :: "int \<Rightarrow> int" where
  "mod_p a = (let r = a smod P25519 in if r < 0 then r + P25519 else r)"

function mod_pow_loop :: "int \<Rightarrow> int \<Rightarrow> int \<Rightarrow> int" where
  "mod_pow_loop result b e = (if e > 0
     then mod_pow_loop (if e AND 1 \<noteq> 0 then mod_p (result * b) else result) (mod_p (b * b)) (drop_bit 1 e)
     else result)"
  by pat_completeness auto
termination by (relation "measure (\<lambda>(result, b, e). nat e)") (auto simp: drop_bit_eq_div)

declare mod_pow_loop.simps [simp del]

definition modPow :: "int \<Rightarrow> int \<Rightarrow> int" where
  "modPow base ex = mod_pow_loop 1 (mod_p base) ex"

definition modInverse :: "int \<Rightarrow> int" where
  "modInverse a = modPow a (P25519 - 2)"

definition D25519 :: int where
  "D25519 = mod_p (- 121665 * modInverse 121666)"

definition SQRT_M1 :: int where
  "SQRT_M1 = modPow 2 ((P25519 - 1) sdiv 4)"

definition isOnCurve :: "bytes \<Rightarrow> bool" where
  "isOnCurve bs = (if length bs \<noteq> 32 then False else let
     y0 = foldr (\<lambda>b y. push_bit 8 y OR uint b) bs 0;
     sign = drop_bit 255 y0 AND 1;
     y = y0 AND (push_bit 255 1 - 1)
   in if y \<ge> P25519 then False else let
     y2 = mod_p (y * y);
     u = mod_p (y2 - 1);
     v = mod_p (D25519 * y2 + 1);
     v3 = mod_p (v * v * v);
     v7 = mod_p (v3 * v3 * v);
     x = mod_p (u * v3 * modPow (mod_p (u * v7)) ((P25519 - 5) sdiv 8));
     vx2 = mod_p (v * x * x)
   in if vx2 \<noteq> u \<and> vx2 \<noteq> mod_p (- u) then False
      else let x' = (if vx2 \<noteq> u then mod_p (x * SQRT_M1) else x) in \<not> (x' = 0 \<and> sign = 1))"

definition PDA_MARKER :: bytes where
  "PDA_MARKER = utf8 ''ProgramDerivedAddress''"

definition createProgramAddress :: "(bytes \<Rightarrow> bytes) \<Rightarrow> bytes list \<Rightarrow> string \<Rightarrow> pool_error + string option" where
  "createProgramAddress sha seeds programId =
     (if list_ex (\<lambda>s. length s > 32) seeds then Inl RANGE_ERROR
      else ebind (pk programId) (\<lambda>p. let h = sha (concat seeds @ p @ PDA_MARKER) in
        Inr (if isOnCurve h then None else Some (base58Encode h))))"

text \<open>The canonical bump search, from 255 downwards; an empty text is falsy like \<open>null\<close>.\<close>

fun bump_search :: "(bytes \<Rightarrow> bytes) \<Rightarrow> bytes list \<Rightarrow> string \<Rightarrow> nat \<Rightarrow> pool_error + string \<times> nat" where
  "bump_search sha seeds programId bump =
     ebind (createProgramAddress sha (seeds @ [[word_of_nat bump]]) programId) (\<lambda>a.
       case a of
         Some addr \<Rightarrow> if addr \<noteq> [] then Inr (addr, bump)
           else (case bump of 0 \<Rightarrow> Inl NO_PROGRAM_ADDRESS | Suc b \<Rightarrow> bump_search sha seeds programId b)
       | None \<Rightarrow> (case bump of 0 \<Rightarrow> Inl NO_PROGRAM_ADDRESS | Suc b \<Rightarrow> bump_search sha seeds programId b))"

declare bump_search.simps [simp del]

definition findProgramAddress :: "(bytes \<Rightarrow> bytes) \<Rightarrow> bytes list \<Rightarrow> string \<Rightarrow> pool_error + string \<times> nat" where
  "findProgramAddress sha seeds programId = bump_search sha seeds programId 255"

definition ASSOCIATED_TOKEN_PROGRAM_ID :: string where
  "ASSOCIATED_TOKEN_PROGRAM_ID = ''ATokenGPvbdGVxr1b2hvZbsiqW5xWH25efTNsLJA8knL''"

definition associatedTokenAddress :: "(bytes \<Rightarrow> bytes) \<Rightarrow> string \<Rightarrow> string \<Rightarrow> string \<Rightarrow> pool_error + string" where
  "associatedTokenAddress sha wallet mnt tokenProgram =
     ebind (pk wallet) (\<lambda>ow. ebind (pk tokenProgram) (\<lambda>tp. ebind (pk mnt) (\<lambda>mt.
       ebind (findProgramAddress sha [ow, tp, mt] ASSOCIATED_TOKEN_PROGRAM_ID) (\<lambda>(addr, bump). Inr addr))))"

section \<open>Token-2022 mints\<close>

definition TOKEN_2022_PROGRAM_ID :: string where
  "TOKEN_2022_PROGRAM_ID = ''TokenzQdBNbLqP5VEhdkAS6EPFLC1PHnBqCXEpPxuEb''"

record TransferFee =
  tf_epoch :: int
  maximumFee :: int
  basisPoints :: int

record MintExtensions =
  transferFee :: "(TransferFee \<times> TransferFee) option" \<comment> \<open>older and newer\<close>
  transferHook :: bool
  nonTransferable :: bool
  pausable :: bool
  extensionTypes :: "int list"

definition NO_EXTENSIONS :: MintExtensions where
  "NO_EXTENSIONS = \<lparr>transferFee = None, transferHook = False, nonTransferable = False, pausable = False, extensionTypes = []\<rparr>"

definition read_fee :: "TransferFee byte_prog" where
  "read_fee = bind rd_u64 (\<lambda>e. bind rd_u64 (\<lambda>m. bind rd_u16 (\<lambda>b.
     return \<lparr>tf_epoch = e, maximumFee = m, basisPoints = b\<rparr>)))"

definition note_extension :: "bytes \<Rightarrow> int \<Rightarrow> int \<Rightarrow> int \<Rightarrow> MintExtensions \<Rightarrow> pool_error + MintExtensions" where
  "note_extension bs start ty tlen out =
     ebind (if ty = 1 \<and> tlen \<ge> 108
            then ebind (reading bs (start + 32 + 32 + 8) (bind read_fee (\<lambda>older. bind read_fee (\<lambda>newer. return (older, newer)))))
              (\<lambda>f. Inr (Some f))
            else Inr (transferFee out)) (\<lambda>fee.
       Inr (out\<lparr>extensionTypes := extensionTypes out @ [ty], transferFee := fee,
         transferHook := transferHook out \<or> ty = 14, nonTransferable := nonTransferable out \<or> ty = 6,
         pausable := pausable out \<or> ty = 22\<rparr>))"

text \<open>The TLV walk: an entry is a type, a length and that many bytes; a zero entry ends it.\<close>

function ext_loop :: "bytes \<Rightarrow> int \<Rightarrow> MintExtensions \<Rightarrow> pool_error + MintExtensions" where
  "ext_loop bs offset out = (if offset + 4 > int (length bs) then Inr out
     else let ty = int (le_value (slice (nat offset) 2 bs)); tlen = int (le_value (slice (nat (offset + 2)) 2 bs)) in
       if ty = 0 \<and> tlen = 0 then Inr out
       else (case note_extension bs (offset + 4) ty tlen out of
           Inl e \<Rightarrow> Inl e
         | Inr out' \<Rightarrow> if offset + 4 + tlen > int (length bs) then Inl RANGE_ERROR else ext_loop bs (offset + 4 + tlen) out'))"
  by pat_completeness auto
termination by (relation "measure (\<lambda>(bs, offset, out). nat (int (length bs) - offset))") auto

declare ext_loop.simps [simp del]

definition decodeMintExtensions :: "RawAccount option \<Rightarrow> pool_error + MintExtensions" where
  "decodeMintExtensions mnt = (case mnt of None \<Rightarrow> Inr NO_EXTENSIONS
     | Some m \<Rightarrow> if account_owner m \<noteq> TOKEN_2022_PROGRAM_ID \<or> length (account_data m) \<le> 166 then Inr NO_EXTENSIONS
         else if account_data m ! 165 \<noteq> 1 then Inr NO_EXTENSIONS
         else ext_loop (account_data m) 166 NO_EXTENSIONS)"

definition activeTransferFee :: "MintExtensions \<Rightarrow> int option \<Rightarrow> TransferFee option" where
  "activeTransferFee ext epoch = (case transferFee ext of None \<Rightarrow> None
     | Some (older, newer) \<Rightarrow> (case epoch of
           None \<Rightarrow> Some (if basisPoints newer \<ge> basisPoints older then newer else older)
         | Some e \<Rightarrow> Some (if e \<ge> tf_epoch newer then newer else older)))"

definition transferFeeAmount :: "TransferFee option \<Rightarrow> int \<Rightarrow> int" where
  "transferFeeAmount fee amount = (case fee of None \<Rightarrow> 0
     | Some f \<Rightarrow> if basisPoints f = 0 \<or> amount \<le> 0 then 0
         else let raw = (amount * basisPoints f + 9999) sdiv 10000 in if raw > maximumFee f then maximumFee f else raw)"

section \<open>What every family exposes\<close>

record AccountMeta =
  am_pubkey :: string
  isSigner :: bool
  isWritable :: bool

record DirectPoolInstruction =
  ix_programId :: string
  ix_accounts :: "AccountMeta list"
  ix_data :: bytes

record 'd DecodedPoolState =
  ps_program :: DirectPoolProgram
  ps_poolAddress :: string
  mintA :: mint_address
  mintB :: mint_address
  tokenProgramA :: string
  tokenProgramB :: string
  reserveA :: int
  reserveB :: int
  feeBps :: int
  tradeable :: bool
  tradeableReason :: "string option"
  detail :: 'd

record PoolQuote =
  pq_inputMint :: mint_address
  pq_outputMint :: mint_address
  pq_inputAmount :: int
  pq_expectedOutputAmount :: int
  pq_feeAmount :: int
  pq_impactBps :: int

record 'd SwapBuildInput =
  sb_state :: "'d DecodedPoolState"
  sb_user :: string
  sb_inputMint :: mint_address
  sb_userSource :: string
  sb_userDestination :: string
  sb_amountIn :: int
  sb_minimumAmountOut :: int

definition meta :: "string \<Rightarrow> bool \<Rightarrow> bool \<Rightarrow> AccountMeta" where
  "meta k s w = \<lparr>am_pubkey = k, isSigner = s, isWritable = w\<rparr>"

text \<open>The division of \<open>BigInt\<close> truncates and throws on zero.\<close>

definition big_div :: "int \<Rightarrow> int \<Rightarrow> pool_error + int" where
  "big_div a b = (if b = 0 then Inl BIGINT_DIV_ZERO else Inr (a sdiv b))"

definition constantProductOut :: "int \<Rightarrow> int \<Rightarrow> int \<Rightarrow> pool_error + int" where
  "constantProductOut reserveIn reserveOut amountInAfterFee =
     (if reserveIn \<le> 0 \<or> reserveOut \<le> 0 then Inr 0
      else big_div (reserveOut * amountInAfterFee) (reserveIn + amountInAfterFee))"

definition impactBps :: "int \<Rightarrow> int \<Rightarrow> int \<Rightarrow> int \<Rightarrow> int" where
  "impactBps reserveIn reserveOut amountInAfterFee out =
     (if amountInAfterFee \<le> 0 \<or> reserveOut \<le> 0 \<or> reserveIn \<le> 0 then 0
      else let realisedScaled = out * reserveIn * 10000; spotScaled = amountInAfterFee * reserveOut in
        if spotScaled = 0 then 0
        else let kept = realisedScaled sdiv spotScaled; bps = 10000 - kept in
          if bps < 0 then 0 else if bps > 10000 then 10000 else bps)"

section \<open>Lemmas\<close>

lemma le_value_Cons: "le_value (b # bs) = unat b + 256 * le_value bs"
  by (simp add: le_value_def)

lemma le_value_bound: "le_value bs < 256 ^ length bs"
proof (induction bs)
  case (Cons b bs)
  have "unat b < 2 ^ LENGTH(8)" by (rule unsigned_less)
  with Cons show ?case by (simp add: le_value_Cons)
qed (simp add: le_value_def)

lemma le_bytes_Suc: "le_bytes (Suc n) v = word_of_int v # le_bytes n (v div 256)"
proof -
  have "v div 256 ^ Suc i = v div 256 div 256 ^ i" for i by (simp add: zdiv_zmult2_eq)
  then show ?thesis by (simp add: le_bytes_def upt_conv_Cons map_Suc_upt [symmetric] del: upt_Suc power_Suc)
qed

lemma le_value_bytes: "int (le_value (le_bytes n v)) = v mod 256 ^ n"
proof (induction n arbitrary: v)
  case (Suc n)
  have "int (unat (word_of_int v :: 8 word)) = v mod 256" by (simp add: of_nat_unat uint_word_of_int)
  then show ?case by (simp add: le_bytes_Suc le_value_Cons Suc zmod_zmult2_eq)
qed (simp add: le_bytes_def le_value_def)

lemma length_le_bytes [simp]: "length (le_bytes n v) = n"
  by (simp add: le_bytes_def)

text \<open>What the writers write the reader reads back.\<close>

lemma read_back:
  assumes "rb_buf r = pre @ bs @ post" and "rb_pos r = int (length pre)" and "int (length bs) = n"
  shows "rd_need n r = (Inr bs, r\<lparr>rb_pos := int (length pre) + n\<rparr>)"
  using assms by (auto simp: rd_need_def slice_def)

lemma u64_roundtrip:
  assumes "u64le v = Inr bs"
  shows "reading (pre @ bs @ post) (int (length pre)) rd_u64 = Inr v"
proof -
  have bs: "bs = le_bytes 8 v" "0 \<le> v" "v < 256 ^ 8" using assms by (auto simp: u64le_def split: if_splits)
  then have "rd_need 8 \<lparr>rb_buf = pre @ bs @ post, rb_pos = int (length pre)\<rparr> = (Inr bs, \<lparr>rb_buf = pre @ bs @ post, rb_pos = int (length pre) + 8\<rparr>)"
    by (subst read_back [where bs = bs]) simp_all
  then show ?thesis
    using bs by (simp add: reading_def rd_seek_def andthen_run rd_u64_def rd_le_def bind_run le_value_bytes)
qed

lemma mod_p_mod: "mod_p a = a mod P25519"
proof -
  have p: "P25519 > 0" by (simp add: P25519_def push_bit_eq_mult)
  have "a smod P25519 = (if a < 0 then - (- a mod P25519) else a mod P25519)"
    using p by (cases "a = 0"; cases "a < 0") (simp_all add: signed_modulo_int_def)
  then show ?thesis
    using p pos_mod_bound [OF p, of a] pos_mod_sign [OF p, of a]
    by (auto simp: mod_p_def Let_def zmod_zminus1_eq_if not_less)
qed

lemma modPow_power: "modPow b e mod P25519 = b ^ nat e mod P25519"
proof -
  have loop: "mod_pow_loop r c e mod P25519 = r * c ^ nat e mod P25519" for r c e
  proof (induction r c e rule: mod_pow_loop.induct)
    case (1 r c e)
    show ?case
    proof (cases "e > 0")
      case True
      let ?q = "e div 2" and ?r = "if odd e then mod_p (r * c) else r"
      have step: "mod_pow_loop r c e = mod_pow_loop ?r (mod_p (c * c)) ?q"
        using True by (subst mod_pow_loop.simps) (simp add: and_one_eq odd_iff_mod_2_eq_one drop_bit_eq_div)
      have "mod_pow_loop ?r (mod_p (c * c)) ?q mod P25519 = ?r * mod_p (c * c) ^ nat ?q mod P25519"
        using 1 True by (simp add: and_one_eq odd_iff_mod_2_eq_one drop_bit_eq_div)
      also have "\<dots> = ?r mod P25519 * (mod_p (c * c) ^ nat ?q mod P25519) mod P25519" by (rule mod_mult_eq [symmetric])
      also have "\<dots> = (if odd e then r * c else r) mod P25519 * ((c * c) ^ nat ?q mod P25519) mod P25519"
        unfolding mod_p_mod power_mod by simp
      also have "\<dots> = (if odd e then r * c else r) * (c * c) ^ nat ?q mod P25519" by (rule mod_mult_eq)
      also have "(if odd e then r * c else r) * (c * c) ^ nat ?q = r * c ^ nat e"
      proof -
        have "nat e = (if odd e then Suc (2 * nat ?q) else 2 * nat ?q)" using True by (auto elim!: oddE evenE)
        then show ?thesis by (simp add: power_mult power2_eq_square power_Suc)
      qed
      finally show ?thesis by (simp add: step)
    qed (subst mod_pow_loop.simps, simp)
  qed
  show ?thesis by (simp add: modPow_def loop mod_p_mod power_mod)
qed

text \<open>The bump found is the highest whose hash is off the curve.\<close>

lemma bump_search_canonical:
  "bump_search sha seeds p bump = Inr (a, b) \<Longrightarrow> b \<le> bump \<and> createProgramAddress sha (seeds @ [[word_of_nat b]]) p = Inr (Some a) \<and>
     (\<forall>c. b < c \<and> c \<le> bump \<longrightarrow> createProgramAddress sha (seeds @ [[word_of_nat c]]) p \<in> {Inr None, Inr (Some [])})"
proof (induction bump)
  case 0
  have "bump_search sha seeds p 0 = Inr (a, b) \<Longrightarrow> b = 0 \<and> createProgramAddress sha (seeds @ [[word_of_nat 0]]) p = Inr (Some a)"
    by (simp only: bump_search.simps [of sha seeds p 0])
      (cases "createProgramAddress sha (seeds @ [[word_of_nat 0]]) p"; auto simp: ebind_def split: option.splits if_splits)
  with 0 show ?case by blast
next
  case (Suc n)
  show ?case
  proof (cases "createProgramAddress sha (seeds @ [[word_of_nat (Suc n)]]) p \<in> {Inr None, Inr (Some [])}")
    case True
    then have "bump_search sha seeds p (Suc n) = bump_search sha seeds p n" by (subst bump_search.simps) auto
    with Suc.prems have "bump_search sha seeds p n = Inr (a, b)" by simp
    from Suc.IH [OF this] True show ?thesis by (auto simp: le_Suc_eq)
  next
    case False
    have "bump_search sha seeds p (Suc n) = Inr (a, b) \<Longrightarrow> b = Suc n \<and> createProgramAddress sha (seeds @ [[word_of_nat (Suc n)]]) p = Inr (Some a)"
      using False by (simp only: bump_search.simps [of sha seeds p "Suc n"])
        (cases "createProgramAddress sha (seeds @ [[word_of_nat (Suc n)]]) p"; auto simp: ebind_def split: option.splits if_splits)
    then show ?thesis using Suc.prems by auto
  qed
qed

section \<open>The estimate is a constant product\<close>

lemma constant_product:
  assumes "0 < x" and "0 < y" and "0 \<le> d"
  shows "\<exists>out. constantProductOut x y d = Inr out \<and> 0 \<le> out \<and> out < y \<and> x * y \<le> (x + d) * (y - out)"
proof -
  let ?o = "(y * d) div (x + d)"
  have "(x + d) * ?o \<le> y * d" using assms by (simp add: minus_mod_eq_mult_div [symmetric])
  then have k: "x * y \<le> (x + d) * (y - ?o)" by (simp add: algebra_simps)
  have "?o < y" using assms by (smt (verit) k mult_nonneg_nonpos mult_pos_pos)
  moreover have "0 \<le> ?o" using assms by (simp add: pos_imp_zdiv_nonneg_iff)
  ultimately show ?thesis
    using assms k by (simp add: constantProductOut_def big_div_def sdiv_nonneg)
qed

lemma impact_range: "0 \<le> impactBps x y d out \<and> impactBps x y d out \<le> 10000"
  by (simp add: impactBps_def Let_def)

lemma fee_range:
  assumes "0 \<le> amount" and "\<And>f. fee = Some f \<Longrightarrow> 0 \<le> basisPoints f \<and> basisPoints f \<le> 10000 \<and> 0 \<le> maximumFee f"
  shows "0 \<le> transferFeeAmount fee amount \<and> transferFeeAmount fee amount \<le> amount"
proof (cases fee)
  case (Some f)
  have bp: "0 \<le> basisPoints f" "basisPoints f \<le> 10000" "0 \<le> maximumFee f" using assms(2) [OF Some] by auto
  have "amount * basisPoints f \<le> amount * 10000" using assms(1) bp by (intro mult_left_mono) auto
  then have "(amount * basisPoints f + 9999) div 10000 \<le> amount" by simp
  moreover have "0 \<le> amount * basisPoints f" using assms(1) bp by simp
  ultimately show ?thesis
    using assms(1) bp Some by (auto simp: transferFeeAmount_def Let_def sdiv_nonneg pos_imp_zdiv_nonneg_iff)
qed (use assms(1) in \<open>simp add: transferFeeAmount_def\<close>)

end
