(* ===== verification/ConstantProduct.thy ===== *)
theory ConstantProduct imports PoolBytes Custody begin

text \<open>
  The constant-product pools of the emergency path: Raydium CPMM and Raydium AMM v4
  (\<open>libs/execution/src/direct-pool/raydium-cpmm.ts\<close> and \<open>raydium-amm-v4.ts\<close>). Each decodes the pool's
  accounts, quotes an exit locally and builds the swap instruction. A quote never promises the whole
  reserve and never lowers the product of the reserves.
\<close>

section \<open>What the two families share\<close>

definition acc_at :: "RawAccount option list \<Rightarrow> nat \<Rightarrow> RawAccount option" where
  "acc_at accounts i = (if i < length accounts then accounts ! i else None)"

text \<open>The account, when it exists and the program owns it.\<close>

definition owned_by :: "string \<Rightarrow> RawAccount option \<Rightarrow> RawAccount option" where
  "owned_by prog a = (case a of None \<Rightarrow> None | Some x \<Rightarrow> if account_owner x \<noteq> prog then None else Some x)"

definition need_some :: "pool_error \<Rightarrow> 'a option \<Rightarrow> pool_error + 'a" where
  "need_some e a = (case a of None \<Rightarrow> Inl e | Some x \<Rightarrow> Inr x)"

definition token_amount :: "RawAccount \<Rightarrow> pool_error + int" where
  "token_amount a = (case decodeTokenAccount (account_data a) of None \<Rightarrow> Inl TOKEN_ACCOUNT_SHORT | Some t \<Rightarrow> Inr (ta_amount t))"

text \<open>A derived address that is \<open>null\<close> or the empty text is refused.\<close>

definition truthy :: "string option \<Rightarrow> string option" where
  "truthy a = (case a of Some t \<Rightarrow> if t = [] then None else Some t | None \<Rightarrow> None)"

text \<open>The direction of a swap: \<open>True\<close> from A to B, and an error for a mint of another pool.\<close>

definition swap_direction :: "'d DecodedPoolState \<Rightarrow> mint_address \<Rightarrow> pool_error + bool" where
  "swap_direction st inMint =
     (if inMint \<noteq> mintA st \<and> inMint \<noteq> mintB st then Inl (POOL_DECODE (ps_program st) ''mint is not in pool'')
      else Inr (inMint = mintA st))"

text \<open>The quote both families compute once the fee is known.\<close>

definition product_quote :: "'d DecodedPoolState \<Rightarrow> mint_address \<Rightarrow> bool \<Rightarrow> int \<Rightarrow> int \<Rightarrow> pool_error + PoolQuote" where
  "product_quote st inMint aToB amountIn fee = (let
     reserveIn = (if aToB then reserveA st else reserveB st);
     reserveOut = (if aToB then reserveB st else reserveA st);
     afterFee = amountIn - fee
   in ebind (constantProductOut reserveIn reserveOut afterFee) (\<lambda>out.
     Inr \<lparr>pq_inputMint = inMint, pq_outputMint = (if aToB then mintB st else mintA st), pq_inputAmount = amountIn,
       pq_expectedOutputAmount = out, pq_feeAmount = fee, pq_impactBps = impactBps reserveIn reserveOut afterFee out\<rparr>))"

section \<open>Raydium CPMM\<close>

definition RAYDIUM_CPMM_PROGRAM :: string where
  "RAYDIUM_CPMM_PROGRAM = ''CPMMoo8L3F4NbTegBCKVNunggL7H1ZpdTHKxQB5qKP1C''"

definition CPMM_FEE_DENOMINATOR :: int where
  "CPMM_FEE_DENOMINATOR = 1000000"

record CpmmDetail =
  cp_ammConfig :: string
  cp_authority :: string
  cp_token0Vault :: string
  cp_token1Vault :: string
  cp_observationKey :: string
  cp_tradeFeeRate :: int
  cp_status :: int
  cp_openTime :: int

definition cpmm_requiredAccounts :: "DirectPoolHop \<Rightarrow> string list" where
  "cpmm_requiredAccounts hop = [hop_poolAddress hop]"

definition cpmm_dependentAccounts :: "RawAccount \<Rightarrow> pool_error + string list" where
  "cpmm_dependentAccounts pool = reading (account_data pool) 8
     (bind rd_pubkey (\<lambda>ammConfig. andthen rd_pubkey (bind rd_pubkey (\<lambda>v0. bind rd_pubkey (\<lambda>v1. return [ammConfig, v0, v1])))))"

text \<open>The fields of \<open>PoolState\<close> the adapter reads, in the order of the account.\<close>

record CpmmPool =
  cpp_keys :: "string list" \<comment> \<open>config, vaults, mints, token programs, observation\<close>
  cpp_status :: int
  cpp_protocolFees :: "int \<times> int"
  cpp_fundFees :: "int \<times> int"
  cpp_openTime :: int

definition read_cpmm_pool :: "CpmmPool byte_prog" where
  "read_cpmm_pool =
     bind rd_pubkey (\<lambda>ammConfig. andthen rd_pubkey
     (bind rd_pubkey (\<lambda>vault0'. bind rd_pubkey (\<lambda>vault1'. andthen rd_pubkey
     (bind rd_pubkey (\<lambda>mint0'. bind rd_pubkey (\<lambda>mint1'. bind rd_pubkey (\<lambda>prog0. bind rd_pubkey (\<lambda>prog1.
      bind rd_pubkey (\<lambda>obs. andthen rd_u8 (bind rd_u8 (\<lambda>status. andthen (rd_skip 3) (andthen rd_u64
     (bind rd_u64 (\<lambda>pf0. bind rd_u64 (\<lambda>pf1. bind rd_u64 (\<lambda>ff0. bind rd_u64 (\<lambda>ff1. bind rd_u64 (\<lambda>openTime.
        return \<lparr>cpp_keys = [ammConfig, vault0', vault1', mint0', mint1', prog0, prog1, obs], cpp_status = status,
          cpp_protocolFees = (pf0, pf1), cpp_fundFees = (ff0, ff1), cpp_openTime = openTime\<rparr>)))))))))))))))))))"

definition cpmm_decode :: "(bytes \<Rightarrow> bytes) \<Rightarrow> DirectPoolHop \<Rightarrow> RawAccount option list \<Rightarrow> int \<Rightarrow>
    pool_error + CpmmDetail DecodedPoolState" where
  "cpmm_decode sha hop accounts nowMs = (let err = \<lambda>t. POOL_DECODE RAYDIUM_CPMM t in
     ebind (need_some (err ''pool missing or not owned'') (owned_by RAYDIUM_CPMM_PROGRAM (acc_at accounts 0))) (\<lambda>pool.
     if length (account_data pool) < 8 + 32 * 10 + 5 + 48 then Inl (err ''pool data is too short'')
     else ebind (reading (account_data pool) 8 read_cpmm_pool) (\<lambda>p.
     ebind (need_some (err ''amm config missing'') (owned_by RAYDIUM_CPMM_PROGRAM (acc_at accounts 1))) (\<lambda>config.
     if length (account_data config) < 20 then Inl (err ''amm config too short'')
     else ebind (reading (account_data config) 12 rd_u64) (\<lambda>tradeFeeRate.
     ebind (need_some (err ''vault account missing'') (acc_at accounts 2)) (\<lambda>vault0.
     ebind (need_some (err ''vault account missing'') (acc_at accounts 3)) (\<lambda>vault1.
     ebind (token_amount vault0) (\<lambda>bal0. ebind (token_amount vault1) (\<lambda>bal1.
     let rA = bal0 - fst (cpp_protocolFees p) - fst (cpp_fundFees p);
         rB = bal1 - snd (cpp_protocolFees p) - snd (cpp_fundFees p);
         swapDisabled = cpp_status p AND 4 \<noteq> 0;
         notOpen = cpp_openTime p > nowMs div 1000
     in ebind (findProgramAddress sha [utf8 ''vault_and_lp_mint_auth_seed''] RAYDIUM_CPMM_PROGRAM) (\<lambda>(authority, bump).
     Inr \<lparr>ps_program = RAYDIUM_CPMM, ps_poolAddress = hop_poolAddress hop, mintA = cpp_keys p ! 3, mintB = cpp_keys p ! 4,
       tokenProgramA = cpp_keys p ! 5, tokenProgramB = cpp_keys p ! 6,
       reserveA = (if rA < 0 then 0 else rA), reserveB = (if rB < 0 then 0 else rB),
       feeBps = (tradeFeeRate * 10000) sdiv CPMM_FEE_DENOMINATOR,
       tradeable = (\<not> swapDisabled \<and> \<not> notOpen \<and> rA > 0 \<and> rB > 0),
       tradeableReason = (if swapDisabled then Some ''SWAP_DISABLED'' else if notOpen then Some ''NOT_OPEN''
         else if rA \<le> 0 \<or> rB \<le> 0 then Some ''EMPTY_RESERVES'' else None),
       detail = \<lparr>cp_ammConfig = cpp_keys p ! 0, cp_authority = authority, cp_token0Vault = cpp_keys p ! 1,
         cp_token1Vault = cpp_keys p ! 2, cp_observationKey = cpp_keys p ! 7, cp_tradeFeeRate = tradeFeeRate,
         cp_status = cpp_status p, cp_openTime = cpp_openTime p\<rparr>\<rparr>))))))))))"

definition cpmm_fee :: "CpmmDetail \<Rightarrow> int \<Rightarrow> int" where
  "cpmm_fee d amountIn = (amountIn * cp_tradeFeeRate d + CPMM_FEE_DENOMINATOR - 1) sdiv CPMM_FEE_DENOMINATOR"

definition cpmm_quote :: "CpmmDetail DecodedPoolState \<Rightarrow> mint_address \<Rightarrow> int \<Rightarrow> pool_error + PoolQuote" where
  "cpmm_quote st inMint amountIn =
     ebind (swap_direction st inMint) (\<lambda>aToB. product_quote st inMint aToB amountIn (cpmm_fee (detail st) amountIn))"

definition cpmm_swapInstruction ::
  "(bytes \<Rightarrow> bytes) \<Rightarrow> CpmmDetail SwapBuildInput \<Rightarrow> pool_error + DirectPoolInstruction" where
  "cpmm_swapInstruction sha inp = (let st = sb_state inp; d = detail st in
     ebind (swap_direction st (sb_inputMint inp)) (\<lambda>aToB.
     ebind (u64le (sb_amountIn inp)) (\<lambda>a. ebind (u64le (sb_minimumAmountOut inp)) (\<lambda>m.
     Inr \<lparr>ix_programId = RAYDIUM_CPMM_PROGRAM, ix_accounts = [
         meta (sb_user inp) True False, meta (cp_authority d) False False, meta (cp_ammConfig d) False False,
         meta (ps_poolAddress st) False True, meta (sb_userSource inp) False True, meta (sb_userDestination inp) False True,
         meta (if aToB then cp_token0Vault d else cp_token1Vault d) False True,
         meta (if aToB then cp_token1Vault d else cp_token0Vault d) False True,
         meta (if aToB then tokenProgramA st else tokenProgramB st) False False,
         meta (if aToB then tokenProgramB st else tokenProgramA st) False False,
         meta (sb_inputMint inp) False False, meta (if aToB then mintB st else mintA st) False False,
         meta (cp_observationKey d) False True],
       ix_data = anchorDiscriminator sha ''swap_base_input'' @ a @ m\<rparr>))))"

section \<open>Raydium AMM v4\<close>

definition RAYDIUM_AMM_V4_PROGRAM :: string where
  "RAYDIUM_AMM_V4_PROGRAM = ''675kPX9MHTjS2zt1qfr1NYHuzeLXfQM9H24wFSUt1Mp8''"

definition SWAP_STATUSES :: "int list" where
  "SWAP_STATUSES = [1, 6, 7]"

record AmmV4Market =
  mk_bids :: string
  mk_asks :: string
  mk_eventQueue :: string
  mk_baseVault :: string
  mk_quoteVault :: string
  mk_vaultSigner :: string

record AmmV4Detail =
  av_nonce :: int
  av_authority :: string
  av_openOrders :: string
  av_targetOrders :: string
  av_baseVault :: string
  av_quoteVault :: string
  av_marketProgramId :: string
  av_marketId :: string
  av_market :: AmmV4Market
  av_swapFeeNumerator :: int
  av_swapFeeDenominator :: int
  av_status :: int

definition ammv4_requiredAccounts :: "DirectPoolHop \<Rightarrow> string list" where
  "ammv4_requiredAccounts hop = [hop_poolAddress hop]"

definition ammv4_dependentAccounts :: "RawAccount \<Rightarrow> pool_error + string list" where
  "ammv4_dependentAccounts pool = reading (account_data pool) 336
     (bind rd_pubkey (\<lambda>baseVault. bind rd_pubkey (\<lambda>quoteVault. andthen rd_pubkey (andthen rd_pubkey (andthen rd_pubkey (andthen rd_pubkey
       (bind rd_pubkey (\<lambda>marketId. return [marketId, baseVault, quoteVault]))))))))"

text \<open>The keys of \<open>AmmInfo\<close>: vaults, mints, open orders, market, market program, target orders.\<close>

definition read_ammv4_pool :: "(int \<times> int \<times> int \<times> int \<times> string list) byte_prog" where
  "read_ammv4_pool = bind rd_u64 (\<lambda>status. bind rd_u64 (\<lambda>nonce.
     andthen (rd_seek 176) (bind rd_u64 (\<lambda>num. bind rd_u64 (\<lambda>den.
     andthen (rd_seek 336) (bind rd_pubkey (\<lambda>baseVault. bind rd_pubkey (\<lambda>quoteVault. bind rd_pubkey (\<lambda>baseMint.
     bind rd_pubkey (\<lambda>quoteMint. andthen rd_pubkey (bind rd_pubkey (\<lambda>openOrders. bind rd_pubkey (\<lambda>marketId.
     bind rd_pubkey (\<lambda>marketProgramId. bind rd_pubkey (\<lambda>targetOrders.
       return (status, nonce, num, den, [baseVault, quoteVault, baseMint, quoteMint, openOrders, marketId, marketProgramId, targetOrders])
     )))))))))))))))"

text \<open>The vault signer's nonce and the keys of the market: vaults, event queue, bids, asks.\<close>

definition read_market :: "(int \<times> string list) byte_prog" where
  "read_market = bind rd_u64 (\<lambda>vaultSignerNonce. andthen rd_pubkey (andthen rd_pubkey (bind rd_pubkey (\<lambda>baseVault.
     andthen (rd_skip 16) (bind rd_pubkey (\<lambda>quoteVault. andthen (rd_skip 24) (andthen rd_pubkey (bind rd_pubkey (\<lambda>eventQueue.
     bind rd_pubkey (\<lambda>bids. bind rd_pubkey (\<lambda>asks. return (vaultSignerNonce, [baseVault, quoteVault, eventQueue, bids, asks]))))))))))))"

definition ammv4_decode :: "(bytes \<Rightarrow> bytes) \<Rightarrow> DirectPoolHop \<Rightarrow> RawAccount option list \<Rightarrow>
    pool_error + AmmV4Detail DecodedPoolState" where
  "ammv4_decode sha hop accounts = (let err = \<lambda>t. POOL_DECODE RAYDIUM_AMM_V4 t in
     ebind (need_some (err ''pool missing or not owned'') (owned_by RAYDIUM_AMM_V4_PROGRAM (acc_at accounts 0))) (\<lambda>pool.
     if length (account_data pool) \<noteq> 752 then Inl (err ''pool data has the wrong length'')
     else ebind (reading (account_data pool) 0 read_ammv4_pool) (\<lambda>(status, nonce, num, den, ks).
     ebind (need_some (err ''market missing or not owned'') (owned_by (ks ! 6) (acc_at accounts 1))) (\<lambda>market.
     if length (account_data market) < 5 + 8 + 32 * 5 + 16 + 32 + 24 + 32 * 4 then Inl (err ''market data is too short'')
     else ebind (reading (account_data market) (5 + 8 + 32) read_market) (\<lambda>(signerNonce, ms).
     ebind (pk (ks ! 5)) (\<lambda>marketKey. ebind (u64le signerNonce) (\<lambda>sn.
     ebind (createProgramAddress sha [marketKey, sn] (ks ! 6)) (\<lambda>signer.
     ebind (need_some (err ''market vault signer derivation landed on the curve'') (truthy signer)) (\<lambda>vaultSigner.
     ebind (createProgramAddress sha [utf8 ''amm authority'', [word_of_int nonce]] RAYDIUM_AMM_V4_PROGRAM) (\<lambda>auth.
     ebind (need_some (err ''amm authority derivation landed on the curve'') (truthy auth)) (\<lambda>authority.
     ebind (need_some (err ''vault account missing'') (acc_at accounts 2)) (\<lambda>baseAcc.
     ebind (need_some (err ''vault account missing'') (acc_at accounts 3)) (\<lambda>quoteAcc.
     ebind (token_amount baseAcc) (\<lambda>rA. ebind (token_amount quoteAcc) (\<lambda>rB.
     Inr \<lparr>ps_program = RAYDIUM_AMM_V4, ps_poolAddress = hop_poolAddress hop, mintA = ks ! 2, mintB = ks ! 3,
       tokenProgramA = TOKEN_PROGRAM, tokenProgramB = TOKEN_PROGRAM, reserveA = rA, reserveB = rB,
       feeBps = (if den = 0 then 0 else (num * 10000) sdiv den),
       tradeable = (status \<in> set SWAP_STATUSES \<and> rA > 0 \<and> rB > 0),
       tradeableReason = (if status \<notin> set SWAP_STATUSES then Some (''STATUS_'' @ show_int status)
         else if rA \<le> 0 \<or> rB \<le> 0 then Some ''EMPTY_RESERVES'' else None),
       detail = \<lparr>av_nonce = nonce, av_authority = authority, av_openOrders = ks ! 4, av_targetOrders = ks ! 7,
         av_baseVault = ks ! 0, av_quoteVault = ks ! 1, av_marketProgramId = ks ! 6, av_marketId = ks ! 5,
         av_market = \<lparr>mk_bids = ms ! 3, mk_asks = ms ! 4, mk_eventQueue = ms ! 2, mk_baseVault = ms ! 0, mk_quoteVault = ms ! 1,
           mk_vaultSigner = vaultSigner\<rparr>,
         av_swapFeeNumerator = num, av_swapFeeDenominator = den, av_status = status\<rparr>\<rparr>)))))))))))))))"

definition ammv4_fee :: "AmmV4Detail \<Rightarrow> int \<Rightarrow> int" where
  "ammv4_fee d amountIn = (if av_swapFeeDenominator d = 0 then 0
     else (amountIn * av_swapFeeNumerator d + av_swapFeeDenominator d - 1) sdiv av_swapFeeDenominator d)"

definition ammv4_quote :: "AmmV4Detail DecodedPoolState \<Rightarrow> mint_address \<Rightarrow> int \<Rightarrow> pool_error + PoolQuote" where
  "ammv4_quote st inMint amountIn =
     ebind (swap_direction st inMint) (\<lambda>aToB. product_quote st inMint aToB amountIn (ammv4_fee (detail st) amountIn))"

definition ammv4_swapInstruction :: "AmmV4Detail SwapBuildInput \<Rightarrow> pool_error + DirectPoolInstruction" where
  "ammv4_swapInstruction inp = (let st = sb_state inp; d = detail st; m = av_market d in
     ebind (swap_direction st (sb_inputMint inp)) (\<lambda>aToB.
     ebind (u64le (sb_amountIn inp)) (\<lambda>a. ebind (u64le (sb_minimumAmountOut inp)) (\<lambda>mn.
     Inr \<lparr>ix_programId = RAYDIUM_AMM_V4_PROGRAM, ix_accounts = [
         meta TOKEN_PROGRAM False False, meta (ps_poolAddress st) False True, meta (av_authority d) False False,
         meta (av_openOrders d) False True, meta (av_targetOrders d) False True, meta (av_baseVault d) False True,
         meta (av_quoteVault d) False True, meta (av_marketProgramId d) False False, meta (av_marketId d) False True,
         meta (mk_bids m) False True, meta (mk_asks m) False True, meta (mk_eventQueue m) False True,
         meta (mk_baseVault m) False True, meta (mk_quoteVault m) False True, meta (mk_vaultSigner m) False False,
         meta (sb_userSource inp) False True, meta (sb_userDestination inp) False True, meta (sb_user inp) True False],
       ix_data = [9] @ a @ mn\<rparr>))))"

section \<open>A quote keeps the product\<close>

text \<open>The fee of either family, rounded up: never negative, never more than the input, never less than the rate.\<close>

lemma ceil_fee:
  assumes "0 \<le> a" and "0 \<le> n" and "n \<le> d" and "0 < (d::int)"
  shows "0 \<le> (a * n + d - 1) sdiv d \<and> (a * n + d - 1) sdiv d \<le> a \<and> a * n \<le> d * ((a * n + d - 1) sdiv d)"
proof -
  let ?f = "(a * n + d - 1) div d"
  have p: "0 \<le> a * n" using assms by simp
  then have e: "(a * n + d - 1) sdiv d = ?f" using assms by (intro sdiv_nonneg) linarith+
  have "a * n \<le> a * d" using assms by (intro mult_left_mono) auto
  then have "?f \<le> (a * d + d - 1) div d" using assms by (intro zdiv_mono1) auto
  also have "(a * d + d - 1) div d = a"
    using assms div_mult_self1 [of d "d - 1" a] by (simp add: algebra_simps)
  finally have "?f \<le> a" .
  moreover have "a * n \<le> d * ?f"
  proof -
    have "d * ?f = a * n + d - 1 - (a * n + d - 1) mod d" by (simp add: minus_mod_eq_mult_div [symmetric])
    moreover have "(a * n + d - 1) mod d \<le> d - 1" using assms by (simp add: pos_mod_bound [of d] zle_diff1_eq)
    ultimately show ?thesis by linarith
  qed
  moreover have "0 \<le> a * n + d - 1" using p assms(4) by linarith
  then have "0 \<le> ?f" using assms(4) by (simp only: pos_imp_zdiv_nonneg_iff)
  ultimately show ?thesis by (simp add: e)
qed

definition reserve_in :: "'d DecodedPoolState \<Rightarrow> mint_address \<Rightarrow> int" where
  "reserve_in st m = (if m = mintA st then reserveA st else reserveB st)"

definition reserve_out :: "'d DecodedPoolState \<Rightarrow> mint_address \<Rightarrow> int" where
  "reserve_out st m = (if m = mintA st then reserveB st else reserveA st)"

text \<open>What a sound quote promises: less than the reserve, and a product that does not fall.\<close>

definition sound_quote :: "'d DecodedPoolState \<Rightarrow> mint_address \<Rightarrow> int \<Rightarrow> PoolQuote \<Rightarrow> bool" where
  "sound_quote st m amountIn q \<longleftrightarrow> pq_inputMint q = m \<and> pq_outputMint q = (if m = mintA st then mintB st else mintA st) \<and>
     pq_inputAmount q = amountIn \<and> 0 \<le> pq_feeAmount q \<and> pq_feeAmount q \<le> amountIn \<and>
     0 \<le> pq_expectedOutputAmount q \<and> pq_expectedOutputAmount q < reserve_out st m \<and>
     reserve_in st m * reserve_out st m
       \<le> (reserve_in st m + amountIn - pq_feeAmount q) * (reserve_out st m - pq_expectedOutputAmount q) \<and>
     0 \<le> pq_impactBps q \<and> pq_impactBps q \<le> 10000"

lemma product_quote_sound:
  assumes r: "0 < reserveA st" "0 < reserveB st" and f: "0 \<le> fee" "fee \<le> amountIn"
  shows "\<exists>q. product_quote st m (m = mintA st) amountIn fee = Inr q \<and> pq_feeAmount q = fee \<and> sound_quote st m amountIn q"
proof -
  have "0 < reserve_in st m" "0 < reserve_out st m" using r by (simp_all add: reserve_in_def reserve_out_def)
  from constant_product [OF this, of "amountIn - fee"] f obtain out where
    "constantProductOut (reserve_in st m) (reserve_out st m) (amountIn - fee) = Inr out" "0 \<le> out" "out < reserve_out st m"
    "reserve_in st m * reserve_out st m \<le> (reserve_in st m + (amountIn - fee)) * (reserve_out st m - out)" by auto
  then show ?thesis
    using f impact_range by (simp add: product_quote_def sound_quote_def reserve_in_def reserve_out_def Let_def add_diff_eq)
qed

lemma swap_direction_ok: "m \<in> {mintA st, mintB st} \<Longrightarrow> swap_direction st m = Inr (m = mintA st)"
  by (auto simp: swap_direction_def)

lemma ammv4_quote_sound:
  assumes "0 < reserveA st" and "0 < reserveB st" and "m \<in> {mintA st, mintB st}" and "0 \<le> amountIn"
    and "0 \<le> av_swapFeeNumerator (detail st)" and "av_swapFeeNumerator (detail st) \<le> av_swapFeeDenominator (detail st)"
  shows "\<exists>q. ammv4_quote st m amountIn = Inr q \<and> sound_quote st m amountIn q"
proof -
  let ?f = "ammv4_fee (detail st) amountIn"
  have "0 \<le> ?f \<and> ?f \<le> amountIn"
    using assms(4-6) ceil_fee [of amountIn "av_swapFeeNumerator (detail st)" "av_swapFeeDenominator (detail st)"]
    by (auto simp: ammv4_fee_def)
  with product_quote_sound [OF assms(1,2), of ?f amountIn m] show ?thesis
    by (auto simp: ammv4_quote_def swap_direction_ok [OF assms(3)])
qed

text \<open>What a tradeable decoded pool guarantees.\<close>

lemma need_some_Inr [simp]: "need_some e a = Inr x \<longleftrightarrow> a = Some x"
  by (auto simp: need_some_def split: option.split)

lemma cpmm_decode_tradeable:
  assumes "cpmm_decode sha hop accounts nowMs = Inr st" and "tradeable st"
  shows "0 < reserveA st \<and> 0 < reserveB st \<and> tradeableReason st = None \<and> cp_openTime (detail st) \<le> nowMs div 1000"
proof -
  show ?thesis
    using assms unfolding cpmm_decode_def Let_def
    by (auto split: if_splits simp: ebind_def split: sum.splits prod.splits)
qed

text \<open>
  C31: a constant-product quote is one the pool can honour. For a CPMM pool with reserves on both sides and
  a trade fee of at most the whole input, a quote for either mint always returns; it promises less than the
  reserve, its fee lies between the exact rate and the input, and the product of the reserves after the swap is at
  least the product before, whatever the amounts; the impact it reports is within 0 and 10000 basis points.
\<close>

theorem cpmm_quote_keeps_product:
  assumes "0 < reserveA st" and "0 < reserveB st" and "m \<in> {mintA st, mintB st}" and "0 \<le> amountIn"
    and "0 \<le> cp_tradeFeeRate (detail st)" and "cp_tradeFeeRate (detail st) \<le> CPMM_FEE_DENOMINATOR"
  shows "\<exists>q. cpmm_quote st m amountIn = Inr q \<and> sound_quote st m amountIn q \<and>
    amountIn * cp_tradeFeeRate (detail st) \<le> CPMM_FEE_DENOMINATOR * pq_feeAmount q"
proof -
  let ?f = "cpmm_fee (detail st) amountIn"
  have f: "0 \<le> ?f" "?f \<le> amountIn" "amountIn * cp_tradeFeeRate (detail st) \<le> CPMM_FEE_DENOMINATOR * ?f"
    using assms(4-6) ceil_fee [of amountIn "cp_tradeFeeRate (detail st)" CPMM_FEE_DENOMINATOR]
    by (auto simp: cpmm_fee_def CPMM_FEE_DENOMINATOR_def)
  with product_quote_sound [OF assms(1,2) f(1,2), of m] show ?thesis
    by (auto simp: cpmm_quote_def swap_direction_ok [OF assms(3)])
qed

definition toy_cpmm :: "CpmmDetail DecodedPoolState" where
  "toy_cpmm = \<lparr>ps_program = RAYDIUM_CPMM, ps_poolAddress = ''pool'', mintA = ''a'', mintB = ''b'', tokenProgramA = ''t'',
     tokenProgramB = ''t'', reserveA = 1000000, reserveB = 500000, feeBps = 25, tradeable = True, tradeableReason = None,
     detail = \<lparr>cp_ammConfig = ''c'', cp_authority = ''p'', cp_token0Vault = ''v'', cp_token1Vault = ''w'',
       cp_observationKey = ''o'', cp_tradeFeeRate = 2500, cp_status = 0, cp_openTime = 0\<rparr>\<rparr>"

theorem cpmm_quote_keeps_product_witness:
  "\<exists>q. cpmm_quote toy_cpmm ''b'' 10000 = Inr q \<and> pq_expectedOutputAmount q < 1000000 \<and> 25 \<le> pq_feeAmount q"
proof -
  have "0 < reserveA toy_cpmm" "0 < reserveB toy_cpmm" "''b'' \<in> {mintA toy_cpmm, mintB toy_cpmm}" "0 \<le> (10000::int)"
    "0 \<le> cp_tradeFeeRate (detail toy_cpmm)" "cp_tradeFeeRate (detail toy_cpmm) \<le> CPMM_FEE_DENOMINATOR"
    by (simp_all add: toy_cpmm_def CPMM_FEE_DENOMINATOR_def)
  from cpmm_quote_keeps_product [OF this] show ?thesis
    by (auto simp: sound_quote_def toy_cpmm_def reserve_out_def CPMM_FEE_DENOMINATOR_def)
qed

end
