(* ===== verification/EmergencyRoute.thy ===== *)
theory EmergencyRoute imports ConstantProduct "HOL-Library.Sublist" begin

text \<open>
  The emergency exit over a direct pool (\<open>libs/execution/src/direct-pool/dry-run.ts\<close>): choosing the adapter, the
  legacy message compiled from the instructions, the unsigned transaction the executor would sign and the
  classification of its simulation. The adapters are the argument the source takes; each reading of accounts is a call of
  the world outside, whose answer depends on how many came before. A simulation error is its text.
\<close>

section \<open>Adapters\<close>

record 'd DirectPoolAdapter =
  da_program :: DirectPoolProgram
  da_programId :: string
  da_requiredAccounts :: "DirectPoolHop \<Rightarrow> pool_error + string list"
  da_dependentAccounts :: "DirectPoolHop \<Rightarrow> RawAccount \<Rightarrow> RawAccount option list \<Rightarrow> pool_error + string list"
  da_decode :: "DirectPoolHop \<Rightarrow> RawAccount option list \<Rightarrow> int \<Rightarrow> pool_error + 'd DecodedPoolState"
  da_quote :: "'d DecodedPoolState \<Rightarrow> mint_address \<Rightarrow> int \<Rightarrow> pool_error + PoolQuote"
  da_swapInstruction :: "'d SwapBuildInput \<Rightarrow> pool_error + DirectPoolInstruction"

definition adapterForHop :: "DirectPoolHop \<Rightarrow> 'd DirectPoolAdapter list \<Rightarrow> 'd DirectPoolAdapter option" where
  "adapterForHop hop adapters = find (\<lambda>a. da_program a = hop_program hop \<and> da_programId a = hop_programId hop) adapters"

section \<open>Instructions around the swap\<close>

definition COMPUTE_BUDGET_PROGRAM :: string where
  "COMPUTE_BUDGET_PROGRAM = ''ComputeBudget111111111111111111111111111111''"

definition createAtaIdempotentInstruction :: "string \<Rightarrow> string \<Rightarrow> string \<Rightarrow> string \<Rightarrow> string \<Rightarrow> DirectPoolInstruction" where
  "createAtaIdempotentInstruction payer ata wallet mnt tokenProgram = \<lparr>ix_programId = ASSOCIATED_TOKEN_PROGRAM_ID,
     ix_accounts = [meta payer True True, meta ata False True, meta wallet False False, meta mnt False False,
       meta SYSTEM_PROGRAM False False, meta tokenProgram False False], ix_data = [1]\<rparr>"

definition computeBudgetInstructions :: "int \<Rightarrow> int \<Rightarrow> pool_error + DirectPoolInstruction list" where
  "computeBudgetInstructions unitLimit unitPrice = ebind (u64le unitPrice) (\<lambda>p. Inr [
     \<lparr>ix_programId = COMPUTE_BUDGET_PROGRAM, ix_accounts = [], ix_data = [2] @ u32le unitLimit\<rparr>,
     \<lparr>ix_programId = COMPUTE_BUDGET_PROGRAM, ix_accounts = [], ix_data = [3] @ p\<rparr>])"

section \<open>Compiling a legacy message\<close>

definition PLACEHOLDER_BLOCKHASH :: string where
  "PLACEHOLDER_BLOCKHASH = replicate 32 (CHR ''1'')"

text \<open>The map from keys to privileges, in the order of first use; privileges only accumulate.\<close>

type_synonym metas = "(string \<times> bool \<times> bool) list"

definition merge_meta :: "metas \<Rightarrow> AccountMeta \<Rightarrow> metas" where
  "merge_meta ms m = (case map_of ms (am_pubkey m) of
       Some (s, w) \<Rightarrow> AList.update (am_pubkey m) (s \<or> isSigner m, w \<or> isWritable m) ms
     | None \<Rightarrow> ms @ [(am_pubkey m, isSigner m, isWritable m)])"

definition instruction_metas :: "DirectPoolInstruction \<Rightarrow> AccountMeta list" where
  "instruction_metas ix = ix_accounts ix @ [meta (ix_programId ix) False False]"

definition message_metas :: "string \<Rightarrow> DirectPoolInstruction list \<Rightarrow> AccountMeta list" where
  "message_metas payer ixs = meta payer True True # concat (map instruction_metas ixs)"

definition ordered_keys :: "metas \<Rightarrow> metas" where
  "ordered_keys all = filter (\<lambda>(k, s, w). s \<and> w) all @ filter (\<lambda>(k, s, w). s \<and> \<not> w) all @
     filter (\<lambda>(k, s, w). \<not> s \<and> w) all @ filter (\<lambda>(k, s, w). \<not> s \<and> \<not> w) all"

fun index_in :: "string list \<Rightarrow> string \<Rightarrow> nat" where
  "index_in [] k = 0"
| "index_in (x # xs) k = (if x = k then 0 else Suc (index_in xs k))"

definition compileLegacyMessage :: "string \<Rightarrow> DirectPoolInstruction list \<Rightarrow> string \<Rightarrow> DecodedMessage" where
  "compileLegacyMessage payer ixs blockhash = (let
     keys = ordered_keys (foldl merge_meta [] (message_metas payer ixs));
     index = index_in (map fst keys)
   in \<lparr>version = legacy,
       numRequiredSignatures = length (filter (\<lambda>(k, s, w). s) keys),
       numReadonlySigned = length (filter (\<lambda>(k, s, w). s \<and> \<not> w) keys),
       numReadonlyUnsigned = length (filter (\<lambda>(k, s, w). \<not> s \<and> \<not> w) keys),
       staticAccountKeys = map fst keys, recentBlockhash = blockhash,
       instructions = map (\<lambda>ix. \<lparr>programIdIndex = index (ix_programId ix),
         accountIndexes = map (\<lambda>a. index (am_pubkey a)) (ix_accounts ix), data = ix_data ix\<rparr>) ixs,
       addressTableLookups = []\<rparr>)"

section \<open>The unsigned transaction\<close>

datatype 'e build_error = BUILD_POOL pool_error | BUILD_RPC 'e | BUILD_CODEC codec_error

definition build_step :: "pool_error + 'a \<Rightarrow> ('s, 'e build_error, 'a) prog" where
  "build_step r = (case r of Inl e \<Rightarrow> throw (BUILD_POOL e) | Inr a \<Rightarrow> return a)"

text \<open>The same program with its errors renamed; and the outcome of a program as a value.\<close>

definition with_error :: "('e \<Rightarrow> 'f) \<Rightarrow> ('s, 'e, 'a) prog \<Rightarrow> ('s, 'f, 'a) prog" where
  "with_error f m = (\<lambda>s. case m s of (Inl e, t) \<Rightarrow> (Inl (f e), t) | (Inr a, t) \<Rightarrow> (Inr a, t))"

definition attempt :: "('s, 'e, 'a) prog \<Rightarrow> ('s, 'f, 'e + 'a) prog" where
  "attempt m = (\<lambda>s. case m s of (r, t) \<Rightarrow> (Inr r, t))"

type_synonym ('s, 'e) account_reader = "string list \<Rightarrow> ('s, 'e, slot \<times> AccountSnapshot option list) prog"

record ('s, 'e) EmergencyBuildInput =
  bi_hop :: DirectPoolHop
  bi_user :: string
  bi_now :: instant
  bi_userSource :: "string option"
  bi_tokenAccountFor :: "(string \<Rightarrow> string \<Rightarrow> pool_error + string) option"
  bi_recentBlockhash :: "string option"
  bi_amountIn :: int
  bi_slippageBps :: int
  bi_policy :: EmergencyRoutePolicy
  bi_reader :: "('s, 'e) account_reader"

record 'd EmergencyBuild =
  eb_adapter :: "'d DirectPoolAdapter"
  eb_state :: "'d DecodedPoolState"
  eb_quote :: PoolQuote
  eb_userSource :: string
  eb_userDestination :: string
  eb_minimumAmountOut :: int
  eb_message :: DecodedMessage
  eb_unsignedTransaction :: bytes
  eb_accountsSlot :: slot

definition token_account_for :: "(bytes \<Rightarrow> bytes) \<Rightarrow> ('s, 'e) EmergencyBuildInput \<Rightarrow> string \<Rightarrow> string \<Rightarrow> pool_error + string" where
  "token_account_for sha inp mnt prog = (case bi_tokenAccountFor inp of
       Some f \<Rightarrow> f mnt prog | None \<Rightarrow> associatedTokenAddress sha (bi_user inp) mnt prog)"

text \<open>The instructions of the transaction: compute budget, destination account, swap.\<close>

definition exit_instructions :: "'d DirectPoolAdapter \<Rightarrow> ('s, 'e) EmergencyBuildInput \<Rightarrow> 'd DecodedPoolState \<Rightarrow> PoolQuote \<Rightarrow>
    string \<Rightarrow> string \<Rightarrow> string \<Rightarrow> int \<Rightarrow> pool_error + DirectPoolInstruction list" where
  "exit_instructions ad inp st q outputProgram userSource userDestination minimumAmountOut =
     ebind (computeBudgetInstructions (computeUnitLimit (bi_policy inp)) (computeUnitPriceMicroLamports (bi_policy inp))) (\<lambda>budget.
     ebind (da_swapInstruction ad \<lparr>sb_state = st, sb_user = bi_user inp, sb_inputMint = hop_inputMint (bi_hop inp),
         sb_userSource = userSource, sb_userDestination = userDestination, sb_amountIn = bi_amountIn inp,
         sb_minimumAmountOut = minimumAmountOut\<rparr>) (\<lambda>swap.
       Inr (budget @ [createAtaIdempotentInstruction (bi_user inp) userDestination (bi_user inp) (pq_outputMint q) outputProgram, swap])))"

text \<open>The first half: fresh accounts, decoded and quoted. The second half needs no more of the world.\<close>

definition refresh_pool :: "'d DirectPoolAdapter list \<Rightarrow> ('s, 'e) EmergencyBuildInput \<Rightarrow>
    ('s, 'e build_error, 'd DirectPoolAdapter \<times> 'd DecodedPoolState \<times> PoolQuote \<times> slot) prog" where
  "refresh_pool adapters inp = (let hop = bi_hop inp in
     bind (build_step (need_some (POOL_DECODE (hop_program hop) ''no local adapter'') (adapterForHop hop adapters))) (\<lambda>ad.
     bind (build_step (da_requiredAccounts ad hop)) (\<lambda>required.
     bind (with_error BUILD_RPC (bi_reader inp required)) (\<lambda>(slot1, accs1).
     bind (build_step (need_some (POOL_DECODE (hop_program hop) ''pool does not exist'') (acc_at accs1 0))) (\<lambda>pool.
     bind (build_step (da_dependentAccounts ad hop pool (drop 1 accs1))) (\<lambda>dependent.
     bind (if dependent \<noteq> [] then with_error BUILD_RPC (bi_reader inp dependent) else return (slot1, [])) (\<lambda>(slot2, accs2).
     bind (build_step (da_decode ad hop ([Some pool] @ drop 1 accs1 @ accs2) (bi_now inp))) (\<lambda>st.
     bind (build_step (da_quote ad st (hop_inputMint hop) (bi_amountIn inp))) (\<lambda>q.
       return (ad, st, q, max slot1 slot2))))))))))"

definition assemble_exit :: "(bytes \<Rightarrow> bytes) \<Rightarrow> ('s, 'e) EmergencyBuildInput \<Rightarrow> 'd DirectPoolAdapter \<Rightarrow> 'd DecodedPoolState \<Rightarrow>
    PoolQuote \<Rightarrow> slot \<Rightarrow> ('s, 'e build_error, 'd EmergencyBuild) prog" where
  "assemble_exit sha inp ad st q accountsSlot = (let
     mnt = hop_inputMint (bi_hop inp);
     inputProgram = (if mnt = mintA st then tokenProgramA st else tokenProgramB st);
     outputProgram = (if mnt = mintA st then tokenProgramB st else tokenProgramA st);
     minOut = slippage_floor (pq_expectedOutputAmount q) (bi_slippageBps inp)
   in bind (build_step (case bi_userSource inp of Some u \<Rightarrow> Inr u | None \<Rightarrow> token_account_for sha inp mnt inputProgram)) (\<lambda>src.
     bind (build_step (token_account_for sha inp (pq_outputMint q) outputProgram)) (\<lambda>dest.
     bind (build_step (exit_instructions ad inp st q outputProgram src dest minOut)) (\<lambda>ixs.
     let msg = compileLegacyMessage (bi_user inp) ixs (default PLACEHOLDER_BLOCKHASH (bi_recentBlockhash inp))
     in case encodeTransaction [None] msg of
          Inl e \<Rightarrow> throw (BUILD_CODEC e)
        | Inr tx \<Rightarrow> return \<lparr>eb_adapter = ad, eb_state = st, eb_quote = q, eb_userSource = src, eb_userDestination = dest,
            eb_minimumAmountOut = minOut, eb_message = msg, eb_unsignedTransaction = tx, eb_accountsSlot = accountsSlot\<rparr>))))"

definition buildEmergencyExit :: "(bytes \<Rightarrow> bytes) \<Rightarrow> 'd DirectPoolAdapter list \<Rightarrow> ('s, 'e) EmergencyBuildInput \<Rightarrow>
    ('s, 'e build_error, 'd EmergencyBuild) prog" where
  "buildEmergencyExit sha adapters inp =
     bind (refresh_pool adapters inp) (\<lambda>(ad, st, q, accountsSlot). assemble_exit sha inp ad st q accountsSlot)"

section \<open>The dry run\<close>

datatype EmergencyDryRunClass =
    DR_OK | DR_OK_UNFUNDED | DR_SLIPPAGE_EXCEEDED | DR_PAYER_UNFUNDED | DR_SOURCE_ACCOUNT_MISSING | DR_POOL_REJECTED
  | DR_DECODE_FAILED | DR_UNSUPPORTED_PROGRAM | DR_RPC_ERROR

text \<open>The \<open>SimulationOutcome\<close> of the client, with the text of its error.\<close>

record SimulationRun =
  sr_slot :: slot
  sr_err :: "string option"
  sr_logs :: "string list"
  sr_accounts :: "AccountSnapshot option list"
  sr_unitsConsumed :: "int option"

definition ascii_lower :: "char \<Rightarrow> char" where
  "ascii_lower c = (let k = of_char c :: nat in if 65 \<le> k \<and> k \<le> 90 then char_of (k + 32) else c)"

definition contains_ci :: "string \<Rightarrow> string \<Rightarrow> bool" where
  "contains_ci t pat = sublist (map ascii_lower pat) (map ascii_lower t)"

definition word_char :: "char \<Rightarrow> bool" where
  "word_char c = (let k = of_char c :: nat in 48 \<le> k \<and> k \<le> 57 \<or> 65 \<le> k \<and> k \<le> 90 \<or> 97 \<le> k \<and> k \<le> 122 \<or> k = 95)"

text \<open>The pattern, ending at a word boundary: \<open>/...0x1\b/i\<close>.\<close>

fun contains_word :: "string \<Rightarrow> string \<Rightarrow> bool" where
  "contains_word pat [] \<longleftrightarrow> pat = []"
| "contains_word pat (c # cs) \<longleftrightarrow>
     (map ascii_lower (take (length pat) (c # cs)) = map ascii_lower pat \<and>
      (case drop (length pat) (c # cs) of [] \<Rightarrow> True | d # _ \<Rightarrow> \<not> word_char d)) \<or> contains_word pat cs"

definition INSUFFICIENT_FUNDS :: "string \<Rightarrow> bool" where
  "INSUFFICIENT_FUNDS t \<longleftrightarrow> contains_ci t ''insufficient funds'' \<or> contains_ci t ''Error: insufficient funds'' \<or>
     contains_word ''custom program error: 0x1'' t"

definition SOURCE_MISSING :: "string \<Rightarrow> bool" where
  "SOURCE_MISSING t \<longleftrightarrow> contains_ci t ''AccountNotInitialized'' \<or> contains_ci t ''caused by account: input_token_account'' \<or>
     contains_ci t ''caused by account: user_source'' \<or> contains_ci t ''caused by account: source'' \<or>
     contains_ci t ''Invalid SPL token program''"

text \<open>What the simulated destination gained, when it could be read.\<close>

definition simulated_output :: "'d EmergencyBuild \<Rightarrow> SimulationRun \<Rightarrow> int option \<Rightarrow> int option" where
  "simulated_output b sim before =
     (case find (\<lambda>a. map_option address a = Some (eb_userDestination b)) (sr_accounts sim) of
        Some (Some a) \<Rightarrow> (case decodeTokenAccount (account_data a) of
            None \<Rightarrow> None
          | Some t \<Rightarrow> Some (case before of None \<Rightarrow> ta_amount t | Some v \<Rightarrow> ta_amount t - v))
      | _ \<Rightarrow> None)"

definition classifyDryRun ::
  "'d EmergencyBuild \<Rightarrow> SimulationRun \<Rightarrow> int option \<Rightarrow> int \<Rightarrow> EmergencyDryRunClass \<times> bool \<times> int option" where
  "classifyDryRun b sim before slipBps = (let
     invoked = list_ex (\<lambda>l. prefix (''Program '' @ da_programId (eb_adapter b) @ '' invoke'') l) (sr_logs sim)
   in case sr_err sim of
        None \<Rightarrow> (case simulated_output b sim before of
            Some out \<Rightarrow>
              if out < slippage_floor (pq_expectedOutputAmount (eb_quote b)) slipBps then (DR_SLIPPAGE_EXCEEDED, False, Some out)
              else (DR_OK, True, Some out)
          | None \<Rightarrow> (DR_OK, True, None))
      | Some errText \<Rightarrow>
          let insufficient = list_ex INSUFFICIENT_FUNDS (sr_logs sim) \<or> INSUFFICIENT_FUNDS errText in
          if filter (\<lambda>c. c \<noteq> CHR 0x22) errText = ''AccountNotFound'' \<and> sr_logs sim = [] then (DR_PAYER_UNFUNDED, False, None)
          else if invoked \<and> insufficient then (DR_OK_UNFUNDED, True, None)
          else if invoked \<and> list_ex SOURCE_MISSING (sr_logs sim) then (DR_SOURCE_ACCOUNT_MISSING, False, None)
          else (DR_POOL_REJECTED, False, None))"

record 'd DryRunResult =
  dry_class :: EmergencyDryRunClass
  dry_ok :: bool
  dry_at :: instant
  dry_slot :: "slot option"
  dry_quote :: "PoolQuote option"
  dry_simulatedOutput :: "int option"
  dry_tradeable :: "bool option"
  dry_unitsConsumed :: "int option"
  dry_logsTail :: "string list"
  dry_build :: "'d EmergencyBuild option"

definition dry_base :: "instant \<Rightarrow> 'd DryRunResult" where
  "dry_base now = \<lparr>dry_class = DR_RPC_ERROR, dry_ok = False, dry_at = now, dry_slot = None, dry_quote = None,
     dry_simulatedOutput = None, dry_tradeable = None, dry_unitsConsumed = None, dry_logsTail = [], dry_build = None\<rparr>"

text \<open>The destination's balance before: zero when it does not exist, unknown when it cannot be decoded.\<close>

definition balance_before :: "AccountSnapshot option list \<Rightarrow> int option" where
  "balance_before accounts = (case acc_at accounts 0 of
       None \<Rightarrow> Some 0 | Some a \<Rightarrow> map_option ta_amount (decodeTokenAccount (account_data a)))"

definition simulate_exit :: "('s, 'e) EmergencyBuildInput \<Rightarrow> (bytes \<Rightarrow> string list \<Rightarrow> ('s, 'e, SimulationRun) prog) \<Rightarrow>
    'd EmergencyBuild \<Rightarrow> ('s, 'e, 'd DryRunResult) prog" where
  "simulate_exit inp simulate b =
     bind (bi_reader inp [eb_userDestination b]) (\<lambda>(slot', pre).
     bind (simulate (eb_unsignedTransaction b) [eb_userDestination b]) (\<lambda>sim.
     let (cls, ok', out) = classifyDryRun b sim (balance_before pre) (bi_slippageBps inp); n = length (sr_logs sim) in
     return ((dry_base (bi_now inp))\<lparr>dry_class := cls, dry_ok := ok', dry_slot := Some (sr_slot sim), dry_quote := Some (eb_quote b),
       dry_simulatedOutput := out, dry_tradeable := Some True, dry_unitsConsumed := sr_unitsConsumed sim,
       dry_logsTail := drop (n - 6) (sr_logs sim), dry_build := Some b\<rparr>)))"

text \<open>The dry run throws nothing: the type of its errors is left open.\<close>

definition runEmergencyDryRun :: "(bytes \<Rightarrow> bytes) \<Rightarrow> 'd DirectPoolAdapter list \<Rightarrow> ('s, 'e) EmergencyBuildInput \<Rightarrow>
    (bytes \<Rightarrow> string list \<Rightarrow> ('s, 'e, SimulationRun) prog) \<Rightarrow> ('s, 'f, 'd DryRunResult) prog" where
  "runEmergencyDryRun sha adapters inp simulate = (let base = dry_base (bi_now inp) in
     if adapterForHop (bi_hop inp) adapters = None then return (base\<lparr>dry_class := DR_UNSUPPORTED_PROGRAM\<rparr>)
     else bind (attempt (buildEmergencyExit sha adapters inp)) (\<lambda>built. case built of
         Inl (BUILD_POOL (POOL_DECODE p t)) \<Rightarrow> return (base\<lparr>dry_class := DR_DECODE_FAILED\<rparr>)
       | Inl _ \<Rightarrow> return base
       | Inr b \<Rightarrow>
           if \<not> tradeable (eb_state b)
           then return (base\<lparr>dry_class := DR_POOL_REJECTED, dry_slot := Some (eb_accountsSlot b), dry_quote := Some (eb_quote b),
             dry_tradeable := Some False, dry_build := Some b\<rparr>)
           else bind (attempt (simulate_exit inp simulate b)) (\<lambda>r. case r of
               Inr result \<Rightarrow> return result
             | Inl _ \<Rightarrow> return (base\<lparr>dry_slot := Some (eb_accountsSlot b), dry_quote := Some (eb_quote b), dry_tradeable := Some True,
                 dry_build := Some b\<rparr>))))"

section \<open>The compiled message grants what was asked\<close>

text \<open>The privileges a list of metas asks for a key: the union over its uses.\<close>

definition requested :: "AccountMeta list \<Rightarrow> string \<Rightarrow> (bool \<times> bool) option" where
  "requested ms k = (if \<exists>m \<in> set ms. am_pubkey m = k
     then Some (\<exists>m \<in> set ms. am_pubkey m = k \<and> isSigner m, \<exists>m \<in> set ms. am_pubkey m = k \<and> isWritable m) else None)"

text \<open>How the runtime reads the header of a legacy message at an index.\<close>

definition signs_at :: "DecodedMessage \<Rightarrow> nat \<Rightarrow> bool" where
  "signs_at m i \<longleftrightarrow> i < numRequiredSignatures m"

definition writes_at :: "DecodedMessage \<Rightarrow> nat \<Rightarrow> bool" where
  "writes_at m i \<longleftrightarrow> (if i < numRequiredSignatures m then i < numRequiredSignatures m - numReadonlySigned m
     else i < length (staticAccountKeys m) - numReadonlyUnsigned m)"

lemma map_of_merge_meta:
  "map_of (merge_meta ms m) = (map_of ms)(am_pubkey m \<mapsto> (case map_of ms (am_pubkey m) of
     Some (s, w) \<Rightarrow> (s \<or> isSigner m, w \<or> isWritable m) | None \<Rightarrow> (isSigner m, isWritable m)))"
  by (auto simp: merge_meta_def update_conv' map_add_def fun_eq_iff split: option.split)

lemma distinct_merge_meta: "distinct (map fst ms) \<Longrightarrow> distinct (map fst (merge_meta ms m))"
  by (auto simp: merge_meta_def distinct_update map_of_eq_None_iff split: option.split)

lemma distinct_metas: "distinct (map fst (foldl merge_meta [] ms))"
  by (induction ms rule: rev_induct) (simp_all add: distinct_merge_meta)

lemma map_of_metas: "map_of (foldl merge_meta [] ms) = requested ms"
proof (induction ms rule: rev_induct)
  case (snoc m ms)
  then show ?case by (auto simp: map_of_merge_meta requested_def fun_eq_iff)
qed (simp add: requested_def fun_eq_iff)

lemma mset_ordered_keys: "mset (ordered_keys all) = mset all"
proof (induction all)
  case (Cons a all)
  then show ?case by (cases a) (auto simp: ordered_keys_def)
qed (simp add: ordered_keys_def)

lemma ordered_keys_metas:
  assumes "distinct (map fst all)"
  shows "distinct (map fst (ordered_keys all))" and "map_of (ordered_keys all) = map_of all"
proof -
  have "mset (map fst (ordered_keys all)) = mset (map fst all)" by (simp add: mset_ordered_keys)
  then show d: "distinct (map fst (ordered_keys all))" using assms mset_eq_imp_distinct_iff by blast
  have "set (ordered_keys all) = set all" using mset_ordered_keys mset_eq_setD by blast
  then show "map_of (ordered_keys all) = map_of all" using map_of_inject_set [OF d assms] by simp
qed

lemma index_in_found: "k \<in> set xs \<Longrightarrow> index_in xs k < length xs \<and> xs ! index_in xs k = k"
  by (induction xs) auto

lemma blocks_at:
  fixes A B C D :: "(string \<times> bool \<times> bool) list"
  assumes "\<And>x. x \<in> set A \<Longrightarrow> fst (snd x) \<and> snd (snd x)" and "\<And>x. x \<in> set B \<Longrightarrow> fst (snd x) \<and> \<not> snd (snd x)"
    and "\<And>x. x \<in> set C \<Longrightarrow> \<not> fst (snd x) \<and> snd (snd x)" and "\<And>x. x \<in> set D \<Longrightarrow> \<not> fst (snd x) \<and> \<not> snd (snd x)"
    and "i < length (A @ B @ C @ D)"
  shows "fst (snd ((A @ B @ C @ D) ! i)) = (i < length A + length B)"
    and "snd (snd ((A @ B @ C @ D) ! i)) = (if i < length A + length B then i < length A else i < length A + length B + length C)"
proof -
  consider (a) "i < length A" | (b) "\<not> i < length A" "i - length A < length B"
    | (c) "\<not> i < length A" "\<not> i - length A < length B" "i - length A - length B < length C"
    | (d) "\<not> i < length A" "\<not> i - length A < length B" "\<not> i - length A - length B < length C"
        "i - length A - length B - length C < length D"
    using assms(5) by force
  then have "fst (snd ((A @ B @ C @ D) ! i)) = (i < length A + length B) \<and>
    snd (snd ((A @ B @ C @ D) ! i)) = (if i < length A + length B then i < length A else i < length A + length B + length C)"
  proof cases
    case a then show ?thesis using assms(1) [OF nth_mem [of i A]] by (simp add: nth_append)
  next
    case b then show ?thesis using assms(2) [OF nth_mem [OF b(2)]] by (auto simp: nth_append)
  next
    case c then show ?thesis using assms(3) [OF nth_mem [OF c(3)]] by (auto simp: nth_append)
  next
    case d then show ?thesis using assms(4) [OF nth_mem [OF d(4)]] by (auto simp: nth_append)
  qed
  then show "fst (snd ((A @ B @ C @ D) ! i)) = (i < length A + length B)"
    and "snd (snd ((A @ B @ C @ D) ! i)) = (if i < length A + length B then i < length A else i < length A + length B + length C)"
    by simp_all
qed

lemma ordered_counts:
  fixes all :: metas
  defines "n p \<equiv> length (filter p all)"
  shows "length (filter (\<lambda>(k, s, w). s) (ordered_keys all)) = n (\<lambda>(k, s, w). s \<and> w) + n (\<lambda>(k, s, w). s \<and> \<not> w)"
    and "length (filter (\<lambda>(k, s, w). s \<and> \<not> w) (ordered_keys all)) = n (\<lambda>(k, s, w). s \<and> \<not> w)"
    and "length (filter (\<lambda>(k, s, w). \<not> s \<and> \<not> w) (ordered_keys all)) = n (\<lambda>(k, s, w). \<not> s \<and> \<not> w)"
  unfolding n_def by (induction all; auto simp: ordered_keys_def split: prod.splits)+

lemma length_ordered_keys:
  "length (ordered_keys all) = length (filter (\<lambda>(k, s, w). s \<and> w) all) + length (filter (\<lambda>(k, s, w). s \<and> \<not> w) all) +
     length (filter (\<lambda>(k, s, w). \<not> s \<and> w) all) + length (filter (\<lambda>(k, s, w). \<not> s \<and> \<not> w) all)"
  by (simp add: ordered_keys_def)

text \<open>The header, read back at an index, is the privilege pair at that index.\<close>

lemma header_reads_back:
  assumes "i < length (ordered_keys all)"
  shows "fst (snd (ordered_keys all ! i)) = (i < length (filter (\<lambda>(k, s, w). s) (ordered_keys all)))"
    and "snd (snd (ordered_keys all ! i)) =
      (if i < length (filter (\<lambda>(k, s, w). s) (ordered_keys all))
       then i < length (filter (\<lambda>(k, s, w). s) (ordered_keys all)) - length (filter (\<lambda>(k, s, w). s \<and> \<not> w) (ordered_keys all))
       else i < length (ordered_keys all) - length (filter (\<lambda>(k, s, w). \<not> s \<and> \<not> w) (ordered_keys all)))"
proof -
  let ?A = "filter (\<lambda>(k, s, w). s \<and> w) all" and ?B = "filter (\<lambda>(k, s, w). s \<and> \<not> w) all"
  let ?C = "filter (\<lambda>(k, s, w). \<not> s \<and> w) all" and ?D = "filter (\<lambda>(k, s, w). \<not> s \<and> \<not> w) all"
  have o: "ordered_keys all = ?A @ ?B @ ?C @ ?D" by (simp add: ordered_keys_def)
  have i: "i < length (?A @ ?B @ ?C @ ?D)" using assms by (simp add: o)
  note b = blocks_at [of ?A ?B ?C ?D, OF _ _ _ _ i]
  show "fst (snd (ordered_keys all ! i)) = (i < length (filter (\<lambda>(k, s, w). s) (ordered_keys all)))"
    unfolding ordered_counts unfolding o by (rule b(1)) auto
  have "snd (snd ((?A @ ?B @ ?C @ ?D) ! i)) =
      (if i < length ?A + length ?B then i < length ?A else i < length ?A + length ?B + length ?C)"
    by (rule b(2)) auto
  then show "snd (snd (ordered_keys all ! i)) =
      (if i < length (filter (\<lambda>(k, s, w). s) (ordered_keys all))
       then i < length (filter (\<lambda>(k, s, w). s) (ordered_keys all)) - length (filter (\<lambda>(k, s, w). s \<and> \<not> w) (ordered_keys all))
       else i < length (ordered_keys all) - length (filter (\<lambda>(k, s, w). \<not> s \<and> \<not> w) (ordered_keys all)))"
    unfolding ordered_counts length_ordered_keys unfolding o by simp
qed

lemma message_keys:
  fixes payer ixs bh
  defines "m \<equiv> compileLegacyMessage payer ixs bh" and "ms \<equiv> message_metas payer ixs"
  shows "distinct (staticAccountKeys m)" and "set (staticAccountKeys m) = am_pubkey ` set ms"
    and "i < length (staticAccountKeys m) \<Longrightarrow> requested ms (staticAccountKeys m ! i) = Some (signs_at m i, writes_at m i)"
proof -
  let ?ks = "ordered_keys (foldl merge_meta [] ms)"
  have s: "staticAccountKeys m = map fst ?ks" "numRequiredSignatures m = length (filter (\<lambda>(k, s, w). s) ?ks)"
    "numReadonlySigned m = length (filter (\<lambda>(k, s, w). s \<and> \<not> w) ?ks)"
    "numReadonlyUnsigned m = length (filter (\<lambda>(k, s, w). \<not> s \<and> \<not> w) ?ks)"
    by (simp_all add: m_def ms_def compileLegacyMessage_def Let_def)
  note d = ordered_keys_metas(1) [OF distinct_metas] and r = ordered_keys_metas(2) [OF distinct_metas, unfolded map_of_metas]
  show "distinct (staticAccountKeys m)" unfolding s using d .
  have "fst ` set ?ks = dom (requested ms)" by (metis dom_map_of_conv_image_fst r)
  also have "\<dots> = am_pubkey ` set ms" by (auto simp: requested_def split: if_splits)
  finally show "set (staticAccountKeys m) = am_pubkey ` set ms" by (simp add: s)
  assume "i < length (staticAccountKeys m)"
  then have i: "i < length ?ks" by (simp add: s)
  then have "map_of ?ks (fst (?ks ! i)) = Some (snd (?ks ! i))" using d by (simp add: map_of_eq_Some_iff)
  then show "requested ms (staticAccountKeys m ! i) = Some (signs_at m i, writes_at m i)"
    using i header_reads_back [OF i] by (simp add: r s signs_at_def writes_at_def prod_eq_iff)
qed

lemma merge_keeps_head: "\<exists>ys. foldl merge_meta ((payer, True, True) # xs) ms = (payer, True, True) # ys"
proof (induction ms arbitrary: xs)
  case (Cons m ms)
  have "\<exists>zs. merge_meta ((payer, True, True) # xs) m = (payer, True, True) # zs"
    by (auto simp: merge_meta_def split: option.split)
  with Cons.IH show ?case by fastforce
qed simp

lemma payer_first:
  "staticAccountKeys (compileLegacyMessage payer ixs bh) \<noteq> [] \<and> staticAccountKeys (compileLegacyMessage payer ixs bh) ! 0 = payer"
proof -
  obtain ys where "foldl merge_meta ((payer, True, True) # []) (concat (map instruction_metas ixs)) = (payer, True, True) # ys"
    using merge_keeps_head by blast
  then show ?thesis
    by (simp add: compileLegacyMessage_def message_metas_def merge_meta_def meta_def ordered_keys_def Let_def)
qed

definition resolves :: "DecodedMessage \<Rightarrow> DirectPoolInstruction \<Rightarrow> CompiledInstruction \<Rightarrow> bool" where
  "resolves m ix c \<longleftrightarrow> (let keys = staticAccountKeys m in
     programIdIndex c < length keys \<and> keys ! programIdIndex c = ix_programId ix \<and>
     (\<forall>i \<in> set (accountIndexes c). i < length keys) \<and> map ((!) keys) (accountIndexes c) = map am_pubkey (ix_accounts ix) \<and>
     data c = ix_data ix)"

text \<open>
  C28: the message the emergency route signs grants exactly what its instructions ask. For every payer and every list
  of instructions the compiled legacy message has each key once, the payer first; every compiled instruction resolves,
  index by index, to the program and the accounts it was built with and carries its data; and at every index the
  privileges the runtime reads from the header (signer, writable) are the union of those requested for that
  key: none is lost when an account is used twice, and none is gained by the order of the keys.
\<close>

theorem message_grants_exactly:
  "let m = compileLegacyMessage payer ixs bh; keys = staticAccountKeys m; ms = message_metas payer ixs in
     distinct keys \<and> keys \<noteq> [] \<and> keys ! 0 = payer \<and> set keys = am_pubkey ` set ms \<and>
     list_all2 (resolves m) ixs (instructions m) \<and>
     list_all (\<lambda>i. requested ms (keys ! i) = Some (signs_at m i, writes_at m i)) [0..<length keys]"
proof -
  let ?m = "compileLegacyMessage payer ixs bh"
  let ?k = "staticAccountKeys ?m"
  note k = message_keys [where payer = payer and ixs = ixs and bh = bh]
  have "list_all2 (resolves ?m) ixs (instructions ?m)"
  proof -
    have "instructions ?m = map (\<lambda>ix. \<lparr>programIdIndex = index_in ?k (ix_programId ix),
        accountIndexes = map (\<lambda>a. index_in ?k (am_pubkey a)) (ix_accounts ix), data = ix_data ix\<rparr>) ixs"
      by (simp add: compileLegacyMessage_def Let_def)
    moreover have "ix_programId ix \<in> set ?k \<and> (\<forall>a \<in> set (ix_accounts ix). am_pubkey a \<in> set ?k)" if "ix \<in> set ixs" for ix
      using that unfolding k(2) by (force simp: message_metas_def instruction_metas_def meta_def image_iff)
    ultimately show ?thesis
      by (auto simp: list.rel_map resolves_def Let_def index_in_found intro!: list.rel_refl_strong)
  qed
  then show ?thesis using k payer_first [of payer ixs bh] by (auto simp: Let_def list_all_iff)
qed

end
