(* ===== verification/DirectExit.thy ===== *)
theory DirectExit imports LiveAdapter EmergencyRoute begin

text \<open>
  The provider-independent emergency exit (\<open>libs/execution/src/adapter/direct-pool-adapter.ts\<close>): the route is refreshed
  and built locally, then checked, simulated, signed, journaled, gated and sent over the direct RPC path. As in
  \<open>LiveAdapter\<close> the options are effects on the caller's state; detail texts and fee figures are left out.
\<close>

section \<open>Options and locals\<close>

record ('s, 'd) DirectPoolEmergencyOptions =
  dp_latestBlockhash :: "('s, string \<times> int) eff"
  dp_send :: "bytes \<Rightarrow> ('s, tx_signature) eff"
  dp_accounts :: "string list \<Rightarrow> ('s, slot \<times> AccountSnapshot option list) eff"
  dp_simulate :: "bytes \<Rightarrow> string list \<Rightarrow> ('s, SimulationOutcome) eff"
  dp_label :: string
  dp_publicKey :: string
  dp_sign :: "bytes \<Rightarrow> uuid \<Rightarrow> uuid \<Rightarrow> sha256_hex \<Rightarrow> ('s, tx_signature) eff"
  dp_now :: "('s, instant) eff"
  dp_newId :: "('s, uuid) eff"
  dp_programs :: "string list"
  dp_recipients :: "string list"
  dp_maxSolDebitLamports :: int
  dp_policy :: EmergencyRoutePolicy
  dp_adapters :: "'d DirectPoolAdapter list"
  dp_journal :: "Order \<Rightarrow> Attempt \<Rightarrow> ('s, unit) eff"
  dp_beforeSubmit :: "ExecutionBounds \<Rightarrow> ('s, string option) eff"
  dp_awaitConfirmed :: "tx_signature \<Rightarrow> int option \<Rightarrow> ('s, slot option) eff"
  dp_awaitFinalized :: "tx_signature \<Rightarrow> int option \<Rightarrow> ('s, slot option) eff"
  dp_proveDead :: "tx_signature \<Rightarrow> int option \<Rightarrow> ('s, (bool \<times> bool) option) eff"
  dp_tokenAccountFor :: "(string \<Rightarrow> string \<Rightarrow> pool_error + string) option"
  dp_sha :: "bytes \<Rightarrow> sha256_hex"
  dp_sha256 :: "bytes \<Rightarrow> bytes"

record DirectPoolEmergencyInput =
  di_bounds :: ExecutionBounds
  di_hop :: DirectPoolHop
  di_fallbackFrom :: string

definition DIRECT_MEMO_PROGRAM :: string where
  "DIRECT_MEMO_PROGRAM = ''MemoSq4gqABAXKb96qnH8TysNcWxMyWCqXgDLGmfcHr''"

section \<open>Results\<close>

definition fallback_note :: "DirectPoolEmergencyInput \<Rightarrow> string" where
  "fallback_note inp = ''FALLBACK_FROM:'' @ di_fallbackFrom inp"

definition direct_result ::
  "('s, 'd) DirectPoolEmergencyOptions \<Rightarrow> live_locals \<Rightarrow> Quote option \<Rightarrow> sha256_hex option \<Rightarrow> tx_signature option \<Rightarrow>
     uuid option \<Rightarrow> string list \<Rightarrow> ('s, ExecutionResult) eff" where
  "direct_result opts l q txHash sig fillId reasons = bind (dp_now opts) (\<lambda>t. return
     \<lparr>re_intentId = or_intentId (l_order l), re_attemptId = l_attemptId l, re_state = OrderAttemptRecord.state (l_machine l),
      re_executionPath = DIRECT_POOL_RPC, re_quote = q, re_simulation = l_simulation l, re_signedTxHash = txHash,
      re_txSignature = sig, re_fillId = fillId, re_rejectionReasons = reasons, re_completedAt = t\<rparr>)"

text \<open>The row of the attempt differs from the live adapter's in its outcome: the first note that is not the fallback's.\<close>

definition direct_outcome :: "string list \<Rightarrow> string" where
  "direct_outcome notes = (case find (\<lambda>n. \<not> prefix ''FALLBACK_FROM:'' n) notes of
       Some r \<Rightarrow> ''REJECTED:'' @ r | None \<Rightarrow> (case notes of [] \<Rightarrow> ''FALLBACK'' | n # _ \<Rightarrow> n))"

definition direct_row :: "live_locals \<Rightarrow> string list \<Rightarrow> Attempt" where
  "direct_row l notes = (toAttempt l [])\<lparr>a_reconciliationOutcome := Some (direct_outcome notes)\<rparr>"

definition direct_done ::
  "('s, 'd) DirectPoolEmergencyOptions \<Rightarrow> DirectPoolEmergencyInput \<Rightarrow> live_locals \<Rightarrow> Quote option \<Rightarrow> sha256_hex option \<Rightarrow>
     tx_signature option \<Rightarrow> Fill option \<Rightarrow> string list \<Rightarrow> ('s, DetailedExecution) eff" where
  "direct_done opts inp l q txHash sig fill reasons =
     bind (direct_result opts l q txHash sig (map_option fi_id fill) reasons) (\<lambda>r. return
       \<lparr>x_result = r, x_order = l_order l, x_attempt = direct_row l (fallback_note inp # reasons), x_fill = fill, x_decisionQuote = None\<rparr>)"

section \<open>Before the signature\<close>

definition direct_guard :: "('s, 'd) DirectPoolEmergencyOptions \<Rightarrow> DirectPoolEmergencyInput \<Rightarrow> string option" where
  "direct_guard opts inp = (let b = di_bounds inp; hop = di_hop inp in
     if b_exposureEffect b \<noteq> ExposureEffect.REDUCE then Some ''EMERGENCY_NOT_RISK_REDUCING''
     else if hop_inputMint hop \<noteq> b_inputMint b \<or> hop_outputMint hop \<noteq> b_outputMint b then Some ''ROUTE_PAIR_MISMATCH''
     else if adapterForHop hop (dp_adapters opts) = None then Some ''ROUTE_UNSUPPORTED_PROGRAM'' else None)"

text \<open>Steps 4 and 5: a fresh blockhash and the transaction built on it.\<close>

definition direct_build ::
  "('s, 'd) DirectPoolEmergencyOptions \<Rightarrow> DirectPoolEmergencyInput \<Rightarrow>
     ('s, exec_error build_error, (string \<times> int) \<times> 'd EmergencyBuild) prog" where
  "direct_build opts inp = (let b = di_bounds inp in
     bind (with_error BUILD_RPC (dp_latestBlockhash opts)) (\<lambda>bh.
     bind (with_error BUILD_RPC (dp_now opts)) (\<lambda>t.
     bind (buildEmergencyExit (dp_sha256 opts) (dp_adapters opts)
       \<lparr>bi_hop = di_hop inp, bi_user = dp_publicKey opts, bi_now = t, bi_userSource = None,
        bi_tokenAccountFor = dp_tokenAccountFor opts, bi_recentBlockhash = Some (fst bh),
        bi_amountIn = amountToBigInt (b_maxInputAmount b), bi_slippageBps = b_maxSlippageBps b, bi_policy = dp_policy opts,
        bi_reader = dp_accounts opts\<rparr>) (\<lambda>built. return (bh, built)))))"

definition direct_quote :: "DirectPoolEmergencyInput \<Rightarrow> 'd EmergencyBuild \<Rightarrow> instant \<Rightarrow> int \<Rightarrow> Quote" where
  "direct_quote inp built t lastValid = (let q = eb_quote built; hop = di_hop inp in
     \<lparr>provider = ''DIRECT_POOL'', providerRequestId = None,
      routerLabel = Some (program_text (hop_program hop) @ '':'' @ hop_poolAddress hop),
      q_inputMint = hop_inputMint hop, q_outputMint = pq_outputMint q, inputAmount = pq_inputAmount q,
      expectedOutputAmount = pq_expectedOutputAmount q, minOutputAmount = eb_minimumAmountOut built,
      priceImpactBps = Some (pq_impactBps q), q_slippageBps = b_maxSlippageBps (di_bounds inp),
      routeProgramIds = [hop_programId hop], usesAddressLookupTables = False, quotedAt = t, q_expiresAt = None,
      q_lastValidBlockHeight = Some lastValid\<rparr>)"

definition direct_structure :: "('s, 'd) DirectPoolEmergencyOptions \<Rightarrow> DirectPoolEmergencyInput \<Rightarrow> StructureExpectation" where
  "direct_structure opts inp = \<lparr>x_tradingWallet = dp_publicKey opts,
     allowedPrograms = first_occurrences (dp_programs opts @ [COMPUTE_BUDGET_PROGRAM, SYSTEM_PROGRAM,
       ASSOCIATED_TOKEN_PROGRAM_ID, DIRECT_MEMO_PROGRAM, hop_programId (di_hop inp)]),
     allowLookupTables = False, allowedTransferRecipients = dp_recipients opts\<rparr>"

definition direct_expectation ::
  "('s, 'd) DirectPoolEmergencyOptions \<Rightarrow> DirectPoolEmergencyInput \<Rightarrow> Quote \<Rightarrow> DecodedTransaction \<Rightarrow>
     AccountSnapshot option list \<Rightarrow> SimulationOutcome \<Rightarrow> DeltaExpectation" where
  "direct_expectation opts inp q tx accs sim = (let i = index_of (staticAccountKeys (message tx)) (dp_publicKey opts) in
     \<lparr>d_tradingWallet = dp_publicKey opts, d_inputMint = hop_inputMint (di_hop inp), d_outputMint = q_outputMint q,
      maxInputDecrease = b_maxInputAmount (di_bounds inp), minOutputIncrease = minOutputAmount q,
      maxSolDebitLamports = dp_maxSolDebitLamports opts, pre_accounts = map the (filter (\<lambda>a. a \<noteq> None) accs),
      preWalletLamports = default 0 (lamports_at accs i), post_accounts = so_accounts sim,
      postWalletLamports = lamports_at (so_accounts sim) i, simulationFailed = so_failed sim, d_logs = so_logs sim,
      d_slot = so_slot sim, rpcLabel = dp_label opts\<rparr>)"

definition direct_simulate ::
  "('s, 'd) DirectPoolEmergencyOptions \<Rightarrow> DirectPoolEmergencyInput \<Rightarrow> Quote \<Rightarrow> bytes \<Rightarrow> DecodedTransaction \<Rightarrow>
     ('s, SimulationReport \<times> DeltaRejection list) eff" where
  "direct_simulate opts inp q txBytes tx = (let keys = staticAccountKeys (message tx) in
     bind (dp_accounts opts keys) (\<lambda>(_, accs). bind (dp_simulate opts txBytes keys) (\<lambda>sim.
       return (assertSemanticDeltas (direct_expectation opts inp q tx accs sim)))))"

text \<open>What the simulated destination gained.\<close>

definition simulated_out :: "SimulationReport \<Rightarrow> mint_address \<Rightarrow> int option" where
  "simulated_out report mnt = (case find (\<lambda>d. fst d = mnt) (walletDeltas report) of
       Some (_, delta) \<Rightarrow> if delta > 0 then Some delta else None | None \<Rightarrow> None)"

section \<open>Signature, submission, observation\<close>

definition direct_sign ::
  "('s, 'd) DirectPoolEmergencyOptions \<Rightarrow> DirectPoolEmergencyInput \<Rightarrow> live_locals \<Rightarrow> int \<Rightarrow> DecodedTransaction \<Rightarrow> ('s, signed_attempt) eff" where
  "direct_sign opts inp l lastValid tx = (let msg = DecodedTransaction.messageBytes tx in
     bind (dp_sign opts msg (or_intentId (l_order l)) (l_attemptId l) (dp_sha opts msg)) (\<lambda>sig.
     case encodeTransaction (case signatures tx of [] \<Rightarrow> [] | _ # rest \<Rightarrow> Some sig # rest) (message tx) of
       Inl e \<Rightarrow> throw (CODEC_ERROR e)
     | Inr signedBytes \<Rightarrow> bind (dp_now opts) (\<lambda>signedAt.
         let h = dp_sha opts signedBytes in
         bind (must (l_machine l) (E_SIGNED signedAt h (Some sig) (Some lastValid))) (\<lambda>m.
         let l1 = l\<lparr>l_machine := m, l_signedAt := Some signedAt\<rparr> in
         bind (dp_journal opts (l_order l1) (direct_row l1 [fallback_note inp])) (\<lambda>_.
         bind (must m (E_JOURNALED signedAt)) (\<lambda>m'. return
           \<lparr>s_locals = l1\<lparr>l_machine := m'\<rparr>, s_bytes = signedBytes, s_signature = sig, s_txHash = h\<rparr>))))))"

text \<open>The machine after the death of the transaction, when both proofs are there.\<close>

definition direct_dead ::
  "('s, 'd) DirectPoolEmergencyOptions \<Rightarrow> live_locals \<Rightarrow> bool \<times> bool \<Rightarrow> string \<Rightarrow> ('s, live_locals) eff" where
  "direct_dead opts l proof' reason = bind (dp_now opts) (\<lambda>t. return
     (case attemptTransition (l_machine l) (E_CONCLUSIVELY_DEAD t (fst proof') (snd proof') reason) of
        Inl _ \<Rightarrow> l | Inr m \<Rightarrow> l\<lparr>l_machine := m\<rparr>))"

definition direct_fill ::
  "ExecutionRequest \<Rightarrow> DirectPoolEmergencyInput \<Rightarrow> live_locals \<Rightarrow> Quote \<Rightarrow> tx_signature \<Rightarrow> uuid \<Rightarrow> slot \<Rightarrow> slot option \<Rightarrow> instant \<Rightarrow> Fill" where
  "direct_fill req inp l q sig fid confSlot final confirmedAt = (let
     paid = b_maxInputAmount (di_bounds inp);
     out = default (minOutputAmount q) (case l_simulation l of None \<Rightarrow> None | Some r \<Rightarrow> simulated_out r (q_outputMint q))
   in \<lparr>fi_id = fid, fi_orderAttemptId = l_attemptId l, fi_txSignature = sig,
       fi_commitment = (if final = None then confirmed else finalized), fi_slot = default confSlot final,
       fi_inputMint = hop_inputMint (di_hop inp), fi_outputMint = q_outputMint q, fi_inputAmount = paid, fi_outputAmount = out,
       fi_executionShortfallBps = shortfall_bps (expectedOutputAmount q) out, fi_executionPath = DIRECT_POOL_RPC,
       fi_lotAllocations = map (\<lambda>lot. (lot, paid)) (ti_targetLotIds (r_intent req)),
       fi_filledAt = default confirmedAt (l_finalizedAt l)\<rparr>)"

definition direct_observe ::
  "('s, 'd) DirectPoolEmergencyOptions \<Rightarrow> ExecutionRequest \<Rightarrow> DirectPoolEmergencyInput \<Rightarrow> live_locals \<Rightarrow> Quote \<Rightarrow> int \<Rightarrow>
     tx_signature \<Rightarrow> sha256_hex \<Rightarrow> slot \<Rightarrow> ('s, DetailedExecution) eff" where
  "direct_observe opts req inp l q lastValid sig h confSlot =
     bind (dp_now opts) (\<lambda>confirmedAt.
     bind (must (l_machine l) (E_OBSERVED confirmedAt confirmed confSlot)) (\<lambda>m.
     let l1 = l\<lparr>l_machine := m, l_confirmedAt := Some confirmedAt\<rparr> in
     bind (dp_awaitFinalized opts sig (Some lastValid)) (\<lambda>final.
     bind (case final of
             None \<Rightarrow> return l1
           | Some fslot \<Rightarrow> bind (dp_now opts) (\<lambda>finalizedAt.
               bind (must m (E_OBSERVED finalizedAt finalized fslot)) (\<lambda>m'.
                 return (l1\<lparr>l_machine := m', l_finalizedAt := Some finalizedAt\<rparr>)))) (\<lambda>l2.
     bind (dp_newId opts) (\<lambda>fid.
       direct_done opts inp l2 (Some q) (Some h) (Some sig)
         (Some (direct_fill req inp l2 q sig fid confSlot final confirmedAt)) [])))))"

text \<open>The gate read immediately before the submission, then steps 7 and 8.\<close>

definition direct_submit ::
  "('s, 'd) DirectPoolEmergencyOptions \<Rightarrow> ExecutionRequest \<Rightarrow> DirectPoolEmergencyInput \<Rightarrow> signed_attempt \<Rightarrow> Quote \<Rightarrow> int \<Rightarrow>
     ('s, DetailedExecution) eff" where
  "direct_submit opts req inp sa q lastValid = (let l = s_locals sa; h = s_txHash sa in
     bind (dp_beforeSubmit opts (di_bounds inp)) (\<lambda>gate. case gate of
       Some reason \<Rightarrow> direct_done opts inp l (Some q) (Some h) None None [reason]
     | None \<Rightarrow> bind (dp_now opts) (\<lambda>submittedAt.
         bind (must (l_machine l) (E_SUBMITTED submittedAt DIRECT_POOL_RPC)) (\<lambda>m.
         let l1 = l\<lparr>l_machine := m, l_submittedAt := Some submittedAt\<rparr> in
         bind (attempt (dp_send opts (s_bytes sa))) (\<lambda>sent. case sent of
           Inl _ \<Rightarrow> bind (dp_proveDead opts (s_signature sa) (Some lastValid)) (\<lambda>proof'.
             bind (case proof' of None \<Rightarrow> return l1 | Some d \<Rightarrow> direct_dead opts l1 d ''SEND_FAILED'') (\<lambda>l2.
               direct_done opts inp l2 (Some q) (Some h) (Some (s_signature sa)) None [''SEND_FAILED'']))
         | Inr sig \<Rightarrow> bind (dp_awaitConfirmed opts sig (Some lastValid)) (\<lambda>conf. case conf of
             Some confSlot \<Rightarrow> direct_observe opts req inp l1 q lastValid sig h confSlot
           | None \<Rightarrow> bind (dp_proveDead opts sig (Some lastValid)) (\<lambda>proof'. case proof' of
               None \<Rightarrow> direct_done opts inp l1 (Some q) (Some h) (Some sig) None []
             | Some d \<Rightarrow> bind (direct_dead opts l1 d ''NOT_CONFIRMED'') (\<lambda>l2.
                 direct_done opts inp l2 (Some q) (Some h) (Some sig) None [''NOT_LANDED'']))))))))"

section \<open>The whole exit\<close>

text \<open>Steps 6 and on, once the transaction is built and quoted.\<close>

definition direct_checked ::
  "('s, 'd) DirectPoolEmergencyOptions \<Rightarrow> ExecutionRequest \<Rightarrow> DirectPoolEmergencyInput \<Rightarrow> live_locals \<Rightarrow> 'd EmergencyBuild \<Rightarrow>
     Quote \<Rightarrow> int \<Rightarrow> ('s, DetailedExecution) eff" where
  "direct_checked opts req inp l built q lastValid = (let no = \<lambda>l' rs. direct_done opts inp l' (Some q) None None None rs in
     case encodeTransaction [None] (eb_message built) of
       Inl e \<Rightarrow> throw (CODEC_ERROR e)
     | Inr txBytes \<Rightarrow> (case decodeTransaction txBytes of
         Inl e \<Rightarrow> throw (CODEC_ERROR e)
       | Inr tx \<Rightarrow> (case checkTransactionStructure tx (direct_structure opts inp) of
           Inl rs \<Rightarrow> no l (map structure_rejection_text rs)
         | Inr _ \<Rightarrow> bind (direct_simulate opts inp q txBytes tx) (\<lambda>(report, reasons).
             let l1 = l\<lparr>l_simulation := Some report\<rparr> in
             if \<not> sim_passed report then no l1 (map delta_rejection_text reasons)
             else bind (direct_sign opts inp l1 lastValid tx) (\<lambda>sa. direct_submit opts req inp sa q lastValid)))))"

definition direct_attempt ::
  "('s, 'd) DirectPoolEmergencyOptions \<Rightarrow> ExecutionRequest \<Rightarrow> DirectPoolEmergencyInput \<Rightarrow> live_locals \<Rightarrow> ('s, DetailedExecution) eff" where
  "direct_attempt opts req inp l = bind (attempt (direct_build opts inp)) (\<lambda>r. case r of
       Inl (BUILD_POOL (POOL_DECODE p t)) \<Rightarrow> direct_done opts inp l None None None None [''ROUTE_UNUSABLE'']
     | Inl _ \<Rightarrow> direct_done opts inp l None None None None [''ROUTE_BUILD_FAILED'']
     | Inr ((blockhash, lastValid), built) \<Rightarrow>
         if \<not> tradeable (eb_state built) then direct_done opts inp l None None None None [''ROUTE_NOT_TRADEABLE'']
         else bind (dp_now opts) (\<lambda>t. let q = direct_quote inp built t lastValid in
           if pq_impactBps (eb_quote built) > b_maxPriceImpactBps (di_bounds inp)
           then direct_done opts inp l (Some q) None None None [''IMPACT_ABOVE_MAX'']
           else if eb_minimumAmountOut built \<le> 0 then direct_done opts inp l (Some q) None None None [''ROUTE_EMPTY_OUTPUT'']
           else direct_checked opts req inp l built q lastValid))"

definition directExecuteDetailed ::
  "('s, 'd) DirectPoolEmergencyOptions \<Rightarrow> ExecutionRequest \<Rightarrow> DirectPoolEmergencyInput \<Rightarrow> ('s, DetailedExecution) eff" where
  "directExecuteDetailed opts req inp =
     bind (dp_newId opts) (\<lambda>orderId. bind (dp_now opts) (\<lambda>createdAt. bind (dp_newId opts) (\<lambda>attemptId.
     let hop = di_hop inp;
         l = \<lparr>l_order = \<lparr>or_id = orderId, or_intentId = ti_id (r_intent req), or_authorizationHash = None,
                or_executionPath = DIRECT_POOL_RPC, or_transactionClass = DIRECT_POOL_EMERGENCY_EXIT, or_createdAt = createdAt\<rparr>,
              l_attemptId = attemptId, l_machine = newOrderAttempt, l_quoteExpiresAt = None, l_signedAt = None,
              l_submittedAt = None, l_confirmedAt = None, l_finalizedAt = None, l_requestId = None,
              l_router = Some (program_text (hop_program hop) @ '':'' @ hop_poolAddress hop), l_simulation = None\<rparr>
     in case direct_guard opts inp of
          Some reason \<Rightarrow> direct_done opts inp l None None None None [reason]
        | None \<Rightarrow> direct_attempt opts req inp l)))"

section \<open>The protocol of a direct submission\<close>

lemma keeps_attempt [inv_intros]: "keeps P m \<Longrightarrow> keeps P (attempt m)"
  by (fastforce simp: keeps_def attempt_def split: prod.splits)

lemma keeps_with_error [inv_intros]: "keeps P m \<Longrightarrow> keeps P (with_error f m)"
  by (fastforce simp: keeps_def with_error_def split: prod.splits sum.splits)

lemma keeps_build_step [inv_intros]: "keeps P (build_step r)"
  unfolding build_step_def by (intro inv_intros)

lemma triple_attempt: "triple P m Q E \<Longrightarrow> triple P (attempt m) (\<lambda>r s. case r of Inl e \<Rightarrow> E e s | Inr a \<Rightarrow> Q a s) F"
  by (fastforce simp: triple_def attempt_def split: prod.splits sum.splits)

lemma build_keeps: "(\<And>ks. keeps P (bi_reader i ks)) \<Longrightarrow> keeps P (buildEmergencyExit sha ads i)"
  unfolding buildEmergencyExit_def refresh_pool_def assemble_exit_def Let_def
  by (intro inv_intros) simp_all

lemma build_step_Inr: "build_step r s = (Inr a, t) \<longleftrightarrow> r = Inr a \<and> t = s"
  by (auto simp: build_step_def split: sum.splits)

text \<open>A build asks for at least the quoted output less the slippage, and can be encoded.\<close>

definition floor_kept :: "int \<Rightarrow> 'd EmergencyBuild \<Rightarrow> bool" where
  "floor_kept slipBps b \<longleftrightarrow> eb_minimumAmountOut b = slippage_floor (pq_expectedOutputAmount (eb_quote b)) slipBps \<and>
     encodeTransaction [None] (eb_message b) = Inr (eb_unsignedTransaction b)"

lemma bind_returns: "bind m f s = (Inr b, t) \<longleftrightarrow> (\<exists>a u. m s = (Inr a, u) \<and> f a u = (Inr b, t))"
  by (auto simp: bind_run split: prod.splits sum.splits)

lemma assemble_floor: "assemble_exit sha i ad st q k s = (Inr b, t) \<Longrightarrow> floor_kept (bi_slippageBps i) b"
  unfolding assemble_exit_def Let_def bind_returns
  by (elim exE conjE) (auto simp: floor_kept_def split: sum.splits)

lemma build_floor: "buildEmergencyExit sha ads i s = (Inr b, t) \<Longrightarrow> floor_kept (bi_slippageBps i) b"
  unfolding buildEmergencyExit_def bind_returns
  by (elim exE conjE) (simp split: prod.splits, erule assemble_floor)

lemma direct_build_floor: "direct_build opts inp s = (Inr (bh, b), t) \<Longrightarrow> floor_kept (b_maxSlippageBps (di_bounds inp)) b"
  unfolding direct_build_def Let_def bind_returns
  by (elim exE conjE) (drule build_floor, simp)

text \<open>The messages an exit may sign: risk-reducing, of the route's pair, built, quoted and checked within the bounds.\<close>

definition direct_message :: "('s, 'd) DirectPoolEmergencyOptions \<Rightarrow> DirectPoolEmergencyInput \<Rightarrow> bytes \<Rightarrow> bool" where
  "direct_message opts inp msg \<longleftrightarrow> (let b = di_bounds inp; hop = di_hop inp in
     b_exposureEffect b = ExposureEffect.REDUCE \<and> hop_inputMint hop = b_inputMint b \<and> hop_outputMint hop = b_outputMint b \<and>
     (\<exists>(built :: 'd EmergencyBuild) tx now lastValid accs sim. let q = direct_quote inp built now lastValid in
        floor_kept (b_maxSlippageBps b) built \<and> tradeable (eb_state built) \<and>
        pq_impactBps (eb_quote built) \<le> b_maxPriceImpactBps b \<and> 0 < eb_minimumAmountOut built \<and>
        decodeTransaction (eb_unsignedTransaction built) = Inr tx \<and> DecodedTransaction.messageBytes tx = msg \<and>
        structure_safe (direct_structure opts inp) tx \<and>
        snd (assertSemanticDeltas (direct_expectation opts inp q tx accs sim)) = []))"

text \<open>The steps that ask the world without acting on it, and what follows from their keeping an invariant.\<close>

locale quiet_direct =
  fixes opts :: "('s, 'd) DirectPoolEmergencyOptions" and I :: "'s \<Rightarrow> bool"
  assumes quiet: "keeps I (dp_latestBlockhash opts)" "keeps I (dp_now opts)" "keeps I (dp_newId opts)"
      "keeps I (dp_accounts opts ks)" "keeps I (dp_simulate opts b ks)" "keeps I (dp_awaitConfirmed opts sig v)"
      "keeps I (dp_awaitFinalized opts sig v)" "keeps I (dp_proveDead opts sig v)"
begin

lemma keeps_done: "keeps I (direct_done opts inp l q h sig f rs)"
  unfolding direct_done_def direct_result_def by (intro inv_intros quiet)

lemma keeps_dead: "keeps I (direct_dead opts l p r)"
  unfolding direct_dead_def by (intro inv_intros quiet)

lemma keeps_observe: "keeps I (direct_observe opts req inp l q v sig h k)"
  unfolding direct_observe_def Let_def by (intro inv_intros keeps_done keeps_must quiet)

text \<open>Everything after the transaction was handed to the node.\<close>

lemma keeps_after_send:
  "keeps I (case sent of
     Inl e \<Rightarrow> bind (dp_proveDead opts sg (Some v)) (\<lambda>pf.
       bind (case pf of None \<Rightarrow> return l | Some d \<Rightarrow> direct_dead opts l d ''SEND_FAILED'') (\<lambda>l2.
         direct_done opts inp l2 (Some q) (Some h) (Some sg) None [''SEND_FAILED'']))
   | Inr sig \<Rightarrow> bind (dp_awaitConfirmed opts sig (Some v)) (\<lambda>conf. case conf of
       Some c \<Rightarrow> direct_observe opts req inp l q v sig h c
     | None \<Rightarrow> bind (dp_proveDead opts sig (Some v)) (\<lambda>pf. case pf of
         None \<Rightarrow> direct_done opts inp l (Some q) (Some h) (Some sig) None []
       | Some d \<Rightarrow> bind (direct_dead opts l d ''NOT_CONFIRMED'') (\<lambda>l2.
           direct_done opts inp l2 (Some q) (Some h) (Some sig) None [''NOT_LANDED'']))))"
  for sent :: "exec_error + tx_signature"
  by (intro inv_intros quiet keeps_done keeps_dead keeps_observe)

lemma keeps_direct_build: "keeps I (direct_build opts inp)"
  unfolding direct_build_def Let_def by (intro inv_intros build_keeps quiet) (simp add: quiet)

lemma keeps_direct_simulate: "keeps I (direct_simulate opts inp q bs tx)"
  unfolding direct_simulate_def Let_def case_prod_unfold by (intro inv_intros quiet)

end

locale direct_protocol = quiet_direct opts I
  for opts :: "('s, 'd) DirectPoolEmergencyOptions" and I :: "'s \<Rightarrow> bool" +
  fixes inp :: DirectPoolEmergencyInput and S1 S2 :: "'s \<Rightarrow> bool"
  assumes now_gated: "keeps (\<lambda>s. I s \<and> S2 s) (dp_now opts)"
    and signs: "direct_message opts inp msg \<Longrightarrow> keeps I (dp_sign opts msg i' a h)"
    and journals: "triple I (dp_journal opts ord att) (\<lambda>_ s. I s \<and> S1 s) (\<lambda>_. I)"
    and gate: "triple (\<lambda>s. I s \<and> S1 s) (dp_beforeSubmit opts (di_bounds inp)) (\<lambda>r s. I s \<and> (r = None \<longrightarrow> S2 s)) (\<lambda>_. I)"
    and submits: "triple (\<lambda>s. I s \<and> S2 s) (dp_send opts b) (\<lambda>_. I) (\<lambda>_. I)"
begin

lemma submit_keeps: "triple (\<lambda>s. I s \<and> S1 s) (direct_submit opts req inp sa q v) (\<lambda>_. I) (\<lambda>_. I)"
  unfolding direct_submit_def Let_def
proof (rule triple_bind [OF gate], goal_cases)
  case (1 r)
  show ?case
  proof (cases r)
    case None
    have n: "triple (\<lambda>s. I s \<and> S2 s) (dp_now opts) (\<lambda>_ s. I s \<and> S2 s) (\<lambda>_. I)"
      by (rule triple_conseq [OF now_gated [unfolded keeps_triple]]) auto
    have m: "triple (\<lambda>s. I s \<and> S2 s) (must m e) (\<lambda>_ s. I s \<and> S2 s) (\<lambda>_. I)" for m e
      by (rule triple_conseq [OF keeps_must [of "\<lambda>s. I s \<and> S2 s" m e, unfolded keeps_triple]]) auto
    have a: "triple (\<lambda>s. I s \<and> S2 s) (attempt (dp_send opts b)) (\<lambda>_. I) (\<lambda>_. I)" for b
      by (rule triple_conseq [OF triple_attempt [OF submits]]) (auto split: sum.splits)
    show ?thesis
      unfolding None option.case
      by (rule triple_pre [where P = "\<lambda>s. I s \<and> S2 s"], rule triple_bind [OF n], rule triple_bind [OF m], rule triple_bind [OF a])
        (simp_all add: keeps_after_send [unfolded keeps_triple])
  next
    case (Some reason)
    show ?thesis
      unfolding Some option.case by (rule triple_pre [OF keeps_done [unfolded keeps_triple]]) simp
  qed
qed

lemma sign_keeps:
  assumes "direct_message opts inp (DecodedTransaction.messageBytes tx)"
  shows "triple I (direct_sign opts inp l v tx) (\<lambda>_ s. I s \<and> S1 s) (\<lambda>_. I)"
proof -
  have m: "triple P (must m e) (\<lambda>_. P) (\<lambda>_. I)" if "\<And>s. P s \<Longrightarrow> I s" for P m e
    by (rule triple_conseq [OF keeps_must [of P m e, unfolded keeps_triple]]) (use that in auto)
  have t: "triple I (dp_sign opts (DecodedTransaction.messageBytes tx) a b c) (\<lambda>_. I) (\<lambda>_. I)"
    "triple I (dp_now opts) (\<lambda>_. I) (\<lambda>_. I)" for a b c
    using signs [OF assms] quiet(2) by (simp_all add: keeps_triple)
  show ?thesis
    unfolding direct_sign_def Let_def
    by (rule triple_bind [OF t(1)])
      (auto split: sum.split intro!: triple_throw triple_bind [OF t(2)] triple_bind [OF m] triple_bind [OF journals] triple_return)
qed

lemma checked_keeps:
  assumes "direct_guard opts inp = None" and "floor_kept (b_maxSlippageBps (di_bounds inp)) built" and "tradeable (eb_state built)"
    and "pq_impactBps (eb_quote built) \<le> b_maxPriceImpactBps (di_bounds inp)" and "0 < eb_minimumAmountOut built"
  shows "keeps I (direct_checked opts req inp l built (direct_quote inp built now v) v)"
proof -
  let ?q = "direct_quote inp built now v"
  have step: "triple I (direct_simulate opts inp ?q bs tx) (\<lambda>p s. I s \<and> (sim_passed (fst p) \<longrightarrow>
      (\<exists>accs sim. snd (assertSemanticDeltas (direct_expectation opts inp ?q tx accs sim)) = []))) (\<lambda>_. I)" for bs tx
  proof (rule triple_value)
    show "keeps I (direct_simulate opts inp ?q bs tx)" by (rule keeps_direct_simulate)
  next
    fix s p t assume "direct_simulate opts inp ?q bs tx s = (Inr p, t)"
    then obtain accs sim where "p = assertSemanticDeltas (direct_expectation opts inp ?q tx accs sim)"
      by (auto simp: direct_simulate_def bind_run Let_def split: prod.splits sum.splits)
    then show "sim_passed (fst p) \<longrightarrow> (\<exists>accs sim. snd (assertSemanticDeltas (direct_expectation opts inp ?q tx accs sim)) = [])"
      by (auto simp: assertSemanticDeltas_def Let_def)
  qed
  have msg: "direct_message opts inp (DecodedTransaction.messageBytes tx)"
    if "decodeTransaction (eb_unsignedTransaction built) = Inr tx" "checkTransactionStructure tx (direct_structure opts inp) = Inr ps"
      "snd (assertSemanticDeltas (direct_expectation opts inp ?q tx accs sim)) = []" for tx ps accs sim
  proof -
    have "b_exposureEffect (di_bounds inp) = ExposureEffect.REDUCE \<and> hop_inputMint (di_hop inp) = b_inputMint (di_bounds inp) \<and>
        hop_outputMint (di_hop inp) = b_outputMint (di_bounds inp)"
      using assms(1) by (auto simp: direct_guard_def Let_def split: if_splits)
    with assms(2-5) that(1,3) structure_ok_safe [OF that(2)] show ?thesis
      unfolding direct_message_def Let_def
      by (intro conjI exI [of _ built] exI [of _ tx] exI [of _ now] exI [of _ v] exI [of _ accs] exI [of _ sim]) simp_all
  qed
  have enc: "encodeTransaction [None] (eb_message built) = Inr (eb_unsignedTransaction built)"
    using assms(2) by (simp add: floor_kept_def)
  show ?thesis
  proof (cases "decodeTransaction (eb_unsignedTransaction built)")
    case (Inl e)
    then show ?thesis by (simp add: direct_checked_def enc keeps_throw)
  next
    case (Inr tx)
    show ?thesis
    proof (cases "checkTransactionStructure tx (direct_structure opts inp)")
      case (Inl rs)
      then show ?thesis by (simp add: direct_checked_def enc \<open>decodeTransaction _ = Inr tx\<close> keeps_done)
    next
      case (Inr ps)
      note c = \<open>decodeTransaction _ = Inr tx\<close> Inr
      have "triple (\<lambda>s. I s \<and> (sim_passed (fst p) \<longrightarrow>
          (\<exists>accs sim. snd (assertSemanticDeltas (direct_expectation opts inp ?q tx accs sim)) = [])))
        (case p of (report, reasons) \<Rightarrow> let l1 = l\<lparr>l_simulation := Some report\<rparr> in
             if \<not> sim_passed report then direct_done opts inp l1 (Some ?q) None None None (map delta_rejection_text reasons)
             else bind (direct_sign opts inp l1 v tx) (\<lambda>sa. direct_submit opts req inp sa ?q v)) (\<lambda>_. I) (\<lambda>_. I)" for p
        by (rule triple_pure, cases p, cases "sim_passed (fst p)")
          (auto simp: Let_def keeps_done [unfolded keeps_triple] dest!: msg [OF c] intro!: triple_bind [OF sign_keeps submit_keeps])
      then show ?thesis
        unfolding direct_checked_def Let_def enc c sum.case keeps_triple
        by (rule triple_bind [OF step, unfolded Let_def])
    qed
  qed
qed

lemma attempt_keeps:
  assumes "direct_guard opts inp = None"
  shows "keeps I (direct_attempt opts req inp l)"
proof -
  have b: "triple I (attempt (direct_build opts inp)) (\<lambda>r s. I s \<and>
      (\<forall>bh built. r = Inr (bh, built) \<longrightarrow> floor_kept (b_maxSlippageBps (di_bounds inp)) built)) (\<lambda>_. I)"
  proof (rule triple_value)
    show "keeps I (attempt (direct_build opts inp))" by (intro inv_intros keeps_direct_build)
  qed (auto simp: attempt_def split: prod.splits dest: direct_build_floor)
  show ?thesis
    unfolding direct_attempt_def keeps_triple
  proof (rule triple_bind [OF b], rule triple_pure, goal_cases)
    case (1 r)
    show ?case
    proof (cases r)
      case (Inl e)
      then show ?thesis
        using keeps_done [unfolded keeps_triple] by (auto split: build_error.split pool_error.split)
    next
      case (Inr p)
      then obtain bh v built where p: "r = Inr ((bh, v), built)" by (metis prod.exhaust)
      with 1 have f: "floor_kept (b_maxSlippageBps (di_bounds inp)) built" by simp
      show ?thesis
        unfolding p sum.case prod.case Let_def keeps_triple [symmetric]
        by (intro keeps_if keeps_done keeps_bind [OF quiet(2)] checked_keeps [OF assms f]) simp_all
    qed
  qed
qed

lemma execute_keeps: "keeps I (directExecuteDetailed opts req inp)"
  unfolding directExecuteDetailed_def Let_def
  by (intro inv_intros quiet keeps_done attempt_keeps)

end

end
