(* ===== verification/ExecutorDirect.thy ===== *)
theory ExecutorDirect imports ExecutorRun DirectExit begin

text \<open>
  The direct-pool fallback of an emergency close (\<open>directPoolFallback\<close> of
  \<open>apps/execution-service/src/pipeline/pipeline.ts\<close>): when the provider could not be used before anything was submitted,
  the executor rebuilds the exit from the persisted route. The protocol of a direct submission is interpreted on the
  options the executor builds, so an emergency stays within its plan with the fallback as without it.
\<close>

section \<open>The fallback\<close>

text \<open>The simulation endpoint is the live adapter's; \<open>df_readSlot\<close> is the slot its account reads answer at.\<close>

record 'd DirectPoolFallback =
  df_routes :: "nat \<Rightarrow> mint_address \<Rightarrow> string + DirectPoolHop option"
  df_latestBlockhash :: "nat \<Rightarrow> string + string \<times> int"
  df_send :: "nat \<Rightarrow> bytes \<Rightarrow> string + tx_signature"
  df_readSlot :: "nat \<Rightarrow> slot"
  df_awaitConfirmed :: "nat \<Rightarrow> tx_signature \<Rightarrow> int option \<Rightarrow> string + slot option"
  df_policy :: EmergencyRoutePolicy
  df_adapters :: "'d DirectPoolAdapter list"
  df_tokenAccountFor :: "(string \<Rightarrow> string \<Rightarrow> pool_error + string) option"
  df_sha256 :: "bytes \<Rightarrow> bytes"

definition hop_json :: "DirectPoolHop \<Rightarrow> json" where
  "hop_json hop = JObj [(''program'', JStr (program_text (hop_program hop))), (''programId'', JStr (hop_programId hop)),
     (''poolAddress'', JStr (hop_poolAddress hop)), (''inputMint'', JStr (hop_inputMint hop)), (''outputMint'', JStr (hop_outputMint hop))]"

definition direct_journal_hook ::
  "Deps \<Rightarrow> uuid \<Rightarrow> idempotency_key \<Rightarrow> nonce \<Rightarrow> DirectPoolHop \<Rightarrow> Order \<Rightarrow> Attempt \<Rightarrow> unit pipe" where
  "direct_journal_hook d i key non hop ord att = andthen (modify (\<lambda>s. s\<lparr>p_signedAttempt := Some att\<rparr>))
     (andthen (journal_append d ATTEMPT_SIGNED i
        [(''intentId'', JStr i), (''idempotencyKey'', JStr key), (''nonce'', JStr non),
         (''signedTxHash'', text_json (a_signedTxHash att)), (''expectedTxSignature'', text_json (a_expectedTxSignature att)),
         (''lastValidBlockHeight'', opt_json jint (a_lastValidBlockHeight att)),
         (''executionPath'', JStr ''DIRECT_POOL_RPC''), (''hop'', hop_json hop)])
       (probe d AFTER_SIGNED_JOURNAL))"

definition direct_before_submit ::
  "Deps \<Rightarrow> uuid \<Rightarrow> idempotency_key \<Rightarrow> nonce \<Rightarrow> ExecutionBounds \<Rightarrow> string option pipe" where
  "direct_before_submit d i key non bounds = bind (facts d) (\<lambda>f.
     case modeGate f (b_exposureEffect bounds) of
       Some r \<Rightarrow> return (Some (''MODE_GATE_'' @ gate_text r))
     | None \<Rightarrow> bind (asks p_signedAttempt) (\<lambda>att.
         andthen (journal_append d ATTEMPT_SUBMITTED i
           [(''intentId'', JStr i), (''idempotencyKey'', JStr key), (''nonce'', JStr non), (''path'', JStr ''DIRECT_POOL_RPC''),
            (''expectedTxSignature'', text_json (signed_field a_expectedTxSignature att)),
            (''signedTxHash'', text_json (signed_field a_signedTxHash att))])
          (andthen (advance_key_if AUTHORIZED key EXECUTING) (andthen (probe d AFTER_SUBMITTED_JOURNAL) (return None)))))"

definition direct_options ::
  "Deps \<Rightarrow> 'd DirectPoolFallback \<Rightarrow> uuid \<Rightarrow> idempotency_key \<Rightarrow> nonce \<Rightarrow> DirectPoolHop \<Rightarrow> (ExecutorPipeline, 'd) DirectPoolEmergencyOptions" where
  "direct_options d df i key non hop =
     \<lparr>dp_latestBlockhash = outside (\<lambda>n. provider (df_latestBlockhash df n)),
      dp_send = (\<lambda>b. andthen (note_call (C_EXECUTE i b)) (outside (\<lambda>n. provider (df_send df n b)))),
      dp_accounts = (\<lambda>ks. outside (\<lambda>n. map_sum PROVIDER_ERROR (\<lambda>accs. (df_readSlot df n, accs)) (e_accounts d n ks))),
      dp_simulate = (\<lambda>b ks. outside (\<lambda>n. provider (e_simulate d n b ks))),
      dp_label = e_label d,
      dp_publicKey = e_publicKey d,
      dp_sign = (\<lambda>msg _ _ _. signTransactionMessage d (default 2 (e_signerRetries d)) i msg),
      dp_now = clock_now d,
      dp_newId = new_id d,
      dp_programs = allowedPrograms (e_structure d),
      dp_recipients = allowedTransferRecipients (e_structure d),
      dp_maxSolDebitLamports = e_maxSolDebitLamports d,
      dp_policy = df_policy df,
      dp_adapters = df_adapters df,
      dp_journal = direct_journal_hook d i key non hop,
      dp_beforeSubmit = direct_before_submit d i key non,
      dp_awaitConfirmed = (\<lambda>sig v. outside (\<lambda>n. provider (df_awaitConfirmed df n sig v))),
      dp_awaitFinalized = (\<lambda>sig v. outside (\<lambda>n. provider (e_awaitFinalized d n sig v))),
      dp_proveDead = (\<lambda>sig v. outside (\<lambda>n. provider (proveDead (e_chain d n) sig v))),
      dp_tokenAccountFor = df_tokenAccountFor df,
      dp_sha = e_sha d,
      dp_sha256 = df_sha256 df\<rparr>"

definition fallback_refused :: "Deps \<Rightarrow> EmergencyCmd \<Rightarrow> EmergencyCloseAction \<Rightarrow> string \<Rightarrow> string \<Rightarrow> string \<times> json \<Rightarrow>
    DetailedExecution option pipe" where
  "fallback_refused d cmd a why reason detail' = andthen (journal_append d EMERGENCY_COMMAND_REJECTED (ec_commandId cmd)
     [(''reasons'', texts_json [reason]), (''mint'', JStr (act_mint a)), (''primaryFailure'', JStr why), detail']) (return None)"

definition fallback_prepared :: "Deps \<Rightarrow> EmergencyCmd \<Rightarrow> EmergencyCloseAction \<Rightarrow> uuid \<Rightarrow> string \<Rightarrow> DirectPoolHop \<Rightarrow> json_record" where
  "fallback_prepared d cmd a i why hop =
     [(''intentId'', JStr i), (''idempotencyKey'', JStr (action_key cmd a)), (''nonce'', JStr (ec_nonce cmd)), (''emergency'', JBool True),
      (''commandId'', JStr (ec_commandId cmd)), (''mint'', JStr (act_mint a)), (''maxInputAmount'', amount_json (act_amount a)),
      (''executionPath'', JStr ''DIRECT_POOL_RPC''), (''fallbackFrom'', JStr why), (''hop'', hop_json hop),
      (''expiresAt'', JStr (iso (e_crypto d) (b_expiresAt (act_bounds a))))]"

definition directPoolFallback :: "Deps \<Rightarrow> 'd DirectPoolFallback \<Rightarrow> fallback" where
  "directPoolFallback d df cmd a i req why =
     bind (attempt (outside (\<lambda>n. provider (df_routes df n (act_mint a))))) (\<lambda>route. case route of
       Inl e \<Rightarrow> fallback_refused d cmd a why ''DIRECT_POOL_ROUTE_UNAVAILABLE'' (''error'', JStr (error_text e))
     | Inr None \<Rightarrow> fallback_refused d cmd a why ''DIRECT_POOL_ROUTE_MISSING'' (''hop'', JNull)
     | Inr (Some hop) \<Rightarrow>
         if hop_inputMint hop \<noteq> act_mint a \<or> hop_outputMint hop \<noteq> act_outputMint a
         then fallback_refused d cmd a why ''DIRECT_POOL_ROUTE_MISSING'' (''hop'', hop_json hop)
         else andthen (journal_append d ATTEMPT_PREPARED i (fallback_prepared d cmd a i why hop))
           (andthen (modify (\<lambda>s. s\<lparr>p_signedAttempt := None\<rparr>))
           (bind (directExecuteDetailed (direct_options d df i (action_key cmd a) (ec_nonce cmd) hop) (req\<lparr>r_executionPath := DIRECT_POOL_RPC\<rparr>)
              \<lparr>di_bounds = act_bounds a, di_hop = hop, di_fallbackFrom = why\<rparr>) (\<lambda>x. return (Some x)))))"

definition emergency_direct :: "Deps \<Rightarrow> 'd DirectPoolFallback \<Rightarrow> EmergencyInput \<Rightarrow> EmergencyOutcome pipe" where
  "emergency_direct d df inp = emergency_with d (Some (directPoolFallback d df)) inp"

section \<open>The executor keeps the direct protocol\<close>

text \<open>The messages the fallback may sign for an action, over the routes it may be given.\<close>

definition direct_signable :: "Deps \<Rightarrow> 'd DirectPoolFallback \<Rightarrow> EmergencyCloseAction \<Rightarrow> bytes \<Rightarrow> bool" where
  "direct_signable d df a msg \<longleftrightarrow> (\<exists>n hop. df_routes df n (act_mint a) = Inr (Some hop) \<and>
     direct_message (direct_options d df [] [] [] hop) \<lparr>di_bounds = act_bounds a, di_hop = hop, di_fallbackFrom = []\<rparr> msg)"

lemma direct_message_any:
  "direct_message (direct_options d df i key non hop) \<lparr>di_bounds = b, di_hop = h, di_fallbackFrom = why\<rparr> =
   direct_message (direct_options d df i' key' non' hop') \<lparr>di_bounds = b, di_hop = h, di_fallbackFrom = why'\<rparr>"
  by (simp add: direct_message_def direct_options_def direct_quote_def direct_structure_def direct_expectation_def fun_eq_iff)

lemma direct_journal_hook_keeps:
  "triple (attempt_inv i ok before) (direct_journal_hook d i key non hop ord att)
     (\<lambda>_ s. attempt_inv i ok before s \<and> signed_journaled i s) (\<lambda>_. attempt_inv i ok before)"
  unfolding direct_journal_hook_def
  by (intro triple_andthen [OF _ triple_andthen [OF signed_append]] triple_stable stable_conj stable_attempt quiet_intros)
    (auto simp: grows_def)


lemma direct_before_submit_keeps:
  "triple (\<lambda>s. attempt_inv i ok before s \<and> signed_journaled i s) (direct_before_submit d i key non b)
     (\<lambda>r s. attempt_inv i ok before s \<and> (r = None \<longrightarrow> submission_journaled i s)) (\<lambda>_. attempt_inv i ok before)"
  unfolding direct_before_submit_def by (rule gated_submission) (rule quiet_intros)

interpretation direct: direct_protocol "direct_options d df i key non hop"
  "attempt_inv i (\<lambda>m. ok m \<or> direct_message (direct_options d df i key non hop) inp m) before" inp
  "signed_journaled i" "submission_journaled i"
  for d df i key non hop inp ok before
proof (unfold_locales, goal_cases)
  case (10 msg i' a h)
  then show ?case by (simp add: direct_options_def keeps_sign)
next
  case (11 ord att)
  show ?case using direct_journal_hook_keeps by (simp add: direct_options_def)
next
  case 12
  show ?case using direct_before_submit_keeps by (simp add: direct_options_def)
next
  case (13 b)
  let ?I = "attempt_inv i (\<lambda>m. ok m \<or> direct_message (direct_options d df i key non hop) inp m) before"
  have "triple (\<lambda>s. ?I s \<and> submission_journaled i s)
      (andthen (note_call (C_EXECUTE i b)) (outside (\<lambda>n. provider (df_send df n b)))) (\<lambda>_. ?I) (\<lambda>_. ?I)"
    by (rule triple_andthen [OF keeps_note keeps_outside [unfolded keeps_triple]])
      (auto simp: submission_journaled_def intro: stable_attempt)
  then show ?case by (simp add: direct_options_def)
qed (auto simp: direct_options_def intro!: quiet_intros stable_conj stable_attempt)

section \<open>The fallback keeps what an emergency rests on\<close>

lemma direct_runs:
  assumes "df_routes df n (act_mint a) = Inr (Some hop)"
  shows "keeps (attempt_inv i (action_messages d (direct_signable d df) a) before)
    (directExecuteDetailed (direct_options d df i key non hop) req \<lparr>di_bounds = act_bounds a, di_hop = hop, di_fallbackFrom = why\<rparr>)"
proof -
  have "direct_message (direct_options d df i key non hop) \<lparr>di_bounds = act_bounds a, di_hop = hop, di_fallbackFrom = why\<rparr> m
      \<Longrightarrow> direct_signable d df a m" for m
    unfolding direct_signable_def using assms direct_message_any by metis
  then have "(\<lambda>m. action_messages d (direct_signable d df) a m \<or>
      direct_message (direct_options d df i key non hop) \<lparr>di_bounds = act_bounds a, di_hop = hop, di_fallbackFrom = why\<rparr> m) =
      action_messages d (direct_signable d df) a"
    by blast
  then have eq: "(\<lambda>m. action_messages d (direct_signable d df) a m \<or>
      direct_message (direct_options d df i key non hop) \<lparr>di_bounds = act_bounds a, di_hop = hop, di_fallbackFrom = why\<rparr> m) =
      action_messages d (direct_signable d df) a" .
  show ?thesis
    by (rule direct.execute_keeps [where ok = "action_messages d (direct_signable d df) a" and hop = hop and key = key and non = non
          and d = d and df = df and i = i and inp = "\<lparr>di_bounds = act_bounds a, di_hop = hop, di_fallbackFrom = why\<rparr>", unfolded eq])
qed

lemma route_known:
  assumes "keeps P (outside (\<lambda>n. provider (df_routes df n mnt)))"
  shows "triple P (attempt (outside (\<lambda>n. provider (df_routes df n mnt))))
    (\<lambda>r s. P s \<and> (\<forall>hop. r = Inr (Some hop) \<longrightarrow> (\<exists>n. df_routes df n mnt = Inr (Some hop)))) E"
proof (rule tripleI)
  fix s a t assume "P s" and r: "attempt (outside (\<lambda>n. provider (df_routes df n mnt))) s = (Inr a, t)"
  then have "P t" using keepsD [OF assms, of s] by (simp add: attempt_def outside_def)
  moreover from r have "a = provider (df_routes df (p_tick s) mnt)" by (simp add: attempt_def outside_def)
  ultimately show "P t \<and> (\<forall>hop. a = Inr (Some hop) \<longrightarrow> (\<exists>n. df_routes df n mnt = Inr (Some hop)))"
    by (cases "df_routes df (p_tick s) mnt") (auto simp: provider_def)
qed (simp add: attempt_def outside_def)

lemma direct_fallback_ok: "fallback_ok d (direct_signable d df) (Some (directPoolFallback d df))"
proof -
  have "keeps (attempt_inv i (action_messages d (direct_signable d df) a) before) (directPoolFallback d df cmd a i req why)"
    for cmd a i req why before
  proof -
    let ?I = "attempt_inv i (action_messages d (direct_signable d df) a) before"
    have refused: "keeps ?I (fallback_refused d cmd a why r x)" for r x
      unfolding fallback_refused_def by (intro inv_intros quiet_intros stable_attempt)
    have run: "keeps ?I (andthen (journal_append d ATTEMPT_PREPARED i q) (andthen (modify (\<lambda>s. s\<lparr>p_signedAttempt := None\<rparr>))
        (bind (directExecuteDetailed (direct_options d df i key non hop) req'
          \<lparr>di_bounds = act_bounds a, di_hop = hop, di_fallbackFrom = why\<rparr>) (\<lambda>x. return (Some x)))))"
      if "df_routes df n (act_mint a) = Inr (Some hop)" for n hop q key non req'
      by (intro inv_intros quiet_intros stable_attempt direct_runs [OF that]) (simp_all add: grows_def)
    show ?thesis
      unfolding directPoolFallback_def keeps_triple
    proof (rule triple_bind [OF route_known [OF keeps_outside [OF stable_attempt(1)]]], rule triple_pure, goal_cases)
      case (1 r)
      then show ?case
        using refused run unfolding keeps_triple [symmetric]
        by (auto split: sum.split option.split)
    qed
  qed
  then show ?thesis by (simp add: fallback_ok_def)
qed

context executor_invariant
begin

lemma direct_adapter_protocol: "direct_protocol (direct_options d df i key non hop) P inp (\<lambda>_. True) (\<lambda>_. True)"
proof (unfold_locales, goal_cases)
  case (11 ord att)
  have "keeps P (direct_journal_hook d i key non hop ord att)"
    unfolding direct_journal_hook_def by (intro inv_intros basic_keeps journal; simp add: fields)
  then show ?case by (simp add: direct_options_def keeps_triple)
next
  case 12
  have "keeps P (direct_before_submit d i key non b)" for b
    unfolding direct_before_submit_def by (intro inv_intros basic_keeps journal; simp add: fields)
  then show ?case by (simp add: direct_options_def keeps_triple)
next
  case (13 b)
  have "keeps P (andthen (note_call (C_EXECUTE i b)) (outside (\<lambda>n. provider (df_send df n b))))"
    by (intro inv_intros basic_keeps outside_keeps)
  then show ?case by (simp add: direct_options_def keeps_triple)
qed (auto simp: direct_options_def intro!: outside_keeps basic_keeps sign_keeps)

lemma fallback_maintains: "maintains P E (directPoolFallback d df cmd a i req why)"
proof (rule quietly)
  show "keeps P (directPoolFallback d df cmd a i req why)"
    unfolding directPoolFallback_def fallback_refused_def
    by (intro inv_intros outside_keeps journal direct_protocol.execute_keeps [OF direct_adapter_protocol])
      (auto intro!: inv_intros outside_keeps journal direct_protocol.execute_keeps [OF direct_adapter_protocol] keeps_modify
        simp: fields split: option.split)
qed

lemma emergency_direct_maintains: "maintains P E (emergency_direct d df inp)"
  unfolding emergency_direct_def by (rule emergency_with_maintains) (auto intro: fallback_maintains)

end

lemma direct_fallback_backed: "fallback_backed d (direct_signable d df) (Some (directPoolFallback d df))"
  unfolding fallback_backed_def using direct_fallback_ok ex_lines.fallback_maintains by auto


end
