(* ===== verification/SingleSubmission.thy ===== *)
theory SingleSubmission imports ExecutorDirect begin

text \<open>
  At most one submission: an attempt of the live adapter hands at most one transaction to the provider, the direct-pool
  exit at most one to the node, and an emergency action, which may try the second after the first, still
  submits at most once. The reason is the order of the code: the fallback runs only when the primary attempt is
  still PREPARED, or threw while its key was still AUTHORIZED, and the gate before a submission takes the key
  out of AUTHORIZED.
\<close>

section \<open>An attempt never returns to PREPARED\<close>

lemma transition_leaves_prepared:
  "attemptTransition m e = Inr m' \<Longrightarrow> OrderAttemptRecord.state m \<noteq> PREPARED \<Longrightarrow> OrderAttemptRecord.state m' \<noteq> PREPARED"
  by (cases e) (auto simp: Let_def split: if_splits)

lemma submitted_leaves_prepared:
  "attemptTransition m (E_SUBMITTED t p) = Inr m' \<Longrightarrow> OrderAttemptRecord.state m' \<noteq> PREPARED"
  by (auto split: if_splits)

lemma dead_leaves_prepared:
  "OrderAttemptRecord.state m \<noteq> PREPARED \<Longrightarrow>
     OrderAttemptRecord.state (case attemptTransition m e of Inl _ \<Rightarrow> m | Inr m' \<Rightarrow> m') \<noteq> PREPARED"
  by (simp add: transition_leaves_prepared split: sum.split)

lemma must_run: "must m e s = (Inr m', t) \<longleftrightarrow> attemptTransition m e = Inr m' \<and> t = s"
  by (auto simp: must_def split: sum.splits)

lemma failed_sent:
  "failed_step opts req l built e sig h s = (Inr x, t) \<Longrightarrow> OrderAttemptRecord.state (l_machine l) \<noteq> PREPARED \<Longrightarrow>
     a_state (x_attempt x) \<noteq> PREPARED"
  unfolding failed_step_def Let_def bind_returns
  by (elim exE conjE)
    (auto simp: toAttempt_def Let_def bind_returns dead_leaves_prepared simp del: attemptTransition.simps split: option.splits)

lemma observed_sent:
  "observe_step opts req l b built e sig h k s = (Inr x, t) \<Longrightarrow> OrderAttemptRecord.state (l_machine l) \<noteq> PREPARED \<Longrightarrow>
     a_state (x_attempt x) \<noteq> PREPARED"
  unfolding observe_step_def Let_def bind_returns must_run
  by (elim exE conjE)
    (auto simp: toAttempt_def Let_def bind_returns must_run simp del: attemptTransition.simps
      dest!: transition_leaves_prepared split: option.splits)

section \<open>The live adapter submits once\<close>

text \<open>
  \<open>I0\<close> holds while nothing was submitted, \<open>I1\<close> after a gate that allows and \<open>I2\<close> after the submission; the
  outcome tells which of the first and the last holds.
\<close>

definition settled :: "('s \<Rightarrow> bool) \<Rightarrow> ('s \<Rightarrow> bool) \<Rightarrow> DetailedExecution \<Rightarrow> 's \<Rightarrow> bool" where
  "settled I0 I2 x s \<longleftrightarrow> I0 s \<or> I2 s \<and> a_state (x_attempt x) \<noteq> PREPARED"

abbreviation either :: "('s \<Rightarrow> bool) \<Rightarrow> ('s \<Rightarrow> bool) \<Rightarrow> exec_error \<Rightarrow> 's \<Rightarrow> bool" where
  "either I0 I2 \<equiv> (\<lambda>_ s. I0 s \<or> I2 s)"

locale single_submission = b0: quiet_adapter opts I0 + b2: quiet_adapter opts I2
  for opts :: "'s LiveAdapterOptions" and I0 I2 :: "'s \<Rightarrow> bool" +
  fixes I1 :: "'s \<Rightarrow> bool"
  assumes signs: "keeps I0 (o_sign opts msg i a h)" and journals: "keeps I0 (o_journal opts ord att)"
    and gate: "triple I0 (o_beforeSubmit opts b) (\<lambda>r s. if r = None then I1 s else I0 s) (\<lambda>_. I0)"
    and gated: "I1 s \<Longrightarrow> I0 s" and now_gated: "keeps I1 (o_now opts)"
    and submits: "triple I1 (o_execute opts bs rid) (\<lambda>_. I2) (\<lambda>_. I2)"
begin

lemma unsent: "keeps I0 m \<Longrightarrow> triple I0 m (settled I0 I2) (either I0 I2)"
  unfolding keeps_triple by (erule triple_conseq) (auto simp: settled_def)

lemma still: "keeps I0 m \<Longrightarrow> triple I0 m (\<lambda>_. I0) (either I0 I2)"
  unfolding keeps_triple by (erule triple_conseq) auto

lemma sent:
  assumes "keeps I2 m" and "\<And>s x t. m s = (Inr x, t) \<Longrightarrow> a_state (x_attempt x) \<noteq> PREPARED"
  shows "triple I2 m (settled I0 I2) (either I0 I2)"
proof -
  have "triple I2 m (\<lambda>x s. I2 s \<and> a_state (x_attempt x) \<noteq> PREPARED) (\<lambda>_. I2)"
    using assms by (rule triple_value)
  then show ?thesis by (rule triple_conseq) (auto simp: settled_def)
qed

lemma gated_unsent: "triple I0 (o_beforeSubmit opts b) (\<lambda>r s. if r = None then I1 s else I0 s) (either I0 I2)"
  by (rule triple_conseq [OF gate]) auto

lemma submit_once: "triple I0 (submit_step opts req sa bounds built k) (settled I0 I2) (either I0 I2)"
  unfolding submit_step_def Let_def
proof (rule triple_bind [OF gated_unsent], goal_cases)
  case (1 r)
  show ?case
  proof (cases r)
    case None
    have n: "triple I1 (o_now opts) (\<lambda>_. I1) (either I0 I2)"
      using now_gated unfolding keeps_triple by (rule triple_conseq) (auto dest: gated)
    have m: "triple I1 (must (l_machine (s_locals sa)) (E_SUBMITTED t p))
        (\<lambda>m s. I1 s \<and> OrderAttemptRecord.state m \<noteq> PREPARED) (either I0 I2)" for t p
    proof -
      have "triple I1 (must (l_machine (s_locals sa)) (E_SUBMITTED t p))
          (\<lambda>m s. I1 s \<and> OrderAttemptRecord.state m \<noteq> PREPARED) (\<lambda>_. I1)"
        by (rule triple_value [OF keeps_must]) (auto simp: must_run simp del: attemptTransition.simps dest: submitted_leaves_prepared)
      then show ?thesis by (rule triple_conseq) (auto dest: gated)
    qed
    have e: "triple I1 (o_execute opts (s_bytes sa) (jo_requestId built)) (\<lambda>_. I2) (either I0 I2)"
      by (rule triple_conseq [OF submits]) auto
    show ?thesis
      unfolding None option.case
      by (rule triple_pre [where P = I1], rule triple_bind [OF n], rule triple_bind [OF m], rule triple_pure, rule triple_bind [OF e])
        (auto intro!: sent b2.keeps_failed b2.keeps_observe dest: failed_sent observed_sent)
  next
    case (Some reason)
    have "keeps I0 (bind (reject opts req l rs q) (\<lambda>d. bind (result_of opts req l q h sig f rs) (\<lambda>r. return (d\<lparr>x_result := r\<rparr>))))"
      for l rs q h sig f by (intro inv_intros b0.keeps_reject b0.keeps_result)
    from unsent [OF this] show ?thesis unfolding Some option.case by (rule triple_pre) simp
  qed
qed

lemma sign_unsent: "keeps I0 (sign_step opts i l built tx)"
  unfolding sign_step_def Let_def by (intro inv_intros signs journals keeps_must b0.quiet)

lemma or_reject_once:
  "keeps I0 step \<Longrightarrow> (\<And>a. triple I0 (next_step a) (settled I0 I2) (either I0 I2)) \<Longrightarrow> triple I0 (or_reject opts req l step next_step) (settled I0 I2) (either I0 I2)"
  unfolding or_reject_def
  by (erule triple_bind [OF still]) (auto intro!: unsent b0.keeps_reject split: sum.split)

lemma attempt_once: "triple I0 (live_attempt opts req l bounds) (settled I0 I2) (either I0 I2)"
  unfolding live_attempt_def Let_def
  by (intro triple_bind [OF still [OF b0.quiet(1)]] triple_if unsent [OF b0.keeps_reject] or_reject_once b0.keeps_steps)
    (auto intro!: triple_bind [OF still [OF b0.keeps_steps(4)]] triple_bind [OF still [OF sign_unsent]]
      triple_if unsent [OF b0.keeps_reject] or_reject_once b0.keeps_steps(5) submit_once)

lemma execute_once: "triple I0 (executeDetailed opts req em) (settled I0 I2) (either I0 I2)"
proof -
  have "triple I0 (case registerIntent reg i k of R_DUPLICATE a b \<Rightarrow> reject opts req l [''DUPLICATE_INTENT''] None
      | R_CREATED reg' e \<Rightarrow> bind (o_setRegistry opts reg') (\<lambda>_. live_attempt opts req l bounds)) (settled I0 I2) (either I0 I2)" for reg i k l bounds
    by (cases "registerIntent reg i k")
      (simp_all add: unsent [OF b0.keeps_reject] triple_bind [OF still [OF b0.quiet(9)] attempt_once])
  then show ?thesis
    unfolding executeDetailed_def Let_def
    by (intro triple_bind [OF still [OF b0.quiet(2)]] triple_bind [OF still [OF b0.quiet(1)]])
      (simp add: unsent [OF b0.keeps_reject] triple_bind [OF still [OF b0.quiet(8)]] split: sum.split prod.split)
qed

end

section \<open>The direct-pool exit submits once\<close>

locale single_direct = b0: quiet_direct opts I0 + b2: quiet_direct opts I2
  for opts :: "('s, 'd) DirectPoolEmergencyOptions" and I0 I2 :: "'s \<Rightarrow> bool" +
  assumes signs: "keeps I0 (dp_sign opts msg i a h)" and journals: "keeps I0 (dp_journal opts ord att)"
    and gate: "keeps I0 (dp_beforeSubmit opts b)" and weaker: "I0 s \<Longrightarrow> I2 s"
    and submits: "triple I0 (dp_send opts bs) (\<lambda>_. I2) (\<lambda>_. I2)"
begin

lemma unsent: "keeps I0 m \<Longrightarrow> triple I0 m (\<lambda>_. I2) (\<lambda>_. I2)"
  unfolding keeps_triple by (erule triple_conseq) (auto dest: weaker)

lemma still: "keeps I0 m \<Longrightarrow> triple I0 m (\<lambda>_. I0) (\<lambda>_. I2)"
  unfolding keeps_triple by (erule triple_conseq) (auto dest: weaker)

lemma sent: "triple I0 (attempt (dp_send opts bs)) (\<lambda>_. I2) (\<lambda>_. I2)"
  by (rule triple_conseq [OF triple_attempt [OF submits]]) (auto split: sum.splits)

lemma submit_once: "triple I0 (direct_submit opts req inp sa q v) (\<lambda>_. I2) (\<lambda>_. I2)"
  unfolding direct_submit_def Let_def
proof (rule triple_bind [OF still [OF gate]], goal_cases)
  case (1 r)
  then show ?case
    by (cases r) (auto intro!: unsent [OF b0.keeps_done] triple_bind [OF still [OF b0.quiet(2)]] triple_bind [OF still [OF keeps_must]]
        triple_bind [OF sent] b2.keeps_after_send [unfolded keeps_triple])
qed

lemma sign_unsent: "keeps I0 (direct_sign opts inp l v tx)"
  unfolding direct_sign_def Let_def by (intro inv_intros signs journals keeps_must b0.quiet)

lemma checked_once: "triple I0 (direct_checked opts req inp l built q v) (\<lambda>_. I2) (\<lambda>_. I2)"
  unfolding direct_checked_def Let_def
  by (auto intro!: triple_throw unsent [OF b0.keeps_done] triple_bind [OF still [OF b0.keeps_direct_simulate]]
      triple_bind [OF still [OF sign_unsent]] submit_once dest: weaker split: sum.split)

lemma attempt_once: "triple I0 (direct_attempt opts req inp l) (\<lambda>_. I2) (\<lambda>_. I2)"
  unfolding direct_attempt_def Let_def
  by (rule triple_bind [OF still [OF keeps_attempt [OF b0.keeps_direct_build]]])
    (auto intro!: unsent [OF b0.keeps_done] triple_bind [OF still [OF b0.quiet(2)]] checked_once
      split: sum.split build_error.split pool_error.split)

lemma execute_once: "triple I0 (directExecuteDetailed opts req inp) (\<lambda>_. I2) (\<lambda>_. I2)"
  unfolding directExecuteDetailed_def Let_def
  by (auto intro!: triple_bind [OF still [OF b0.quiet(3)]] triple_bind [OF still [OF b0.quiet(2)]] unsent [OF b0.keeps_done]
      attempt_once split: option.split)

end

section \<open>The submissions of the executor\<close>

definition is_submission :: "call \<times> nat \<Rightarrow> bool" where
  "is_submission c = (case fst c of C_EXECUTE _ _ \<Rightarrow> True | C_SIGN _ _ \<Rightarrow> False)"

definition executions :: "ExecutorPipeline \<Rightarrow> nat" where
  "executions s = length (filter is_submission (p_calls s))"

text \<open>Nothing submitted since there were \<open>c\<close>; the same with the key out of AUTHORIZED; one submission more.\<close>

abbreviation not_yet :: "nat \<Rightarrow> ExecutorPipeline \<Rightarrow> bool" where
  "not_yet c s \<equiv> executions s = c"

abbreviation at_most_once :: "nat \<Rightarrow> ExecutorPipeline \<Rightarrow> bool" where
  "at_most_once c s \<equiv> executions s \<le> Suc c"

definition begun :: "idempotency_key \<Rightarrow> nat \<Rightarrow> ExecutorPipeline \<Rightarrow> bool" where
  "begun k c s \<longleftrightarrow> executions s = c \<and> key_state (p_registry s) k \<noteq> Some AUTHORIZED"

lemma executions_cong: "p_calls t = p_calls s \<Longrightarrow> executions t = executions s"
  by (simp add: executions_def)

lemma executions_updates [simp]:
  "executions (s\<lparr>p_registry := r\<rparr>) = executions s" "executions (s\<lparr>p_adapterRegistry := r\<rparr>) = executions s"
  "executions (s\<lparr>p_signedAttempt := x\<rparr>) = executions s" "executions (s\<lparr>p_tick := n\<rparr>) = executions s"
  by (simp_all add: executions_def)

lemma stable_executions: "stable (\<lambda>s. Q (executions s))"
  by (auto simp: stable_def grows_def executions_def)

lemma begun_outside: "keeps (begun k c) (outside f)"
  by (rule keepsI) (simp add: outside_def begun_def executions_def)

lemma begun_clock: "keeps (begun k c) (clock_now d)"
  unfolding clock_now_def by (rule begun_outside)

lemma begun_same: "p_calls t = p_calls s \<Longrightarrow> p_registry t = p_registry s \<Longrightarrow> begun k c t = begun k c s"
  by (simp add: begun_def executions_def)

lemma advanced_out: "key_state (snd (advance r k EXECUTING)) k \<noteq> Some AUTHORIZED"
  by (auto simp: advance_def advanceIntent_def key_state_def Let_def split: option.split)

lemma sign_unsubmitted: "keeps (not_yet c) (signTransactionMessage d n i msg)"
proof (induction n)
  case (Suc n)
  have "keeps (not_yet c) (note_call (C_SIGN i msg))"
    unfolding note_call_def by (rule keeps_modify) (simp add: executions_def is_submission_def)
  with Suc show ?case
    by (auto intro!: inv_intros quiet_intros stable_executions [of "\<lambda>n. n = c"] split: signer_answer.split)
qed (simp add: keeps_def)

lemma submits_one:
  assumes "\<And>s. P s \<Longrightarrow> executions s = c"
    and "\<And>s t. P s \<Longrightarrow> executions t = Suc c \<Longrightarrow> p_registry t = p_registry s \<Longrightarrow> Q t"
  shows "triple P (andthen (note_call (C_EXECUTE i b)) (outside f)) (\<lambda>_. Q) (\<lambda>_. Q)"
proof -
  have run: "andthen (note_call (C_EXECUTE i b)) (outside f) s =
      (f (p_tick s), s\<lparr>p_calls := p_calls s @ [(C_EXECUTE i b, length (entries (p_journal s)))], p_tick := Suc (p_tick s)\<rparr>)" for s
    by (simp add: andthen_def bind_run note_call_def outside_def)
  show ?thesis
    by (rule tripleI; unfold run; erule Pair_inject; rule assms(2), assumption; frule assms(1))
      (auto simp: executions_def is_submission_def)
qed

lemma gate_opens:
  "triple (not_yet c) (before_submit d i key non path em b) (\<lambda>r s. if r = None then begun key c s else not_yet c s) (\<lambda>_. not_yet c)"
proof -
  have adv: "triple (not_yet c) (advance_key key EXECUTING) (\<lambda>_. begun key c) (\<lambda>_. not_yet c)"
    unfolding advance_key_def by (rule triple_modify) (simp add: begun_def advanced_out executions_def)
  have crash: "triple (begun key c) (probe d AFTER_SUBMITTED_JOURNAL) (\<lambda>_. begun key c) (\<lambda>_. not_yet c)"
    unfolding probe_def by (rule triple_conseq [OF begun_outside [unfolded keeps_triple]]) (auto simp: begun_def)
  have submitted: "triple (not_yet c) (andthen (journal_append d ATTEMPT_SUBMITTED i p)
      (andthen (advance_key key EXECUTING) (andthen (probe d AFTER_SUBMITTED_JOURNAL) (return None))))
      (\<lambda>r s. if r = None then begun key c s else not_yet c s) (\<lambda>_. not_yet c)" for p
    by (rule triple_andthen [OF iffD1 [OF keeps_triple] triple_andthen [OF adv triple_andthen [OF crash triple_return]]])
      (simp_all add: keeps_journal_append [OF stable_executions [of "\<lambda>n. n = c"]])
  show ?thesis
    unfolding before_submit_def
  proof (rule triple_bind [OF iffD1 [OF keeps_triple keeps_steps_quiet(4) [OF stable_executions [of "\<lambda>n. n = c"]]]], goal_cases)
    case (1 f)
    show ?case
    proof (cases "modeGate f (b_exposureEffect b)")
      case None
      show ?thesis
        unfolding None option.case by (rule triple_bind [of _ _ "\<lambda>_. not_yet c", OF triple_asks submitted])
    next
      case (Some r)
      show ?thesis
        unfolding Some option.case by (rule triple_return) simp
    qed
  qed
qed

abbreviation done_once :: "idempotency_key \<Rightarrow> nat \<Rightarrow> ExecutorPipeline \<Rightarrow> bool" where
  "done_once key c \<equiv> begun key (Suc c)"

interpretation once: single_submission "adapterFor d i key non path em" "not_yet c" "done_once key c" "begun key c"
  for d i key non path em c
proof (unfold_locales, goal_cases)
  case (23 msg i' a h)
  show ?case by (simp add: adapterFor_def sign_unsubmitted)
next
  case (24 ord att)
  show ?case
    using stable_executions [of "\<lambda>n. n = c"]
    by (auto simp: adapterFor_def journal_hook_def grows_def intro!: inv_intros quiet_intros)
next
  case (25 b)
  show ?case using gate_opens by (simp add: adapterFor_def)
next
  case (28 bs rid)
  show ?case unfolding adapterFor_def by (simp, rule submits_one [where c = c]) (simp_all add: begun_def)
qed (auto simp: adapterFor_def begun_def begun_same begun_outside begun_clock new_id_def
    intro!: inv_intros quiet_intros stable_executions keeps_modify begun_outside begun_clock)

interpretation exit_once: single_direct "direct_options d df i key non hop" "not_yet c" "at_most_once c"
  for d df i key non hop c
proof (unfold_locales, goal_cases)
  case (17 msg i' a h)
  show ?case by (simp add: direct_options_def sign_unsubmitted)
next
  case (18 ord att)
  show ?case
    using stable_executions [of "\<lambda>n. n = c"]
    by (auto simp: direct_options_def direct_journal_hook_def grows_def intro!: inv_intros quiet_intros)
next
  case (19 b)
  show ?case
    using stable_executions [of "\<lambda>n. n = c"]
    by (auto simp: direct_options_def direct_before_submit_def intro!: inv_intros quiet_intros split: option.split)
next
  case (21 bs)
  show ?case by (simp add: direct_options_def submits_one [where c = c])
qed (auto simp: direct_options_def intro!: inv_intros quiet_intros stable_executions)

section \<open>One action, one submission\<close>

lemmas unsubmitted = stable_executions [of "\<lambda>n. n = c" for c] stable_executions [of "\<lambda>n. n \<le> Suc c" for c]

lemma triple_unsubmitted: "(\<And>R. stable R \<Longrightarrow> keeps R m) \<Longrightarrow> triple (not_yet c) m (\<lambda>_. not_yet c) (\<lambda>_. at_most_once c)"
  by (rule triple_stable [OF unsubmitted(1)]) auto

lemma attempt_submits_once:
  "triple (not_yet c) (with_new_adapter (executeDetailed (adapterFor d i key non path em) req eb))
     (settled (not_yet c) (done_once key c)) (either (not_yet c) (done_once key c))"
  by (rule with_new_adapter_keeps [OF unsubmitted(1) once.execute_once])

text \<open>When the primary path reports a failure, nothing was submitted.\<close>

lemma primary_once:
  "triple (not_yet c) (primary_attempt d cmd a i req)
     (\<lambda>r s. if fst r = None then at_most_once c s else not_yet c s) (\<lambda>_. at_most_once c)"
  unfolding primary_attempt_def
proof (rule triple_try [OF triple_bind [OF attempt_submits_once]], goal_cases)
  case (1 x)
  show ?case
    by (rule triple_return) (auto simp: settled_def begun_def split: list.split if_splits)
next
  case (2 e)
  have "triple (either (not_yet c) (done_once (action_key cmd a) c) e)
     (bind (asks (\<lambda>s. key_state (p_registry s) (action_key cmd a))) (\<lambda>st.
            if st \<noteq> Some AUTHORIZED then throw e
            else return (Some (take 160 (''PROVIDER_ERROR:'' @ error_text e)), None)))
     (\<lambda>r s. if fst r = None then at_most_once c s else not_yet c s) (\<lambda>_. at_most_once c)"
    by (auto simp: triple_def bind_run begun_def)
  moreover have "triple (either (not_yet c) (done_once (action_key cmd a) c) e) (throw e)
     (\<lambda>r s. if fst r = None then at_most_once c s else not_yet c s) (\<lambda>_. at_most_once c)"
    by (rule triple_throw) (auto simp: begun_def)
  ultimately show ?case by (cases e) simp_all
qed

definition fallback_once :: "fallback option \<Rightarrow> bool" where
  "fallback_once fb \<longleftrightarrow> (\<forall>f cmd a i req why c. fb = Some f \<longrightarrow>
     triple (not_yet c) (f cmd a i req why) (\<lambda>_. at_most_once c) (\<lambda>_. at_most_once c))"

lemma with_fallback_once:
  assumes "fallback_once fb"
  shows "triple (\<lambda>s. if fst primary = None then at_most_once c s else not_yet c s) (with_fallback fb cmd a i req primary)
    (\<lambda>_. at_most_once c) (\<lambda>_. at_most_once c)"
proof -
  obtain failure ex where p: "primary = (failure, ex)" by (cases primary)
  have out: "triple (at_most_once c) (case x of None \<Rightarrow> throw e | Some x \<Rightarrow> return x) (\<lambda>_. at_most_once c) (\<lambda>_. at_most_once c)"
    for x :: "DetailedExecution option" and e by (auto intro: triple_throw triple_return split: option.split)
  have ret: "triple (at_most_once c) (return y) (\<lambda>_. at_most_once c) (\<lambda>_. at_most_once c)" for y :: "DetailedExecution option"
    by (rule triple_return)
  show ?thesis
  proof (cases "failure = None \<or> fb = None")
    case True
    then show ?thesis
      unfolding p with_fallback_def
      by (auto intro!: triple_pre [OF triple_bind [OF ret out]] split: option.split)
  next
    case False
    then obtain why f where f: "failure = Some why" "fb = Some f" by auto
    with assms have "triple (not_yet c) (f cmd a i req why) (\<lambda>_. at_most_once c) (\<lambda>_. at_most_once c)"
      by (simp add: fallback_once_def)
    then have "triple (not_yet c) (bind (f cmd a i req why) (\<lambda>r. return (case r of Some x \<Rightarrow> Some x | None \<Rightarrow> ex)))
        (\<lambda>_. at_most_once c) (\<lambda>_. at_most_once c)"
      by (rule triple_bind [OF _ ret])
    then show ?thesis
      unfolding p with_fallback_def by (simp add: f triple_bind [OF _ out])
  qed
qed

lemma route_quiet [quiet_intros]: "stable R \<Longrightarrow> keeps R (fallback_refused d cmd a why r x)"
  unfolding fallback_refused_def by (intro inv_intros quiet_intros)

lemma direct_fallback_once: "fallback_once (Some (directPoolFallback d df))"
proof -
  have "triple (not_yet c) (directPoolFallback d df cmd a i req why) (\<lambda>_. at_most_once c) (\<lambda>_. at_most_once c)" for cmd a i req why c
    unfolding directPoolFallback_def
  proof (rule triple_bind [OF triple_unsubmitted [OF keeps_attempt [OF keeps_outside]]], goal_cases)
    case (2 route)
    have no: "triple (not_yet c) (fallback_refused d cmd a why r x) (\<lambda>_. at_most_once c) (\<lambda>_. at_most_once c)" for r x
      by (rule triple_conseq [OF triple_unsubmitted [OF route_quiet]]) auto
    have run: "triple (not_yet c) (andthen (journal_append d ATTEMPT_PREPARED i q) (andthen (modify (\<lambda>s. s\<lparr>p_signedAttempt := None\<rparr>))
        (bind (directExecuteDetailed (direct_options d df i key non hop) req' inp') (\<lambda>x. return (Some x)))))
        (\<lambda>_. at_most_once c) (\<lambda>_. at_most_once c)" for q key non hop req' inp'
      by (rule triple_andthen [OF triple_unsubmitted [OF keeps_journal_append]], assumption,
          rule triple_andthen [OF triple_modify triple_bind [OF exit_once.execute_once triple_return]])
        (simp_all add: executions_def)
    show ?case by (auto intro!: no run split: sum.split option.split)
  qed
  then show ?thesis by (simp add: fallback_once_def)
qed

lemma record_once: "triple (at_most_once c) (record_outcome d i key st fi sg rs mx ex) (\<lambda>_. at_most_once c) (\<lambda>_. at_most_once c)"
  by (rule triple_stable [OF unsubmitted(2)]) (auto intro: quiet_intros)

lemma close_claimed_once:
  assumes "fallback_once fb"
  shows "triple (not_yet c) (close_claimed d fb cmd a i) (\<lambda>_. at_most_once c) (\<lambda>_. at_most_once c)"
  unfolding close_claimed_def Let_def
  by (intro triple_andthen [OF triple_unsubmitted] triple_bind [OF triple_unsubmitted] triple_bind [OF primary_once]
      triple_bind [OF with_fallback_once [OF assms]] triple_andthen [OF record_once] triple_return quiet_intros)

lemma action_once:
  assumes "fallback_once fb"
  shows "triple (not_yet c) (emergencyAction d fb cmd a) (\<lambda>_. at_most_once c) (\<lambda>_. at_most_once c)"
  unfolding emergencyAction_def with_claim_def
  by (rule triple_bind [OF triple_unsubmitted], rule quiet_intros, assumption, rule triple_bind [of _ _ "\<lambda>_. not_yet c", OF triple_asks])
    (auto intro!: triple_return triple_andthen [OF triple_modify close_claimed_once [OF assms]])

lemma probe_once: "triple (at_most_once c) (probe d b) (\<lambda>_. at_most_once c) (\<lambda>_. at_most_once c)"
  by (rule triple_stable [OF unsubmitted(2)]) (auto intro: quiet_intros)

lemma prepared_once: "triple (not_yet c) (submit_prepared d inp now p) (\<lambda>_. at_most_once c) (\<lambda>_. at_most_once c)"
proof -
  have run: "triple (not_yet c) (with_new_adapter (executeDetailed (adapterFor d i key non path em) req eb))
     (\<lambda>_. at_most_once c) (\<lambda>_. at_most_once c)" for i key non path em req eb
    by (rule triple_conseq [OF attempt_submits_once]) (auto simp: settled_def begun_def)
  have refused: "triple (not_yet c) (andthen (advance_key key st) (andthen (journal_append d k i x) (return y)))
     (\<lambda>_. at_most_once c) (\<lambda>_. at_most_once c)" for key st k i x y
    by (rule triple_conseq [OF triple_unsubmitted]) (auto intro!: inv_intros quiet_intros)
  show ?thesis
    unfolding submit_prepared_def Let_def
    by (rule triple_andthen [OF triple_unsubmitted], rule quiet_intros, assumption,
        rule triple_bind [of _ _ "\<lambda>_. not_yet c", OF triple_asks], assumption,
        rule triple_bind [OF triple_unsubmitted], rule quiet_intros, assumption)
      (auto intro!: refused triple_andthen [OF triple_unsubmitted] triple_bind [OF run] triple_andthen [OF probe_once]
        triple_andthen [OF record_once] triple_return quiet_intros split: sum.split)
qed

lemma executor_submits_once: "triple (not_yet c) (submit d inp) (\<lambda>_. at_most_once c) (\<lambda>_. at_most_once c)"
proof -
  have idle: "triple (not_yet c) (asks f) (\<lambda>_. not_yet c) (\<lambda>_. at_most_once c)" for f :: "ExecutorPipeline \<Rightarrow> 'x"
    by (rule triple_asks)
  have claimed: "triple (not_yet c) (submit_claimed d inp now h p) (\<lambda>_. at_most_once c) (\<lambda>_. at_most_once c)" for now h p
    unfolding submit_claimed_def
    by (rule triple_andthen [OF triple_unsubmitted prepared_once]) (rule quiet_intros)
  have held: "triple (not_yet c) (with_claim i k dup (submit_claimed d inp now h p)) (\<lambda>_. at_most_once c) (\<lambda>_. at_most_once c)"
    for i k dup now h p
    unfolding with_claim_def
    by (rule triple_bind [OF idle]) (auto intro!: triple_return triple_andthen [OF triple_modify claimed])
  show ?thesis
    unfolding submit_def Let_def
    by (rule triple_bind [OF triple_unsubmitted], rule quiet_intros, assumption)
      (auto intro!: held triple_return triple_bind [OF idle] triple_bind [OF triple_unsubmitted] quiet_intros split: option.split sum.split)
qed

text \<open>The actions of a command, one after the other.\<close>

definition per_outcome :: "nat \<Rightarrow> EmergencyOutcome \<Rightarrow> ExecutorPipeline \<Rightarrow> bool" where
  "per_outcome c out s \<longleftrightarrow> executions s \<le> c + (case out of EMERGENCY_CLOSED _ outs _ \<Rightarrow> length outs | _ \<Rightarrow> 0)"

lemma actions_once:
  assumes "fallback_once fb"
  shows "triple (\<lambda>s. executions s \<le> c) (for_collect acts (emergencyAction d fb cmd))
    (\<lambda>outs s. executions s \<le> c + length outs) (\<lambda>_ _. True)"
proof (induction acts arbitrary: c)
  case (Cons a acts)
  have one: "triple (\<lambda>s. executions s \<le> c) (emergencyAction d fb cmd a) (\<lambda>_ s. executions s \<le> Suc c) (\<lambda>_ _. True)"
  proof (rule tripleI)
    fix s x t assume "executions s \<le> c" and "emergencyAction d fb cmd a s = (Inr x, t)"
    then show "executions t \<le> Suc c"
      using triple_Inr [OF action_once [OF assms, of "executions s"] refl, of d cmd a x t] by simp
  qed simp
  show ?case
    unfolding for_collect.simps
    by (rule triple_bind [OF one triple_bind [OF Cons.IH triple_return]]) simp
qed (simp add: triple_return)

lemma emergency_once:
  assumes "fallback_once fb"
  shows "triple (not_yet c) (emergency_with d fb inp) (per_outcome c) (\<lambda>_ _. True)"
proof -
  have idle: "triple (not_yet c) m (\<lambda>_. not_yet c) (\<lambda>_ _. True)" if "\<And>R. stable R \<Longrightarrow> keeps R m" for m :: "'x pipe"
    by (rule triple_stable [OF unsubmitted(1)]) (use that in auto)
  have out: "triple (not_yet c) (andthen m (return y)) (per_outcome c) (\<lambda>_ _. True)" if "\<And>R. stable R \<Longrightarrow> keeps R m" "\<And>i outs sk. y \<noteq> EMERGENCY_CLOSED i outs sk" for m :: "unit pipe" and y
    by (rule triple_andthen [OF idle triple_return]) (use that in \<open>auto simp: per_outcome_def split: EmergencyOutcome.split\<close>)
  have rejected: "triple (not_yet c) (rejected_line d corr p rs) (per_outcome c) (\<lambda>_ _. True)" for corr p rs
    unfolding rejected_line_def by (rule out) (auto intro: quiet_intros)
  have closed: "triple (not_yet c) (close_held d fb now cmd h) (per_outcome c) (\<lambda>_ _. True)" for now cmd h
  proof -
    have tail: "triple (\<lambda>s. executions s \<le> c + length outs) (andthen (applyLocalPause d r) (return (EMERGENCY_CLOSED i outs sk)))
        (per_outcome c) (\<lambda>_ _. True)" for outs r i sk
      by (rule triple_andthen [OF triple_stable triple_return])
        (auto simp: per_outcome_def intro: quiet_intros stable_executions [of "\<lambda>n. n \<le> c + length outs"])
    have acts: "triple (not_yet c) (bind (for_collect acts (emergencyAction d fb cmd)) (\<lambda>outs.
        andthen (applyLocalPause d r) (return (EMERGENCY_CLOSED i outs sk)))) (per_outcome c) (\<lambda>_ _. True)" for acts r i sk
      by (rule triple_bind [OF triple_pre [OF actions_once [OF assms]] tail]) simp
    show ?thesis
      unfolding close_held_def by (cases h) (auto intro!: rejected acts split: sum.split)
  qed
  have accepted: "triple (not_yet c) (emergency_accepted d fb now cmd) (per_outcome c) (\<lambda>_ _. True)" for now cmd
    unfolding emergency_accepted_def custody_holdings_def
    by (rule triple_andthen [OF idle])
      (auto intro!: quiet_intros out triple_bind [OF idle closed])
  show ?thesis
    unfolding emergency_with_def Let_def journal_of_def
    by (rule triple_bind [OF idle triple_bind [OF idle]])
      (auto intro!: quiet_intros inv_intros rejected accepted split: EmergencyInput.split sum.split option.split)
qed

section \<open>Properties\<close>

text \<open>
  C8: nothing is submitted twice. One call of \<open>submit\<close> hands at most one transaction to the provider, whatever
  the provider, the clock and the signer answer and wherever the process stops. One emergency action submits at
  most once although it may try the direct pool after the provider: the second path is taken only when the
  first has submitted nothing. A closed emergency has made at most one submission per action it reports, and a
  rejected or merely paused one none.
\<close>

theorem one_submission_each:
  "executions (snd (submit d inp s)) \<le> executions s + 1 \<and>
   executions (snd (emergencyAction d (Some (directPoolFallback d df)) cmd a s)) \<le> executions s + 1 \<and>
   (case emergency_direct d df e s of
      (Inr (EMERGENCY_CLOSED _ outs _), t) \<Rightarrow> executions t \<le> executions s + length outs
    | (Inr _, t) \<Rightarrow> executions t \<le> executions s
    | (Inl _, _) \<Rightarrow> True)"
proof (intro conjI)
  show "executions (snd (submit d inp s)) \<le> executions s + 1"
    using triple_snd [OF executor_submits_once refl] by simp
  show "executions (snd (emergencyAction d (Some (directPoolFallback d df)) cmd a s)) \<le> executions s + 1"
    using triple_snd [OF action_once [OF direct_fallback_once] refl] by simp
  have "per_outcome (executions s) x t" if "emergency_direct d df e s = (Inr x, t)" for x t
    using emergency_once [OF direct_fallback_once] refl that unfolding emergency_direct_def by (rule triple_Inr)
  then show "case emergency_direct d df e s of
      (Inr (EMERGENCY_CLOSED _ outs _), t) \<Rightarrow> executions t \<le> executions s + length outs
    | (Inr _, t) \<Rightarrow> executions t \<le> executions s
    | (Inl _, _) \<Rightarrow> True"
    by (fastforce simp: per_outcome_def split: prod.split sum.split EmergencyOutcome.split)
qed

end
