(* ===== verification/FinalityLiveness.thy ===== *)
theory FinalityLiveness imports ExecutorFinality begin

text \<open>
  Progress of staged finality: while the process still holds the journal's fence, a run of the
  tracker over entry attempts always returns, and every attempt the views finalize is settled by it.
  The triples here have no exceptional outcome, so they are total.
\<close>

section \<open>Runs that always return\<close>

abbreviation surely :: "('s \<Rightarrow> bool) \<Rightarrow> ('s, 'e, 'a) prog \<Rightarrow> ('s \<Rightarrow> bool) \<Rightarrow> bool" where
  "surely P m Q \<equiv> triple P m (\<lambda>_. Q) (\<lambda>_ _. False)"

lemma surely_iff: "surely P m Q \<longleftrightarrow> (\<forall>s. P s \<longrightarrow> (\<exists>a t. m s = (Inr a, t) \<and> Q t))"
proof -
  have "(case r of (Inl e, t) \<Rightarrow> False | (Inr a, t) \<Rightarrow> Q t) \<longleftrightarrow> (\<exists>a t. r = (Inr a, t) \<and> Q t)" for r :: "('b + 'c) \<times> 'a"
    by (cases r; cases "fst r") auto
  then show ?thesis by (simp add: triple_def)
qed

lemma surelyI: "(\<And>s. P s \<Longrightarrow> \<exists>a t. m s = (Inr a, t) \<and> Q t) \<Longrightarrow> surely P m Q"
  by (simp add: surely_iff)

named_theorems sure_intros \<open>steps that always return and keep the account\<close>

lemma surely_bind: "surely P m P' \<Longrightarrow> (\<And>a. surely P' (f a) Q) \<Longrightarrow> surely P (bind m f) Q"
  by (rule triple_bind)

lemma surely_for_collect:
  assumes "\<And>x D. x \<in> set xs \<Longrightarrow> surely (P D) (f x) (P (D \<union> g x))"
  shows "surely (P D) (for_collect xs f) (P (D \<union> (\<Union>x \<in> set xs. g x)))"
  using assms
proof (induction xs arbitrary: D)
  case (Cons x xs)
  have "surely (P (D \<union> g x)) (for_collect xs f) (P (D \<union> g x \<union> (\<Union>x \<in> set xs. g x)))"
    by (rule Cons.IH) (simp add: Cons.prems)
  then have "surely (P (D \<union> g x)) (for_collect xs f) (P (D \<union> (\<Union>x \<in> set (x # xs). g x)))"
    by (simp add: Un_assoc)
  with Cons.prems [of x D] show ?case
    by (auto intro!: surely_bind triple_return)
qed (simp add: triple_def)

section \<open>Settled attempts\<close>

text \<open>The lines the tracker writes: none of them prepares, signs or submits.\<close>

definition result_line :: "ExecutorJournalKind \<Rightarrow> bool" where
  "result_line k \<longleftrightarrow> k \<notin> {ATTEMPT_PREPARED, ATTEMPT_SIGNED, ATTEMPT_SUBMITTED}"

definition resulted :: "JournalEntry list \<Rightarrow> string \<Rightarrow> bool" where
  "resulted es i \<longleftrightarrow> i \<notin> u_correlationId ` set (unresolvedAttempts es)"

definition last_lines :: "JournalEntry list \<Rightarrow> (string \<times> JournalEntry) list" where
  "last_lines es = foldl (\<lambda>m e. if kind e \<in> {ATTEMPT_SIGNED, ATTEMPT_SUBMITTED, ATTEMPT_RESULT}
                         then AList.update (correlationId e) e m else m) [] es"

lemma last_lines_snoc:
  "last_lines (es @ [e]) = (if kind e \<in> {ATTEMPT_SIGNED, ATTEMPT_SUBMITTED, ATTEMPT_RESULT}
     then AList.update (correlationId e) e (last_lines es) else last_lines es)"
  by (simp add: last_lines_def)

lemma last_lines_keys: "distinct (map fst (last_lines es)) \<and> (\<forall>(k, e) \<in> set (last_lines es). correlationId e = k)"
proof (induction es rule: rev_induct)
  case (snoc e es)
  have "set (AList.update k v m) \<subseteq> insert (k, v) (set m)" for k v and m :: "(string \<times> JournalEntry) list"
    by (induction m) auto
  then have "\<forall>(k, e') \<in> set (AList.update (correlationId e) e (last_lines es)). correlationId e' = k"
    using snoc by blast
  then show ?case using snoc by (simp add: last_lines_snoc distinct_update)
qed (simp add: last_lines_def)

lemma resulted_iff: "resulted es i \<longleftrightarrow> (\<forall>e. map_of (last_lines es) i = Some e \<longrightarrow> kind e = ATTEMPT_RESULT)"
proof -
  have "u_correlationId ` set (unresolvedAttempts es) =
      correlationId ` {e \<in> snd ` set (last_lines es). kind e \<noteq> ATTEMPT_RESULT}"
    by (auto simp: unresolvedAttempts_def last_lines_def Let_def image_image)
  also have "\<dots> = {i. \<exists>e. (i, e) \<in> set (last_lines es) \<and> kind e \<noteq> ATTEMPT_RESULT}"
    using last_lines_keys [of es] by force
  finally have "resulted es i \<longleftrightarrow> \<not> (\<exists>e. (i, e) \<in> set (last_lines es) \<and> kind e \<noteq> ATTEMPT_RESULT)"
    by (simp add: resulted_def)
  then show ?thesis using last_lines_keys [of es] by simp
qed

lemma resulted_snoc:
  assumes "result_line (kind e)"
  shows "resulted es i \<Longrightarrow> resulted (es @ [e]) i" "kind e = ATTEMPT_RESULT \<Longrightarrow> resulted (es @ [e]) (correlationId e)"
  using assms by (auto simp: resulted_iff last_lines_snoc result_line_def update_conv)

section \<open>The account of a run\<close>

text \<open>
  The fence is held, only result lines were added to \<open>es0\<close>, and the attempts in \<open>D\<close> are settled.
\<close>

definition progress :: "JournalEntry list \<Rightarrow> string set \<Rightarrow> ExecutorPipeline \<Rightarrow> bool" where
  "progress es0 D s \<longleftrightarrow> assertFenced (p_files s) (p_journal s) = Inr () \<and>
     (\<exists>x. entries (p_journal s) = es0 @ x \<and> (\<forall>e \<in> set x. result_line (kind e))) \<and>
     (\<forall>i \<in> D. resulted (entries (p_journal s)) i)"

lemma hash_plain: "plain v \<Longrightarrow> \<exists>h. hash_json cr v = Inr h"
  by (simp add: hash_json_def canonicalHash_def canonicalize_def serialize_render)

lemma append_returns:
  assumes "progress es0 D s" and "plain (JObj p)" and "result_line k"
  shows "\<exists>t. journal_append d k corr p s = (Inr (), t) \<and>
    progress es0 (if k = ATTEMPT_RESULT then insert corr D else D) t"
proof -
  let ?cr = "e_crypto d" and ?now = "e_clock d (p_tick s)" and ?es = "entries (p_journal s)"
  have "plain (body_json ?cr e)" if "entry_payload e = p" for e
    using assms(2) that by (auto simp: body_json_def body_members_def)
  then obtain e where e: "new_entry ?cr ?now ?es k corr p = Inr e"
    using hash_plain [of _ ?cr] by (fastforce simp: new_entry_def Let_def)
  then have ek: "kind e = k" "correlationId e = corr" by (auto simp: new_entry_def Let_def)
  let ?t = "s\<lparr>p_tick := Suc (p_tick s), p_files := (p_files s)\<lparr>lines := lines (p_files s) @ [LINE e]\<rparr>,
      p_journal := (p_journal s)\<lparr>entries := ?es @ [e]\<rparr>\<rparr>"
  have run: "journal_append d k corr p s = (Inr (), ?t)"
    using assms(1) e by (simp add: journal_append_def append_entry_def progress_def Let_def)
  have "assertFenced (p_files ?t) (p_journal ?t) = Inr ()"
    using assms(1) by (cases "lock (p_files s)") (auto simp: progress_def assertFenced_def split: if_splits)
  then have "progress es0 (if k = ATTEMPT_RESULT then insert corr D else D) ?t"
    using assms(1,3) resulted_snoc [of e ?es] ek by (auto simp: progress_def)
  with run show ?thesis by blast
qed

lemma sure_append [sure_intros]:
  assumes "plain (JObj p)" and "result_line k" and "k \<noteq> ATTEMPT_RESULT"
  shows "surely (progress es0 D) (journal_append d k c p) (progress es0 D)"
  by (rule surelyI) (metis append_returns [OF _ assms(1,2)] assms(3))

lemma sure_result:
  assumes "plain (JObj p)"
  shows "surely (progress es0 D) (journal_append d ATTEMPT_RESULT c p) (progress es0 (insert c D))"
proof -
  have "result_line ATTEMPT_RESULT" by (simp add: result_line_def)
  from append_returns [OF _ assms this] show ?thesis by (intro surelyI) (metis (full_types))
qed

lemma progress_untouched [simp]:
  "progress es0 D (s\<lparr>p_tick := n\<rparr>) = progress es0 D s" "progress es0 D (s\<lparr>p_ledger := l\<rparr>) = progress es0 D s"
  "progress es0 D (s\<lparr>p_registry := r\<rparr>) = progress es0 D s"
  "progress es0 D (s\<lparr>p_paused := b, p_pauseReason := a\<rparr>) = progress es0 D s"
  by (simp_all add: progress_def)

lemma progress_mono: "progress es0 D s \<Longrightarrow> E \<subseteq> D \<Longrightarrow> progress es0 E s"
  by (auto simp: progress_def)

lemma sure_basic [sure_intros]:
  "surely (progress es0 D) (clock_now d) (progress es0 D)"
  "surely (progress es0 D) (advance_key_if st k st') (progress es0 D)"
  "surely (progress es0 D) journal_of (progress es0 D)"
  "surely (progress es0 D) (ledger_open i) (progress es0 D)"
  "surely (progress es0 D) (quorum d sig) (progress es0 D)"
  "surely (progress es0 D) (prove_dead_views d sig v) (progress es0 D)"
  "surely (progress es0 D) (asks f) (progress es0 D)"
  "surely (progress es0 D) (return a) (progress es0 D)"
  unfolding clock_now_def advance_key_if_def journal_of_def ledger_open_def quorum_def prove_dead_views_def
  by (rule surelyI, simp add: outside_def)+

text \<open>An event the ledger accepts is journaled.\<close>

lemma plain_event: "plain (JObj (event_json d ev))"
  by (cases ev) (auto simp: event_json_def Let_def amount_json_def)

lemma sure_ledgerEvent:
  assumes "progress es0 D s" and "ledger_apply (p_ledger s) ev = Inr l"
  shows "\<exists>t. ledgerEvent d i ev s = (Inr (), t) \<and> progress es0 D t"
proof -
  have "progress es0 D (s\<lparr>p_ledger := l\<rparr>)" using assms(1) by simp
  from append_returns [OF this plain_event, of EXPOSURE_LEDGER_UPDATED d i d ev] show ?thesis
    using assms(2) by (simp add: ledgerEvent_def result_line_def)
qed

lemma open_applies:
  "i \<in> set (openIntents l) \<Longrightarrow> ev = ENTRY_CONFIRMED t i c \<or> ev = ENTRY_RELEASED t i r \<Longrightarrow> \<exists>l'. ledger_apply l ev = Inr l'"
  by (auto simp: ledger_apply_def open_after_def openIntents_def keys_of_def split: option.split dest: weak_map_of_SomeI)

lemma sure_if_ledger_open [sure_intros]:
  assumes "ev = ENTRY_CONFIRMED t i c \<or> ev = ENTRY_RELEASED t i r"
  shows "surely (progress es0 D) (if_ledger_open d i ev) (progress es0 D)"
proof (rule surelyI)
  fix s
  assume s: "progress es0 D s"
  show "\<exists>a t. if_ledger_open d i ev s = (Inr a, t) \<and> progress es0 D t"
    using s open_applies [OF _ assms, of "p_ledger s"] sure_ledgerEvent [OF s, of ev _ d i]
    by (auto simp: if_ledger_open_def bind_run ledger_open_def when_cond_run)
qed

lemma sure_when [sure_intros]: "(b \<Longrightarrow> surely P m P) \<Longrightarrow> surely P (when_cond b m) P"
  by (rule triple_when)

lemma sure_pause [sure_intros]: "surely (progress es0 D) (applyLocalPause d r) (progress es0 D)"
  unfolding applyLocalPause_def
  by (intro surely_bind [where P' = "progress es0 D"] sure_basic triple_if triple_andthen [where Q = "progress es0 D"]
      triple_modify sure_append) (simp_all add: result_line_def)

lemma sure_clear [sure_intros]: "surely (progress es0 D) (clearLocalPause d r) (progress es0 D)"
  unfolding clearLocalPause_def
  by (intro surely_bind [where P' = "progress es0 D"] sure_basic triple_if triple_andthen [where Q = "progress es0 D"]
      triple_modify sure_append) (simp_all add: result_line_def)

section \<open>One turn\<close>

lemma plain_views: "plain (views_json q)"
proof -
  have "plain (reading_json r)" for r
    by (cases r) (auto simp: status_members_def jint_def opt_json_def split: option.split)
  then show ?thesis by (simp add: views_json_def)
qed

lemma plain_opt_jint [simp]: "plain (jint i)" "plain (opt_json jint a)"
  by (simp_all add: jint_def opt_json_def split: option.split)

lemma sure_then: "surely P m P \<Longrightarrow> surely P n Q \<Longrightarrow> surely P (andthen m n) Q"
  by (rule triple_andthen)

lemma sure_then_return: "surely P m Q \<Longrightarrow> surely P (andthen m (return a)) Q"
  by (rule triple_andthen, assumption, rule triple_return)

lemma sure_bind: "surely P m P \<Longrightarrow> (\<And>a. surely P (f a) Q) \<Longrightarrow> surely P (bind m f) Q"
  by (rule triple_bind)

lemma sure_partial: "surely P m Q \<Longrightarrow> triple P m (\<lambda>_. Q) E"
  by (erule triple_conseq) simp_all

lemma sure_weaken: "surely P m (progress es0 D) \<Longrightarrow> E \<subseteq> D \<Longrightarrow> surely P m (progress es0 E)"
  by (auto elim!: triple_conseq intro: progress_mono)

lemma plain_track: "(\<And>m. m \<in> set p \<Longrightarrow> plain (snd m)) \<Longrightarrow> plain (JObj (track_members t @ p))"
  by (auto simp: track_members_def)

lemma sure_dead: "surely (progress es0 D) (track_dead d t q now r) (progress es0 (insert (t_intentId t) D))"
  unfolding track_dead_def
  by (intro sure_then sure_then_return sure_result sure_intros plain_track) (auto simp: plain_views)

text \<open>From each state the tracker starts in, a finalized observation is accepted.\<close>

lemma tracked_transition:
  assumes "tracked_of es u = Some t"
  shows "\<exists>m. attemptTransition (t_machine t) (E_OBSERVED now finalized k) = Inr m"
  using assms
  by (auto simp: tracked_of_def prior_state_def Let_def split: option.splits if_splits)

lemma sure_finalized:
  assumes "tracked_of es u = Some t" and "\<not> t_emergency t"
  shows "surely (progress es0 D) (track_finalized d t q now) (progress es0 (insert (t_intentId t) D))"
proof -
  obtain m where "attemptTransition (t_machine t) (E_OBSERVED now finalized (default 0 (verdict_slot q))) = Inr m"
    using tracked_transition [OF assms(1)] by blast
  then show ?thesis
    using assms(2) unfolding track_finalized_def
    by (auto intro!: sure_then sure_then_return sure_result sure_intros plain_track simp: plain_views)
qed

lemma sure_confirmed: "surely (progress es0 D) (track_confirmed d t q now) (progress es0 D)"
  unfolding track_confirmed_def
  by (auto intro!: sure_then sure_then_return sure_intros plain_track simp: plain_views result_line_def split: sum.split)

lemma sure_reorg: "surely (progress es0 D) (track_reorg d t q now) (progress es0 D)"
  unfolding track_reorg_def
  by (auto intro!: sure_then sure_then_return sure_intros plain_track simp: plain_views result_line_def split: sum.split)

lemma sure_unlanded: "surely (progress es0 D) (track_unlanded d t q now) (progress es0 D)"
proof -
  have "surely (progress es0 D) (track_dead d t q now r) (progress es0 D)" for r
    by (rule sure_weaken [OF sure_dead]) auto
  then show ?thesis
    unfolding track_unlanded_def
    by (auto intro!: sure_then sure_bind sure_reorg sure_intros split: sum.split option.split)
qed

text \<open>What the tracker reads of an attempt does not change with the lines it writes.\<close>

lemma find_none_new: "(\<And>e. e \<in> set x \<Longrightarrow> \<not> P e) \<Longrightarrow> find P (es @ x) = find P es \<and> find P (rev (es @ x)) = find P (rev es)"
proof -
  assume new: "\<And>e. e \<in> set x \<Longrightarrow> \<not> P e"
  have "find P (as @ bs) = (case find P as of None \<Rightarrow> find P bs | Some a \<Rightarrow> Some a)" for as bs :: "'a list"
    by (induction as) auto
  moreover have "find P x = None" "find P (rev x) = None" using new by (auto simp: find_None_iff)
  ultimately show ?thesis by (auto split: option.split)
qed

lemma tracked_stable:
  assumes new: "\<forall>e \<in> set x. result_line (kind e)"
  shows "(tracked_of (es @ x) u = None) = (tracked_of es u = None)"
    and "tracked_of (es @ x) u = Some t' \<Longrightarrow> \<exists>t. tracked_of es u = Some t \<and> t_emergency t' = t_emergency t \<and>
       t_intentId t' = t_intentId t \<and> t_signature t' = t_signature t"
proof -
  have "signed_line (es @ x) c = signed_line es c" "prepared_line (es @ x) c = prepared_line es c" for c
    unfolding signed_line_def prepared_line_def find_last.simps
    using find_none_new [of x "\<lambda>e. correlationId e = c \<and> kind e = ATTEMPT_SIGNED" es]
      find_none_new [of x "\<lambda>e. correlationId e = c \<and> kind e = ATTEMPT_PREPARED" es] new
    by (auto simp: result_line_def simp del: rev_append)
  then show "(tracked_of (es @ x) u = None) = (tracked_of es u = None)"
    "tracked_of (es @ x) u = Some t' \<Longrightarrow> \<exists>t. tracked_of es u = Some t \<and> t_emergency t' = t_emergency t \<and>
       t_intentId t' = t_intentId t \<and> t_signature t' = t_signature t"
    by (auto simp: tracked_of_def attempt_signature_def attempt_key_def Let_def split: option.splits)
qed

definition finalized_everywhere :: "Deps \<Rightarrow> tx_signature \<Rightarrow> bool" where
  "finalized_everywhere d sig \<longleftrightarrow>
     (\<forall>n. verdict (quorumVerdict (readSignature (observers d n) sig) (default 64 (e_graceSlots d))) = V_FINALIZED)"

lemma sure_quorum:
  assumes "\<And>q. finalized_everywhere d sig \<longrightarrow> verdict q = V_FINALIZED \<Longrightarrow> surely (progress es0 D) (f q) Q"
  shows "surely (progress es0 D) (bind (quorum d sig) f) Q"
proof (rule surelyI)
  fix s assume s: "progress es0 D s"
  let ?q = "quorumVerdict (readSignature (observers d (p_tick s)) sig) (default 64 (e_graceSlots d))"
  have "surely (progress es0 D) (f ?q) Q" by (rule assms) (simp add: finalized_everywhere_def)
  with s show "\<exists>a t. bind (quorum d sig) f s = (Inr a, t) \<and> Q t"
    by (simp add: surely_iff bind_run quorum_def outside_def)
qed

text \<open>The id an attempt settles under, when the views finalize it.\<close>

definition settles :: "Deps \<Rightarrow> JournalEntry list \<Rightarrow> UnresolvedAttempt \<Rightarrow> string set" where
  "settles d es u = {i. \<exists>t. tracked_of es u = Some t \<and> finalized_everywhere d (t_signature t) \<and> i = t_intentId t}"

lemma sure_attempt:
  assumes entry: "\<And>t. tracked_of es0 u = Some t \<Longrightarrow> \<not> t_emergency t"
  shows "surely (progress es0 D) (track_attempt d u) (progress es0 (D \<union> settles d es0 u))"
proof (rule surelyI)
  fix s assume s: "progress es0 D s"
  then obtain x where x: "entries (p_journal s) = es0 @ x" "\<forall>e \<in> set x. result_line (kind e)" by (auto simp: progress_def)
  show "\<exists>a t. track_attempt d u s = (Inr a, t) \<and> progress es0 (D \<union> settles d es0 u) t"
  proof (cases "tracked_of (es0 @ x) u")
    case None
    then have "settles d es0 u = {}" using tracked_stable(1) [OF x(2)] by (simp add: settles_def)
    with None s x show ?thesis by (simp add: track_attempt_def bind_run journal_of_def)
  next
    case (Some t)
    from tracked_stable(2) [OF x(2) Some] obtain t0 where t0: "tracked_of es0 u = Some t0" "t_emergency t = t_emergency t0"
      "t_intentId t = t_intentId t0" "t_signature t = t_signature t0" by blast
    then have fin: "surely (progress es0 D) (track_finalized d t q now) (progress es0 (D \<union> settles d es0 u))" for q now
      by (intro sure_weaken [OF sure_finalized [OF Some]]) (use entry in \<open>auto simp: settles_def\<close>)
    have other: "surely (progress es0 D) m (progress es0 (D \<union> settles d es0 u))"
      if "\<not> finalized_everywhere d (t_signature t)" "surely (progress es0 D) m (progress es0 D)" for m :: "turn pipe"
      using that t0 by (auto simp: settles_def)
    have "surely (progress es0 D) (bind (quorum d (t_signature t)) (\<lambda>q. bind (clock_now d) (\<lambda>now.
         case verdict q of
           V_FINALIZED \<Rightarrow> track_finalized d t q now
         | V_PROCESSED \<Rightarrow> return ([], reorg_count t)
         | V_CONFIRMED \<Rightarrow> track_confirmed d t q now
         | V_UNAVAILABLE \<Rightarrow> return ([update_of t q (t_prior t) (Some ''no RPC view answered'')], reorg_count t)
         | _ \<Rightarrow> track_unlanded d t q now))) (progress es0 (D \<union> settles d es0 u))"
      by (rule sure_quorum, rule sure_bind [OF sure_basic(1)])
        (auto intro!: fin other sure_confirmed sure_unlanded sure_basic split: QuorumVerdictKind.split)
    with s x Some show ?thesis by (simp add: track_attempt_def surely_iff bind_run journal_of_def)
  qed
qed

section \<open>The whole run\<close>

lemma sure_release: "surely (progress es0 D) (release_pause d r) (progress es0 D)"
proof -
  have "keeps (progress es0 D) (custody_holdings d)"
    by (simp add: keeps_def custody_holdings_def outside_def)
  then have c: "triple (progress es0 D) (custody_holdings d) (\<lambda>_. progress es0 D) (\<lambda>_. progress es0 D)"
    by (simp add: keeps_triple)
  have "surely (progress es0 D) (case v of (sl, hs) \<Rightarrow> bind (clock_now d) (\<lambda>t.
        andthen (journal_append d CUSTODY_RECONCILED ''ops'' [(''slot'', jint sl),
            (''holdings'', JArr (map (\<lambda>h. JObj [(''mint'', JStr (holding_mint h)), (''amount'', amount_json (holding_amount h))]) hs)),
            (''releasing'', JStr r), (''at'', JStr (iso (e_crypto d) t))])
          (clearLocalPause d ''finality-tracker:custody-reconciled''))) (progress es0 D)" for v
    by (cases v) (auto intro!: sure_bind sure_then sure_intros simp: result_line_def amount_json_def)
  then have p: "triple (progress es0 D) (case v of (sl, hs) \<Rightarrow> bind (clock_now d) (\<lambda>t.
        andthen (journal_append d CUSTODY_RECONCILED ''ops'' [(''slot'', jint sl),
            (''holdings'', JArr (map (\<lambda>h. JObj [(''mint'', JStr (holding_mint h)), (''amount'', amount_json (holding_amount h))]) hs)),
            (''releasing'', JStr r), (''at'', JStr (iso (e_crypto d) t))])
          (clearLocalPause d ''finality-tracker:custody-reconciled''))) (\<lambda>_. progress es0 D) (\<lambda>_. progress es0 D)" for v
    by (rule sure_partial)
  show ?thesis
    unfolding release_pause_def
    by (intro triple_try [where E = "\<lambda>_. progress es0 D"] triple_bind [OF c] triple_return p)
qed

text \<open>
  C14: staged finality makes progress. While the process still holds the journal's fence, a run of
  the tracker over entry attempts always returns, whatever the views, the custody provider and the
  chain answer; and every open attempt whose signature the views finalize is settled by that run:
  its result is in the journal and it is no longer open.
\<close>

theorem finalized_attempts_settle:
  assumes fence: "assertFenced (p_files s) (p_journal s) = Inr ()"
    and entry: "\<And>u t. u \<in> set (unresolvedAttempts (entries (p_journal s))) \<Longrightarrow>
      tracked_of (entries (p_journal s)) u = Some t \<Longrightarrow> \<not> t_emergency t"
  shows "\<exists>ups s'. trackFinality d s = (Inr ups, s') \<and>
    (\<forall>u \<in> set (unresolvedAttempts (entries (p_journal s))). \<forall>t.
       tracked_of (entries (p_journal s)) u = Some t \<and> finalized_everywhere d (t_signature t) \<longrightarrow>
       u_correlationId u \<notin> u_correlationId ` set (unresolvedAttempts (entries (p_journal s'))))"
proof -
  let ?es = "entries (p_journal s)" and ?us = "unresolvedAttempts (entries (p_journal s))"
  let ?D = "\<Union>u \<in> set ?us. settles d ?es u"
  have start: "progress ?es {} s" using fence by (simp add: progress_def)
  have "surely (progress ?es {}) (for_collect ?us (track_attempt d)) (progress ?es ({} \<union> ?D))"
    by (rule surely_for_collect) (rule sure_attempt, rule entry)
  then have loop: "surely (progress ?es {}) (for_collect ?us (track_attempt d)) (progress ?es ?D)" by simp
  have "surely (progress ?es {}) (bind (for_collect ?us (track_attempt d)) (\<lambda>turns.
     bind (asks (\<lambda>s. (p_paused s, default [] (p_pauseReason s)))) (\<lambda>(active, reason).
       andthen (when_cond (active \<and> sum_list (map snd turns) = 0 \<and>
                    (starts_with ''REORG_PENDING:'' reason \<or> starts_with ''RPC_DIVERGENCE:'' reason))
          (release_pause d reason))
        (return (concat (map fst turns)))))) (progress ?es ?D)"
    by (rule surely_bind [OF loop]) (auto intro!: sure_bind sure_then_return sure_when sure_release sure_basic)
  with start obtain ups s' where run: "trackFinality d s = (Inr ups, s')" "progress ?es ?D s'"
    by (auto simp: surely_iff trackFinality_def bind_run journal_of_def)
  have "resulted (entries (p_journal s')) (u_correlationId u)"
    if "u \<in> set ?us" "tracked_of ?es u = Some t" "finalized_everywhere d (t_signature t)" for u t
    using run(2) that tracked_of_facts [OF that(2)] by (auto simp: progress_def settles_def)
  with run(1) show ?thesis by (auto simp: resulted_def)
qed

text \<open>The toy chain with every view reporting the attempt finalized.\<close>

definition toy_finalized :: Deps where
  "toy_finalized = toy_deps\<lparr>e_chain := \<lambda>_. \<lparr>label = ''rpc'', signatureStatus = (\<lambda>_. Inr (Some \<lparr>slot = 7,
     confirmationStatus = finalized, err = None\<rparr>)), blockHeight = Inr 1000, head = Some (Inr 1000)\<rparr>\<rparr>"

theorem finalized_attempts_settle_witness:
  "\<exists>ups s'. trackFinality toy_finalized toy_confirmed = (Inr ups, s') \<and>
     ''i1'' \<notin> u_correlationId ` set (unresolvedAttempts (entries (p_journal s')))"
proof -
  have fence: "assertFenced (p_files toy_confirmed) (p_journal toy_confirmed) = Inr ()"
    by (simp add: assertFenced_def toy_confirmed_def toy_pipeline_def toy_files_def)
  let ?u = "\<lparr>u_correlationId = ''i1'', lastKind = ATTEMPT_SIGNED, u_signedTxHash = None, u_expectedTxSignature = Some ''s1''\<rparr>"
  have us: "unresolvedAttempts (entries (p_journal toy_confirmed)) = [?u]"
    by (simp add: unresolvedAttempts_def toy_confirmed_def toy_line_def get_text_def)
  have "\<exists>t. tracked_of (entries (p_journal toy_confirmed)) ?u = Some t \<and> \<not> t_emergency t \<and> t_signature t = ''s1''"
    by (simp add: tracked_of_def Let_def toy_confirmed_def toy_line_def attempt_signature_def attempt_key_def text_or_null_def
        get_text_def opt_get_def signed_line_def prepared_line_def get_flag_def orelse_def)
  then obtain t where t: "tracked_of (entries (p_journal toy_confirmed)) ?u = Some t" "\<not> t_emergency t" "t_signature t = ''s1''"
    by blast
  have "finalized_everywhere toy_finalized ''s1''"
    by (simp add: finalized_everywhere_def toy_finalized_def toy_deps_def observers_def readSignature_def read_view_def quorumVerdict_def
        Let_def)
  with finalized_attempts_settle [OF fence, of toy_finalized] us t show ?thesis by auto
qed

end
