(* ===== verification/Sizing.thy ===== *)
theory Sizing imports RiskPolicy begin

text \<open>
  Position sizing (\<open>libs/risk/src/sizing/size.ts\<close>): the smallest of the risk budget divided by
  the stop distance and every cap, in base units of the settlement mint, rounded down at every
  division. The lemmas give the size as that minimum and the loss at the stop as at most the
  risk budget.
\<close>

datatype SizingConstraint =
    RISK_BUDGET_BY_STOP | SLEEVE_CAP | MAX_POSITION_VALUE | COHORT_REMAINING | CLUSTER_REMAINING
  | LIQUIDITY_CAP | AVAILABLE_CAPITAL | NO_CONSTRAINT

datatype unknown_capacity = COHORT | CLUSTER

record SleeveCapacity =
  capRemainingBaseUnits :: amount
  riskRemainingBaseUnits :: amount

record SizingInputs =
  si_policy :: RiskPolicy
  si_equityBaseUnits :: amount
  si_stopDistanceFraction :: jsnum
  si_sleeve :: "SleeveCapacity option"
  cohortRemainingBaseUnits :: "amount option"
  clusterRemainingBaseUnits :: "amount option"
  liquidityBaseUnits :: "amount option"
  availableCapitalBaseUnits :: amount

record SizingResult =
  sizeBaseUnits :: amount
  riskBudgetBaseUnits :: amount
  sizeByStopBaseUnits :: amount
  binding :: SizingConstraint
  caps :: "(SizingConstraint \<times> amount option) list"
  unknownCapacity :: "unknown_capacity option"

definition MICRO :: int where
  "MICRO = 1000000"

text \<open>\<open>BigInt(Math.round(f * 1_000_000))\<close>: a RangeError unless \<open>f\<close> is finite.\<close>

definition micros :: "jsnum \<Rightarrow> arith_error + int" where
  "micros f = (case bigint_of (math_round (nmul f (Fin 1000000))) of None \<Rightarrow> Inl RANGE_ERROR | Some n \<Rightarrow> Inr n)"

lemma math_round_numeral [simp]: "math_round (Fin (numeral n)) = Fin (numeral n)"
  using math_round_int [of "numeral n"] by simp

lemma floor_rat_numeral [simp]: "\<lfloor>(numeral a / numeral b :: rat)\<rfloor> = numeral a div numeral b"
  using floor_divide_of_int_eq [of "numeral a" "numeral b", where ?'a = rat] by simp

definition fraction_of :: "amount \<Rightarrow> jsnum \<Rightarrow> arith_error + amount" where
  "fraction_of a f = ebind (micros (nmax (Fin 0) f)) (\<lambda>n. mulDiv a n MICRO FLOOR)"

definition emptyCaps :: "(SizingConstraint \<times> amount option) list" where
  "emptyCaps = map (\<lambda>c. (c, None)) [RISK_BUDGET_BY_STOP, SLEEVE_CAP, MAX_POSITION_VALUE, COHORT_REMAINING,
     CLUSTER_REMAINING, LIQUIDITY_CAP, AVAILABLE_CAPITAL]"

text \<open>One turn of the loop over the caps, and the rule for a capacity that is not known.\<close>

definition tighten :: "int \<times> SizingConstraint \<Rightarrow> SizingConstraint \<times> amount option \<Rightarrow> int \<times> SizingConstraint" where
  "tighten sb nc = (case nc of (name, None) \<Rightarrow> sb
     | (name, Some c) \<Rightarrow> if name = RISK_BUDGET_BY_STOP then sb
        else if amountToBigInt c < fst sb then (amountToBigInt c, name) else sb)"

definition required_capacity ::
  "bool \<Rightarrow> amount option \<Rightarrow> amount option \<Rightarrow> unknown_capacity option \<times> amount option \<times> amount option" where
  "required_capacity required cohort cluster =
     (if \<not> required then (None, cohort, cluster)
      else if cohort = None then (Some COHORT, Some 0, cluster)
      else if cluster = None then (Some CLUSTER, cohort, Some 0)
      else (None, cohort, cluster))"

definition risk_budget :: "SizingInputs \<Rightarrow> arith_error + amount" where
  "risk_budget i = ebind (fraction_of (si_equityBaseUnits i) (riskPerTradeFraction (si_policy i))) (\<lambda>r.
     case si_sleeve i of None \<Rightarrow> Inr r
     | Some s \<Rightarrow> bigIntToAmount (min (amountToBigInt r) (amountToBigInt (riskRemainingBaseUnits s))))"

definition computePositionSize :: "SizingInputs \<Rightarrow> arith_error + SizingResult" where
  "computePositionSize i = ebind (risk_budget i) (\<lambda>budget.
     if \<not> nlt (Fin 0) (si_stopDistanceFraction i) \<or> \<not> is_finite_num (si_stopDistanceFraction i)
        \<or> amountToBigInt (si_equityBaseUnits i) = 0
     then Inr \<lparr>sizeBaseUnits = 0, riskBudgetBaseUnits = budget, sizeByStopBaseUnits = 0,
            binding = RISK_BUDGET_BY_STOP, caps = emptyCaps, unknownCapacity = None\<rparr>
     else ebind (micros (si_stopDistanceFraction i)) (\<lambda>d.
          ebind (mulDiv budget MICRO d FLOOR) (\<lambda>by_stop.
          ebind (case liquidityBaseUnits i of None \<Rightarrow> Inr 0
                 | Some l \<Rightarrow> fraction_of l (liquidityCapFraction (si_policy i))) (\<lambda>liquidity.
          case required_capacity (requireCohortCapacity (si_policy i)) (cohortRemainingBaseUnits i)
                 (clusterRemainingBaseUnits i) of (unknown, cohort, cluster) \<Rightarrow>
          let cs = [(RISK_BUDGET_BY_STOP, Some by_stop),
                    (SLEEVE_CAP, map_option capRemainingBaseUnits (si_sleeve i)),
                    (MAX_POSITION_VALUE, Some (maxPositionValueBaseUnits (si_policy i))),
                    (COHORT_REMAINING, cohort), (CLUSTER_REMAINING, cluster),
                    (LIQUIDITY_CAP, Some liquidity), (AVAILABLE_CAPITAL, Some (availableCapitalBaseUnits i))];
              r = foldl tighten (amountToBigInt by_stop, RISK_BUDGET_BY_STOP) cs
          in ebind (bigIntToAmount (fst r)) (\<lambda>size.
             Inr \<lparr>sizeBaseUnits = size, riskBudgetBaseUnits = budget, sizeByStopBaseUnits = by_stop,
               binding = snd r, caps = cs, unknownCapacity = unknown\<rparr>)))))"

section \<open>The size is within every cap\<close>

lemma tighten_le1: "fst (tighten sb c) \<le> fst sb"
  by (auto simp: tighten_def split: prod.splits option.splits)

lemma tighten_le: "fst (foldl tighten sb cs) \<le> fst sb"
proof (induction cs arbitrary: sb)
  case (Cons c cs)
  from Cons [of "tighten sb c"] tighten_le1 [of sb c] show ?case by simp
qed simp

lemma tighten_caps: "(n, Some c) \<in> set cs \<Longrightarrow> n \<noteq> RISK_BUDGET_BY_STOP \<Longrightarrow> fst (foldl tighten sb cs) \<le> c"
proof (induction cs arbitrary: sb)
  case (Cons x cs)
  show ?case
  proof (cases "x = (n, Some c)")
    case True
    then have "fst (tighten sb x) \<le> c" using Cons.prems(2) by (simp add: tighten_def)
    with tighten_le [of "tighten sb x" cs] show ?thesis by simp
  qed (use Cons in simp)
qed simp

lemma required_capacity_keeps:
  assumes "required_capacity q cohort cluster = (u, c, k)"
  shows "cohort = Some x \<Longrightarrow> c = Some x" and "cluster = Some x \<Longrightarrow> k = Some x"
    and "u = None \<Longrightarrow> c = cohort \<and> k = cluster" and "u = None \<Longrightarrow> q \<Longrightarrow> cohort \<noteq> None \<and> cluster \<noteq> None"
  using assms by (auto simp: required_capacity_def split: if_splits)

lemma floor_mulDiv: "mulDiv a n d FLOOR = Inr q \<Longrightarrow> 0 \<le> a * n \<Longrightarrow> 0 < d \<Longrightarrow> q * d \<le> a * n \<and> amount_ok q"
  using floor_bounds [of d "a * n"]
  by (auto simp: mulDiv_def divide_rounding_def Let_def split: if_splits)

lemma floor_mulDiv_nonpos: "mulDiv a n d FLOOR = Inr q \<Longrightarrow> 0 \<le> a * n \<Longrightarrow> d < 0 \<Longrightarrow> q \<le> 0"
  using pos_imp_zdiv_nonneg_iff [of "- d" "a * n"]
  by (auto simp: mulDiv_def divide_rounding_def Let_def split: if_splits)

lemma ceil_mulDiv: "0 \<le> a * n \<Longrightarrow> a * n \<le> b * d \<Longrightarrow> 0 < d \<Longrightarrow> mulDiv a n d CEIL = Inr q \<Longrightarrow> q \<le> b"
proof -
  assume a: "0 \<le> a * n" "a * n \<le> b * d" "0 < d" and q: "mulDiv a n d CEIL = Inr q"
  have "q = (if a * n mod d \<noteq> 0 then a * n div d + 1 else a * n div d)"
    using q a by (auto simp: mulDiv_def divide_rounding_def Let_def split: if_splits)
  moreover have "a * n div d \<le> b" using a zdiv_mono1 [of "a * n" "b * d" d] by simp
  moreover have "a * n div d < b" if "a * n mod d \<noteq> 0"
  proof (rule ccontr)
    assume "\<not> a * n div d < b"
    then have "b * d \<le> a * n div d * d" using a(3) by simp
    moreover have "a * n = a * n div d * d + a * n mod d" by simp
    moreover have "0 \<le> a * n mod d" using a(3) by simp
    ultimately show False using that a(2) by linarith
  qed
  ultimately show ?thesis by (auto split: if_splits)
qed

lemma nmax_0 [simp]: "nle (Fin 0) f \<Longrightarrow> nmax (Fin 0) f = f"
  by (cases f) (auto simp: nmax_def)

lemma fraction_of_bound:
  assumes "fraction_of a f = Inr q" "nle (Fin 0) f" "0 \<le> a" "micros f = Inr n" "0 \<le> n"
  shows "q * MICRO \<le> a * n" and "amount_ok q"
  using assms by (auto simp: fraction_of_def MICRO_def dest!: floor_mulDiv)

text \<open>
  What a computed size satisfies: every cap, and the loss at the stop distance (in millionths)
  within the risk budget.
\<close>

lemma computePositionSize_steps:
  assumes "computePositionSize i = Inr r" and "sizeBaseUnits r \<noteq> 0"
  obtains d by_stop liquidity u c k where
    "risk_budget i = Inr (riskBudgetBaseUnits r)" "nlt (Fin 0) (si_stopDistanceFraction i)"
    "micros (si_stopDistanceFraction i) = Inr d" "mulDiv (riskBudgetBaseUnits r) MICRO d FLOOR = Inr by_stop"
    "case liquidityBaseUnits i of None \<Rightarrow> liquidity = 0
       | Some l \<Rightarrow> fraction_of l (liquidityCapFraction (si_policy i)) = Inr liquidity"
    "required_capacity (requireCohortCapacity (si_policy i)) (cohortRemainingBaseUnits i)
       (clusterRemainingBaseUnits i) = (u, c, k)" "unknownCapacity r = u"
    "sizeBaseUnits r = fst (foldl tighten (by_stop, RISK_BUDGET_BY_STOP)
       [(RISK_BUDGET_BY_STOP, Some by_stop), (SLEEVE_CAP, map_option capRemainingBaseUnits (si_sleeve i)),
        (MAX_POSITION_VALUE, Some (maxPositionValueBaseUnits (si_policy i))), (COHORT_REMAINING, c),
        (CLUSTER_REMAINING, k), (LIQUIDITY_CAP, Some liquidity), (AVAILABLE_CAPITAL, Some (availableCapitalBaseUnits i))])"
    "amount_ok (sizeBaseUnits r)" "sizeBaseUnits r \<le> by_stop"
proof -
  from assms obtain budget where b: "risk_budget i = Inr budget" by (auto simp: computePositionSize_def)
  have ok: "nlt (Fin 0) (si_stopDistanceFraction i)" "is_finite_num (si_stopDistanceFraction i)"
    "amountToBigInt (si_equityBaseUnits i) \<noteq> 0"
    using assms b by (auto simp: computePositionSize_def split: if_splits)
  obtain u c k where q: "required_capacity (requireCohortCapacity (si_policy i)) (cohortRemainingBaseUnits i)
       (clusterRemainingBaseUnits i) = (u, c, k)" by (metis prod_cases3)
  show ?thesis
    using that [of _ _ _ u c k] assms b ok q
      tighten_le [of "(_, RISK_BUDGET_BY_STOP)"]
    by (auto simp: computePositionSize_def Let_def split: option.splits simp del: foldl_Cons)
qed

lemma computePositionSize_caps:
  assumes r: "computePositionSize i = Inr r" and pos: "sizeBaseUnits r \<noteq> 0"
  shows "amount_ok (sizeBaseUnits r)"
    and "sizeBaseUnits r \<le> maxPositionValueBaseUnits (si_policy i)"
    and "sizeBaseUnits r \<le> availableCapitalBaseUnits i"
    and "si_sleeve i = Some s \<Longrightarrow> sizeBaseUnits r \<le> capRemainingBaseUnits s"
    and "cohortRemainingBaseUnits i = Some c \<Longrightarrow> sizeBaseUnits r \<le> c"
    and "clusterRemainingBaseUnits i = Some k \<Longrightarrow> sizeBaseUnits r \<le> k"
    and "\<exists>l q. liquidityBaseUnits i = Some l \<and> fraction_of l (liquidityCapFraction (si_policy i)) = Inr q \<and>
           sizeBaseUnits r \<le> q"
proof -
  from r pos obtain d by_stop liquidity u c' k' where
    q: "required_capacity (requireCohortCapacity (si_policy i)) (cohortRemainingBaseUnits i)
       (clusterRemainingBaseUnits i) = (u, c', k')"
    and l: "case liquidityBaseUnits i of None \<Rightarrow> liquidity = 0
       | Some l \<Rightarrow> fraction_of l (liquidityCapFraction (si_policy i)) = Inr liquidity"
    and size: "sizeBaseUnits r = fst (foldl tighten (by_stop, RISK_BUDGET_BY_STOP)
       [(RISK_BUDGET_BY_STOP, Some by_stop), (SLEEVE_CAP, map_option capRemainingBaseUnits (si_sleeve i)),
        (MAX_POSITION_VALUE, Some (maxPositionValueBaseUnits (si_policy i))), (COHORT_REMAINING, c'),
        (CLUSTER_REMAINING, k'), (LIQUIDITY_CAP, Some liquidity), (AVAILABLE_CAPITAL, Some (availableCapitalBaseUnits i))])"
    and ok: "amount_ok (sizeBaseUnits r)"
    by (rule computePositionSize_steps)
  note cap = tighten_caps [where sb = "(by_stop, RISK_BUDGET_BY_STOP)" and
      cs = "[(RISK_BUDGET_BY_STOP, Some by_stop), (SLEEVE_CAP, map_option capRemainingBaseUnits (si_sleeve i)),
        (MAX_POSITION_VALUE, Some (maxPositionValueBaseUnits (si_policy i))), (COHORT_REMAINING, c'),
        (CLUSTER_REMAINING, k'), (LIQUIDITY_CAP, Some liquidity), (AVAILABLE_CAPITAL, Some (availableCapitalBaseUnits i))]",
      folded size]
  show "amount_ok (sizeBaseUnits r)" by (rule ok)
  show "sizeBaseUnits r \<le> maxPositionValueBaseUnits (si_policy i)" by (rule cap [of MAX_POSITION_VALUE]) simp_all
  show "sizeBaseUnits r \<le> availableCapitalBaseUnits i" by (rule cap [of AVAILABLE_CAPITAL]) simp_all
  show "sizeBaseUnits r \<le> capRemainingBaseUnits s" if "si_sleeve i = Some s"
    by (rule cap [of SLEEVE_CAP]) (simp_all add: that)
  show "sizeBaseUnits r \<le> c" if "cohortRemainingBaseUnits i = Some c"
    by (rule cap [of COHORT_REMAINING]) (simp_all add: required_capacity_keeps(1) [OF q that])
  show "sizeBaseUnits r \<le> k" if "clusterRemainingBaseUnits i = Some k"
    by (rule cap [of CLUSTER_REMAINING]) (simp_all add: required_capacity_keeps(2) [OF q that])
  have "sizeBaseUnits r \<le> liquidity" by (rule cap [of LIQUIDITY_CAP]) simp_all
  with l ok pos show "\<exists>l q. liquidityBaseUnits i = Some l \<and>
      fraction_of l (liquidityCapFraction (si_policy i)) = Inr q \<and> sizeBaseUnits r \<le> q"
    by (cases "liquidityBaseUnits i") (auto simp: amount_ok_def)
qed

text \<open>
  The loss at the stop, \<open>mulDiv(size, micros, 1_000_000, 'CEIL')\<close>, never exceeds the risk budget,
  and the budget never exceeds what the sleeve has left.
\<close>

lemma risk_budget_ok: "risk_budget i = Inr b \<Longrightarrow> amount_ok b \<and>
    (case si_sleeve i of None \<Rightarrow> True | Some s \<Rightarrow> b \<le> riskRemainingBaseUnits s)"
  by (auto simp: risk_budget_def fraction_of_def split: option.splits dest: mulDiv_ok)

lemma micros_pos: "nlt (Fin 0) f \<Longrightarrow> micros f = Inr d \<Longrightarrow> 0 \<le> d"
proof -
  assume f: "nlt (Fin 0) f" and d: "micros f = Inr d"
  then obtain x where x: "f = Fin x" "0 < x" by (cases f) (auto simp: micros_def signed_inf_def)
  then have "nle (Fin 0) (rnd (x * 1000000))" by (intro rnd_sign) simp
  with d x show ?thesis
    by (auto simp: micros_def split: option.splits dest: bigint_of_math_round_nonneg)
qed

lemma loss_within_budget:
  assumes r: "computePositionSize i = Inr r" and pos: "sizeBaseUnits r \<noteq> 0"
    and d: "micros (si_stopDistanceFraction i) = Inr d"
    and loss: "mulDiv (sizeBaseUnits r) d MICRO CEIL = Inr loss"
  shows "loss \<le> riskBudgetBaseUnits r" and "0 < d" and "amount_ok (riskBudgetBaseUnits r)"
    and "risk_budget i = Inr (riskBudgetBaseUnits r)"
proof -
  from r pos obtain d' by_stop where b: "risk_budget i = Inr (riskBudgetBaseUnits r)"
    and stop: "nlt (Fin 0) (si_stopDistanceFraction i)" and d': "micros (si_stopDistanceFraction i) = Inr d'"
    and s': "mulDiv (riskBudgetBaseUnits r) MICRO d' FLOOR = Inr by_stop"
    and size: "sizeBaseUnits r \<le> by_stop" and ok: "amount_ok (sizeBaseUnits r)"
    by (rule computePositionSize_steps)
  from d d' s' have s: "mulDiv (riskBudgetBaseUnits r) MICRO d FLOOR = Inr by_stop" by simp
  show b': "risk_budget i = Inr (riskBudgetBaseUnits r)" by (rule b)
  show b_ok: "amount_ok (riskBudgetBaseUnits r)" using risk_budget_ok [OF b] by simp
  have "d \<noteq> 0" using s by (auto simp: mulDiv_def divide_rounding_def)
  with micros_pos [OF stop d] show d_pos: "0 < d" by simp
  have "by_stop * d \<le> riskBudgetBaseUnits r * MICRO"
    using floor_mulDiv [OF s _ d_pos] b_ok by (simp add: amount_ok_def MICRO_def)
  moreover have "sizeBaseUnits r * d \<le> by_stop * d" using size d_pos by simp
  ultimately have "sizeBaseUnits r * d \<le> riskBudgetBaseUnits r * MICRO" by linarith
  then show "loss \<le> riskBudgetBaseUnits r"
    using ok d_pos by (intro ceil_mulDiv [OF _ _ _ loss]) (simp_all add: amount_ok_def MICRO_def)
qed

end
