(* ===== verification/Exits.thy ===== *)
theory Exits imports RiskPolicy begin

text \<open>
  Stop and exit policies (\<open>libs/risk/src/exits/policy.ts\<close>): the stop level from the declared
  model, capped by the widest stop the policy allows, and the take-profit, trailing and time
  rules over a current price. The lemmas say that a stop lies strictly between zero and the
  entry and never below the cap, that the exit policy never lowers a stop, and that at or below
  the stop it returns it always exits.
\<close>

record StopInputs =
  sp_entryPrice :: jsnum
  sp_atrPct :: "jsnum option"
  structureLowPrice :: "jsnum option"
  invalidationPrice :: "jsnum option"

record StopLevel =
  level :: jsnum
  distanceFraction :: jsnum

definition price_below :: "jsnum option \<Rightarrow> jsnum \<Rightarrow> jsnum option" where
  "price_below x e = (case x of None \<Rightarrow> None
     | Some v \<Rightarrow> if nlt (Fin 0) v \<and> nlt v e then Some v else None)"

definition model_stop :: "StopRule \<Rightarrow> StopInputs \<Rightarrow> jsnum option" where
  "model_stop rule i = (let e = sp_entryPrice i in case stop_model rule of
       ATR \<Rightarrow> (case sp_atrPct i of None \<Rightarrow> None
          | Some a \<Rightarrow> if nlt (Fin 0) a then Some (nmul e (nsub (Fin 1) (nmul (atrMultiple rule) a))) else None)
     | STRUCTURE_LOW \<Rightarrow> price_below (structureLowPrice i) e
     | PERCENTAGE \<Rightarrow> Some (nmul e (nsub (Fin 1) (maxStopFraction rule)))
     | STRATEGY_INVALIDATION \<Rightarrow> price_below (invalidationPrice i) e)"

definition stop_cap :: "StopRule \<Rightarrow> jsnum \<Rightarrow> jsnum" where
  "stop_cap rule e = nmul e (nsub (Fin 1) (maxStopFraction rule))"

definition stopLevel :: "StopRule \<Rightarrow> StopInputs \<Rightarrow> StopLevel option" where
  "stopLevel rule i = (let e = sp_entryPrice i in
     if \<not> nlt (Fin 0) e \<or> \<not> is_finite_num e then None
     else case model_stop rule i of None \<Rightarrow> None
       | Some m \<Rightarrow>
           let l = nmax m (stop_cap rule e)
           in if \<not> nlt (Fin 0) l \<or> nle e l then None
              else Some \<lparr>level = l,
                distanceFraction = ndiv (math_round (nmul (ndiv (nsub e l) e) (Fin 1000000000))) (Fin 1000000000)\<rparr>)"

record ExitInputs =
  entryPrice :: jsnum
  currentPrice :: jsnum
  highSinceEntry :: jsnum
  currentStop :: jsnum
  initialStopDistanceFraction :: jsnum
  openedAt :: instant
  ei_now :: instant
  momentumDecayed :: bool

datatype exit_action = HOLD | TIGHTEN_STOP | REDUCE_BY jsnum | EXIT

record ExitDecision =
  xd_action :: exit_action
  xd_stop :: jsnum
  xd_reasons :: "string list"

definition r_multiple :: "jsnum \<Rightarrow> jsnum \<Rightarrow> jsnum \<Rightarrow> jsnum" where
  "r_multiple d price e = (if nlt (Fin 0) d then ndiv (nsub (ndiv price e) (Fin 1)) d else Fin 0)"

definition decide :: "exit_action \<Rightarrow> jsnum \<Rightarrow> string list \<Rightarrow> ExitDecision" where
  "decide a st rs = \<lparr>xd_action = a, xd_stop = st, xd_reasons = rs\<rparr>"

definition hold_or_tighten :: "jsnum \<Rightarrow> string list \<Rightarrow> ExitDecision" where
  "hold_or_tighten st rs = decide (if rs \<noteq> [] then TIGHTEN_STOP else HOLD) st rs"

definition trail :: "TakeProfitRule \<Rightarrow> ExitInputs \<Rightarrow> jsnum \<Rightarrow> ExitDecision" where
  "trail rule i r_now =
     (let target = (\<lambda>st rs. if nle (targetRMultiple rule) r_now then decide EXIT st (rs @ [''TARGET_REACHED''])
                            else hold_or_tighten st rs);
          r_high = r_multiple (initialStopDistanceFraction i) (highSinceEntry i) (entryPrice i)
      in if nle (trailAfterRMultiple rule) r_high
         then let trailed = nmul (highSinceEntry i) (nsub (Fin 1) (trailFraction rule));
                  up = nlt (currentStop i) trailed;
                  st = (if up then trailed else currentStop i);
                  rs = (if up then [''TRAIL_TIGHTENED''] else [])
              in if nle (currentPrice i) st then decide EXIT st (rs @ [''TRAIL_STOP'']) else target st rs
         else target (currentStop i) [])"

definition evaluateExitPolicy :: "TakeProfitRule \<Rightarrow> ExitInputs \<Rightarrow> ExitDecision" where
  "evaluateExitPolicy rule i =
     (let p = currentPrice i; st = currentStop i;
          r_now = r_multiple (initialStopDistanceFraction i) p (entryPrice i)
      in if nle p st then decide EXIT st [''HARD_STOP'']
         else if ei_now i - openedAt i \<ge> maxHoldMs rule then decide EXIT st [''TIME_STOP'']
         else case tp_policy rule of
             FIXED_R \<Rightarrow> if nle (targetRMultiple rule) r_now then decide EXIT st [''TARGET_REACHED'']
                        else hold_or_tighten st []
           | PARTIAL_TIERS \<Rightarrow> if nle (targetRMultiple rule) r_now then decide EXIT st [''TARGET_REACHED'']
                        else if nle (ndiv (targetRMultiple rule) (Fin 2)) r_now
                        then decide (REDUCE_BY (Fin (1 / 2))) st [''PARTIAL_TIER'']
                        else hold_or_tighten st []
           | TRAILING_AFTER_THRESHOLD \<Rightarrow> trail rule i r_now
           | VOLATILITY_TRAIL \<Rightarrow> trail rule i r_now
           | MOMENTUM_DECAY \<Rightarrow> if momentumDecayed i then decide EXIT st [''MOMENTUM_DECAY'']
                        else hold_or_tighten st []
           | TIME_STOP \<Rightarrow> hold_or_tighten st [])"

section \<open>The stop\<close>

lemma stopLevel_between:
  assumes "stopLevel rule i = Some s"
  shows "nlt (Fin 0) (level s)" and "nlt (level s) (sp_entryPrice i)"
    and "nle (stop_cap rule (sp_entryPrice i)) (level s)"
proof -
  let ?e = "sp_entryPrice i"
  from assms obtain m where e: "nlt (Fin 0) ?e" "is_finite_num ?e" and l: "level s = nmax m (stop_cap rule ?e)"
    and pos: "nlt (Fin 0) (level s)" and below: "\<not> nle ?e (level s)"
    by (auto simp: stopLevel_def Let_def split: if_splits option.splits)
  show "nlt (Fin 0) (level s)" by (rule pos)
  have "level s \<noteq> NaN" "?e \<noteq> NaN" using pos e(1) by auto
  with below show "nlt (level s) ?e" using nlt_nle_linear by blast
  from pos l have "m \<noteq> NaN" "stop_cap rule ?e \<noteq> NaN" by (auto simp: nmax_def split: if_splits)
  then show "nle (stop_cap rule ?e) (level s)" unfolding l by (rule nmax_ge2 [rotated])
qed

section \<open>The exit policy\<close>

lemma decide_fields [simp]: "xd_stop (decide a st rs) = st" "xd_action (decide a st rs) = a"
  "xd_stop (hold_or_tighten st rs) = st" "xd_action (hold_or_tighten st rs) \<noteq> EXIT"
  by (simp_all add: decide_def hold_or_tighten_def)

lemma trail_stop: "currentStop i \<noteq> NaN \<Longrightarrow> nle (currentStop i) (xd_stop (trail rule i r))"
  by (auto simp: trail_def Let_def nle_def neq_def)

lemma trail_exits: "nle (currentPrice i) (xd_stop (trail rule i r)) \<Longrightarrow> \<not> nle (currentPrice i) (currentStop i) \<Longrightarrow>
    xd_action (trail rule i r) = EXIT"
  by (auto simp: trail_def Let_def split: if_splits)

text \<open>
  C35: The exit policy only ever tightens protection: whatever policy is declared and whatever the
  prices, the stop it returns is at least the stop it was given, it exits as soon as the price is
  at or below the stop it returns (an unreviewed or trailing stop included) and as soon as the
  holding time is used up, so no declared policy can hold a position through its stop or its time.
\<close>

theorem exit_policy_tightens:
  assumes "currentStop i \<noteq> NaN"
  shows "nle (currentStop i) (xd_stop (evaluateExitPolicy rule i)) \<and>
    (nle (currentPrice i) (xd_stop (evaluateExitPolicy rule i)) \<longrightarrow> xd_action (evaluateExitPolicy rule i) = EXIT) \<and>
    (ei_now i - openedAt i \<ge> maxHoldMs rule \<longrightarrow> xd_action (evaluateExitPolicy rule i) = EXIT)"
proof (intro conjI impI)
  show "nle (currentStop i) (xd_stop (evaluateExitPolicy rule i))"
    using assms trail_stop [OF assms]
    by (auto simp: evaluateExitPolicy_def Let_def split: TakeProfitPolicy.split)
  show "xd_action (evaluateExitPolicy rule i) = EXIT" if "nle (currentPrice i) (xd_stop (evaluateExitPolicy rule i))"
    using that by (auto simp: evaluateExitPolicy_def Let_def trail_exits split: TakeProfitPolicy.splits if_splits)
  show "xd_action (evaluateExitPolicy rule i) = EXIT" if "ei_now i - openedAt i \<ge> maxHoldMs rule"
    using that by (simp add: evaluateExitPolicy_def Let_def)
qed

definition toy_exit :: ExitInputs where
  "toy_exit = \<lparr>entryPrice = Fin 64, currentPrice = Fin 112, highSinceEntry = Fin 128, currentStop = Fin 60,
     initialStopDistanceFraction = Fin (1 / 8), openedAt = 0, ei_now = 1000, momentumDecayed = False\<rparr>"

definition toy_trailing :: TakeProfitRule where
  "toy_trailing = \<lparr>tp_policy = TRAILING_AFTER_THRESHOLD, targetRMultiple = Fin 16, trailAfterRMultiple = Fin 1,
     trailFraction = Fin (1 / 8), maxHoldMs = 60000\<rparr>"

theorem exit_policy_tightens_witness:
  "evaluateExitPolicy toy_trailing toy_exit =
     \<lparr>xd_action = EXIT, xd_stop = Fin 112, xd_reasons = [''TRAIL_TIGHTENED'', ''TRAIL_STOP'']\<rparr> \<and>
   nle (currentStop toy_exit) (Fin 112)"
proof -
  have e: "evaluateExitPolicy toy_trailing toy_exit =
     \<lparr>xd_action = EXIT, xd_stop = Fin 112, xd_reasons = [''TRAIL_TIGHTENED'', ''TRAIL_STOP'']\<rparr>"
    by (simp add: evaluateExitPolicy_def toy_trailing_def toy_exit_def r_multiple_def trail_def decide_def nsub_def)
  have "currentStop toy_exit \<noteq> NaN" by (simp add: toy_exit_def)
  from exit_policy_tightens [OF this, of toy_trailing] e show ?thesis by simp
qed

end
