(* ===== verification/EntryRules.thy ===== *)
theory EntryRules imports Sizing Exits begin

text \<open>
  The deterministic entry evaluation (\<open>libs/risk/src/rules/entry.ts\<close>): kill conditions, portfolio
  rules, trade rules, stop and sizing over a portfolio state and a proposal, giving an immutable
  evaluation record. Refusals are collected as reason codes in the order the code adds them; a
  \<open>Set\<close> keeps that order and every code is added in one place only. An arithmetic error of the
  amounts is thrown by the code and is the left result here.
\<close>

section \<open>State, proposal and record\<close>

record PortfolioSleeve =
  ps_id :: uuid
  ps_active :: bool
  ps_capRemaining :: amount
  ps_riskRemaining :: amount

record GroupUsage =
  group_id :: string
  usedFraction :: jsnum

record Drawdown =
  dailyFraction :: jsnum
  rollingFraction :: jsnum
  consecutiveLosses :: int
  circuitBreakerTripped :: bool
  breakerTrippedAt :: "instant option"

record StaleClass =
  sc_dataClass :: string
  sc_ageMs :: "int option"
  sc_limitMs :: int

record Health =
  feedsBlockEntries :: bool
  staleDataClasses :: "StaleClass list"
  reconciliationClean :: bool
  dbAvailable :: bool
  executionAnomalies :: int
  providerAuthFailure :: bool
  clockDriftMs :: int
  operatorKill :: bool
  sessionAllowsEntries :: bool

record PortfolioState =
  pf_settlementMint :: mint_address
  settlementDecimals :: nat
  equityBaseUnits :: amount
  exposureBaseUnits :: amount
  pendingExposureBaseUnits :: amount
  inFlightExposureIncreasing :: int
  openPositions :: int
  assetExposureBaseUnits :: amount
  settlementAvailableBaseUnits :: amount
  gasReserveLamports :: amount
  sleeve :: "PortfolioSleeve option"
  cohort :: "GroupUsage option"
  pf_cluster :: "GroupUsage option"
  drawdown :: Drawdown
  health :: Health

text \<open>\<open>EntryGateVerdict\<close>: the reason the eligibility gate refuses for, \<open>None\<close> when it allows.\<close>

type_synonym EntryGateVerdict = "string option"

record EntryQuote =
  eq_ageMs :: int
  eq_impactBps :: "int option"
  eq_slippageBps :: int
  eq_priceUsd :: jsnum

record EntryProposal =
  ep_id :: uuid
  ep_proposalId :: uuid
  ep_actionCycleId :: uuid
  ep_assetId :: uuid
  eligibility :: EntryGateVerdict
  eligibilityEvaluationId :: "uuid option"
  proposalExpiresAt :: instant
  proposalPriceUsd :: jsnum
  ep_quote :: "EntryQuote option"
  ep_token2022Compatible :: bool
  duplicateIntent :: bool
  liquidityUsd :: "jsnum option"
  ep_atrPct :: "jsnum option"
  structureLowPriceUsd :: "jsnum option"
  expectedRewardFraction :: "jsnum option"

record FreshnessCheck =
  fc_dataClass :: string
  fc_fresh :: bool
  fc_ageMs :: "int option"
  fc_limitMs :: int

record RiskEvaluation =
  re_id :: uuid
  re_proposalId :: uuid
  re_actionCycleId :: uuid
  re_policyVersion :: version_id
  re_allowed :: bool
  re_reasonCodes :: "RiskReason list"
  re_settlementMint :: mint_address
  re_equityBaseUnits :: amount
  re_equityUsd :: "jsnum option"
  re_exposureBaseUnits :: amount
  re_cohortExposure :: "(string \<times> jsnum) list"
  re_clusterExposure :: "(string \<times> jsnum) list"
  re_sleeveExposure :: "jsnum option"
  re_assetEligibilityEvaluationId :: "uuid option"
  computedMaxLossBaseUnits :: "amount option"
  computedPositionAmount :: "amount option"
  re_maxSlippageBps :: int
  re_maxPriceImpactBps :: int
  re_stopPolicy :: "(StopModel \<times> StopLevel) option"
  re_targetPolicy :: TakeProfitRule
  re_dailyDrawdownFraction :: jsnum
  re_circuitBreakerTripped :: bool
  re_staleDataChecks :: "FreshnessCheck list"
  re_createdAt :: instant

record EntryEvaluation =
  ev_record :: RiskEvaluation
  ev_sizing :: "SizingResult option"
  ev_stopDistanceFraction :: "jsnum option"

section \<open>Amounts\<close>

text \<open>
  \<open>BigInt(Math.floor(usd * 10 ** Math.min(decimals, 9)))\<close> times the remaining power: a RangeError
  when the product overflows to infinity. \<open>decimals\<close> is a non-negative integer by its schema.
\<close>

definition usdToBase :: "jsnum \<Rightarrow> nat \<Rightarrow> arith_error + amount" where
  "usdToBase usd decimals = (if nlt (Fin 0) usd \<and> is_finite_num usd
     then (case bigint_of (math_floor (nmul usd (Fin (10 ^ min decimals 9)))) of
         None \<Rightarrow> Inl RANGE_ERROR | Some n \<Rightarrow> Inr (n * 10 ^ (decimals - 9)))
     else Inr 0)"

definition exposure_cap :: "amount \<Rightarrow> jsnum \<Rightarrow> arith_error + amount" where
  "exposure_cap equity f = ebind (micros f) (\<lambda>n. mulDiv equity n MICRO FLOOR)"

definition capRemaining :: "amount \<Rightarrow> jsnum \<Rightarrow> jsnum \<Rightarrow> arith_error + amount" where
  "capRemaining equity used cap = exposure_cap equity (nmax (Fin 0) (nsub cap used))"

text \<open>\<open>compareAmounts(a, b) > 0 ? subAmounts(a, b) : '0'\<close>, written four times in the source.\<close>

definition headroom :: "amount \<Rightarrow> amount \<Rightarrow> arith_error + amount" where
  "headroom a b = (if compareAmounts a b > 0 then subAmounts a b else Inr 0)"

section \<open>The rules\<close>

definition breaker_active :: "RiskPolicy \<Rightarrow> PortfolioState \<Rightarrow> bool" where
  "breaker_active pol s \<longleftrightarrow> circuitBreakerTripped (drawdown s) \<or> consecutiveLosses (drawdown s) \<ge> maxConsecutiveLosses pol"

definition in_cooldown :: "RiskPolicy \<Rightarrow> PortfolioState \<Rightarrow> instant \<Rightarrow> bool" where
  "in_cooldown pol s now \<longleftrightarrow> (case breakerTrippedAt (drawdown s) of None \<Rightarrow> False
     | Some t \<Rightarrow> now - t < cooldownAfterBreakerMs pol)"

definition kill_reasons :: "RiskPolicy \<Rightarrow> PortfolioState \<Rightarrow> instant \<Rightarrow> RiskReason list" where
  "kill_reasons pol s now = (let h = health s; dd = drawdown s in
     reason_if (operatorKill h) ''OPERATOR_KILL'' @
     reason_if (\<not> sessionAllowsEntries h) ''SESSION_NOT_ACTIVE'' @
     reason_if (\<not> reconciliationClean h) ''CUSTODY_MISMATCH'' @
     reason_if (feedsBlockEntries h) ''FEEDS_STALE'' @
     reason_if (\<not> dbAvailable h) ''DB_UNAVAILABLE'' @
     reason_if (executionAnomalies h > maxExecutionAnomalies pol) ''EXECUTION_ANOMALIES'' @
     reason_if (providerAuthFailure h) ''PROVIDER_AUTH_FAILURE'' @
     reason_if (\<bar>clockDriftMs h\<bar> > maxClockDriftMs pol) ''CLOCK_DRIFT'' @
     reason_if (nle (maxDailyDrawdownFraction pol) (dailyFraction dd) \<or>
                nle (maxRollingDrawdownFraction pol) (rollingFraction dd)) ''DRAWDOWN_LIMIT'' @
     reason_if (breaker_active pol s \<or> in_cooldown pol s now) ''CIRCUIT_BREAKER'')"

definition portfolio_reasons :: "RiskPolicy \<Rightarrow> PortfolioState \<Rightarrow> amount \<Rightarrow> RiskReason list" where
  "portfolio_reasons pol s available =
     reason_if (inFlightExposureIncreasing s \<ge> maxInFlightExposureIncreasing pol) ''EXPOSURE_IN_FLIGHT'' @
     reason_if (openPositions s \<ge> maxOpenPositions pol) ''MAX_POSITIONS'' @
     reason_if (case sleeve s of None \<Rightarrow> False | Some sl \<Rightarrow> \<not> ps_active sl) ''SLEEVE_INACTIVE'' @
     reason_if (compareAmounts (gasReserveLamports s) (minGasReserveLamports pol) < 0) ''GAS_RESERVE'' @
     reason_if (amountToBigInt available = 0) ''SETTLEMENT_RESERVE''"

definition stale_checks :: "PortfolioState \<Rightarrow> FreshnessCheck list" where
  "stale_checks s = map (\<lambda>c. \<lparr>fc_dataClass = sc_dataClass c,
     fc_fresh = (case sc_ageMs c of None \<Rightarrow> False | Some a \<Rightarrow> a \<le> sc_limitMs c),
     fc_ageMs = sc_ageMs c, fc_limitMs = sc_limitMs c\<rparr>) (staleDataClasses (health s))"

definition quote_reasons :: "RiskPolicy \<Rightarrow> EntryProposal \<Rightarrow> RiskReason list" where
  "quote_reasons pol p = (case ep_quote p of None \<Rightarrow> [''QUOTE_MISSING'']
     | Some q \<Rightarrow>
         reason_if (eq_ageMs q > rp_maxQuoteAgeMs pol) ''QUOTE_STALE'' @
         reason_if (case eq_impactBps q of None \<Rightarrow> True | Some i \<Rightarrow> i > rp_maxImpactBps pol) ''IMPACT_ABOVE_MAX'' @
         reason_if (eq_slippageBps q > rp_maxSlippageBps pol) ''SLIPPAGE_ABOVE_MAX'' @
         reason_if (nlt (Fin 0) (proposalPriceUsd p) \<and>
            nlt (Fin (of_int (rp_chaseToleranceBps pol)))
              (nmul (ndiv (nsub (eq_priceUsd q) (proposalPriceUsd p)) (proposalPriceUsd p)) (Fin 10000)))
           ''CHASE_EXCEEDED'')"

definition trade_reasons :: "RiskPolicy \<Rightarrow> PortfolioState \<Rightarrow> EntryProposal \<Rightarrow> instant \<Rightarrow> RiskReason list" where
  "trade_reasons pol s p now =
     reason_if (eligibility p \<noteq> None) ''NOT_ELIGIBLE'' @
     reason_if (now \<ge> proposalExpiresAt p) ''PROPOSAL_EXPIRED'' @
     reason_if (list_ex (\<lambda>c. \<not> fc_fresh c) (stale_checks s)) ''DATA_STALE'' @
     quote_reasons pol p @
     reason_if (\<not> ep_token2022Compatible p) ''TOKEN2022_INCOMPATIBLE'' @
     reason_if (duplicateIntent p) ''DUPLICATE_INTENT''"

definition entry_stop :: "RiskPolicy \<Rightarrow> EntryProposal \<Rightarrow> StopLevel option" where
  "entry_stop pol p = stopLevel (stop_rule pol)
     \<lparr>sp_entryPrice = (case ep_quote p of None \<Rightarrow> proposalPriceUsd p | Some q \<Rightarrow> eq_priceUsd q),
      sp_atrPct = ep_atrPct p, structureLowPrice = structureLowPriceUsd p, invalidationPrice = None\<rparr>"

definition stop_distance :: "RiskPolicy \<Rightarrow> EntryProposal \<Rightarrow> jsnum option" where
  "stop_distance pol p = (case entry_stop pol p of None \<Rightarrow> None
     | Some s \<Rightarrow> Some (distanceFraction s))"

definition stop_reasons :: "RiskPolicy \<Rightarrow> EntryProposal \<Rightarrow> RiskReason list" where
  "stop_reasons pol p = (case stop_distance pol p of None \<Rightarrow> [''STOP_UNDEFINED'']
     | Some d \<Rightarrow> if \<not> nlt (Fin 0) d then [''STOP_UNDEFINED'']
         else let reward = (case expectedRewardFraction p of Some r \<Rightarrow> r
                            | None \<Rightarrow> nmul (targetRMultiple (takeProfit pol)) d)
              in reason_if (nlt (ndiv reward d) (minRewardToRiskRatio pol)) ''REWARD_RISK_BELOW_MIN'')"

record EntryCapacity =
  committed :: amount
  totalRemaining :: amount
  tokenRemaining :: amount
  availableCapital :: amount

definition entry_capacity :: "RiskPolicy \<Rightarrow> PortfolioState \<Rightarrow> arith_error + EntryCapacity" where
  "entry_capacity pol s =
     ebind (addAmounts [exposureBaseUnits s, pendingExposureBaseUnits s]) (\<lambda>c.
     ebind (exposure_cap (equityBaseUnits s) (maxTotalExposureFraction pol)) (\<lambda>total_cap.
     ebind (headroom total_cap c) (\<lambda>total_left.
     ebind (exposure_cap (equityBaseUnits s) (maxExposurePerTokenFraction pol)) (\<lambda>token_cap.
     ebind (headroom token_cap (assetExposureBaseUnits s)) (\<lambda>token_left.
     ebind (headroom (settlementAvailableBaseUnits s) (minSettlementReserveBaseUnits pol)) (\<lambda>reserve.
     ebind (headroom reserve (pendingExposureBaseUnits s)) (\<lambda>available.
       Inr \<lparr>committed = c, totalRemaining = total_left, tokenRemaining = token_left,
            availableCapital = available\<rparr>)))))))"

definition group_remaining :: "amount \<Rightarrow> GroupUsage option \<Rightarrow> jsnum \<Rightarrow> arith_error + amount option" where
  "group_remaining equity g cap = (case g of None \<Rightarrow> Inr None
     | Some u \<Rightarrow> ebind (capRemaining equity (usedFraction u) cap) (\<lambda>a. Inr (Some a)))"

definition entry_sizing :: "RiskPolicy \<Rightarrow> PortfolioState \<Rightarrow> EntryProposal \<Rightarrow> EntryCapacity \<Rightarrow> jsnum \<Rightarrow> arith_error + SizingResult" where
  "entry_sizing pol s p c d =
     ebind (group_remaining (equityBaseUnits s) (cohort s) (maxCohortExposureFraction pol)) (\<lambda>co.
     ebind (group_remaining (equityBaseUnits s) (pf_cluster s) (maxClusterExposureFraction pol)) (\<lambda>cl.
     ebind (case liquidityUsd p of None \<Rightarrow> Inr None
            | Some u \<Rightarrow> ebind (usdToBase u (settlementDecimals s)) (\<lambda>a. Inr (Some a))) (\<lambda>liq.
     ebind (bigIntToAmount (min (min (amountToBigInt (availableCapital c)) (amountToBigInt (totalRemaining c)))
                                (amountToBigInt (tokenRemaining c)))) (\<lambda>av.
       computePositionSize \<lparr>si_policy = pol, si_equityBaseUnits = equityBaseUnits s, si_stopDistanceFraction = d,
         si_sleeve = map_option (\<lambda>sl. \<lparr>capRemainingBaseUnits = ps_capRemaining sl,
                                        riskRemainingBaseUnits = ps_riskRemaining sl\<rparr>) (sleeve s),
         cohortRemainingBaseUnits = co, clusterRemainingBaseUnits = cl, liquidityBaseUnits = liq,
         availableCapitalBaseUnits = av\<rparr>))))"

definition sizing_reasons :: "EntryCapacity \<Rightarrow> SizingResult \<Rightarrow> RiskReason list" where
  "sizing_reasons c r =
     reason_if (unknownCapacity r \<noteq> None) ''COHORT_UNKNOWN'' @
     (if amountToBigInt (sizeBaseUnits r) \<noteq> 0 then []
      else [''SIZE_ZERO''] @
        reason_if (amountToBigInt (totalRemaining c) = 0) ''TOTAL_EXPOSURE_CAP'' @
        reason_if (amountToBigInt (tokenRemaining c) = 0) ''TOKEN_EXPOSURE_CAP'' @
        reason_if (binding r = COHORT_REMAINING \<and> unknownCapacity r = None) ''COHORT_CAP'' @
        reason_if (binding r = CLUSTER_REMAINING \<and> unknownCapacity r = None) ''CLUSTER_CAP'' @
        reason_if (binding r = AVAILABLE_CAPITAL) ''INSUFFICIENT_BALANCE'')"

definition sleeve_exposure :: "PortfolioState \<Rightarrow> PortfolioSleeve \<Rightarrow> jsnum" where
  "sleeve_exposure s sl = nmax (Fin 0) (nmin (Fin 1) (nsub (Fin 1)
     (ndiv (number_of_bigint (ps_capRemaining sl)) (nmax (Fin 1) (number_of_bigint (equityBaseUnits s))))))"

definition usage_member :: "GroupUsage option \<Rightarrow> (string \<times> jsnum) list" where
  "usage_member g = (case g of None \<Rightarrow> [] | Some u \<Rightarrow> [(group_id u, usedFraction u)])"

definition optional_sizing ::
  "RiskPolicy \<Rightarrow> PortfolioState \<Rightarrow> EntryProposal \<Rightarrow> EntryCapacity \<Rightarrow> arith_error + SizingResult option" where
  "optional_sizing pol s p c = (case stop_distance pol p of None \<Rightarrow> Inr None
     | Some d \<Rightarrow> if nlt (Fin 0) d then ebind (entry_sizing pol s p c d) (\<lambda>r. Inr (Some r)) else Inr None)"

definition entry_reasons ::
  "RiskPolicy \<Rightarrow> PortfolioState \<Rightarrow> EntryProposal \<Rightarrow> instant \<Rightarrow> EntryCapacity \<Rightarrow> SizingResult option \<Rightarrow> RiskReason list" where
  "entry_reasons pol s p now c sizing =
     kill_reasons pol s now @ portfolio_reasons pol s (availableCapital c) @ trade_reasons pol s p now @
     stop_reasons pol p @ (case sizing of None \<Rightarrow> [] | Some r \<Rightarrow> sizing_reasons c r)"

definition max_loss :: "amount option \<Rightarrow> jsnum option \<Rightarrow> arith_error + amount option" where
  "max_loss amt d = (case (amt, d) of
       (Some sz, Some f) \<Rightarrow> ebind (micros f) (\<lambda>n. ebind (mulDiv sz n MICRO CEIL) (\<lambda>l. Inr (Some l)))
     | _ \<Rightarrow> Inr None)"

definition evaluateEntry ::
  "RiskPolicy \<Rightarrow> PortfolioState \<Rightarrow> EntryProposal \<Rightarrow> instant \<Rightarrow> arith_error + EntryEvaluation" where
  "evaluateEntry pol s p now =
     ebind (entry_capacity pol s) (\<lambda>c.
     ebind (optional_sizing pol s p c) (\<lambda>sizing.
     let reasons = entry_reasons pol s p now c sizing;
         ok = (reasons = []);
         size = (if ok then map_option sizeBaseUnits sizing else None)
     in ebind (max_loss size (stop_distance pol p)) (\<lambda>loss.
        Inr \<lparr>ev_record =
              \<lparr>re_id = ep_id p, re_proposalId = ep_proposalId p, re_actionCycleId = ep_actionCycleId p,
               re_policyVersion = rp_version pol, re_allowed = ok, re_reasonCodes = reasons,
               re_settlementMint = pf_settlementMint s, re_equityBaseUnits = equityBaseUnits s, re_equityUsd = None,
               re_exposureBaseUnits = committed c, re_cohortExposure = usage_member (cohort s),
               re_clusterExposure = usage_member (pf_cluster s),
               re_sleeveExposure = map_option (sleeve_exposure s) (sleeve s),
               re_assetEligibilityEvaluationId = eligibilityEvaluationId p,
               computedMaxLossBaseUnits = loss, computedPositionAmount = size,
               re_maxSlippageBps = rp_maxSlippageBps pol, re_maxPriceImpactBps = rp_maxImpactBps pol,
               re_stopPolicy = map_option (\<lambda>l. (stop_model (stop_rule pol), l)) (entry_stop pol p),
               re_targetPolicy = takeProfit pol,
               re_dailyDrawdownFraction = dailyFraction (drawdown s),
               re_circuitBreakerTripped = breaker_active pol s,
               re_staleDataChecks = stale_checks s, re_createdAt = now\<rparr>,
             ev_sizing = sizing, ev_stopDistanceFraction = stop_distance pol p\<rparr>)))"

section \<open>What an allowed entry guarantees\<close>

lemma headroom_Inr: "headroom a b = Inr c \<Longrightarrow> (c = a - b \<and> b < a \<and> amount_ok c) \<or> (c = 0 \<and> a \<le> b)"
  by (auto simp: headroom_def split: if_splits)

lemma evaluateEntry_Inr:
  assumes "evaluateEntry pol s p now = Inr ev" and "re_allowed (ev_record ev)"
  obtains c d r loss where "entry_capacity pol s = Inr c" "stop_distance pol p = Some d" "nlt (Fin 0) d"
    "entry_sizing pol s p c d = Inr r" "sizeBaseUnits r \<noteq> 0" "unknownCapacity r = None"
    "computedPositionAmount (ev_record ev) = Some (sizeBaseUnits r)"
    "max_loss (Some (sizeBaseUnits r)) (Some d) = Inr (Some loss)"
    "computedMaxLossBaseUnits (ev_record ev) = Some loss"
    "kill_reasons pol s now = []" "portfolio_reasons pol s (availableCapital c) = []"
    "trade_reasons pol s p now = []" "stop_reasons pol p = []"
proof -
  from assms(1) obtain c sizing loss where c: "entry_capacity pol s = Inr c"
    and z: "optional_sizing pol s p c = Inr sizing"
    and l: "max_loss (if entry_reasons pol s p now c sizing = [] then map_option sizeBaseUnits sizing else None)
      (stop_distance pol p) = Inr loss"
    and ev: "re_allowed (ev_record ev) = (entry_reasons pol s p now c sizing = [])"
      "computedPositionAmount (ev_record ev) =
         (if entry_reasons pol s p now c sizing = [] then map_option sizeBaseUnits sizing else None)"
      "computedMaxLossBaseUnits (ev_record ev) = loss"
    by (auto simp: evaluateEntry_def Let_def)
  with assms(2) have none: "entry_reasons pol s p now c sizing = []" by simp
  then have r: "kill_reasons pol s now = []" "portfolio_reasons pol s (availableCapital c) = []"
    "trade_reasons pol s p now = []" "stop_reasons pol p = []"
    "(case sizing of None \<Rightarrow> [] | Some r \<Rightarrow> sizing_reasons c r) = []"
    by (simp_all add: entry_reasons_def)
  from r(4) obtain d where d: "stop_distance pol p = Some d" "nlt (Fin 0) d"
    by (auto simp: stop_reasons_def split: option.splits if_splits)
  with z obtain sz where sz: "entry_sizing pol s p c d = Inr sz" "sizing = Some sz"
    by (auto simp: optional_sizing_def)
  with r(5) have "sizeBaseUnits sz \<noteq> 0" "unknownCapacity sz = None"
    by (auto simp: sizing_reasons_def split: if_splits)
  moreover from l none sz d obtain ls where "loss = Some ls" "max_loss (Some (sizeBaseUnits sz)) (Some d) = Inr (Some ls)"
    by (auto simp: max_loss_def)
  ultimately show ?thesis using that c d sz r ev none by simp
qed

lemma entry_sizing_steps:
  assumes "entry_sizing pol s p c d = Inr r"
  obtains i where "computePositionSize i = Inr r" "si_policy i = pol" "si_equityBaseUnits i = equityBaseUnits s"
    "si_stopDistanceFraction i = d"
    "si_sleeve i = map_option (\<lambda>sl. \<lparr>capRemainingBaseUnits = ps_capRemaining sl,
                                        riskRemainingBaseUnits = ps_riskRemaining sl\<rparr>) (sleeve s)"
    "availableCapitalBaseUnits i = min (min (availableCapital c) (totalRemaining c)) (tokenRemaining c)"
    "\<forall>g. cohort s = Some g \<longrightarrow> (\<exists>a. capRemaining (equityBaseUnits s) (usedFraction g) (maxCohortExposureFraction pol) = Inr a \<and>
       cohortRemainingBaseUnits i = Some a)"
    "\<forall>g. pf_cluster s = Some g \<longrightarrow> (\<exists>a. capRemaining (equityBaseUnits s) (usedFraction g) (maxClusterExposureFraction pol) = Inr a \<and>
       clusterRemainingBaseUnits i = Some a)"
  using assms by (fastforce simp: entry_sizing_def group_remaining_def intro: that split: option.splits)

lemma sized_entry_capacity:
  assumes cap: "entry_capacity pol s = Inr c" and z: "entry_sizing pol s p c d = Inr r" and pos: "sizeBaseUnits r \<noteq> 0"
    and pend: "0 \<le> pendingExposureBaseUnits s"
  shows "\<exists>total token. 0 < sizeBaseUnits r \<and>
     exposure_cap (equityBaseUnits s) (maxTotalExposureFraction pol) = Inr total \<and>
     exposureBaseUnits s + pendingExposureBaseUnits s + sizeBaseUnits r \<le> total \<and>
     exposure_cap (equityBaseUnits s) (maxExposurePerTokenFraction pol) = Inr token \<and>
     assetExposureBaseUnits s + sizeBaseUnits r \<le> token \<and>
     minSettlementReserveBaseUnits pol + pendingExposureBaseUnits s + sizeBaseUnits r \<le> settlementAvailableBaseUnits s \<and>
     sizeBaseUnits r \<le> maxPositionValueBaseUnits pol"
proof -
  from z obtain i where i: "computePositionSize i = Inr r" "si_policy i = pol"
    and av: "availableCapitalBaseUnits i = min (min (availableCapital c) (totalRemaining c)) (tokenRemaining c)"
    by (rule entry_sizing_steps)
  note caps = computePositionSize_caps [OF i(1) pos, unfolded i(2)]
  have size_pos: "0 < sizeBaseUnits r" using caps(1) pos by (simp add: amount_ok_def)
  from cap obtain total token reserve where t: "exposure_cap (equityBaseUnits s) (maxTotalExposureFraction pol) = Inr total"
    "headroom total (exposureBaseUnits s + pendingExposureBaseUnits s) = Inr (totalRemaining c)"
    "exposure_cap (equityBaseUnits s) (maxExposurePerTokenFraction pol) = Inr token"
    "headroom token (assetExposureBaseUnits s) = Inr (tokenRemaining c)"
    "headroom (settlementAvailableBaseUnits s) (minSettlementReserveBaseUnits pol) = Inr reserve"
    "headroom reserve (pendingExposureBaseUnits s) = Inr (availableCapital c)"
    by (auto simp: entry_capacity_def)
  have le: "sizeBaseUnits r \<le> totalRemaining c" "sizeBaseUnits r \<le> tokenRemaining c" "sizeBaseUnits r \<le> availableCapital c"
    using caps(3) av by simp_all
  have "exposureBaseUnits s + pendingExposureBaseUnits s + sizeBaseUnits r \<le> total"
    using headroom_Inr [OF t(2)] le(1) size_pos by auto
  moreover have "assetExposureBaseUnits s + sizeBaseUnits r \<le> token"
    using headroom_Inr [OF t(4)] le(2) size_pos by auto
  moreover have "minSettlementReserveBaseUnits pol + pendingExposureBaseUnits s + sizeBaseUnits r \<le> settlementAvailableBaseUnits s"
    using headroom_Inr [OF t(6)] headroom_Inr [OF t(5)] le(3) size_pos pend by auto
  ultimately show ?thesis using t(1,3) caps(2) size_pos by blast
qed

lemma allowed_entry_capacity:
  assumes "evaluateEntry pol s p now = Inr ev" and "re_allowed (ev_record ev)" and "0 \<le> pendingExposureBaseUnits s"
    and "computedPositionAmount (ev_record ev) = Some amt"
  shows "\<exists>total token. 0 < amt \<and> exposure_cap (equityBaseUnits s) (maxTotalExposureFraction pol) = Inr total \<and>
     exposureBaseUnits s + pendingExposureBaseUnits s + amt \<le> total \<and>
     exposure_cap (equityBaseUnits s) (maxExposurePerTokenFraction pol) = Inr token \<and>
     assetExposureBaseUnits s + amt \<le> token \<and>
     minSettlementReserveBaseUnits pol + pendingExposureBaseUnits s + amt \<le> settlementAvailableBaseUnits s \<and>
     amt \<le> maxPositionValueBaseUnits pol \<and> eligibility p = None \<and> kill_reasons pol s now = []"
proof -
  from assms(1,2) obtain c d r where "entry_capacity pol s = Inr c" "entry_sizing pol s p c d = Inr r" "sizeBaseUnits r \<noteq> 0"
    "computedPositionAmount (ev_record ev) = Some (sizeBaseUnits r)" "kill_reasons pol s now = []" "trade_reasons pol s p now = []"
    by (rule evaluateEntry_Inr)
  with sized_entry_capacity [OF this(1-3) assms(3)] assms(4) show ?thesis by (auto simp: trade_reasons_def)
qed

text \<open>
  C12: An allowed entry is a bounded one. Whenever the evaluation of a proposal allows it, no kill
  condition holds (operator kill, closed session, unclean reconciliation, stale feeds, database
  down, too many anomalies, provider authentication, clock drift, drawdown, circuit breaker), the
  asset is eligible and the quote within the policy, and the amount is positive and small enough
  for every cap at once: with all exposure held and all exposure still pending it stays within the
  cap on total exposure, with the exposure to the asset within the cap per token, it leaves the
  settlement reserve after everything pending, it is within the largest position, the sleeve and
  the cohort and cluster capacity, and the loss at the stop is within the risk budget.
\<close>

theorem entry_within_every_cap:
  assumes "evaluateEntry pol s p now = Inr ev" and "re_allowed (ev_record ev)"
    and pend: "0 \<le> pendingExposureBaseUnits s"
  shows "\<exists>size total token loss budget. computedPositionAmount (ev_record ev) = Some size \<and> 0 < size \<and>
     exposure_cap (equityBaseUnits s) (maxTotalExposureFraction pol) = Inr total \<and>
     exposureBaseUnits s + pendingExposureBaseUnits s + size \<le> total \<and>
     exposure_cap (equityBaseUnits s) (maxExposurePerTokenFraction pol) = Inr token \<and>
     assetExposureBaseUnits s + size \<le> token \<and>
     minSettlementReserveBaseUnits pol + pendingExposureBaseUnits s + size \<le> settlementAvailableBaseUnits s \<and>
     size \<le> maxPositionValueBaseUnits pol \<and>
     (\<forall>sl. sleeve s = Some sl \<longrightarrow> ps_active sl \<and> size \<le> ps_capRemaining sl \<and> loss \<le> ps_riskRemaining sl) \<and>
     (\<forall>g a. cohort s = Some g \<longrightarrow>
        capRemaining (equityBaseUnits s) (usedFraction g) (maxCohortExposureFraction pol) = Inr a \<longrightarrow> size \<le> a) \<and>
     (\<forall>g a. pf_cluster s = Some g \<longrightarrow>
        capRemaining (equityBaseUnits s) (usedFraction g) (maxClusterExposureFraction pol) = Inr a \<longrightarrow> size \<le> a) \<and>
     computedMaxLossBaseUnits (ev_record ev) = Some loss \<and> loss \<le> budget \<and>
     fraction_of (equityBaseUnits s) (riskPerTradeFraction pol) = Inr budget \<and>
     kill_reasons pol s now = [] \<and> eligibility p = None \<and> quote_reasons pol p = [] \<and> now < proposalExpiresAt p"
proof -
  from assms(1,2) obtain c d r loss where cap: "entry_capacity pol s = Inr c" and d: "stop_distance pol p = Some d"
    and z: "entry_sizing pol s p c d = Inr r" and pos: "sizeBaseUnits r \<noteq> 0"
    and size: "computedPositionAmount (ev_record ev) = Some (sizeBaseUnits r)"
    and ml: "max_loss (Some (sizeBaseUnits r)) (Some d) = Inr (Some loss)"
    and l: "computedMaxLossBaseUnits (ev_record ev) = Some loss"
    and ok: "kill_reasons pol s now = []" "portfolio_reasons pol s (availableCapital c) = []"
      "trade_reasons pol s p now = []"
    by (rule evaluateEntry_Inr)
  from z obtain i where i: "computePositionSize i = Inr r" "si_policy i = pol" "si_equityBaseUnits i = equityBaseUnits s"
    "si_stopDistanceFraction i = d" and sl: "si_sleeve i = map_option (\<lambda>sl. \<lparr>capRemainingBaseUnits = ps_capRemaining sl,
                                        riskRemainingBaseUnits = ps_riskRemaining sl\<rparr>) (sleeve s)"
    and co: "\<forall>g. cohort s = Some g \<longrightarrow> (\<exists>a. capRemaining (equityBaseUnits s) (usedFraction g) (maxCohortExposureFraction pol) = Inr a \<and>
       cohortRemainingBaseUnits i = Some a)"
    and cl: "\<forall>g. pf_cluster s = Some g \<longrightarrow> (\<exists>a. capRemaining (equityBaseUnits s) (usedFraction g) (maxClusterExposureFraction pol) = Inr a \<and>
       clusterRemainingBaseUnits i = Some a)"
    by (rule entry_sizing_steps)
  note caps = computePositionSize_caps [OF i(1) pos, unfolded i]
  have size_pos: "0 < sizeBaseUnits r" using caps(1) pos by (simp add: amount_ok_def)
  from ml obtain n where n: "micros d = Inr n" "mulDiv (sizeBaseUnits r) n MICRO CEIL = Inr loss"
    by (auto simp: max_loss_def)
  note bounded = loss_within_budget [OF i(1) pos, unfolded i, OF n]
  obtain b where b: "fraction_of (equityBaseUnits s) (riskPerTradeFraction pol) = Inr b" "riskBudgetBaseUnits r \<le> b"
    using bounded(4) i by (auto simp: risk_budget_def split: option.splits)
  have risk_left: "loss \<le> ps_riskRemaining x" if "sleeve s = Some x" for x
    using risk_budget_ok [OF bounded(4)] bounded(1) sl that by simp
  from sized_entry_capacity [OF cap z pos pend] obtain total token where t:
    "exposure_cap (equityBaseUnits s) (maxTotalExposureFraction pol) = Inr total"
    "exposureBaseUnits s + pendingExposureBaseUnits s + sizeBaseUnits r \<le> total"
    "exposure_cap (equityBaseUnits s) (maxExposurePerTokenFraction pol) = Inr token"
    "assetExposureBaseUnits s + sizeBaseUnits r \<le> token"
    "minSettlementReserveBaseUnits pol + pendingExposureBaseUnits s + sizeBaseUnits r \<le> settlementAvailableBaseUnits s" by blast
  have "\<forall>x. sleeve s = Some x \<longrightarrow> ps_active x \<and> sizeBaseUnits r \<le> ps_capRemaining x \<and> loss \<le> ps_riskRemaining x"
    using ok(2) caps(4) sl risk_left by (auto simp: portfolio_reasons_def)
  moreover have "\<forall>g a. cohort s = Some g \<longrightarrow>
      capRemaining (equityBaseUnits s) (usedFraction g) (maxCohortExposureFraction pol) = Inr a \<longrightarrow> sizeBaseUnits r \<le> a"
    using co caps(5) by auto
  moreover have "\<forall>g a. pf_cluster s = Some g \<longrightarrow>
      capRemaining (equityBaseUnits s) (usedFraction g) (maxClusterExposureFraction pol) = Inr a \<longrightarrow> sizeBaseUnits r \<le> a"
    using cl caps(6) by auto
  moreover have "loss \<le> b" using bounded(1) b(2) by linarith
  moreover have "eligibility p = None" "quote_reasons pol p = []" "now < proposalExpiresAt p"
    using ok(3) by (auto simp: trade_reasons_def)
  ultimately show ?thesis
    using size size_pos t caps(2) l b(1) ok(1) by blast
qed

definition toy_policy :: RiskPolicy where
  "toy_policy = \<lparr>rp_version = ''risk-v1'', maxTotalExposureFraction = Fin (1 / 2), minSettlementReserveBaseUnits = 50,
     minGasReserveLamports = 10, maxOpenPositions = 3, maxExposurePerTokenFraction = Fin (1 / 4),
     maxCohortExposureFraction = Fin (1 / 2), maxClusterExposureFraction = Fin (1 / 2), requireCohortCapacity = False,
     maxDailyDrawdownFraction = Fin (1 / 8), maxRollingDrawdownFraction = Fin (1 / 4), maxConsecutiveLosses = 3,
     cooldownAfterBreakerMs = 1000, maxInFlightExposureIncreasing = 1, riskPerTradeFraction = Fin (1 / 8),
     maxPositionValueBaseUnits = 200, liquidityCapFraction = Fin (1 / 8), rp_maxImpactBps = 100, rp_maxSlippageBps = 100,
     rp_chaseToleranceBps = 75, rp_maxQuoteAgeMs = 15000, minRewardToRiskRatio = Fin (3 / 2), maxClockDriftMs = 5000,
     maxExecutionAnomalies = 2,
     stop_rule = \<lparr>stop_model = PERCENTAGE, atrMultiple = Fin 2, maxStopFraction = Fin (1 / 8)\<rparr>,
     takeProfit = \<lparr>tp_policy = FIXED_R, targetRMultiple = Fin 3, trailAfterRMultiple = Fin 1,
       trailFraction = Fin (1 / 8), maxHoldMs = 60000\<rparr>\<rparr>"

definition toy_health :: Health where
  "toy_health = \<lparr>feedsBlockEntries = False, staleDataClasses = [], reconciliationClean = True, dbAvailable = True,
     executionAnomalies = 0, providerAuthFailure = False, clockDriftMs = 0, operatorKill = False,
     sessionAllowsEntries = True\<rparr>"

definition toy_state :: PortfolioState where
  "toy_state = \<lparr>pf_settlementMint = ''USDC'', settlementDecimals = 2, equityBaseUnits = 1000, exposureBaseUnits = 100,
     pendingExposureBaseUnits = 50, inFlightExposureIncreasing = 0, openPositions = 1, assetExposureBaseUnits = 20,
     settlementAvailableBaseUnits = 900, gasReserveLamports = 20,
     sleeve = Some \<lparr>ps_id = ''s'', ps_active = True, ps_capRemaining = 180, ps_riskRemaining = 100\<rparr>,
     cohort = None, pf_cluster = None,
     drawdown = \<lparr>dailyFraction = Fin 0, rollingFraction = Fin 0, consecutiveLosses = 0, circuitBreakerTripped = False,
       breakerTrippedAt = None\<rparr>, health = toy_health\<rparr>"

definition toy_proposal :: EntryProposal where
  "toy_proposal = \<lparr>ep_id = ''e'', ep_proposalId = ''p'', ep_actionCycleId = ''c'', ep_assetId = ''a'', eligibility = None,
     eligibilityEvaluationId = None, proposalExpiresAt = 100, proposalPriceUsd = Fin 8,
     ep_quote = Some \<lparr>eq_ageMs = 10, eq_impactBps = Some 5, eq_slippageBps = 50, eq_priceUsd = Fin 8\<rparr>,
     ep_token2022Compatible = True, duplicateIntent = False, liquidityUsd = Some (Fin 1000), ep_atrPct = None,
     structureLowPriceUsd = None, expectedRewardFraction = None\<rparr>"

lemma toy_stop: "entry_stop toy_policy toy_proposal = Some \<lparr>level = Fin 7, distanceFraction = Fin (1 / 8)\<rparr>"
  "stop_distance toy_policy toy_proposal = Some (Fin (1 / 8))"
  by (simp_all add: stop_distance_def entry_stop_def toy_policy_def toy_proposal_def stopLevel_def model_stop_def
      stop_cap_def nsub_def nmax_def)

lemmas toy_arith = micros_def exposure_cap_def fraction_of_def mulDiv_def divide_rounding_def Let_def amount_ok_def
  U64_MAX_def MICRO_def headroom_def nmax_def

lemma toy_capacity: "entry_capacity toy_policy toy_state =
    Inr \<lparr>committed = 150, totalRemaining = 350, tokenRemaining = 230, availableCapital = 800\<rparr>"
  by (simp add: entry_capacity_def toy_policy_def toy_state_def toy_arith addAmounts_def subAmounts_def)

lemma toy_sized: "\<exists>r. entry_sizing toy_policy toy_state toy_proposal
     \<lparr>committed = 150, totalRemaining = 350, tokenRemaining = 230, availableCapital = 800\<rparr> (Fin (1 / 8)) = Inr r \<and>
     sizeBaseUnits r = 180 \<and> unknownCapacity r = None"
  by (simp add: entry_sizing_def group_remaining_def usdToBase_def toy_policy_def toy_state_def toy_proposal_def toy_arith
      computePositionSize_def risk_budget_def required_capacity_def tighten_def)

lemma toy_rules: "kill_reasons toy_policy toy_state 10 = []" "portfolio_reasons toy_policy toy_state 800 = []"
  "trade_reasons toy_policy toy_state toy_proposal 10 = []" "stop_reasons toy_policy toy_proposal = []"
  by (simp_all add: kill_reasons_def portfolio_reasons_def trade_reasons_def stop_reasons_def toy_stop quote_reasons_def
      stale_checks_def breaker_active_def in_cooldown_def reason_if_def nsub_def)
    (simp_all add: toy_policy_def toy_state_def toy_proposal_def toy_health_def nsub_def)

lemma toy_loss: "max_loss (Some 180) (Some (Fin (1 / 8))) = Inr (Some 23)"
  by (simp add: max_loss_def toy_arith)

theorem entry_within_every_cap_witness:
  "\<exists>ev. evaluateEntry toy_policy toy_state toy_proposal 10 = Inr ev \<and> computedPositionAmount (ev_record ev) = Some 180 \<and>
     exposureBaseUnits toy_state + pendingExposureBaseUnits toy_state + 180 \<le> 500"
proof -
  obtain r where r: "entry_sizing toy_policy toy_state toy_proposal
     \<lparr>committed = 150, totalRemaining = 350, tokenRemaining = 230, availableCapital = 800\<rparr> (Fin (1 / 8)) = Inr r"
     "sizeBaseUnits r = 180" "unknownCapacity r = None" using toy_sized by blast
  have "entry_reasons toy_policy toy_state toy_proposal 10
     \<lparr>committed = 150, totalRemaining = 350, tokenRemaining = 230, availableCapital = 800\<rparr> (Some r) = []"
    by (simp add: entry_reasons_def toy_rules sizing_reasons_def r reason_if_def)
  then have "\<exists>ev. evaluateEntry toy_policy toy_state toy_proposal 10 = Inr ev \<and> re_allowed (ev_record ev) \<and>
      computedPositionAmount (ev_record ev) = Some 180"
    by (simp add: evaluateEntry_def toy_capacity optional_sizing_def toy_stop r toy_loss)
  then obtain ev where ev: "evaluateEntry toy_policy toy_state toy_proposal 10 = Inr ev" "re_allowed (ev_record ev)"
    "computedPositionAmount (ev_record ev) = Some 180" by blast
  have pend: "0 \<le> pendingExposureBaseUnits toy_state" by (simp add: toy_state_def)
  have "exposure_cap (equityBaseUnits toy_state) (maxTotalExposureFraction toy_policy) = Inr 500"
    by (simp add: toy_state_def toy_policy_def toy_arith)
  with entry_within_every_cap [OF ev(1,2) pend] ev show ?thesis by auto
qed

end
