(* ===== verification/Releases.thy ===== *)
theory Releases imports SignedEnvelope RiskPolicy "HOL-Library.Sublist" begin

text \<open>
  Releases: the immutable bundle a strategy runs under, its life cycle from draft to armed
  (\<open>libs/risk/src/release/lifecycle.ts\<close>) and what the risk authorizer verifies about it before it
  signs (\<open>apps/risk-authorizer/src/release/verify.ts\<close>). The digest of a release is the canonical
  hash of its binding.
\<close>

section \<open>Releases and attestations\<close>

record ReleaseBinding =
  rb_strategyVersionId :: version_id
  rb_skillVersionId :: "version_id option"
  rb_guidelineVersionId :: "version_id option"
  rb_automationSetVersionId :: "version_id option"
  rb_proposerModelPolicyVersion :: "version_id option"
  rb_adversaryModelPolicyVersion :: version_id
  rb_riskPolicyVersion :: version_id
  rb_cohortPolicyVersion :: version_id
  rb_freshnessPolicyVersion :: version_id
  rb_executorPolicyRef :: version_id
  rb_contractSetDigest :: sha256_hex

record Release =
  rel_id :: uuid
  rel_digest :: sha256_hex
  rel_binding :: ReleaseBinding
  rel_status :: ReleaseStatus
  rel_createdAt :: instant
  rel_promotedAt :: "instant option"
  rel_retiredAt :: "instant option"

datatype AttestationPurpose = PROMOTE | ARM | RESUME

record ReleaseAttestation =
  at_id :: uuid
  at_releaseId :: uuid
  at_releaseDigest :: sha256_hex
  at_purpose :: AttestationPurpose
  at_operatorId :: uuid
  at_operatorRole :: string
  at_credentialId :: string
  at_credentialFingerprint :: sha256_hex
  at_challenge :: string
  at_verificationResult :: bool
  at_attestedAt :: instant
  at_expiresAt :: "instant option"

definition binding_json :: "ReleaseBinding \<Rightarrow> json" where
  "binding_json b = JObj
     [(''strategyVersionId'', JStr (rb_strategyVersionId b)), (''skillVersionId'', opt_json JStr (rb_skillVersionId b)),
      (''guidelineVersionId'', opt_json JStr (rb_guidelineVersionId b)),
      (''automationSetVersionId'', opt_json JStr (rb_automationSetVersionId b)),
      (''proposerModelPolicyVersion'', opt_json JStr (rb_proposerModelPolicyVersion b)),
      (''adversaryModelPolicyVersion'', JStr (rb_adversaryModelPolicyVersion b)),
      (''riskPolicyVersion'', JStr (rb_riskPolicyVersion b)), (''cohortPolicyVersion'', JStr (rb_cohortPolicyVersion b)),
      (''freshnessPolicyVersion'', JStr (rb_freshnessPolicyVersion b)),
      (''executorPolicyRef'', JStr (rb_executorPolicyRef b)), (''contractSetDigest'', JStr (rb_contractSetDigest b))]"

definition is_live :: "CapitalAuthority \<Rightarrow> bool" where
  "is_live a \<longleftrightarrow> a = LIVE_APPROVAL \<or> a = LIVE_AUTO"

definition expired_at :: "instant option \<Rightarrow> instant \<Rightarrow> bool" where
  "expired_at e now \<longleftrightarrow> (case e of None \<Rightarrow> False | Some t \<Rightarrow> compareInstants t now \<le> 0)"

section \<open>Life cycle\<close>

datatype ReleaseEvent =
    E_PAPER_VALIDATED instant int int bool \<comment> \<open>at, paperCycles, minCycles, reconciliationClean\<close>
  | E_PROMOTE instant ReleaseAttestation
  | E_ARM instant ReleaseAttestation bool jsnum bool \<comment> \<open>at, attestation, readinessPermits, capitalCeilingUsd, liveCapabilityEnabled\<close>
  | E_RETIRE instant

datatype ReleaseRejection =
    INVALID_FROM_STATUS ReleaseStatus string
  | PAPER_EVIDENCE_INSUFFICIENT "string list"
  | ATTESTATION_INVALID "string list"
  | LIVE_ARMING_PRECONDITION_FAILED "string list"

definition attestationReasons :: "ReleaseAttestation \<Rightarrow> Release \<Rightarrow> AttestationPurpose \<Rightarrow> instant \<Rightarrow> string list" where
  "attestationReasons a r p now =
     reason_if (at_releaseId a \<noteq> rel_id r \<or> at_releaseDigest a \<noteq> rel_digest r) ''ATTESTATION_RELEASE_MISMATCH'' @
     reason_if (\<not> at_verificationResult a) ''ATTESTATION_NOT_VERIFIED'' @
     reason_if (at_operatorRole a \<noteq> ''admin'') ''ATTESTATION_ROLE_NOT_ADMIN'' @
     reason_if (at_purpose a \<noteq> p) ''ATTESTATION_WRONG_PURPOSE'' @
     reason_if (expired_at (at_expiresAt a) now) ''ATTESTATION_EXPIRED''"

fun event_type :: "ReleaseEvent \<Rightarrow> string" where
  "event_type (E_PAPER_VALIDATED _ _ _ _) = ''PAPER_VALIDATED''"
| "event_type (E_PROMOTE _ _) = ''PROMOTE''"
| "event_type (E_ARM _ _ _ _ _) = ''ARM''"
| "event_type (E_RETIRE _) = ''RETIRE''"

definition paper_missing :: "int \<Rightarrow> int \<Rightarrow> bool \<Rightarrow> string list" where
  "paper_missing cycles min_cycles clean =
     reason_if (cycles < min_cycles) (''paper cycles '' @ show_int cycles @ '' < '' @ show_int min_cycles) @
     reason_if (\<not> clean) ''reconciliation not clean''"

definition arming_missing :: "bool \<Rightarrow> bool \<Rightarrow> jsnum \<Rightarrow> string list" where
  "arming_missing capability permits limit =
     reason_if (\<not> capability) ''deployment live capability'' @
     reason_if (\<not> permits) ''Live Readiness verdict'' @
     reason_if (\<not> nlt (Fin 0) limit \<or> \<not> is_finite_num limit) ''capital attestation ceiling''"

fun release_step :: "Release \<Rightarrow> ReleaseEvent \<Rightarrow> ReleaseRejection + Release" where
  "release_step r (E_PAPER_VALIDATED now cycles min_cycles clean) =
     (if rel_status r \<noteq> DRAFT then Inl (INVALID_FROM_STATUS (rel_status r) ''PAPER_VALIDATED'')
      else if paper_missing cycles min_cycles clean \<noteq> []
      then Inl (PAPER_EVIDENCE_INSUFFICIENT (paper_missing cycles min_cycles clean))
      else Inr (r\<lparr>rel_status := PAPER_VALIDATED\<rparr>))"
| "release_step r (E_PROMOTE now a) =
     (if rel_status r \<noteq> PAPER_VALIDATED then Inl (INVALID_FROM_STATUS (rel_status r) ''PROMOTE'')
      else if attestationReasons a r PROMOTE now \<noteq> [] then Inl (ATTESTATION_INVALID (attestationReasons a r PROMOTE now))
      else Inr (r\<lparr>rel_status := ELIGIBLE_LIVE, rel_promotedAt := Some now\<rparr>))"
| "release_step r (E_ARM now a permits limit capability) =
     (if rel_status r \<noteq> ELIGIBLE_LIVE \<and> rel_status r \<noteq> ARMED then Inl (INVALID_FROM_STATUS (rel_status r) ''ARM'')
      else if attestationReasons a r ARM now \<noteq> [] then Inl (ATTESTATION_INVALID (attestationReasons a r ARM now))
      else if arming_missing capability permits limit \<noteq> []
      then Inl (LIVE_ARMING_PRECONDITION_FAILED (arming_missing capability permits limit))
      else Inr (r\<lparr>rel_status := ARMED\<rparr>))"
| "release_step r (E_RETIRE now) = Inr (r\<lparr>rel_status := RETIRED, rel_retiredAt := Some now\<rparr>)"

definition releaseTransition :: "Release \<Rightarrow> ReleaseEvent \<Rightarrow> ReleaseRejection + Release" where
  "releaseTransition r e = (if rel_status r = RETIRED \<and> (\<forall>t. e \<noteq> E_RETIRE t)
     then Inl (INVALID_FROM_STATUS (rel_status r) (event_type e)) else release_step r e)"

record StepUpEvidence =
  su_credentialId :: string
  su_credentialFingerprint :: sha256_hex
  su_challenge :: string
  su_verified :: bool

datatype step_up_refusal = STEP_UP_NOT_VERIFIED | ROLE_NOT_ADMIN

definition attestationFromStepUp ::
  "uuid \<Rightarrow> Release \<Rightarrow> AttestationPurpose \<Rightarrow> uuid \<Rightarrow> string \<Rightarrow> StepUpEvidence \<Rightarrow> instant \<Rightarrow> int option \<Rightarrow>
     step_up_refusal + ReleaseAttestation" where
  "attestationFromStepUp i r p op op_role su now validityMs =
     (if \<not> su_verified su then Inl STEP_UP_NOT_VERIFIED
      else if op_role \<noteq> ''admin'' then Inl ROLE_NOT_ADMIN
      else Inr \<lparr>at_id = i, at_releaseId = rel_id r, at_releaseDigest = rel_digest r, at_purpose = p, at_operatorId = op,
         at_operatorRole = ''admin'', at_credentialId = su_credentialId su,
         at_credentialFingerprint = su_credentialFingerprint su, at_challenge = su_challenge su,
         at_verificationResult = True, at_attestedAt = now, at_expiresAt = map_option (addMs now) validityMs\<rparr>)"

definition armingPreconditions ::
  "CapitalAuthority \<Rightarrow> bool \<Rightarrow> Release option \<Rightarrow> ReleaseAttestation option \<Rightarrow> bool \<Rightarrow> bool \<Rightarrow> instant \<Rightarrow> string list" where
  "armingPreconditions requested capability rel att permits stepUpVerified now =
     (if \<not> is_live requested then []
      else reason_if (\<not> capability) ''deployment live capability'' @
        reason_if (case rel of None \<Rightarrow> True | Some r \<Rightarrow> rel_status r \<noteq> ARMED) ''ARMED Release'' @
        reason_if (case att of None \<Rightarrow> True
          | Some a \<Rightarrow> (case rel of None \<Rightarrow> False | Some r \<Rightarrow> attestationReasons a r ARM now \<noteq> [])) ''valid ARM attestation'' @
        reason_if (\<not> permits) ''Live Readiness verdict'' @
        reason_if (\<not> stepUpVerified) ''operator step-up'')"

definition capitalAttestationDigest :: "crypto \<Rightarrow> uuid \<Rightarrow> uuid \<Rightarrow> jsnum \<Rightarrow> uuid \<Rightarrow> type_error + sha256_hex" where
  "capitalAttestationDigest cr account rel limit att = hash_json cr
     (JObj [(''accountId'', JStr account), (''releaseId'', JStr rel), (''ceilingUsd'', JNum limit), (''attestationId'', JStr att)])"

section \<open>Verification by the risk authorizer\<close>

record ReleaseVerifyInput =
  rv_release :: Release
  rv_attestation :: "ReleaseAttestation option"
  rv_capitalAuthority :: CapitalAuthority
  rv_trustedFingerprints :: "sha256_hex list"
  rv_now :: instant

definition attestation_rejections :: "ReleaseVerifyInput \<Rightarrow> sha256_hex \<Rightarrow> string list" where
  "attestation_rejections i digest = (case rv_attestation i of
       None \<Rightarrow> [''ATTESTATION_MISSING'']
     | Some a \<Rightarrow>
         reason_if (at_releaseId a \<noteq> rel_id (rv_release i) \<or> at_releaseDigest a \<noteq> digest) ''ATTESTATION_RELEASE_MISMATCH'' @
         reason_if (\<not> at_verificationResult a \<or> at_operatorRole a \<noteq> ''admin'') ''ATTESTATION_NOT_VERIFIED'' @
         reason_if (at_credentialFingerprint a \<notin> set (rv_trustedFingerprints i)) ''ATTESTATION_UNTRUSTED_CREDENTIAL'' @
         reason_if (is_live (rv_capitalAuthority i) \<and> at_purpose a \<noteq> ARM \<and> at_purpose a \<noteq> RESUME) ''ATTESTATION_WRONG_PURPOSE'' @
         reason_if (expired_at (at_expiresAt a) (rv_now i)) ''ATTESTATION_EXPIRED'')"

definition release_rejections :: "ReleaseVerifyInput \<Rightarrow> sha256_hex \<Rightarrow> string list" where
  "release_rejections i digest = (let r = rv_release i; b = rel_binding r; authority = rv_capitalAuthority i in
     reason_if (digest \<noteq> rel_digest r) ''RELEASE_DIGEST_MISMATCH'' @
     reason_if (rel_status r = RETIRED \<or> rel_retiredAt r \<noteq> None) ''RELEASE_RETIRED'' @
     reason_if (is_live authority \<and> rel_status r \<noteq> ARMED) ''RELEASE_STATUS_FORBIDS_AUTHORITY'' @
     reason_if (\<not> is_live authority \<and> authority = PAPER \<and> rel_status r = DRAFT) ''RELEASE_STATUS_FORBIDS_AUTHORITY'' @
     reason_if (authority = LIVE_AUTO \<and> (rb_skillVersionId b = None \<or> rb_guidelineVersionId b = None \<or>
        rb_automationSetVersionId b = None)) ''RELEASE_UNVERSIONED_AUTONOMY'' @
     attestation_rejections i digest)"

text \<open>The digest and the attestation of a verified release; a canonicalization error is thrown.\<close>

definition verifyRelease :: "crypto \<Rightarrow> ReleaseVerifyInput \<Rightarrow> type_error + (string list + (sha256_hex \<times> uuid))" where
  "verifyRelease cr i = ebind (hash_json cr (binding_json (rel_binding (rv_release i)))) (\<lambda>digest.
     Inr (if release_rejections i digest \<noteq> [] then Inl (release_rejections i digest)
          else case rv_attestation i of
              None \<Rightarrow> Inl [] \<comment> \<open>not reached: a missing attestation is a reason\<close>
            | Some a \<Rightarrow> Inr (digest, at_id a)))"

section \<open>Properties\<close>

lemma verifyRelease_ok: "verifyRelease cr i = Inr (Inr (h, aid)) \<longleftrightarrow>
    hash_json cr (binding_json (rel_binding (rv_release i))) = Inr h \<and> release_rejections i h = [] \<and>
    (\<exists>a. rv_attestation i = Some a \<and> aid = at_id a)"
  by (auto simp: verifyRelease_def split: option.splits if_splits)

lemma release_ok_live:
  assumes "release_rejections i h = []" and "is_live (rv_capitalAuthority i)"
  shows "rel_status (rv_release i) = ARMED \<and> rel_digest (rv_release i) = h \<and> rel_retiredAt (rv_release i) = None"
  using assms by (auto simp: release_rejections_def Let_def)

lemma attestationReasons_Nil: "attestationReasons a r p now = [] \<longleftrightarrow>
    at_releaseId a = rel_id r \<and> at_releaseDigest a = rel_digest r \<and> at_verificationResult a \<and>
    at_operatorRole a = ''admin'' \<and> at_purpose a = p \<and> \<not> expired_at (at_expiresAt a) now"
  by (auto simp: attestationReasons_def)

text \<open>Evidence that a step of the ladder was taken for a release with this id and digest.\<close>

definition attests :: "Release \<Rightarrow> AttestationPurpose \<Rightarrow> instant \<Rightarrow> ReleaseAttestation \<Rightarrow> bool" where
  "attests r p now a \<longleftrightarrow> at_releaseId a = rel_id r \<and> at_releaseDigest a = rel_digest r \<and> at_verificationResult a \<and>
     at_operatorRole a = ''admin'' \<and> at_purpose a = p \<and> \<not> expired_at (at_expiresAt a) now"

fun paper_evidence :: "ReleaseEvent \<Rightarrow> bool" where
  "paper_evidence (E_PAPER_VALIDATED _ cycles min_cycles clean) \<longleftrightarrow> min_cycles \<le> cycles \<and> clean"
| "paper_evidence _ \<longleftrightarrow> False"

fun promote_evidence :: "Release \<Rightarrow> ReleaseEvent \<Rightarrow> bool" where
  "promote_evidence r (E_PROMOTE now a) \<longleftrightarrow> attests r PROMOTE now a"
| "promote_evidence r _ \<longleftrightarrow> False"

fun arm_evidence :: "Release \<Rightarrow> ReleaseEvent \<Rightarrow> bool" where
  "arm_evidence r (E_ARM now a permits limit capability) \<longleftrightarrow> attests r ARM now a \<and> permits \<and> capability \<and>
     (\<exists>c. limit = Fin c \<and> 0 < c)"
| "arm_evidence r _ \<longleftrightarrow> False"

lemma arming_missing_Nil: "arming_missing capability permits limit = [] \<longleftrightarrow>
    capability \<and> permits \<and> (\<exists>c. limit = Fin c \<and> 0 < c)"
  by (cases limit) (auto simp: arming_missing_def)

lemma paper_missing_Nil: "paper_missing c m cl = [] \<longleftrightarrow> m \<le> c \<and> cl"
  by (auto simp: paper_missing_def)

definition climbed :: "Release \<Rightarrow> ReleaseEvent list \<Rightarrow> Release \<Rightarrow> bool" where
  "climbed r0 es r \<longleftrightarrow> rel_id r = rel_id r0 \<and> rel_digest r = rel_digest r0 \<and> rel_binding r = rel_binding r0 \<and>
     (case rel_status r of DRAFT \<Rightarrow> True | RETIRED \<Rightarrow> True
      | PAPER_VALIDATED \<Rightarrow> \<exists>p. paper_evidence p \<and> subseq [p] es
      | ELIGIBLE_LIVE \<Rightarrow> \<exists>p q. paper_evidence p \<and> promote_evidence r0 q \<and> subseq [p, q] es
      | ARMED \<Rightarrow> \<exists>p q a. paper_evidence p \<and> promote_evidence r0 q \<and> arm_evidence r0 a \<and> subseq [p, q, a] es)"

lemma subseq_snoc: "subseq xs es \<Longrightarrow> subseq (xs @ [e]) (es @ [e])" "subseq xs es \<Longrightarrow> subseq xs (es @ [e])"
  by (simp_all add: list_emb_prefix)

lemma climbed_step:
  assumes "climbed r0 es r" and "releaseTransition r e = Inr r'"
  shows "climbed r0 (es @ [e]) r'"
proof -
  have keep: "climbed r0 (es @ [e]) r"
    using assms(1) subseq_snoc(2) [of _ es e] by (fastforce simp: climbed_def split: ReleaseStatus.splits)
  from assms(2) have step: "release_step r e = Inr r'" by (simp add: releaseTransition_def split: if_splits)
  show ?thesis
  proof (cases e)
    case (E_PAPER_VALIDATED now c m cl)
    with step have "paper_evidence e" "r' = r\<lparr>rel_status := PAPER_VALIDATED\<rparr>"
      by (simp_all add: paper_missing_Nil split: if_splits)
    with keep show ?thesis using subseq_snoc(1) [of "[]" es e] by (auto simp: climbed_def)
  next
    case (E_PROMOTE now a)
    with step have e: "rel_status r = PAPER_VALIDATED" "promote_evidence r e"
      "r' = r\<lparr>rel_status := ELIGIBLE_LIVE, rel_promotedAt := Some now\<rparr>"
      by (simp_all add: attestationReasons_Nil attests_def split: if_splits)
    with assms(1) obtain p where "paper_evidence p" "subseq [p] es" by (auto simp: climbed_def)
    with subseq_snoc(1) [of "[p]" es e] have "paper_evidence p" "subseq [p, e] (es @ [e])" by simp_all
    moreover have "promote_evidence r0 e" using e(2) assms(1) E_PROMOTE by (simp add: climbed_def attests_def)
    ultimately show ?thesis using keep e by (auto simp: climbed_def)
  next
    case (E_ARM now a permits limit capability)
    with step have e: "rel_status r = ELIGIBLE_LIVE \<or> rel_status r = ARMED" "arm_evidence r e"
      "r' = r\<lparr>rel_status := ARMED\<rparr>"
      by (auto simp: attestationReasons_Nil attests_def arming_missing_Nil split: if_splits)
    have a: "arm_evidence r0 e" using e(2) assms(1) E_ARM by (simp add: climbed_def attests_def)
    have "\<exists>p q. paper_evidence p \<and> promote_evidence r0 q \<and> subseq [p, q] es"
    proof (cases "rel_status r = ARMED")
      case True
      with assms(1) obtain p q x where "paper_evidence p" "promote_evidence r0 q" "subseq [p, q, x] es"
        by (auto simp: climbed_def)
      moreover have "subseq [p, q] [p, q, x]" by simp
      ultimately show ?thesis by (meson subseq_order.order_trans)
    qed (use e(1) assms(1) in \<open>auto simp: climbed_def\<close>)
    then obtain p q where "paper_evidence p" "promote_evidence r0 q" "subseq [p, q] es" by blast
    moreover from this(3) have "subseq [p, q, e] (es @ [e])" using subseq_snoc(1) [of "[p, q]" es e] by simp
    ultimately show ?thesis using keep e a by (auto simp: climbed_def)
  next
    case (E_RETIRE now)
    with step keep show ?thesis by (auto simp: climbed_def)
  qed
qed

lemma climbed_run: "rel_status r0 = DRAFT \<Longrightarrow> climbed r0 es (run_events releaseTransition r0 es)"
proof (induction es rule: rev_induct)
  case (snoc e es)
  then have IH: "climbed r0 es (run_events releaseTransition r0 es)" by simp
  show ?case
  proof (cases "releaseTransition (run_events releaseTransition r0 es) e")
    case (Inl x)
    with IH subseq_snoc(2) [of _ es e] show ?thesis
      by (fastforce simp: run_events_append apply_event_def climbed_def split: ReleaseStatus.splits)
  next
    case (Inr r)
    with climbed_step [OF IH Inr] show ?thesis by (simp add: run_events_append apply_event_def)
  qed
qed (simp add: climbed_def)

interpretation retired: event_machine releaseTransition "\<lambda>r. rel_status r = RETIRED"
  by unfold_locales (auto simp: releaseTransition_def split: if_splits)

text \<open>
  C39: No release is armed for live capital by a shortcut: whatever events are delivered to a draft
  release in whatever order, when it ends armed the accepted history contains, in this order, paper
  validation with enough clean cycles, a promotion attested by a verified administrator for exactly
  this release and digest, and an arming attested likewise with the readiness verdict, the
  deployment capability and a positive finite capital ceiling. A retired release stays retired.
\<close>

theorem armed_needs_every_step:
  assumes "rel_status r = DRAFT"
  shows "(rel_status (run_events releaseTransition r es) = ARMED \<longrightarrow>
      (\<exists>p q a. subseq [p, q, a] es \<and> paper_evidence p \<and> promote_evidence r q \<and> arm_evidence r a)) \<and>
    (rel_status (run_events releaseTransition r es) = RETIRED \<longrightarrow>
      rel_status (run_events releaseTransition r (es @ later)) = RETIRED)"
proof (intro conjI impI)
  assume "rel_status (run_events releaseTransition r es) = ARMED"
  with climbed_run [OF assms, of es]
  show "\<exists>p q a. subseq [p, q, a] es \<and> paper_evidence p \<and> promote_evidence r q \<and> arm_evidence r a"
    by (auto simp: climbed_def)
next
  assume "rel_status (run_events releaseTransition r es) = RETIRED"
  then show "rel_status (run_events releaseTransition r (es @ later)) = RETIRED"
    by (simp add: run_events_append retired.run_inv)
qed

section \<open>Witnesses\<close>

definition toy_release :: Release where
  "toy_release = \<lparr>rel_id = ''rel-1'', rel_digest = ''digest-1'',
     rel_binding = \<lparr>rb_strategyVersionId = ''strategy-1'', rb_skillVersionId = None, rb_guidelineVersionId = None,
       rb_automationSetVersionId = None, rb_proposerModelPolicyVersion = None,
       rb_adversaryModelPolicyVersion = ''adversary-1'', rb_riskPolicyVersion = ''risk-1'',
       rb_cohortPolicyVersion = ''cohort-1'', rb_freshnessPolicyVersion = ''fresh-1'', rb_executorPolicyRef = ''exec-1'',
       rb_contractSetDigest = ''contracts-1''\<rparr>,
     rel_status = DRAFT, rel_createdAt = 0, rel_promotedAt = None, rel_retiredAt = None\<rparr>"

definition toy_attestation :: "AttestationPurpose \<Rightarrow> instant \<Rightarrow> ReleaseAttestation" where
  "toy_attestation p now = \<lparr>at_id = ''att-1'', at_releaseId = ''rel-1'', at_releaseDigest = ''digest-1'', at_purpose = p,
     at_operatorId = ''op-1'', at_operatorRole = ''admin'', at_credentialId = ''cred-1'',
     at_credentialFingerprint = ''fp-1'', at_challenge = ''c-1'', at_verificationResult = True, at_attestedAt = now,
     at_expiresAt = None\<rparr>"

definition toy_ladder :: "ReleaseEvent list" where
  "toy_ladder = [E_PROMOTE 1 (toy_attestation PROMOTE 1), E_PAPER_VALIDATED 2 30 20 True,
     E_PROMOTE 3 (toy_attestation PROMOTE 3), E_ARM 4 (toy_attestation ARM 4) True (Fin 5000) True]"

lemma toy_ladder_arms: "rel_status (run_events releaseTransition toy_release toy_ladder) = ARMED"
  by (simp add: toy_ladder_def toy_release_def toy_attestation_def apply_event_def releaseTransition_def
      attestationReasons_Nil attestationReasons_def paper_missing_Nil arming_missing_Nil expired_at_def)

theorem armed_needs_every_step_witness:
  "rel_status (run_events releaseTransition toy_release toy_ladder) = ARMED \<and>
   (\<exists>p q a. subseq [p, q, a] toy_ladder \<and> paper_evidence p \<and> promote_evidence toy_release q \<and> arm_evidence toy_release a)"
  using armed_needs_every_step [of toy_release toy_ladder "[]"] toy_ladder_arms by (simp add: toy_release_def)

end
