(* ===== verification/RuntimeSession.thy ===== *)
theory RuntimeSession imports RiskPolicy begin

text \<open>
  The runtime session (\<open>libs/risk/src/runtime-session\<close>): the machine over activity, capital
  authority and the sticky pause, the plan that decides whether a session may go off with lots
  still held, the cold-start gates and the attended-presence rule. The lemmas say who can lift a
  pause, what arms a live authority and that a session goes off only with nothing unmanaged.
\<close>

section \<open>The machine\<close>

datatype ActorKind =
    OPERATOR | WORKER | RISK_AUTHORIZER | EXECUTOR | OUT_OF_BAND_KEY | AUTOMATION | WATCHDOG | SCHEDULE

record RuntimeState =
  activity :: ActivityState
  rt_authority :: CapitalAuthority
  paused :: bool
  pausedBy :: "ActorKind option"
  attended :: bool
  liveCapabilityEnabled :: bool

text \<open>\<open>'ACTIVE' | 'WATCH'\<close>, the two activities an event window may fall back to.\<close>

datatype window_fallback = FALL_BACK_ACTIVE | FALL_BACK_WATCH

fun fallback_activity :: "window_fallback \<Rightarrow> ActivityState" where
  "fallback_activity FALL_BACK_ACTIVE = ACTIVE"
| "fallback_activity FALL_BACK_WATCH = WATCH"

datatype RuntimeEvent =
    E_START ActorKind
  | E_COLD_START_PASSED
  | E_ACTIVATE ActorKind
  | E_TO_WATCH ActorKind
  | E_OPEN_EVENT_WINDOW ActorKind
  | E_CLOSE_EVENT_WINDOW window_fallback
  | E_END_SESSION ActorKind
  | E_WIND_DOWN_COMPLETE int int int
  | E_PAUSE ActorKind
  | E_RESUME ActorKind bool
  | E_SET_AUTHORITY ActorKind CapitalAuthority bool bool bool

datatype RuntimeRejection =
    INVALID_FROM_STATE ActivityState string
  | PAUSED_ONLY_OPERATOR_CAN_CLEAR ActorKind
  | STEP_UP_REQUIRED
  | OFF_WITH_UNMANAGED_EXPOSURE int int
  | LIVE_ARMING_PRECONDITION_FAILED "string list"
  | ONLY_OPERATOR_SETS_AUTHORITY ActorKind

definition LIVE :: "CapitalAuthority set" where
  "LIVE = {LIVE_APPROVAL, LIVE_AUTO}"

definition RUNNING :: "ActivityState set" where
  "RUNNING = {STARTING, WATCH, ACTIVE, EVENT_WINDOW}"

definition initialRuntimeState :: RuntimeState where
  "initialRuntimeState = \<lparr>activity = OFF, rt_authority = OBSERVE, paused = False, pausedBy = None, attended = True,
     liveCapabilityEnabled = False\<rparr>"

definition move_to :: "bool \<Rightarrow> RuntimeState \<Rightarrow> ActivityState \<Rightarrow> string \<Rightarrow> RuntimeRejection + RuntimeState" where
  "move_to ok s a ev = (if ok then Inr (s\<lparr>activity := a\<rparr>) else Inl (INVALID_FROM_STATE (activity s) ev))"

definition authority_missing :: "RuntimeState \<Rightarrow> bool \<Rightarrow> bool \<Rightarrow> bool \<Rightarrow> string list" where
  "authority_missing s attested permits stepUp =
     reason_if (\<not> liveCapabilityEnabled s) ''deployment live capability'' @
     reason_if (\<not> attested) ''attested Release'' @
     reason_if (\<not> permits) ''Live Readiness verdict'' @
     reason_if (\<not> stepUp) ''operator step-up''"

fun runtimeTransition :: "RuntimeState \<Rightarrow> RuntimeEvent \<Rightarrow> RuntimeRejection + RuntimeState" where
  "runtimeTransition s (E_PAUSE by_actor) = Inr (s\<lparr>paused := True, pausedBy := Some by_actor\<rparr>)"
| "runtimeTransition s (E_RESUME by_actor stepUp) =
     (if by_actor \<noteq> OPERATOR then Inl (PAUSED_ONLY_OPERATOR_CAN_CLEAR by_actor)
      else if \<not> stepUp then Inl STEP_UP_REQUIRED
      else Inr (s\<lparr>paused := False, pausedBy := None\<rparr>))"
| "runtimeTransition s (E_SET_AUTHORITY by_actor a attested permits stepUp) =
     (if by_actor \<noteq> OPERATOR then Inl (ONLY_OPERATOR_SETS_AUTHORITY by_actor)
      else if a \<in> LIVE \<and> authority_missing s attested permits stepUp \<noteq> []
      then Inl (LIVE_ARMING_PRECONDITION_FAILED (authority_missing s attested permits stepUp))
      else Inr (s\<lparr>rt_authority := a\<rparr>))"
| "runtimeTransition s (E_START _) = move_to (activity s = OFF) s STARTING ''START''"
| "runtimeTransition s E_COLD_START_PASSED = move_to (activity s = STARTING) s WATCH ''COLD_START_PASSED''"
| "runtimeTransition s (E_ACTIVATE _) = move_to (activity s = WATCH) s ACTIVE ''ACTIVATE''"
| "runtimeTransition s (E_TO_WATCH _) = move_to (activity s = ACTIVE \<or> activity s = EVENT_WINDOW) s WATCH ''TO_WATCH''"
| "runtimeTransition s (E_OPEN_EVENT_WINDOW _) = move_to (activity s = ACTIVE) s EVENT_WINDOW ''OPEN_EVENT_WINDOW''"
| "runtimeTransition s (E_CLOSE_EVENT_WINDOW fallback) =
     move_to (activity s = EVENT_WINDOW) s (fallback_activity fallback) ''CLOSE_EVENT_WINDOW''"
| "runtimeTransition s (E_END_SESSION _) = move_to (activity s \<in> RUNNING) s WIND_DOWN ''END_SESSION''"
| "runtimeTransition s (E_WIND_DOWN_COMPLETE unmanaged executions custodyOps) =
     (if activity s \<noteq> WIND_DOWN then Inl (INVALID_FROM_STATE (activity s) ''WIND_DOWN_COMPLETE'')
      else if unmanaged > 0 \<or> executions + custodyOps > 0
      then Inl (OFF_WITH_UNMANAGED_EXPOSURE unmanaged (executions + custodyOps))
      else Inr (s\<lparr>activity := OFF\<rparr>))"

definition newEntriesAllowed :: "RuntimeState \<Rightarrow> bool" where
  "newEntriesAllowed s \<longleftrightarrow> \<not> paused s \<and> (activity s = ACTIVE \<or> activity s = EVENT_WINDOW) \<and> rt_authority s \<noteq> OBSERVE"

definition liveExecutionAllowed :: "RuntimeState \<Rightarrow> bool" where
  "liveExecutionAllowed s \<longleftrightarrow> newEntriesAllowed s \<and> rt_authority s \<in> LIVE \<and> liveCapabilityEnabled s"

definition riskReductionAllowed :: bool where
  "riskReductionAllowed = True"

section \<open>Wind-down with lots held\<close>

record LotForWindDown =
  wd_lotId :: uuid
  wd_positionId :: uuid
  wd_strategyVersionId :: version_id
  wd_quantity :: amount
  wd_protectionMode :: ProtectionMode
  wd_providerProtectionActive :: bool
  wd_safetyState :: string

record StrategyOfflineTerms =
  permitted :: bool
  maxOfflineMs :: "int option"

record WindDownInput =
  wd_lots :: "LotForWindDown list"
  strategyTerms :: "version_id \<Rightarrow> StrategyOfflineTerms option"
  inFlightExecutions :: int
  inFlightCustodyOps :: int
  emergencyRouteFresh :: "bool option"
  watchdog_healthy :: bool
  watchdog_lastRunAt :: "instant option"
  plannedResumeAt :: "instant option"
  wd_now :: instant

datatype LotVerdict = PROTECTED uuid instant | NOT_PROTECTED uuid "string list"

definition resume_reasons :: "StrategyOfflineTerms option \<Rightarrow> instant option \<Rightarrow> instant \<Rightarrow> string list" where
  "resume_reasons terms planned now = (case planned of None \<Rightarrow> [''no planned resume'']
     | Some t \<Rightarrow> (case terms of None \<Rightarrow> []
         | Some st \<Rightarrow> (case maxOfflineMs st of
               None \<Rightarrow> [''strategy declares no maximum offline duration'']
             | Some m \<Rightarrow> reason_if (t - now > m) ''planned resume beyond the maximum offline duration'')))"

definition offline_reasons :: "LotForWindDown \<Rightarrow> WindDownInput \<Rightarrow> string list" where
  "offline_reasons lot i = (let terms = strategyTerms i (wd_strategyVersionId lot) in
     (case terms of None \<Rightarrow> [''strategy terms unknown'']
        | Some st \<Rightarrow> reason_if (\<not> permitted st) ''strategy forbids offline protection'') @
     reason_if (wd_protectionMode lot = MONITORED_EXIT \<or> \<not> wd_providerProtectionActive lot) ''no active provider-side protection'' @
     reason_if (inFlightExecutions i + inFlightCustodyOps i > 0) ''execution or custody transition in flight'' @
     reason_if (wd_safetyState lot \<noteq> ''NORMAL'') (''safety '' @ wd_safetyState lot) @
     reason_if (emergencyRouteFresh i \<noteq> Some True) ''emergency route state not fresh'' @
     resume_reasons terms (plannedResumeAt i) (wd_now i) @
     reason_if (\<not> watchdog_healthy i) ''resume watchdog not healthy'')"

definition evaluateOfflineProtection :: "LotForWindDown \<Rightarrow> WindDownInput \<Rightarrow> LotVerdict" where
  "evaluateOfflineProtection lot i = (case (offline_reasons lot i, plannedResumeAt i) of
       ([], Some t) \<Rightarrow> PROTECTED (wd_lotId lot) t
     | (rs, _) \<Rightarrow> NOT_PROTECTED (wd_lotId lot) rs)"

record WindDownPlan =
  verdicts :: "LotVerdict list"
  unmanagedLots :: nat
  offlineProtectedLots :: nat
  blockers :: "string list"
  resumeBy :: "instant option"
  canGoOff :: bool

fun is_protected :: "LotVerdict \<Rightarrow> bool" where
  "is_protected (PROTECTED _ _) \<longleftrightarrow> True"
| "is_protected (NOT_PROTECTED _ _) \<longleftrightarrow> False"

fun verdict_reasons :: "LotVerdict \<Rightarrow> string list" where
  "verdict_reasons (PROTECTED _ _) = []"
| "verdict_reasons (NOT_PROTECTED _ rs) = rs"

fun join_texts :: "string \<Rightarrow> string list \<Rightarrow> string" where
  "join_texts sep [] = []"
| "join_texts sep [x] = x"
| "join_texts sep (x # y # ys) = x @ sep @ join_texts sep (y # ys)"

text \<open>
  \<open>resumeBy\<close> is the first of the sorted resume instants of the protected lots, and every protected
  lot carries the one planned instant.
\<close>

definition wind_down_blockers :: "WindDownInput \<Rightarrow> LotVerdict list \<Rightarrow> string list" where
  "wind_down_blockers i vs = (let in_flight = inFlightExecutions i + inFlightCustodyOps i;
       unmanaged = filter (\<lambda>v. \<not> is_protected v) vs in
     reason_if (in_flight > 0) (show_int in_flight @ '' execution/custody transition(s) in flight'') @
     reason_if (unmanaged \<noteq> []) (show_int (int (length unmanaged)) @ '' unmanaged lot(s): '' @
       join_texts ''; '' (take 4 (rev (remdups (rev (concat (map verdict_reasons unmanaged))))))) @
     reason_if (list_ex is_protected vs \<and> \<not> watchdog_healthy i)
       (''resume watchdog not healthy: offline-protected carry refused ('' @ [CHR 0xA7] @ ''21.2C)''))"

definition windDownPlan :: "WindDownInput \<Rightarrow> WindDownPlan" where
  "windDownPlan i = (let vs = map (\<lambda>l. evaluateOfflineProtection l i) (wd_lots i);
       bs = wind_down_blockers i vs in
     \<lparr>verdicts = vs, unmanagedLots = length (filter (\<lambda>v. \<not> is_protected v) vs),
      offlineProtectedLots = length (filter is_protected vs), blockers = bs,
      resumeBy = (if list_ex is_protected vs then plannedResumeAt i else None), canGoOff = (bs = [])\<rparr>)"

section \<open>Cold start and presence\<close>

datatype reconciliation_status = CLEAN | MISMATCH | UNAVAILABLE

record ColdStartFacts =
  cs_authority :: CapitalAuthority
  reconciliations :: "(uuid \<times> reconciliation_status) list"
  blockingFeeds :: "string list"
  universeRefreshedAt :: "instant option"
  eligibleAssets :: int
  trackedAssets :: int
  warmAssets :: int
  cs_openPositions :: int
  positionsWithStaleSafety :: int
  liveChecksHealthy :: "bool option"

record SessionPolicy =
  sp_version :: version_id
  presenceTimeoutMs :: int
  universeMaxAgeMs :: int
  minWarmAssets :: int
  safetyMaxAgeMs :: int
  tickMs :: int

definition DEFAULT_SESSION_POLICY :: SessionPolicy where
  "DEFAULT_SESSION_POLICY = \<lparr>sp_version = ''session-v1'', presenceTimeoutMs = 3 * 60000, universeMaxAgeMs = 24 * 3600000,
     minWarmAssets = 1, safetyMaxAgeMs = 10 * 60000, tickMs = 15000\<rparr>"

datatype ColdStartGateName =
    RECONCILIATION_CLEAN | FEEDS_FRESH | UNIVERSE_REFRESHED | WARMUP_SUFFICIENT | HELD_ASSET_SAFETY_FRESH | AUTHORITY_CHECKS

text \<open>The gates with their verdicts; the explanatory detail of a gate is left out.\<close>

record ColdStartGate =
  gate_name :: ColdStartGateName
  gate_passed :: bool
  gate_checkedAt :: instant

definition evaluateColdStartGates :: "ColdStartFacts \<Rightarrow> SessionPolicy \<Rightarrow> instant \<Rightarrow> ColdStartGate list" where
  "evaluateColdStartGates f pol now = (let g = (\<lambda>n ok. \<lparr>gate_name = n, gate_passed = ok, gate_checkedAt = now\<rparr>) in
     [g RECONCILIATION_CLEAN (filter (\<lambda>r. snd r \<noteq> CLEAN) (reconciliations f) = []),
      g FEEDS_FRESH (blockingFeeds f = []),
      g UNIVERSE_REFRESHED (case universeRefreshedAt f of None \<Rightarrow> False
         | Some t \<Rightarrow> now - t \<le> universeMaxAgeMs pol \<and> eligibleAssets f > 0),
      g WARMUP_SUFFICIENT (warmAssets f \<ge> minWarmAssets pol \<and> warmAssets f > 0),
      g HELD_ASSET_SAFETY_FRESH (positionsWithStaleSafety f = 0),
      g AUTHORITY_CHECKS (if cs_authority f = LIVE_APPROVAL \<or> cs_authority f = LIVE_AUTO
         then liveChecksHealthy f = Some True else True)])"

definition coldStartPassed :: "ColdStartGate list \<Rightarrow> bool" where
  "coldStartPassed gates \<longleftrightarrow> gates \<noteq> [] \<and> list_all gate_passed gates"

datatype Presence = PRESENT | ABSENT | NOT_REQUIRED

definition presenceState :: "bool \<Rightarrow> instant option \<Rightarrow> instant \<Rightarrow> SessionPolicy \<Rightarrow> Presence" where
  "presenceState needed lastHeartbeatAt now pol =
     (if \<not> needed then NOT_REQUIRED
      else case lastHeartbeatAt of None \<Rightarrow> ABSENT
        | Some t \<Rightarrow> if now - t \<le> presenceTimeoutMs pol then PRESENT else ABSENT)"

section \<open>Properties\<close>

text \<open>A state that a run reaches and did not start from was entered by an event of the run.\<close>

lemma run_needs:
  assumes "\<And>s e t. \<not> P s \<Longrightarrow> step s e = Inr t \<Longrightarrow> P t \<Longrightarrow> ok e"
  shows "\<not> P s \<Longrightarrow> P (run_events step s es) \<Longrightarrow> \<exists>e \<in> set es. ok e"
proof (induction es arbitrary: s)
  case (Cons e es)
  show ?case
  proof (cases "P (apply_event step s e)")
    case True
    with Cons.prems(1) assms have "ok e" by (auto simp: apply_event_def split: sum.splits)
    then show ?thesis by simp
  next
    case False
    with Cons show ?thesis by auto
  qed
qed simp

lemma runtime_step_cases:
  assumes "runtimeTransition s e = Inr t"
  shows "liveCapabilityEnabled t = liveCapabilityEnabled s"
    and "paused s \<Longrightarrow> \<not> paused t \<Longrightarrow> e = E_RESUME OPERATOR True"
    and "rt_authority s \<notin> LIVE \<Longrightarrow> rt_authority t \<in> LIVE \<Longrightarrow>
      liveCapabilityEnabled s \<and> (\<exists>a. e = E_SET_AUTHORITY OPERATOR a True True True)"
    and "activity s \<noteq> OFF \<Longrightarrow> activity t = OFF \<Longrightarrow>
      \<exists>u x c. e = E_WIND_DOWN_COMPLETE u x c \<and> u \<le> 0 \<and> x + c \<le> 0"
  using assms by (cases e; auto elim!: fallback_activity.elims simp: move_to_def authority_missing_def LIVE_def split: if_splits)+

interpretation unarmed: event_machine runtimeTransition "\<lambda>s. \<not> liveCapabilityEnabled s \<and> rt_authority s \<notin> LIVE"
  by unfold_locales (use runtime_step_cases in blast)


definition toy_session :: RuntimeState where
  "toy_session = initialRuntimeState\<lparr>liveCapabilityEnabled := True\<rparr>"

definition toy_day :: "RuntimeEvent list" where
  "toy_day = [E_START OPERATOR, E_COLD_START_PASSED, E_SET_AUTHORITY OPERATOR LIVE_AUTO True True True, E_ACTIVATE SCHEDULE,
     E_PAUSE WATCHDOG, E_TO_WATCH SCHEDULE, E_ACTIVATE SCHEDULE, E_RESUME AUTOMATION True, E_RESUME OPERATOR True]"


end
