(* ===== verification/Clusters.thy ===== *)
theory Clusters imports EntryRules Canonical "HOL-Library.Multiset" begin

text \<open>
  Correlation clusters (\<open>libs/risk/src/cohorts/clusters.ts\<close>) and the exposure of cohorts and
  clusters (\<open>libs/risk/src/cohorts/exposure.ts\<close>). \<open>Math.log\<close> and \<open>Math.sqrt\<close> are parameters. The
  agglomeration loop \<open>for (;;)\<close> is a partial function, so that returning is a theorem: it ends for
  every matrix of correlations, its groups are a partition of the assets, and it stops only when no
  pair of groups is linked at the threshold.
\<close>

section \<open>Returns and correlation\<close>

record CloseSample =
  bucketTime :: instant
  close :: jsnum

definition buckets :: "CloseSample list \<Rightarrow> int \<Rightarrow> (int \<times> jsnum) list" where
  "buckets closes st = foldl (\<lambda>m c. if st \<noteq> 0 \<and> bucketTime c mod st = 0 \<and> nlt (Fin 0) (close c)
     then AList.update (bucketTime c) (close c) m else m) [] closes"

text \<open>Log returns between neighbouring samples exactly one step apart, by the later time.\<close>

fun consecutive_returns :: "(jsnum \<Rightarrow> jsnum) \<Rightarrow> int \<Rightarrow> (int \<times> jsnum) list \<Rightarrow> (int \<times> jsnum) list" where
  "consecutive_returns mlog st ((t0, c0) # (t, c) # rest) =
     (if t - t0 \<noteq> st then [] else [(t, mlog (ndiv c c0))]) @ consecutive_returns mlog st ((t, c) # rest)"
| "consecutive_returns mlog st _ = []"

definition sampledReturns :: "(jsnum \<Rightarrow> jsnum) \<Rightarrow> CloseSample list \<Rightarrow> int \<Rightarrow> (int \<times> jsnum) list" where
  "sampledReturns mlog closes sampleMinutes = (let st = sampleMinutes * 60000 in
     consecutive_returns mlog st (sort_key fst (buckets closes st)))"

definition nsum :: "jsnum list \<Rightarrow> jsnum" where
  "nsum xs = foldl nadd (Fin 0) xs"

definition number_of_nat :: "nat \<Rightarrow> jsnum" where
  "number_of_nat n = number_of_bigint (int n)"

definition pearson :: "(jsnum \<Rightarrow> jsnum) \<Rightarrow> jsnum list \<Rightarrow> jsnum list \<Rightarrow> jsnum option" where
  "pearson msqrt a b = (let n = min (length a) (length b) in
     if n < 3 then None
     else let ma = ndiv (nsum (take n a)) (number_of_nat n);
              mb = ndiv (nsum (take n b)) (number_of_nat n);
              ds = zip (map (\<lambda>x. nsub x ma) (take n a)) (map (\<lambda>y. nsub y mb) (take n b));
              cov = nsum (map (\<lambda>(da, db). nmul da db) ds);
              va = nsum (map (\<lambda>(da, db). nmul da da) ds);
              vb = nsum (map (\<lambda>(da, db). nmul db db) ds)
          in if va = Fin 0 \<or> vb = Fin 0 then None else Some (ndiv cov (msqrt (nmul va vb))))"

record CorrelationClusterPolicy =
  ccp_version :: version_id
  windowMs :: int
  sampleMinutes :: int
  minSamples :: nat
  linkThreshold :: jsnum
  minClusterSize :: nat

record ClusterInput =
  ci_assetId :: uuid
  returns :: "(int \<times> jsnum) list"

record Cluster =
  clusterId :: string
  cl_assetIds :: "uuid list"

record ClusterResult =
  cr_clusters :: "Cluster list"
  unclustered :: "uuid list"
  pairs :: nat

definition aligned :: "(int \<times> jsnum) list \<Rightarrow> (int \<times> jsnum) list \<Rightarrow> (jsnum \<times> jsnum) list" where
  "aligned r s = concat (map (\<lambda>(t, x). case map_of s t of None \<Rightarrow> [] | Some y \<Rightarrow> [(x, y)]) r)"

text \<open>The entry of the matrix for \<open>i < j\<close>; the matrix is symmetric and its diagonal is never read.\<close>

definition pair_correlation :: "(jsnum \<Rightarrow> jsnum) \<Rightarrow> CorrelationClusterPolicy \<Rightarrow> ClusterInput list \<Rightarrow> nat \<Rightarrow> nat \<Rightarrow> jsnum option" where
  "pair_correlation msqrt pol es i j = (let ab = aligned (returns (es ! min i j)) (returns (es ! max i j)) in
     if length ab \<ge> minSamples pol then pearson msqrt (map fst ab) (map snd ab) else None)"

section \<open>Agglomeration\<close>

text \<open>The mean correlation of two groups, \<open>None\<close> as soon as one pair is not known.\<close>

fun link_sum :: "(nat \<Rightarrow> nat \<Rightarrow> jsnum option) \<Rightarrow> (nat \<times> nat) list \<Rightarrow> jsnum \<Rightarrow> jsnum option" where
  "link_sum corr [] acc = Some acc"
| "link_sum corr ((i, j) # ps) acc = (case corr i j of None \<Rightarrow> None | Some c \<Rightarrow> link_sum corr ps (nadd acc c))"

definition linkage :: "(nat \<Rightarrow> nat \<Rightarrow> jsnum option) \<Rightarrow> nat list \<Rightarrow> nat list \<Rightarrow> jsnum option" where
  "linkage corr g1 g2 = (case link_sum corr (List.product g1 g2) (Fin 0) of None \<Rightarrow> None
     | Some sm \<Rightarrow> if length g1 * length g2 = 0 then None else Some (ndiv sm (number_of_nat (length g1 * length g2))))"

definition index_pairs :: "nat \<Rightarrow> (nat \<times> nat) list" where
  "index_pairs n = concat (map (\<lambda>a. map (Pair a) [Suc a..<n]) [0..<n])"

definition better :: "(nat \<Rightarrow> nat \<Rightarrow> jsnum option) \<Rightarrow> jsnum \<Rightarrow> nat list list \<Rightarrow> (nat \<times> nat \<times> jsnum) option \<Rightarrow> nat \<times> nat
    \<Rightarrow> (nat \<times> nat \<times> jsnum) option" where
  "better corr threshold groups best ab = (case linkage corr (groups ! fst ab) (groups ! snd ab) of
       None \<Rightarrow> best
     | Some score \<Rightarrow> if nlt score threshold then best
         else (case best of None \<Rightarrow> Some (fst ab, snd ab, score)
           | Some (a, b, high) \<Rightarrow> if nlt high score then Some (fst ab, snd ab, score) else best))"

definition best_pair :: "(nat \<Rightarrow> nat \<Rightarrow> jsnum option) \<Rightarrow> jsnum \<Rightarrow> nat list list \<Rightarrow> (nat \<times> nat \<times> jsnum) option" where
  "best_pair corr threshold groups = foldl (better corr threshold groups) None (index_pairs (length groups))"

definition merge_pair :: "nat list list \<Rightarrow> nat \<Rightarrow> nat \<Rightarrow> nat list list" where
  "merge_pair groups a b = sort_key hd (nths groups (- {a, b}) @ [sort (groups ! a @ groups ! b)])"

partial_function (option) merge_loop ::
  "(nat \<Rightarrow> nat \<Rightarrow> jsnum option) \<Rightarrow> jsnum \<Rightarrow> nat list list \<Rightarrow> nat list list option" where
  "merge_loop corr threshold groups = (case best_pair corr threshold groups of
       None \<Rightarrow> Some groups
     | Some (a, b, _) \<Rightarrow> merge_loop corr threshold (merge_pair groups a b))"

declare merge_loop.simps [code]

text \<open>Naming the groups large enough, in order; the others are left unclustered.\<close>

fun name_groups :: "nat \<Rightarrow> nat \<Rightarrow> uuid list list \<Rightarrow> Cluster list \<times> uuid list" where
  "name_groups least ordinal [] = ([], [])"
| "name_groups least ordinal (g # gs) =
     (if length g < least then (let (cs, un) = name_groups least ordinal gs in (cs, g @ un))
      else (let (cs, un) = name_groups least (Suc ordinal) gs in
        (\<lparr>clusterId = CHR ''c'' # show_nat (Suc ordinal) @ ''-'' @ take 8 (hd g), cl_assetIds = g\<rparr> # cs, un)))"

definition clusterByCorrelation ::
  "(jsnum \<Rightarrow> jsnum) \<Rightarrow> ClusterInput list \<Rightarrow> CorrelationClusterPolicy \<Rightarrow> ClusterResult option" where
  "clusterByCorrelation msqrt inputs pol =
     (let sorted_in = sort_key ci_assetId inputs;
          eligible = filter (\<lambda>i. length (returns i) \<ge> minSamples pol) sorted_in;
          short = map ci_assetId (filter (\<lambda>i. length (returns i) < minSamples pol) sorted_in);
          corr = pair_correlation msqrt pol eligible;
          n = length eligible;
          known = length (filter (\<lambda>(i, j). corr i j \<noteq> None) (index_pairs n))
      in map_option (\<lambda>groups.
           let (cs, un) = name_groups (minClusterSize pol) 0 (map (map (\<lambda>i. ci_assetId (eligible ! i))) groups)
           in \<lparr>cr_clusters = cs, unclustered = sort (short @ un), pairs = known\<rparr>)
         (merge_loop corr (linkThreshold pol) (map (\<lambda>i. [i]) [0..<n])))"

section \<open>Cluster sets and exposure\<close>

record CorrelationClusterSet =
  ccs_id :: uuid
  versionId :: version_id
  windowStart :: instant
  windowEnd :: instant
  calculatedAt :: instant
  ccs_method :: string
  ccs_clusters :: "Cluster list"

text \<open>\<open>iso_text\<close> and \<open>num\<close> are the texts of an instant and of a number in a template string.\<close>

definition clusterSetOf ::
  "(instant \<Rightarrow> string) \<Rightarrow> (jsnum \<Rightarrow> string) \<Rightarrow> uuid \<Rightarrow> ClusterResult \<Rightarrow> CorrelationClusterPolicy \<Rightarrow> instant \<Rightarrow> instant
     \<Rightarrow> CorrelationClusterSet" where
  "clusterSetOf iso_text num i r pol until calculated =
     \<lparr>ccs_id = i, versionId = ccp_version pol @ ''@'' @ iso_text until, windowStart = until - windowMs pol, windowEnd = until,
      calculatedAt = calculated,
      ccs_method = ''average-linkage pearson log-returns '' @ show_int (sampleMinutes pol) @ ''m threshold '' @
        num (linkThreshold pol) @ '' min '' @ show_nat (minSamples pol) @ '' samples'',
      ccs_clusters = cr_clusters r\<rparr>"

definition clusterFor :: "CorrelationClusterSet option \<Rightarrow> uuid \<Rightarrow> string option" where
  "clusterFor cset asset = (case cset of None \<Rightarrow> None
     | Some cs \<Rightarrow> map_option clusterId (find (\<lambda>c. asset \<in> set (cl_assetIds c)) (ccs_clusters cs)))"

record ActiveMembership =
  am_assetId :: uuid
  am_cohortId :: uuid
  cohortName :: string

record OpenExposure =
  oe_assetId :: uuid
  costBasis :: amount

text \<open>A share of the equity with six decimals, cut off; 1 when there is no equity to divide by.\<close>

definition fraction :: "int \<Rightarrow> int \<Rightarrow> jsnum" where
  "fraction part equity = (if equity \<le> 0 then (if part > 0 then Fin 1 else Fin 0)
     else ndiv (number_of_bigint ((part * 1000000) sdiv equity)) (Fin 1000000))"

text \<open>One membership per asset and cohort name: the first row of each \<open>assetId|cohortName\<close> key.\<close>

definition first_memberships :: "ActiveMembership list \<Rightarrow> ActiveMembership list" where
  "first_memberships ms = snd (foldl (\<lambda>(seen, kept) m. let k = am_assetId m @ ''|'' @ cohortName m in
     if k \<in> set seen then (seen, kept) else (seen @ [k], kept @ [m])) ([], []) ms)"

definition add_total :: "amount \<Rightarrow> (string \<times> int) list \<Rightarrow> ActiveMembership \<Rightarrow> (string \<times> int) list" where
  "add_total cost totals m =
     AList.update (cohortName m) (default 0 (map_of totals (cohortName m)) + amountToBigInt cost) totals"

definition cohort_totals :: "OpenExposure list \<Rightarrow> ActiveMembership list \<Rightarrow> (string \<times> int) list" where
  "cohort_totals positions ms = foldl (\<lambda>totals p.
     foldl (add_total (costBasis p)) totals (filter (\<lambda>m. am_assetId m = oe_assetId p) (first_memberships ms))) [] positions"

definition cohortUsage :: "OpenExposure list \<Rightarrow> ActiveMembership list \<Rightarrow> amount \<Rightarrow> (string \<times> GroupUsage) list" where
  "cohortUsage positions ms equity =
     foldl (\<lambda>out m. if map_of out (cohortName m) = None
         then AList.update (cohortName m) \<lparr>group_id = cohortName m, usedFraction = Fin 0\<rparr> out else out)
       (map (\<lambda>(i, part). (i, \<lparr>group_id = i, usedFraction = fraction part (amountToBigInt equity)\<rparr>)) (cohort_totals positions ms)) ms"

definition most_used :: "GroupUsage option \<Rightarrow> GroupUsage \<Rightarrow> GroupUsage option" where
  "most_used best u = (case best of None \<Rightarrow> Some u
     | Some b \<Rightarrow> if nlt (usedFraction b) (usedFraction u) \<or> (neq (usedFraction u) (usedFraction b) \<and> group_id u < group_id b)
         then Some u else best)"

definition cohortForAsset :: "uuid \<Rightarrow> OpenExposure list \<Rightarrow> ActiveMembership list \<Rightarrow> amount \<Rightarrow> GroupUsage option" where
  "cohortForAsset asset positions ms equity =
     foldl most_used None
       (map (\<lambda>m. default \<lparr>group_id = cohortName m, usedFraction = Fin 0\<rparr> (map_of (cohortUsage positions ms equity) (cohortName m)))
         (filter (\<lambda>m. am_assetId m = asset) ms))"

definition exposure_of :: "uuid list \<Rightarrow> OpenExposure list \<Rightarrow> int" where
  "exposure_of members positions =
     sum_list (map (\<lambda>p. amountToBigInt (costBasis p)) (filter (\<lambda>p. oe_assetId p \<in> set members) positions))"

definition clusterForAsset ::
  "uuid \<Rightarrow> OpenExposure list \<Rightarrow> CorrelationClusterSet option \<Rightarrow> amount \<Rightarrow> GroupUsage option" where
  "clusterForAsset asset positions cset equity = (case cset of None \<Rightarrow> None | Some cs \<Rightarrow>
     map_option (\<lambda>i. \<lparr>group_id = i, usedFraction = fraction (exposure_of
         (case find (\<lambda>c. clusterId c = i) (ccs_clusters cs) of None \<Rightarrow> [] | Some c \<Rightarrow> cl_assetIds c) positions) (amountToBigInt equity)\<rparr>)
       (clusterFor cset asset))"

section \<open>The loop ends\<close>

lemma index_pairs_set: "(a, b) \<in> set (index_pairs n) \<longleftrightarrow> a < b \<and> b < n"
  by (auto simp: index_pairs_def intro!: bexI [of _ a])

lemma better_in: "better corr t gs best ab = Some (a, b, s) \<Longrightarrow> best = Some (a, b, s) \<or> ab = (a, b)"
  by (cases ab) (auto simp: better_def split: option.splits if_splits)

lemma best_pair_from: "foldl (better corr t gs) best ps = Some (a, b, s) \<Longrightarrow> best = Some (a, b, s) \<or> (a, b) \<in> set ps"
proof (induction ps arbitrary: best)
  case (Cons p ps)
  then show ?case using better_in [of corr t gs best p] by fastforce
qed simp

lemma best_pair_bounds: "best_pair corr t gs = Some (a, b, s) \<Longrightarrow> a < b \<and> b < length gs"
  using best_pair_from [of corr t gs None "index_pairs (length gs)" a b s]
  by (simp add: best_pair_def index_pairs_set)

lemma better_keeps: "foldl (better corr t gs) (Some x) ps \<noteq> None"
proof (induction ps arbitrary: x)
  case (Cons p ps)
  have "\<exists>y. better corr t gs (Some x) p = Some y" by (cases x) (auto simp: better_def split: option.splits)
  with Cons show ?case by auto
qed simp

lemma best_pair_None:
  assumes "foldl (better corr t gs) None ps = None" and "(a, b) \<in> set ps"
  shows "case linkage corr (gs ! a) (gs ! b) of None \<Rightarrow> True | Some score \<Rightarrow> nlt score t"
  using assms
proof (induction ps)
  case (Cons p ps)
  show ?case
  proof (cases "better corr t gs None p")
    case None
    with Cons show ?thesis by (auto simp: better_def split: option.splits if_splits)
  next
    case (Some x)
    with Cons.prems(1) better_keeps [of corr t gs x ps] show ?thesis by simp
  qed
qed simp

lemma merge_pair_length: "a < b \<Longrightarrow> b < length gs \<Longrightarrow> length (merge_pair gs a b) < length gs"
proof -
  assume ab: "a < b" "b < length gs"
  have "{i. i < length gs \<and> i \<in> - {a, b}} = {..<length gs} - {a, b}" by auto
  moreover have "card ({..<length gs} - {a, b}) = length gs - 2" using ab by (simp add: card_Diff_subset)
  ultimately have "length (nths gs (- {a, b})) = length gs - 2" by (simp add: length_nths)
  with ab show ?thesis by (simp add: merge_pair_def)
qed

lemma mset_nths: "mset (nths xs A) = image_mset ((!) xs) (mset_set {i. i < length xs \<and> i \<in> A})"
proof (induction xs rule: rev_induct)
  case (snoc x xs)
  have fin: "finite {i. i < length xs \<and> i \<in> A}" by simp
  have "{i. i < length (xs @ [x]) \<and> i \<in> A} = {i. i < length xs \<and> i \<in> A} \<union> (if length xs \<in> A then {length xs} else {})"
    by (auto simp: less_Suc_eq)
  moreover have "image_mset ((!) (xs @ [x])) (mset_set {i. i < length xs \<and> i \<in> A}) =
      image_mset ((!) xs) (mset_set {i. i < length xs \<and> i \<in> A})"
    by (rule image_mset_cong) (simp add: nth_append)
  ultimately show ?case using snoc fin by (simp add: nths_append)
qed simp

lemma mset_pair:
  assumes "a < b" and "b < length xs"
  shows "mset xs = {#xs ! a, xs ! b#} + mset (nths xs (- {a, b}))"
proof -
  have all: "mset xs = image_mset ((!) xs) (mset_set {..<length xs})"
    using mset_nths [of xs UNIV] by (simp add: lessThan_def nths_all)
  have "{..<length xs} = {a, b} \<union> {i. i < length xs \<and> i \<in> - {a, b}}" using assms by auto
  moreover have "mset_set ({a, b} \<union> {i. i < length xs \<and> i \<in> - {a, b}}) =
      mset_set {a, b} + mset_set {i. i < length xs \<and> i \<in> - {a, b}}" by (rule mset_set_Union) auto
  ultimately show ?thesis using assms all mset_nths [of xs "- {a, b}"] by simp
qed

lemma mset_concat_sum: "mset (concat xss) = \<Sum>\<^sub># (image_mset mset (mset xss))"
  by (induction xss) auto

lemma merge_pair_mset:
  assumes "a < b" and "b < length gs"
  shows "mset (concat (merge_pair gs a b)) = mset (concat gs)"
  using mset_pair [OF assms] by (simp add: mset_concat_sum merge_pair_def)

lemma merge_loop_total: "\<exists>out. merge_loop corr t gs = Some out \<and> mset (concat out) = mset (concat gs) \<and>
    best_pair corr t out = None"
proof (induction "length gs" arbitrary: gs rule: less_induct)
  case less
  show ?case
  proof (cases "best_pair corr t gs")
    case None
    then show ?thesis by (subst merge_loop.simps) simp
  next
    case (Some x)
    then obtain a b s where best: "best_pair corr t gs = Some (a, b, s)" by (cases x) auto
    from best_pair_bounds [OF this] have ab: "a < b" "b < length gs" by auto
    from less [OF merge_pair_length [OF ab]] best merge_pair_mset [OF ab] show ?thesis
      by (subst merge_loop.simps) simp
  qed
qed

lemma name_groups_partition:
  "mset (concat (map cl_assetIds (fst (name_groups least k gs))) @ snd (name_groups least k gs)) = mset (concat gs)"
  by (induction least k gs rule: name_groups.induct) (auto simp: split_beta)

lemma name_groups_large: "list_all (\<lambda>c. least \<le> length (cl_assetIds c)) (fst (name_groups least k gs))"
  by (induction least k gs rule: name_groups.induct) (auto simp: split_beta)

text \<open>The pairs of groups that are linked: the mean correlation is known and not below the threshold.\<close>

definition linked :: "(nat \<Rightarrow> nat \<Rightarrow> jsnum option) \<Rightarrow> jsnum \<Rightarrow> nat list \<Rightarrow> nat list \<Rightarrow> bool" where
  "linked corr t g h \<longleftrightarrow> (case linkage corr g h of None \<Rightarrow> False | Some score \<Rightarrow> \<not> nlt score t)"

lemma best_pair_linked: "best_pair corr t gs = None \<Longrightarrow>
    list_all (\<lambda>(a, b). \<not> linked corr t (gs ! a) (gs ! b)) (index_pairs (length gs))"
  using best_pair_None [of corr t gs "index_pairs (length gs)"]
  by (fastforce simp: best_pair_def linked_def list_all_iff split: option.splits)

definition eligible_inputs :: "ClusterInput list \<Rightarrow> CorrelationClusterPolicy \<Rightarrow> ClusterInput list" where
  "eligible_inputs inputs pol = filter (\<lambda>i. length (returns i) \<ge> minSamples pol) (sort_key ci_assetId inputs)"

lemma name_groups_pair: "name_groups least k gs = (cs, un) \<Longrightarrow>
    mset (concat (map cl_assetIds cs)) + mset un = mset (concat gs) \<and> list_all (\<lambda>c. least \<le> length (cl_assetIds c)) cs"
  using name_groups_partition [of least k gs] name_groups_large [of least k gs] by simp

lemma concat_map_map: "mset (concat (map (map f) gs)) = image_mset f (mset (concat gs))"
  by (induction gs) auto

lemma eligible_mset: "image_mset (\<lambda>i. ci_assetId (eligible_inputs inputs pol ! i)) (mset [0..<length (eligible_inputs inputs pol)]) +
    mset (map ci_assetId (filter (\<lambda>i. length (returns i) < minSamples pol) (sort_key ci_assetId inputs))) =
    mset (map ci_assetId inputs)"
proof -
  have "image_mset (\<lambda>i. ci_assetId (eligible_inputs inputs pol ! i)) (mset [0..<length (eligible_inputs inputs pol)]) =
      mset (map ci_assetId (map ((!) (eligible_inputs inputs pol)) [0..<length (eligible_inputs inputs pol)]))"
    by (simp only: map_map mset_map comp_def)
  then have "image_mset (\<lambda>i. ci_assetId (eligible_inputs inputs pol ! i)) (mset [0..<length (eligible_inputs inputs pol)]) =
      mset (map ci_assetId (eligible_inputs inputs pol))"
    by (simp only: map_nth)
  moreover have "image_mset ci_assetId (filter_mset P M) + image_mset ci_assetId (filter_mset (\<lambda>x. \<not> P x) M) = image_mset ci_assetId M"
    for P and M :: "ClusterInput multiset" by (metis image_mset_union multiset_partition)
  from this [of "\<lambda>i. minSamples pol \<le> length (returns i)" "mset inputs"]
  have "image_mset ci_assetId (filter_mset (\<lambda>i. minSamples pol \<le> length (returns i)) (mset inputs)) +
      image_mset ci_assetId (filter_mset (\<lambda>i. length (returns i) < minSamples pol) (mset inputs)) = image_mset ci_assetId (mset inputs)"
    by (simp add: not_le)
  ultimately show ?thesis by (simp add: eligible_inputs_def)
qed

text \<open>
  C38: Clustering always returns, whatever the correlations are (unknown ones, NaN and infinities
  included), because every round joins two groups: its answer places every input asset exactly once,
  in one cluster or among the unclustered, no cluster is smaller than the policy's minimum, and it
  comes from groups of which no two are still linked at the threshold.
\<close>

theorem clustering_returns:
  "\<exists>r groups. clusterByCorrelation msqrt inputs pol = Some r \<and>
     mset (concat (map cl_assetIds (cr_clusters r)) @ unclustered r) = mset (map ci_assetId inputs) \<and>
     list_all (\<lambda>c. minClusterSize pol \<le> length (cl_assetIds c)) (cr_clusters r) \<and>
     cr_clusters r = fst (name_groups (minClusterSize pol) 0 (map (map (\<lambda>i. ci_assetId (eligible_inputs inputs pol ! i))) groups)) \<and>
     list_all (\<lambda>(a, b). \<not> linked (pair_correlation msqrt pol (eligible_inputs inputs pol)) (linkThreshold pol) (groups ! a) (groups ! b))
       (index_pairs (length groups))"
proof -
  define es where "es = eligible_inputs inputs pol"
  define corr where "corr = pair_correlation msqrt pol es"
  obtain gs where gs: "merge_loop corr (linkThreshold pol) (map (\<lambda>i. [i]) [0..<length es]) = Some gs"
    "mset (concat gs) = mset (concat (map (\<lambda>i. [i]) [0..<length es]))" "best_pair corr (linkThreshold pol) gs = None"
    using merge_loop_total by blast
  obtain cs un where named: "name_groups (minClusterSize pol) 0 (map (map (\<lambda>i. ci_assetId (es ! i))) gs) = (cs, un)" by fastforce
  define short where "short = map ci_assetId (filter (\<lambda>i. length (returns i) < minSamples pol) (sort_key ci_assetId inputs))"
  obtain r where r: "clusterByCorrelation msqrt inputs pol = Some r" "cr_clusters r = cs" "unclustered r = sort (short @ un)"
    using gs(1) named by (simp add: clusterByCorrelation_def Let_def es_def [unfolded eligible_inputs_def, symmetric] corr_def short_def)
  have "mset (concat gs) = mset [0..<length es]" using gs(2) by (simp add: mset_concat_sum image_mset.compositionality comp_def)
  then have "mset (concat (map cl_assetIds cs)) + mset un + mset short = mset (map ci_assetId inputs)"
    using name_groups_pair [OF named] eligible_mset [of inputs pol] by (simp add: concat_map_map es_def short_def)
  with r best_pair_linked [OF gs(3)] name_groups_pair [OF named] named show ?thesis
    by (intro exI [of _ r] exI [of _ gs]) (simp add: corr_def es_def ac_simps)
qed

end
