(* ===== verification/AuthLedger.thy ===== *)
theory AuthLedger imports Vocabulary Money begin

text \<open>
  The risk authorizer's own record of what it has signed
  (\<open>apps/risk-authorizer/src/authorize/ledger.ts\<close>): authorizations by nonce, the nonce of each
  action cycle, and the pending exposure of the open ones. The interface \<open>cycle_ledger\<close> states what
  its client relies on, that a cycle once authorized is never seen as free again.
\<close>

section \<open>The ledger\<close>

record IssuedAuthorization =
  ia_nonce :: nonce
  ia_intentId :: uuid
  ia_actionCycleId :: uuid
  ia_sleeveId :: "uuid option"
  ia_exposureEffect :: ExposureEffect
  ia_maxInputAmount :: amount
  ia_issuedAt :: instant
  ia_expiresAt :: instant
  ia_consumedAt :: "instant option"

record AuthorizationLedger =
  al_entries :: "(nonce \<times> IssuedAuthorization) list"
  al_byCycle :: "(uuid \<times> nonce) list"

definition empty_ledger :: AuthorizationLedger where
  "empty_ledger = \<lparr>al_entries = [], al_byCycle = []\<rparr>"

datatype ledger_error = ALREADY_ISSUED nonce

definition issue :: "IssuedAuthorization \<Rightarrow> AuthorizationLedger \<Rightarrow> ledger_error + AuthorizationLedger" where
  "issue e l = (if map_of (al_entries l) (ia_nonce e) \<noteq> None then Inl (ALREADY_ISSUED (ia_nonce e))
     else Inr \<lparr>al_entries = AList.update (ia_nonce e) e (al_entries l),
               al_byCycle = AList.update (ia_actionCycleId e) (ia_nonce e) (al_byCycle l)\<rparr>)"

definition hasNonce :: "AuthorizationLedger \<Rightarrow> nonce \<Rightarrow> bool" where
  "hasNonce l n \<longleftrightarrow> map_of (al_entries l) n \<noteq> None"

definition nonceForCycle :: "AuthorizationLedger \<Rightarrow> uuid \<Rightarrow> nonce option" where
  "nonceForCycle l c = map_of (al_byCycle l) c"

definition consume :: "nonce \<Rightarrow> instant \<Rightarrow> AuthorizationLedger \<Rightarrow> bool \<times> AuthorizationLedger" where
  "consume n t l = (case map_of (al_entries l) n of None \<Rightarrow> (False, l)
     | Some e \<Rightarrow> if ia_consumedAt e \<noteq> None then (False, l)
         else (True, l\<lparr>al_entries := AList.update n (e\<lparr>ia_consumedAt := Some t\<rparr>) (al_entries l)\<rparr>))"

definition is_open :: "instant \<Rightarrow> IssuedAuthorization \<Rightarrow> bool" where
  "is_open now e \<longleftrightarrow> ia_consumedAt e = None \<and> ia_expiresAt e > now"

definition open_entries :: "AuthorizationLedger \<Rightarrow> instant \<Rightarrow> IssuedAuthorization list" where
  "open_entries l now = filter (is_open now) (map snd (al_entries l))"

definition counts_for :: "uuid option \<Rightarrow> IssuedAuthorization \<Rightarrow> bool" where
  "counts_for sleeve e \<longleftrightarrow> ia_exposureEffect e = INCREASE \<and> (sleeve = None \<or> ia_sleeveId e = sleeve)"

definition pendingExposure :: "AuthorizationLedger \<Rightarrow> instant \<Rightarrow> uuid option \<Rightarrow> arith_error + amount" where
  "pendingExposure l now sleeve =
     efold (\<lambda>acc e. addAmounts [acc, ia_maxInputAmount e]) 0 (filter (counts_for sleeve) (open_entries l now))"

definition inFlightIncreasing :: "AuthorizationLedger \<Rightarrow> instant \<Rightarrow> int" where
  "inFlightIncreasing l now = int (length (filter (\<lambda>e. ia_exposureEffect e = INCREASE) (open_entries l now)))"

definition ledger_size :: "AuthorizationLedger \<Rightarrow> nat" where
  "ledger_size l = length (al_entries l)"

text \<open>The ledger a process starts with: one entry for every open authorization it reads.\<close>

definition restore_ledger :: "IssuedAuthorization list \<Rightarrow> ledger_error + AuthorizationLedger" where
  "restore_ledger es = efold (\<lambda>l e. issue e l) empty_ledger es"

section \<open>What a client relies on\<close>

text \<open>
  A ledger of signed authorizations as its client uses it: issuing refuses a nonce it holds and
  otherwise makes the cycle and the nonce known, keeping every other one known.
\<close>

locale cycle_ledger =
  fixes issue_op :: "'e \<Rightarrow> 'l \<Rightarrow> 'x + 'l"
    and known_nonce :: "'l \<Rightarrow> nonce \<Rightarrow> bool"
    and cycle_nonce :: "'l \<Rightarrow> uuid \<Rightarrow> nonce option"
    and nonce_of :: "'e \<Rightarrow> nonce"
    and cycle_of :: "'e \<Rightarrow> uuid"
  assumes issue_fresh: "(\<exists>l'. issue_op e l = Inr l') \<longleftrightarrow> \<not> known_nonce l (nonce_of e)"
    and issue_cycle: "issue_op e l = Inr l' \<Longrightarrow>
      cycle_nonce l' c = (if c = cycle_of e then Some (nonce_of e) else cycle_nonce l c)"
    and issue_nonce: "issue_op e l = Inr l' \<Longrightarrow> known_nonce l' n \<longleftrightarrow> n = nonce_of e \<or> known_nonce l n"
begin

lemma cycle_stays: "issue_op e l = Inr l' \<Longrightarrow> cycle_nonce l c \<noteq> None \<Longrightarrow> cycle_nonce l' c \<noteq> None"
  by (simp add: issue_cycle)

lemma issued_known: "efold (\<lambda>k e. issue_op e k) l es = Inr l' \<Longrightarrow> e \<in> set es \<Longrightarrow> cycle_nonce l' (cycle_of e) \<noteq> None"
proof (induction es arbitrary: l)
  case (Cons x xs)
  then obtain m where m: "issue_op x l = Inr m" "efold (\<lambda>k e. issue_op e k) m xs = Inr l'" by auto
  have keep: "cycle_nonce k c \<noteq> None \<Longrightarrow> efold (\<lambda>k e. issue_op e k) k ys = Inr l' \<Longrightarrow> cycle_nonce l' c \<noteq> None" for ys k c
  proof (induction ys arbitrary: k)
    case (Cons a as)
    then obtain n where "issue_op a k = Inr n" "efold (\<lambda>k e. issue_op e k) n as = Inr l'" by auto
    with Cons cycle_stays [of a k n c] show ?case by blast
  qed simp
  from issue_cycle [OF m(1), of "cycle_of x"] keep [OF _ m(2)] have "cycle_nonce l' (cycle_of x) \<noteq> None" by simp
  with Cons.IH [OF m(2)] Cons.prems(2) show ?case by auto
qed simp

lemma issued_distinct:
  "efold (\<lambda>k e. issue_op e k) l es = Inr l' \<Longrightarrow> distinct (map nonce_of es) \<and> (\<forall>e \<in> set es. \<not> known_nonce l (nonce_of e))"
proof (induction es arbitrary: l)
  case (Cons x xs)
  then obtain m where m: "issue_op x l = Inr m" "efold (\<lambda>k e. issue_op e k) m xs = Inr l'" by auto
  with Cons.IH [OF m(2)] issue_fresh [of x l] show ?case by (auto simp: issue_nonce [OF m(1)])
qed simp

end

interpretation al: cycle_ledger issue hasNonce nonceForCycle ia_nonce ia_actionCycleId
  by unfold_locales (auto simp: issue_def hasNonce_def nonceForCycle_def split: if_splits)

section \<open>Pending exposure\<close>

lemma addAmounts_two: "addAmounts [a, b] = Inr c \<longleftrightarrow> c = a + b \<and> amount_ok (a + b)"
  by (auto simp: addAmounts_def bigIntToAmount_def amount_ok_def)

lemma pending_from: "efold (\<lambda>acc e. addAmounts [acc, ia_maxInputAmount e]) a es = Inr s \<Longrightarrow>
    s = a + (\<Sum>e\<leftarrow>es. ia_maxInputAmount e)"
proof (induction es arbitrary: a)
  case (Cons e es)
  then have "efold (\<lambda>acc e. addAmounts [acc, ia_maxInputAmount e]) (a + ia_maxInputAmount e) es = Inr s"
    by (auto simp: addAmounts_two)
  from Cons.IH [OF this] show ?case by simp
qed simp

lemma pendingExposure_sum: "pendingExposure l now sleeve = Inr s \<Longrightarrow>
    s = (\<Sum>e\<leftarrow>filter (counts_for sleeve) (open_entries l now). ia_maxInputAmount e)"
  unfolding pendingExposure_def by (drule pending_from) simp

lemma pendingExposure_nonneg:
  assumes "pendingExposure l now sleeve = Inr s"
  shows "0 \<le> s"
proof (cases "filter (counts_for sleeve) (open_entries l now)")
  case Nil
  with assms show ?thesis by (simp add: pendingExposure_def)
next
  case (Cons e es)
  have "efold (\<lambda>acc e. addAmounts [acc, ia_maxInputAmount e]) a (xs @ [x]) = Inr s \<Longrightarrow> 0 \<le> s" for a xs x
    by (induction xs arbitrary: a) (auto simp: addAmounts_two amount_ok_def)
  with assms Cons show ?thesis unfolding pendingExposure_def by (metis rev_exhaust list.distinct(1))
qed

lemma update_fresh: "k \<notin> fst ` set m \<Longrightarrow> AList.update k v m = m @ [(k, v)]"
  by (induction m) auto

lemma issue_open: "issue e l = Inr l' \<Longrightarrow> open_entries l' now = open_entries l now @ (if is_open now e then [e] else [])"
proof -
  assume i: "issue e l = Inr l'"
  then have "ia_nonce e \<notin> fst ` set (al_entries l)" by (auto simp: issue_def map_of_eq_None_iff split: if_splits)
  then have "AList.update (ia_nonce e) e (al_entries l) = al_entries l @ [(ia_nonce e, e)]"
    by (rule update_fresh)
  with i show ?thesis by (auto simp: issue_def open_entries_def split: if_splits)
qed

text \<open>A signed increase is pending from the moment it is issued until it expires or is consumed.\<close>

lemma pending_grows:
  assumes "issue e l = Inr l'" and "is_open now e" and "ia_exposureEffect e = INCREASE"
    and "pendingExposure l now None = Inr a" and "pendingExposure l' now None = Inr b"
  shows "b = a + ia_maxInputAmount e"
  using pendingExposure_sum [OF assms(4)] pendingExposure_sum [OF assms(5)] issue_open [OF assms(1), of now] assms(2,3)
  by (simp add: counts_for_def)

end
