(* ===== verification/Projection.thy ===== *)
theory Projection imports Authority Clusters begin

text \<open>
  Risk state projections: the signed, sequenced picture of the account the worker sends to the
  risk authorizer (\<open>libs/contracts/src/envelopes/risk-state-projection.ts\<close>), how it is built from
  the worker's facts (\<open>libs/risk/src/projection/build.ts\<close>) and what the authorizer verifies before it
  uses it as an input (\<open>apps/risk-authorizer/src/projection/verify.ts\<close>). The lemmas say that the
  exposure of a built projection is the lots plus the pending authorizations, and that a verified
  projection is fresh, sequenced, signed by a pinned key and never claims more than the chain holds.
\<close>

section \<open>The projection\<close>

record CustodyBalance =
  cb_custodyAccountId :: uuid
  cb_mint :: mint_address
  cb_amount :: amount

record SleeveUsage =
  slv_sleeveId :: uuid
  slv_strategyVersionId :: version_id
  slv_committed :: amount
  slv_cap :: amount
  slv_riskRemaining :: amount

record OpenLotSummary =
  ol_lotId :: uuid
  ol_positionId :: uuid
  ol_assetId :: uuid
  ol_mint :: mint_address
  ol_quantity :: amount
  ol_costBasis :: amount
  ol_protectionMode :: ProtectionMode
  ol_providerProtectionActive :: bool

record CapacityEntry =
  ce_id :: string
  ce_usedFraction :: jsnum
  ce_capFraction :: jsnum

record EligibilitySummaryEntry =
  es_assetId :: uuid
  es_evaluationId :: uuid
  es_eligible :: bool
  es_evaluatedAt :: instant

record FreshnessSummaryEntry =
  fs_dataClass :: string
  fs_ageMs :: "int option"
  fs_fresh :: bool

record DrawdownSummary =
  ds_daily :: jsnum
  ds_rolling :: jsnum
  ds_breaker :: bool
  ds_losses :: int

record RiskStateProjection =
  pj_sequence :: int
  pj_asOf :: instant
  pj_chainSlot :: slot
  pj_releaseId :: uuid
  pj_releaseDigest :: sha256_hex
  pj_policyVersion :: version_id
  pj_auditHead :: "(int \<times> sha256_hex) option"
  pj_sourceDigests :: "(string \<times> sha256_hex) list"
  pj_settlementMint :: mint_address
  pj_custody :: "CustodyBalance list"
  pj_settlementAvailable :: amount
  pj_gasReserve :: amount
  pj_exposure :: amount
  pj_exposureUsd :: "jsnum option"
  pj_signerDependent :: amount
  pj_sleeves :: "SleeveUsage list"
  pj_openLots :: "OpenLotSummary list"
  pj_drawdown :: DrawdownSummary
  pj_cohortCapacity :: "CapacityEntry list"
  pj_clusterCapacity :: "CapacityEntry list"
  pj_eligibility :: "EligibilitySummaryEntry list"
  pj_freshness :: "FreshnessSummaryEntry list"
  pj_capital :: CapitalAttestationFacts

definition jamount :: "amount \<Rightarrow> json" where
  "jamount a = JStr (show_int a)"

definition custody_json :: "CustodyBalance \<Rightarrow> json" where
  "custody_json b = JObj [(''custodyAccountId'', JStr (cb_custodyAccountId b)), (''mint'', JStr (cb_mint b)),
     (''amount'', jamount (cb_amount b))]"

definition sleeve_json :: "SleeveUsage \<Rightarrow> json" where
  "sleeve_json s = JObj [(''sleeveId'', JStr (slv_sleeveId s)), (''strategyVersionId'', JStr (slv_strategyVersionId s)),
     (''committedBaseUnits'', jamount (slv_committed s)), (''capBaseUnits'', jamount (slv_cap s)),
     (''riskRemainingBaseUnits'', jamount (slv_riskRemaining s))]"

definition lot_json :: "OpenLotSummary \<Rightarrow> json" where
  "lot_json l = JObj [(''lotId'', JStr (ol_lotId l)), (''positionId'', JStr (ol_positionId l)),
     (''assetId'', JStr (ol_assetId l)), (''mint'', JStr (ol_mint l)), (''quantity'', jamount (ol_quantity l)),
     (''costBasisBaseUnits'', jamount (ol_costBasis l)),
     (''protectionMode'', JStr (protection_text (ol_protectionMode l))),
     (''providerProtectionActive'', JBool (ol_providerProtectionActive l))]"

definition capacity_json :: "CapacityEntry \<Rightarrow> json" where
  "capacity_json c = JObj [(''id'', JStr (ce_id c)), (''usedFraction'', JNum (ce_usedFraction c)),
     (''capFraction'', JNum (ce_capFraction c))]"

definition eligibility_json :: "crypto \<Rightarrow> EligibilitySummaryEntry \<Rightarrow> json" where
  "eligibility_json cr e = JObj [(''assetId'', JStr (es_assetId e)), (''evaluationId'', JStr (es_evaluationId e)),
     (''eligible'', JBool (es_eligible e)), (''evaluatedAt'', JStr (iso cr (es_evaluatedAt e)))]"

definition freshness_json :: "FreshnessSummaryEntry \<Rightarrow> json" where
  "freshness_json f = JObj [(''dataClass'', JStr (fs_dataClass f)), (''ageMs'', opt_json jint (fs_ageMs f)),
     (''fresh'', JBool (fs_fresh f))]"

definition drawdown_json :: "DrawdownSummary \<Rightarrow> json" where
  "drawdown_json d = JObj [(''dailyFraction'', JNum (ds_daily d)), (''rollingFraction'', JNum (ds_rolling d)),
     (''circuitBreakerTripped'', JBool (ds_breaker d)), (''consecutiveLosses'', jint (ds_losses d))]"

definition capital_json :: "CapitalAttestationFacts \<Rightarrow> json" where
  "capital_json c = JObj [(''ceilingUsd'', JNum (ceilingUsd c)), (''recognizedUsd'', JNum (recognizedUsd c)),
     (''reattestRequired'', JBool (reattestRequired c))]"

definition projection_json :: "crypto \<Rightarrow> RiskStateProjection \<Rightarrow> json" where
  "projection_json cr p = JObj
     [(''sequence'', jint (pj_sequence p)), (''asOf'', JStr (iso cr (pj_asOf p))), (''chainSlot'', jint (pj_chainSlot p)),
      (''releaseId'', JStr (pj_releaseId p)), (''releaseDigest'', JStr (pj_releaseDigest p)),
      (''policyVersion'', JStr (pj_policyVersion p)),
      (''auditHead'', opt_json (\<lambda>(n, h). JObj [(''sequence'', jint n), (''hash'', JStr h)]) (pj_auditHead p)),
      (''sourceDigests'', JArr (map (\<lambda>(s, d). JObj [(''source'', JStr s), (''digest'', JStr d)]) (pj_sourceDigests p))),
      (''settlementMint'', JStr (pj_settlementMint p)), (''custody'', JArr (map custody_json (pj_custody p))),
      (''settlementAvailableBaseUnits'', jamount (pj_settlementAvailable p)),
      (''gasReserveLamports'', jamount (pj_gasReserve p)),
      (''aggregateNonSettlementExposureBaseUnits'', jamount (pj_exposure p)),
      (''exposureUsd'', opt_json JNum (pj_exposureUsd p)),
      (''signerDependentExposureBaseUnits'', jamount (pj_signerDependent p)),
      (''sleeves'', JArr (map sleeve_json (pj_sleeves p))), (''openLots'', JArr (map lot_json (pj_openLots p))),
      (''drawdown'', drawdown_json (pj_drawdown p)),
      (''cohortCapacity'', JArr (map capacity_json (pj_cohortCapacity p))),
      (''clusterCapacity'', JArr (map capacity_json (pj_clusterCapacity p))),
      (''eligibilitySummary'', JArr (map (eligibility_json cr) (pj_eligibility p))),
      (''freshnessSummary'', JArr (map freshness_json (pj_freshness p))),
      (''capitalAttestation'', capital_json (pj_capital p))]"

section \<open>Building it\<close>

record StrategySleeve =
  ss_id :: uuid
  ss_strategyVersionId :: version_id
  ss_capitalCap :: amount
  ss_riskBudget :: amount
  ss_committed :: amount
  ss_riskUsed :: amount
  ss_active :: bool

record ProjectionFacts =
  pf_sequence :: int
  pf_asOf :: instant
  pf_chainSlot :: slot
  pf_release :: "uuid \<times> sha256_hex"
  pf_policyVersion :: version_id
  pf_sourceDigests :: "(string \<times> sha256_hex) list"
  pf_auditHead :: "(int \<times> sha256_hex) option"
  pf_settlementMint' :: mint_address
  pf_custody :: "CustodyBalance list"
  pf_settlementAvailable :: amount
  pf_gasReserve :: amount
  pf_pendingExposure :: amount
  pf_sleeves :: "StrategySleeve list"
  pf_openLots :: "OpenLotSummary list"
  pf_equity :: amount
  pf_exposureUsd :: "jsnum option"
  pf_dayStartEquity :: "amount option"
  pf_rollingHighEquity :: "amount option"
  pf_consecutiveLosses :: int
  pf_breaker :: bool
  pf_memberships :: "ActiveMembership list"
  pf_clusterSet :: "CorrelationClusterSet option"
  pf_maxCohort :: jsnum
  pf_maxCluster :: jsnum
  pf_eligibility :: "EligibilitySummaryEntry list"
  pf_freshness :: "FreshnessSummaryEntry list"
  pf_ceilingUsd :: jsnum
  pf_recognizedUsd :: "jsnum option"

definition drawdown_from :: "amount option \<Rightarrow> amount \<Rightarrow> jsnum" where
  "drawdown_from start equity = (case start of None \<Rightarrow> Fin 0
     | Some f \<Rightarrow> if amountToBigInt f \<le> 0 then Fin 0
         else if amountToBigInt equity \<ge> amountToBigInt f then Fin 0
         else nmin (Fin 1) (ndiv (number_of_bigint (((amountToBigInt f - amountToBigInt equity) * 1000000) sdiv amountToBigInt f))
                (Fin 1000000)))"

definition remaining :: "amount \<Rightarrow> amount \<Rightarrow> arith_error + amount" where
  "remaining cap used = (if amountToBigInt cap > amountToBigInt used then bigIntToAmount (amountToBigInt cap - amountToBigInt used)
     else bigIntToAmount 0)"

definition lots_cost :: "OpenLotSummary list \<Rightarrow> int" where
  "lots_cost ls = foldl (\<lambda>acc l. acc + amountToBigInt (ol_costBasis l)) 0 ls"

definition signer_dependent :: "OpenLotSummary \<Rightarrow> bool" where
  "signer_dependent l \<longleftrightarrow> ol_protectionMode l = MONITORED_EXIT \<or> \<not> ol_providerProtectionActive l"

definition cohort_capacity :: "ProjectionFacts \<Rightarrow> OpenExposure list \<Rightarrow> CapacityEntry list" where
  "cohort_capacity f exposures = sort_key ce_id (map (\<lambda>(i, u). \<lparr>ce_id = i, ce_usedFraction = nmin (Fin 1) (usedFraction u),
     ce_capFraction = pf_maxCohort f\<rparr>) (cohortUsage exposures (pf_memberships f) (pf_equity f)))"

definition cluster_capacity :: "ProjectionFacts \<Rightarrow> OpenExposure list \<Rightarrow> CapacityEntry list" where
  "cluster_capacity f exposures = sort_key ce_id (map (\<lambda>c. \<lparr>ce_id = clusterId c,
     ce_usedFraction = nmin (Fin 1) (fraction (exposure_of (cl_assetIds c) exposures) (amountToBigInt (pf_equity f))),
     ce_capFraction = pf_maxCluster f\<rparr>) (case pf_clusterSet f of None \<Rightarrow> [] | Some s \<Rightarrow> ccs_clusters s))"

definition sleeve_usage :: "StrategySleeve \<Rightarrow> arith_error + SleeveUsage" where
  "sleeve_usage s = ebind (remaining (ss_riskBudget s) (ss_riskUsed s)) (\<lambda>r. Inr \<lparr>slv_sleeveId = ss_id s,
     slv_strategyVersionId = ss_strategyVersionId s, slv_committed = ss_committed s, slv_cap = ss_capitalCap s,
     slv_riskRemaining = r\<rparr>)"

text \<open>
  The comparators of \<open>sort\<close> answer \<open>-1\<close> or \<open>1\<close>; a stable sort only asks whether the answer is
  negative, so equal keys keep their order.
\<close>

definition buildRiskStateProjection :: "ProjectionFacts \<Rightarrow> arith_error + RiskStateProjection" where
  "buildRiskStateProjection f =
     (let exposures = map (\<lambda>l. \<lparr>oe_assetId = ol_assetId l, costBasis = ol_costBasis l\<rparr>) (pf_openLots f) in
      ebind (bigIntToAmount (lots_cost (pf_openLots f))) (\<lambda>lots.
      ebind (addAmounts [lots, pf_pendingExposure f]) (\<lambda>exposure.
      ebind (bigIntToAmount (lots_cost (filter signer_dependent (pf_openLots f)))) (\<lambda>dependent.
      ebind (emap sleeve_usage (filter ss_active (pf_sleeves f))) (\<lambda>sleeves.
        Inr \<lparr>pj_sequence = pf_sequence f, pj_asOf = pf_asOf f, pj_chainSlot = pf_chainSlot f,
          pj_releaseId = fst (pf_release f), pj_releaseDigest = snd (pf_release f),
          pj_policyVersion = pf_policyVersion f, pj_auditHead = pf_auditHead f,
          pj_sourceDigests = sort_key fst (pf_sourceDigests f), pj_settlementMint = pf_settlementMint' f,
          pj_custody = sort_key (\<lambda>c. cb_custodyAccountId c @ ''|'' @ cb_mint c) (pf_custody f),
          pj_settlementAvailable = pf_settlementAvailable f, pj_gasReserve = pf_gasReserve f,
          pj_exposure = exposure, pj_exposureUsd = pf_exposureUsd f, pj_signerDependent = dependent,
          pj_sleeves = sleeves, pj_openLots = sort_key ol_lotId (pf_openLots f),
          pj_drawdown = \<lparr>ds_daily = drawdown_from (pf_dayStartEquity f) (pf_equity f),
            ds_rolling = drawdown_from (pf_rollingHighEquity f) (pf_equity f), ds_breaker = pf_breaker f,
            ds_losses = pf_consecutiveLosses f\<rparr>,
          pj_cohortCapacity = cohort_capacity f exposures, pj_clusterCapacity = cluster_capacity f exposures,
          pj_eligibility = sort_key es_assetId (pf_eligibility f),
          pj_freshness = sort_key fs_dataClass (pf_freshness f),
          pj_capital = \<lparr>ceilingUsd = pf_ceilingUsd f, recognizedUsd = default (Fin 0) (pf_recognizedUsd f),
            reattestRequired = (case pf_recognizedUsd f of None \<Rightarrow> False | Some r \<Rightarrow> nlt (pf_ceilingUsd f) r)\<rparr>\<rparr>)))))"

definition signProjection ::
  "crypto \<Rightarrow> RiskStateProjection \<Rightarrow> SigningKeyPair \<Rightarrow> instant \<Rightarrow> type_error + RiskStateProjection SignedEnvelope" where
  "signProjection cr p key t = signPayload cr (projection_json cr) p key t"

record FreshnessRequirement =
  fr_dataClass :: string
  fr_freshMaxAgeMs :: int

text \<open>\<open>providerFor\<close> may answer \<open>null\<close> or the empty string, both without a provider.\<close>

definition freshnessSummaryFrom ::
  "(string \<times> instant option) list \<Rightarrow> FreshnessRequirement list \<Rightarrow> (string \<Rightarrow> string option) \<Rightarrow> instant \<Rightarrow> FreshnessSummaryEntry list" where
  "freshnessSummaryFrom feeds reqs providerFor now = map (\<lambda>r.
     let seen = (case providerFor (fr_dataClass r) of None \<Rightarrow> None
           | Some pr \<Rightarrow> if pr = [] then None else default None (map_of (rev feeds) pr));
         age = map_option (\<lambda>t. max 0 (now - t)) seen
     in \<lparr>fs_dataClass = fr_dataClass r, fs_ageMs = age,
         fs_fresh = (case age of None \<Rightarrow> False | Some a \<Rightarrow> a \<le> fr_freshMaxAgeMs r)\<rparr>) reqs"

section \<open>Verification by the authorizer\<close>

record IndependentChainReads =
  ir_slot :: slot
  ir_settlement :: amount
  ir_gas :: amount
  ir_custody :: "CustodyBalance list"

record ProjectionVerifyInput =
  pv_envelope :: "RiskStateProjection SignedEnvelope"
  pv_acceptedKeys :: "VerificationKey list"
  pv_lastSequence :: "int option"
  pv_now :: instant
  pv_maxAgeMs :: int
  pv_releaseId :: uuid
  pv_releaseDigest :: sha256_hex
  pv_policyVersion :: version_id
  pv_chain :: "IndependentChainReads option"
  pv_balanceBps :: int
  pv_maxSlotLag :: int

definition withinAbove :: "amount \<Rightarrow> amount \<Rightarrow> int \<Rightarrow> bool" where
  "withinAbove projected onchain bps \<longleftrightarrow>
     amountToBigInt projected \<le> amountToBigInt onchain + (amountToBigInt onchain * bps) sdiv 10000"

type_synonym finding = "string list \<times> string list"

definition finding_if :: "bool \<Rightarrow> string \<Rightarrow> string list \<Rightarrow> finding" where
  "finding_if b r d = (if b then ([r], d) else ([], []))"

definition custody_key :: "CustodyBalance \<Rightarrow> string" where
  "custody_key c = cb_custodyAccountId c @ ''|'' @ cb_mint c"

text \<open>What the chain holds under a custody key: the last read with the key.\<close>

definition custody_on_chain :: "IndependentChainReads \<Rightarrow> CustodyBalance \<Rightarrow> amount option" where
  "custody_on_chain c x = map_option cb_amount (find_last (\<lambda>y. custody_key y = custody_key x) (ir_custody c))"

definition custody_agrees :: "IndependentChainReads \<Rightarrow> int \<Rightarrow> CustodyBalance \<Rightarrow> bool" where
  "custody_agrees c bps x \<longleftrightarrow> (case custody_on_chain c x of None \<Rightarrow> False | Some a \<Rightarrow> withinAbove (cb_amount x) a bps)"

definition custody_detail :: "IndependentChainReads \<Rightarrow> CustodyBalance \<Rightarrow> string" where
  "custody_detail c x = ''custody '' @ cb_custodyAccountId x @ '' '' @ cb_mint x @ '': projected '' @ show_int (cb_amount x) @
     '', chain '' @ (case custody_on_chain c x of None \<Rightarrow> ''absent'' | Some a \<Rightarrow> show_int a)"

definition chain_findings :: "ProjectionVerifyInput \<Rightarrow> RiskStateProjection \<Rightarrow> IndependentChainReads \<Rightarrow> finding list" where
  "chain_findings i p c = (let bps = pv_balanceBps i in
     [finding_if (\<not> withinAbove (pj_settlementAvailable p) (ir_settlement c) bps) ''CHAIN_SETTLEMENT_DISAGREES''
        [''projected settlement '' @ show_int (pj_settlementAvailable p) @ '' > chain '' @ show_int (ir_settlement c)],
      finding_if (\<not> withinAbove (pj_gasReserve p) (ir_gas c) bps) ''CHAIN_GAS_DISAGREES''
        [''projected gas '' @ show_int (pj_gasReserve p) @ '' > chain '' @ show_int (ir_gas c)],
      (case find (\<lambda>x. \<not> custody_agrees c bps x) (pj_custody p) of None \<Rightarrow> ([], [])
         | Some x \<Rightarrow> ([''CHAIN_CUSTODY_DISAGREES''], [custody_detail c x])),
      finding_if (ir_slot c - pj_chainSlot p > pv_maxSlotLag i) ''CHAIN_SLOT_BEHIND''
        [''projection slot '' @ show_int (pj_chainSlot p) @ '' lags chain '' @ show_int (ir_slot c) @ '' by more than '' @
         show_int (pv_maxSlotLag i)]])"

definition projection_findings :: "crypto \<Rightarrow> ProjectionVerifyInput \<Rightarrow> RiskStateProjection \<Rightarrow> finding list" where
  "projection_findings cr i p = (let age = pv_now i - pj_asOf p in
     [(case pv_lastSequence i of None \<Rightarrow> ([], [])
        | Some n \<Rightarrow> finding_if (pj_sequence p < n) ''PROJECTION_SEQUENCE_ROLLBACK''
            [''sequence '' @ show_int (pj_sequence p) @ '' < '' @ show_int n]),
      finding_if (age > pv_maxAgeMs i) ''PROJECTION_STALE''
        [''age '' @ show_int age @ ''ms > '' @ show_int (pv_maxAgeMs i) @ ''ms''],
      finding_if (age < - pv_maxSlotLag i * 400) ''PROJECTION_FUTURE_DATED''
        [''asOf '' @ iso cr (pj_asOf p) @ '' is ahead of now '' @ iso cr (pv_now i)],
      finding_if (pj_releaseId p \<noteq> pv_releaseId i \<or> pj_releaseDigest p \<noteq> pv_releaseDigest i) ''PROJECTION_RELEASE_MISMATCH'' [],
      finding_if (pj_policyVersion p \<noteq> pv_policyVersion i) ''PROJECTION_POLICY_MISMATCH'' []] @
     (case pv_chain i of None \<Rightarrow> [] | Some c \<Rightarrow> chain_findings i p c))"

definition verify_failure_text :: "VerifyFailure \<Rightarrow> string" where
  "verify_failure_text f = (case f of UNKNOWN_KEY \<Rightarrow> ''UNKNOWN_KEY'' | PAYLOAD_HASH_MISMATCH \<Rightarrow> ''PAYLOAD_HASH_MISMATCH''
     | BAD_SIGNATURE \<Rightarrow> ''BAD_SIGNATURE'' | MALFORMED_ENVELOPE \<Rightarrow> ''MALFORMED_ENVELOPE'')"

definition verifyProjection ::
  "crypto \<Rightarrow> ProjectionVerifyInput \<Rightarrow> finding + (RiskStateProjection \<times> int \<times> sha256_hex)" where
  "verifyProjection cr i = (case verifySignedEnvelope cr (projection_json cr) (pv_envelope i) (pv_acceptedKeys i) of
       Inl e \<Rightarrow> Inl ([''PROJECTION_SIGNATURE_INVALID''], [verify_failure_text e])
     | Inr _ \<Rightarrow> let p = payload (pv_envelope i);
           fs = projection_findings cr i p;
           reasons = concat (map fst fs)
         in if reasons \<noteq> [] then Inl (reasons, concat (map snd fs))
            else Inr (p, pj_sequence p, payloadHash (pv_envelope i)))"

section \<open>What a projection promises\<close>

lemma finding_if_Nil [simp]: "fst (finding_if b r d) = [] \<longleftrightarrow> \<not> b"
  by (simp add: finding_if_def)

lemma find_None_all: "find P xs = None \<longleftrightarrow> (\<forall>x \<in> set xs. \<not> P x)"
  by (auto simp: find_None_iff)

text \<open>The chain holds at least what the projection claims, up to the tolerance, and is not far ahead.\<close>

definition backed_by_chain :: "RiskStateProjection \<Rightarrow> int \<Rightarrow> int \<Rightarrow> IndependentChainReads \<Rightarrow> bool" where
  "backed_by_chain p bps lag c \<longleftrightarrow> withinAbove (pj_settlementAvailable p) (ir_settlement c) bps \<and>
     withinAbove (pj_gasReserve p) (ir_gas c) bps \<and> list_all (custody_agrees c bps) (pj_custody p) \<and>
     ir_slot c - pj_chainSlot p \<le> lag"

lemma chain_findings_Nil: "(\<forall>f \<in> set (chain_findings i p c). fst f = []) \<longleftrightarrow>
    backed_by_chain p (pv_balanceBps i) (pv_maxSlotLag i) c"
  by (auto simp: chain_findings_def Let_def backed_by_chain_def find_None_all list_all_iff not_less split: option.split
      dest: find_Some_in)

lemma verifyProjection_ok: "verifyProjection cr i = Inr (p, n, h) \<longleftrightarrow>
    p = payload (pv_envelope i) \<and> n = pj_sequence p \<and> h = payloadHash (pv_envelope i) \<and>
    (\<exists>k. verifySignedEnvelope cr (projection_json cr) (pv_envelope i) (pv_acceptedKeys i) = Inr k) \<and>
    (\<forall>m. pv_lastSequence i = Some m \<longrightarrow> m \<le> pj_sequence p) \<and>
    pv_now i - pj_asOf p \<le> pv_maxAgeMs i \<and> - pv_maxSlotLag i * 400 \<le> pv_now i - pj_asOf p \<and>
    pj_releaseId p = pv_releaseId i \<and> pj_releaseDigest p = pv_releaseDigest i \<and>
    pj_policyVersion p = pv_policyVersion i \<and>
    (\<forall>c. pv_chain i = Some c \<longrightarrow> backed_by_chain p (pv_balanceBps i) (pv_maxSlotLag i) c)"
proof -
  have "concat (map fst (projection_findings cr i q)) = [] \<longleftrightarrow>
      (\<forall>m. pv_lastSequence i = Some m \<longrightarrow> m \<le> pj_sequence q) \<and>
      pv_now i - pj_asOf q \<le> pv_maxAgeMs i \<and> - pv_maxSlotLag i * 400 \<le> pv_now i - pj_asOf q \<and>
      pj_releaseId q = pv_releaseId i \<and> pj_releaseDigest q = pv_releaseDigest i \<and>
      pj_policyVersion q = pv_policyVersion i \<and>
      (\<forall>c. pv_chain i = Some c \<longrightarrow> backed_by_chain q (pv_balanceBps i) (pv_maxSlotLag i) c)" for q
    unfolding projection_findings_def Let_def
    by (cases "pv_lastSequence i"; cases "pv_chain i") (auto simp: chain_findings_Nil not_less)
  note Nil = this [of "payload (pv_envelope i)"]
  show ?thesis
    by (cases "verifySignedEnvelope cr (projection_json cr) (pv_envelope i) (pv_acceptedKeys i)")
      (simp_all only: verifyProjection_def Let_def sum.case Nil
         split: if_split, auto)
qed

lemma lots_cost_sum: "lots_cost ls = (\<Sum>l\<leftarrow>ls. ol_costBasis l)"
proof -
  have "foldl (\<lambda>acc l. acc + amountToBigInt (ol_costBasis l)) a ls = a + (\<Sum>l\<leftarrow>ls. ol_costBasis l)" for a
    by (induction ls arbitrary: a) simp_all
  from this [of 0] show ?thesis by (simp add: lots_cost_def)
qed

text \<open>
  A built projection counts every open lot and everything pending as exposure, and what depends on
  our own signer is a part of it.
\<close>

lemma built_exposure:
  assumes "buildRiskStateProjection f = Inr p" and "0 \<le> pf_pendingExposure f" and "list_all (\<lambda>l. 0 \<le> ol_costBasis l) (pf_openLots f)"
  shows "pj_exposure p = (\<Sum>l\<leftarrow>pf_openLots f. ol_costBasis l) + pf_pendingExposure f \<and>
    pj_signerDependent p = (\<Sum>l\<leftarrow>filter signer_dependent (pf_openLots f). ol_costBasis l) \<and>
    pj_signerDependent p \<le> pj_exposure p \<and> mset (pj_openLots p) = mset (pf_openLots f)"
proof -
  have le: "(\<Sum>l\<leftarrow>filter P ls. ol_costBasis l) \<le> (\<Sum>l\<leftarrow>ls. ol_costBasis l)" if "list_all (\<lambda>l. 0 \<le> ol_costBasis l) ls" for P ls
    using that by (induction ls) auto
  from assms(1) have "pj_exposure p = lots_cost (pf_openLots f) + pf_pendingExposure f"
    "pj_signerDependent p = lots_cost (filter signer_dependent (pf_openLots f))" "pj_openLots p = sort_key ol_lotId (pf_openLots f)"
    by (auto simp: buildRiskStateProjection_def Let_def addAmounts_def bigIntToAmount_def split: if_splits)
  with le [OF assms(3), of signer_dependent] assms(2) show ?thesis by (simp add: lots_cost_sum)
qed

end
