(* ===== verification/Authorizer.thy ===== *)
theory Authorizer imports AuthLedger Projection Releases begin

text \<open>
  The risk authorizer: the function that turns a cleared action cycle into a signed authorization
  or a typed denial (\<open>apps/risk-authorizer/src/authorize/authorize.ts\<close>) and the service around it
  (\<open>apps/risk-authorizer/src/service/authorizer.ts\<close>). Every step is in the order of the code; an
  exception of canonicalization or of amount arithmetic is the left result. Rows and reads the
  service loads come from the parameter \<open>sources\<close>; fresh identifiers are arguments.
\<close>

section \<open>Records of the decision\<close>

datatype ActionCycleState =
    TRIGGERED | CONTEXT_BUILT | PROPOSED | REVISION_REQUESTED | CLEARED | REJECTED | EXPIRED | UNRESOLVED

record EvidenceCutoff =
  ec_version :: int
  ec_at :: instant
  ec_consumedByRunIds :: "uuid list"

text \<open>The fields of a cycle the authorizer reads; the others are carried along by the agents only.\<close>

record ActionCycle =
  cy_id :: uuid
  cy_candidateId :: "uuid option"
  cy_strategyVersionId :: version_id
  cy_proposedAction :: "TradingActionType option"
  cy_proposalId :: "uuid option"
  cy_verdict :: "AdversaryVerdict option"
  cy_state :: ActionCycleState
  cy_cutoffs :: "EvidenceCutoff list"
  cy_clearedCutoffVersion :: "int option"
  cy_clearedAudit :: "(int \<times> sha256_hex) option"

text \<open>The agent's typed output: two fields are read, the whole of it is hashed.\<close>

record TradingActionProposal =
  tp_actionType :: TradingActionType
  tp_candidateId :: "uuid option"
  tp_other :: "(string \<times> json) list"

record Proposal =
  pr_id :: uuid
  pr_actionCycleId :: uuid
  pr_strategyVersionId :: version_id
  pr_proposal :: TradingActionProposal
  pr_expiresAt :: instant

record ClearedTransitionSummary =
  ct_cycleId :: uuid
  ct_proposalId :: uuid
  ct_proposalHash :: sha256_hex
  ct_cutoffVersion :: int
  ct_verdict :: string
  ct_strategyVersionId :: version_id
  ct_releaseDigest :: "sha256_hex option"

record AuthorizationDenial =
  dn_intentId :: "uuid option"
  dn_actionCycleId :: uuid
  dn_deniedAt :: instant
  dn_reasonCodes :: "string list"
  dn_detail :: "string option"

datatype MintAuthorityState = NO_AUTHORITY | AUTHORITY_PRESENT | AUTHORITY_UNKNOWN

record MintHardState =
  mh_isInitialized :: bool
  mh_mintAuthority :: MintAuthorityState
  mh_freezeAuthority :: MintAuthorityState
  mh_readSlot :: int

record AuditEvent =
  ae_sequence :: int
  ae_hash :: sha256_hex
  ae_actionClass :: string
  ae_entityId :: uuid
  ae_summary :: "ClearedTransitionSummary option"

text \<open>The standing of the audit chain: the checkpoint's sequence, or a reason with a detail.\<close>

record ClearanceAuditEvidence =
  au_event :: "AuditEvent option"
  au_chain :: "(string \<times> string option) + int"

datatype TokenProgram = TOKEN | TOKEN_2022 | TOKEN_PROGRAM_UNKNOWN

record AuthAsset =
  as_id :: uuid
  as_mint :: mint_address
  as_decimals :: nat
  as_tokenProgram :: TokenProgram
  as_settlementRouteConfirmed :: bool

record AuthQuote =
  aq_ageMs :: int
  aq_impactBps :: "int option"
  aq_slippageBps :: int
  aq_priceUsd :: jsnum
  aq_atrPct :: "jsnum option"
  aq_liquidityUsd :: "jsnum option"

record AuthAccount =
  ac_id :: uuid
  ac_cluster :: string
  ac_capitalAuthority :: CapitalAuthority
  ac_settlementDecimals :: nat

record AuthConfig =
  cf_projectionMaxAgeMs :: int
  cf_intentExpiryMs :: int
  cf_balanceToleranceBps :: int
  cf_maxSlotLag :: int

text \<open>
  The input; \<open>newIntentId\<close> is called for the evaluation and then for the intent, \<open>newNonce\<close> once,
  and the identifiers they answer are the last three fields.
\<close>

record AuthorizeEntryInput =
  ai_now :: instant
  ai_cycle :: ActionCycle
  ai_proposal :: Proposal
  ai_asset :: AuthAsset
  ai_quote :: "AuthQuote option"
  ai_release :: Release
  ai_attestation :: "ReleaseAttestation option"
  ai_projection :: "RiskStateProjection SignedEnvelope"
  ai_chain :: "IndependentChainReads option"
  ai_mint :: "MintHardState option"
  ai_sessionAllowsEntries :: bool
  ai_emergencyRoute :: "EmergencyRouteVerdict option"
  ai_audit :: ClearanceAuditEvidence
  ai_account :: AuthAccount
  ai_policy :: RiskPolicy
  ai_signingKey :: SigningKeyPair
  ai_projectionKeys :: "VerificationKey list"
  ai_trustedFingerprints :: "sha256_hex list"
  ai_lastProjectionSequence :: "int option"
  ai_config :: AuthConfig
  ai_evaluationId :: uuid
  ai_newIntentId :: uuid
  ai_newNonce :: nonce

section \<open>Texts and canonical values\<close>

definition trading_action_text :: "TradingActionType \<Rightarrow> string" where
  "trading_action_text a = (case a of TradingActionType.ENTER \<Rightarrow> ''ENTER'' | TradingActionType.IGNORE \<Rightarrow> ''IGNORE'' | TradingActionType.HOLD \<Rightarrow> ''HOLD''
     | TradingActionType.REDUCE \<Rightarrow> ''REDUCE'' | TradingActionType.EXIT \<Rightarrow> ''EXIT'' | ADJUST_PROTECTION \<Rightarrow> ''ADJUST_PROTECTION''
     | TradingActionType.ADD \<Rightarrow> ''ADD'')"

definition verdict_text :: "AdversaryVerdict \<Rightarrow> string" where
  "verdict_text v = (case v of CONFIRM \<Rightarrow> ''CONFIRM'' | CHALLENGE \<Rightarrow> ''CHALLENGE'' | REJECT \<Rightarrow> ''REJECT'')"

definition cycle_state_text :: "ActionCycleState \<Rightarrow> string" where
  "cycle_state_text s = (case s of TRIGGERED \<Rightarrow> ''TRIGGERED'' | CONTEXT_BUILT \<Rightarrow> ''CONTEXT_BUILT'' | PROPOSED \<Rightarrow> ''PROPOSED''
     | REVISION_REQUESTED \<Rightarrow> ''REVISION_REQUESTED'' | CLEARED \<Rightarrow> ''CLEARED'' | REJECTED \<Rightarrow> ''REJECTED''
     | EXPIRED \<Rightarrow> ''EXPIRED'' | UNRESOLVED \<Rightarrow> ''UNRESOLVED'')"

definition proposal_json :: "TradingActionProposal \<Rightarrow> json" where
  "proposal_json p = JObj ([(''actionType'', JStr (trading_action_text (tp_actionType p))),
     (''candidateId'', opt_json JStr (tp_candidateId p))] @ tp_other p)"

definition stop_model_text :: "StopModel \<Rightarrow> string" where
  "stop_model_text m = (case m of ATR \<Rightarrow> ''ATR'' | STRUCTURE_LOW \<Rightarrow> ''STRUCTURE_LOW'' | PERCENTAGE \<Rightarrow> ''PERCENTAGE''
     | STRATEGY_INVALIDATION \<Rightarrow> ''STRATEGY_INVALIDATION'')"

definition take_profit_text :: "TakeProfitPolicy \<Rightarrow> string" where
  "take_profit_text t = (case t of FIXED_R \<Rightarrow> ''FIXED_R'' | PARTIAL_TIERS \<Rightarrow> ''PARTIAL_TIERS''
     | TRAILING_AFTER_THRESHOLD \<Rightarrow> ''TRAILING_AFTER_THRESHOLD'' | VOLATILITY_TRAIL \<Rightarrow> ''VOLATILITY_TRAIL''
     | MOMENTUM_DECAY \<Rightarrow> ''MOMENTUM_DECAY'' | TIME_STOP \<Rightarrow> ''TIME_STOP'')"

definition policy_json :: "RiskPolicy \<Rightarrow> json" where
  "policy_json p = JObj
     [(''version'', JStr (rp_version p)), (''maxTotalExposureFraction'', JNum (maxTotalExposureFraction p)),
      (''minSettlementReserveBaseUnits'', jamount (minSettlementReserveBaseUnits p)),
      (''minGasReserveLamports'', jamount (minGasReserveLamports p)), (''maxOpenPositions'', jint (maxOpenPositions p)),
      (''maxExposurePerTokenFraction'', JNum (maxExposurePerTokenFraction p)),
      (''maxCohortExposureFraction'', JNum (maxCohortExposureFraction p)),
      (''maxClusterExposureFraction'', JNum (maxClusterExposureFraction p)),
      (''requireCohortCapacity'', JBool (requireCohortCapacity p)),
      (''maxDailyDrawdownFraction'', JNum (maxDailyDrawdownFraction p)),
      (''maxRollingDrawdownFraction'', JNum (maxRollingDrawdownFraction p)),
      (''maxConsecutiveLosses'', jint (maxConsecutiveLosses p)),
      (''cooldownAfterBreakerMs'', jint (cooldownAfterBreakerMs p)),
      (''maxInFlightExposureIncreasing'', jint (maxInFlightExposureIncreasing p)),
      (''riskPerTradeFraction'', JNum (riskPerTradeFraction p)),
      (''maxPositionValueBaseUnits'', jamount (maxPositionValueBaseUnits p)),
      (''liquidityCapFraction'', JNum (liquidityCapFraction p)), (''maxImpactBps'', jint (rp_maxImpactBps p)),
      (''maxSlippageBps'', jint (rp_maxSlippageBps p)), (''chaseToleranceBps'', jint (rp_chaseToleranceBps p)),
      (''maxQuoteAgeMs'', jint (rp_maxQuoteAgeMs p)), (''minRewardToRiskRatio'', JNum (minRewardToRiskRatio p)),
      (''maxClockDriftMs'', jint (maxClockDriftMs p)), (''maxExecutionAnomalies'', jint (maxExecutionAnomalies p)),
      (''stop'', JObj [(''model'', JStr (stop_model_text (stop_model (stop_rule p)))),
         (''atrMultiple'', JNum (atrMultiple (stop_rule p))), (''maxStopFraction'', JNum (maxStopFraction (stop_rule p)))]),
      (''takeProfit'', JObj [(''policy'', JStr (take_profit_text (tp_policy (takeProfit p)))),
         (''targetRMultiple'', JNum (targetRMultiple (takeProfit p))),
         (''trailAfterRMultiple'', JNum (trailAfterRMultiple (takeProfit p))),
         (''trailFraction'', JNum (trailFraction (takeProfit p))), (''maxHoldMs'', jint (maxHoldMs (takeProfit p)))])]"

definition or_none :: "('a \<Rightarrow> string) \<Rightarrow> 'a option \<Rightarrow> string" where
  "or_none f x = (case x of None \<Rightarrow> ''none'' | Some a \<Rightarrow> f a)"

section \<open>The steps, each a list of refusals in order\<close>

type_synonym refusal = "string list \<times> string option"

text \<open>A guard of the code: \<open>if (condition) return deny(codes, detail)\<close>; the first one that holds denies.\<close>

type_synonym guard = "bool \<times> refusal"

definition first_refusal :: "guard list \<Rightarrow> refusal option" where
  "first_refusal gs = map_option snd (find fst gs)"

definition deny_if :: "bool \<Rightarrow> string \<Rightarrow> guard" where
  "deny_if b code = (b, [code], None)"

definition deny_with :: "bool \<Rightarrow> string \<Rightarrow> string \<Rightarrow> guard" where
  "deny_with b code d = (b, [code], Some d)"

definition release_guards :: "AuthorizeEntryInput \<Rightarrow> guard list" where
  "release_guards i = (let b = rel_binding (ai_release i); c = ai_cycle i in
     [deny_with (rb_strategyVersionId b \<noteq> cy_strategyVersionId c \<or> rb_riskPolicyVersion b \<noteq> rp_version (ai_policy i))
        ''RELEASE_BINDING_MISMATCH''
        (''release binds '' @ rb_strategyVersionId b @ ''/'' @ rb_riskPolicyVersion b @ '', cycle '' @
         cy_strategyVersionId c @ '', policy '' @ rp_version (ai_policy i)),
      deny_if (is_live (ac_capitalAuthority (ai_account i)) \<and> ai_chain i = None) ''CHAIN_READS_REQUIRED''])"

definition latest_cutoff :: "ActionCycle \<Rightarrow> int" where
  "latest_cutoff c = foldl (\<lambda>m k. max m (ec_version k)) 0 (cy_cutoffs c)"

definition is_entry_action :: "TradingActionType option \<Rightarrow> bool" where
  "is_entry_action a \<longleftrightarrow> a = Some TradingActionType.ENTER \<or> a = Some TradingActionType.ADD"

definition cycle_guards :: "AuthorizeEntryInput \<Rightarrow> AuthorizationLedger \<Rightarrow> guard list" where
  "cycle_guards i l = (let c = ai_cycle i; p = ai_proposal i in
     [deny_with (cy_state c \<noteq> CLEARED \<or> cy_verdict c \<noteq> Some CONFIRM) ''CYCLE_NOT_CLEARED''
        (''state '' @ cycle_state_text (cy_state c) @ '', verdict '' @ or_none verdict_text (cy_verdict c)),
      deny_with (cy_clearedCutoffVersion c \<noteq> Some (latest_cutoff c)) ''CYCLE_CUTOFF_STALE''
        (''cleared at '' @ or_none show_int (cy_clearedCutoffVersion c) @ '', latest '' @ show_int (latest_cutoff c)),
      deny_with (\<not> is_entry_action (cy_proposedAction c)) ''CYCLE_ACTION_NOT_ENTRY''
        (''proposed '' @ or_none trading_action_text (cy_proposedAction c)),
      deny_if (cy_proposalId c \<noteq> Some (pr_id p) \<or> pr_actionCycleId p \<noteq> cy_id c \<or>
          Some (tp_actionType (pr_proposal p)) \<noteq> cy_proposedAction c \<or> pr_strategyVersionId p \<noteq> cy_strategyVersionId c)
        ''PROPOSAL_CYCLE_MISMATCH'',
      deny_if (tp_candidateId (pr_proposal p) \<noteq> cy_candidateId c) ''PROPOSAL_TARGET_MISMATCH'',
      deny_if (pr_expiresAt p \<le> ai_now i) ''PROPOSAL_EXPIRED'',
      deny_with (nonceForCycle l (cy_id c) \<noteq> None) ''CYCLE_ALREADY_AUTHORIZED''
        (''nonce '' @ default [] (nonceForCycle l (cy_id c)))])"

definition audit_event_guards :: "AuthorizeEntryInput \<Rightarrow> guard list" where
  "audit_event_guards i = (let c = ai_cycle i in case cy_clearedAudit c of
       None \<Rightarrow> [deny_if True ''AUDIT_CLEARANCE_MISSING'']
     | Some (n, h) \<Rightarrow> (case au_event (ai_audit i) of
           None \<Rightarrow> [deny_with True ''AUDIT_EVENT_MISSING'' (''sequence '' @ show_int n)]
         | Some ev \<Rightarrow>
             [deny_with (ae_sequence ev \<noteq> n) ''AUDIT_EVENT_MISSING'' (''sequence '' @ show_int n),
              deny_with (ae_hash ev \<noteq> h) ''AUDIT_EVENT_HASH_MISMATCH'' (''sequence '' @ show_int n),
              deny_with (ae_actionClass ev \<noteq> ''ACTION_CYCLE_CLEARED'' \<or> ae_entityId ev \<noteq> cy_id c \<or> ae_summary ev = None)
                ''AUDIT_EVENT_MISMATCH'' (ae_actionClass ev @ '' on '' @ ae_entityId ev)]))"

definition cleared_summary :: "AuthorizeEntryInput \<Rightarrow> ClearedTransitionSummary option" where
  "cleared_summary i = (case au_event (ai_audit i) of None \<Rightarrow> None | Some ev \<Rightarrow> ae_summary ev)"

definition tampered_clearance :: "AuthorizeEntryInput \<Rightarrow> sha256_hex \<Rightarrow> ClearedTransitionSummary \<Rightarrow> string list" where
  "tampered_clearance i proposalHash s = (let c = ai_cycle i in
     reason_if (ct_cycleId s \<noteq> cy_id c) ''cycleId'' @
     reason_if (ct_proposalId s \<noteq> pr_id (ai_proposal i)) ''proposalId'' @
     reason_if (ct_proposalHash s \<noteq> proposalHash) ''proposalHash'' @
     reason_if (Some (ct_cutoffVersion s) \<noteq> cy_clearedCutoffVersion c) ''cutoffVersion'' @
     reason_if (Some (ct_verdict s) \<noteq> map_option verdict_text (cy_verdict c)) ''verdict'' @
     reason_if (ct_strategyVersionId s \<noteq> cy_strategyVersionId c) ''strategyVersionId'' @
     reason_if (ct_releaseDigest s \<noteq> Some (rel_digest (ai_release i))) ''releaseDigest'')"

definition provenance_guards :: "AuthorizeEntryInput \<Rightarrow> RiskStateProjection \<Rightarrow> sha256_hex \<Rightarrow> guard list" where
  "provenance_guards i p proposalHash = (let tampered = (case cleared_summary i of None \<Rightarrow> []
         | Some s \<Rightarrow> tampered_clearance i proposalHash s);
       ref = default 0 (map_option fst (cy_clearedAudit (ai_cycle i))) in
     [deny_with (tampered \<noteq> []) ''AUDIT_CLEARANCE_TAMPERED'' (join '','' tampered),
      deny_with (case pj_auditHead p of None \<Rightarrow> True | Some (n, _) \<Rightarrow> n < ref) ''AUDIT_HEAD_BEHIND_CLEARANCE''
        (''projection head '' @ or_none show_int (map_option fst (pj_auditHead p)) @ '', clearance '' @ show_int ref),
      (case au_chain (ai_audit i) of Inl (r, d) \<Rightarrow> (True, [''AUDIT_CHAIN_'' @ r], d) | Inr _ \<Rightarrow> (False, [], None))])"

definition mint_guards :: "MintHardState option \<Rightarrow> guard list" where
  "mint_guards mh = (case mh of None \<Rightarrow> [deny_if True ''CHAIN_MINT_READ_REQUIRED'']
     | Some m \<Rightarrow>
         [deny_if (\<not> mh_isInitialized m) ''CHAIN_MINT_NOT_INITIALIZED'',
          deny_if (mh_mintAuthority m \<noteq> NO_AUTHORITY)
            (if mh_mintAuthority m = AUTHORITY_PRESENT then ''CHAIN_MINT_AUTHORITY_PRESENT'' else ''CHAIN_MINT_AUTHORITY_UNKNOWN''),
          deny_if (mh_freezeAuthority m \<noteq> NO_AUTHORITY)
            (if mh_freezeAuthority m = AUTHORITY_PRESENT then ''CHAIN_FREEZE_AUTHORITY_PRESENT''
             else ''CHAIN_FREEZE_AUTHORITY_UNKNOWN'')])"

definition readiness_text :: "EmergencyRouteReadiness \<Rightarrow> string" where
  "readiness_text r = (case r of READY \<Rightarrow> ''READY'' | STALE \<Rightarrow> ''STALE'' | FAILED \<Rightarrow> ''FAILED''
     | UNSUPPORTED \<Rightarrow> ''UNSUPPORTED'' | MISSING \<Rightarrow> ''MISSING'')"

definition capital_guards :: "AuthorizeEntryInput \<Rightarrow> RiskStateProjection \<Rightarrow> guard list" where
  "capital_guards i p =
     (if is_live (ac_capitalAuthority (ai_account i))
      then (case capitalAttestationVerdict (pj_capital p) of None \<Rightarrow> [] | Some r \<Rightarrow> [deny_if True r]) @ mint_guards (ai_mint i)
      else []) @
     (if ac_capitalAuthority (ai_account i) = LIVE_AUTO
      then (case ai_emergencyRoute i of None \<Rightarrow> [deny_if True ''EMERGENCY_ROUTE_UNKNOWN'']
        | Some er \<Rightarrow> [deny_with (\<not> emergencyRoutePermitsEntry er LIVE_AUTO) ''EMERGENCY_ROUTE_NOT_READY''
            (readiness_text (readiness er) @ (case er_reason er of None \<Rightarrow> [] | Some r \<Rightarrow> if r = [] then [] else '': '' @ r))])
      else [])"

section \<open>Evaluation from the verified projection\<close>

definition asset_eligibility :: "AuthorizeEntryInput \<Rightarrow> RiskStateProjection \<Rightarrow> EligibilitySummaryEntry option" where
  "asset_eligibility i p = find (\<lambda>e. es_assetId e = as_id (ai_asset i)) (pj_eligibility p)"

definition cycle_sleeve :: "AuthorizeEntryInput \<Rightarrow> RiskStateProjection \<Rightarrow> SleeveUsage option" where
  "cycle_sleeve i p = find (\<lambda>s. slv_strategyVersionId s = cy_strategyVersionId (ai_cycle i)) (pj_sleeves p)"

text \<open>\<open>sumAmounts\<close> adds without the range check of \<open>addAmounts\<close>.\<close>

definition asset_exposure :: "AuthorizeEntryInput \<Rightarrow> RiskStateProjection \<Rightarrow> amount" where
  "asset_exposure i p = foldl (\<lambda>acc l. acc + ol_costBasis l) 0 (filter (\<lambda>l. ol_assetId l = as_id (ai_asset i)) (pj_openLots p))"

definition MAX_SAFE_INTEGER :: int where
  "MAX_SAFE_INTEGER = 9007199254740991"

definition authorizer_health :: "AuthorizeEntryInput \<Rightarrow> RiskStateProjection \<Rightarrow> Health" where
  "authorizer_health i p = \<lparr>feedsBlockEntries = list_ex (\<lambda>f. \<not> fs_fresh f) (pj_freshness p),
     staleDataClasses = map (\<lambda>f. \<lparr>sc_dataClass = fs_dataClass f, sc_ageMs = fs_ageMs f,
       sc_limitMs = (if fs_fresh f then MAX_SAFE_INTEGER else 0)\<rparr>) (pj_freshness p),
     reconciliationClean = True, dbAvailable = True, executionAnomalies = 0, providerAuthFailure = False, clockDriftMs = 0,
     operatorKill = False, sessionAllowsEntries = ai_sessionAllowsEntries i\<rparr>"

definition group_usage :: "CapacityEntry list \<Rightarrow> GroupUsage option" where
  "group_usage cs = (case cs of [] \<Rightarrow> None | c # _ \<Rightarrow> Some \<lparr>group_id = ce_id c, usedFraction = ce_usedFraction c\<rparr>)"

definition portfolio_sleeve :: "SleeveUsage \<Rightarrow> arith_error + PortfolioSleeve" where
  "portfolio_sleeve s = ebind (headroom (slv_cap s) (slv_committed s)) (\<lambda>left.
     Inr \<lparr>ps_id = slv_sleeveId s, ps_active = True, ps_capRemaining = left, ps_riskRemaining = slv_riskRemaining s\<rparr>)"

definition optional_sleeve :: "SleeveUsage option \<Rightarrow> arith_error + PortfolioSleeve option" where
  "optional_sleeve s = (case s of None \<Rightarrow> Inr None | Some u \<Rightarrow> ebind (portfolio_sleeve u) (\<lambda>x. Inr (Some x)))"

definition portfolio_state ::
  "AuthorizeEntryInput \<Rightarrow> RiskStateProjection \<Rightarrow> AuthorizationLedger \<Rightarrow> arith_error + PortfolioState" where
  "portfolio_state i p l =
     ebind (pendingExposure l (ai_now i) None) (\<lambda>pending.
     ebind (optional_sleeve (cycle_sleeve i p)) (\<lambda>sl.
       Inr \<lparr>pf_settlementMint = pj_settlementMint p, settlementDecimals = ac_settlementDecimals (ai_account i),
         equityBaseUnits = pj_settlementAvailable p + pj_exposure p, exposureBaseUnits = pj_exposure p,
         pendingExposureBaseUnits = pending, inFlightExposureIncreasing = inFlightIncreasing l (ai_now i),
         openPositions = int (length (remdups (map ol_positionId (pj_openLots p)))),
         assetExposureBaseUnits = asset_exposure i p, settlementAvailableBaseUnits = pj_settlementAvailable p,
         gasReserveLamports = pj_gasReserve p, sleeve = sl, cohort = group_usage (pj_cohortCapacity p),
         pf_cluster = group_usage (pj_clusterCapacity p),
         drawdown = \<lparr>dailyFraction = ds_daily (pj_drawdown p), rollingFraction = ds_rolling (pj_drawdown p),
           consecutiveLosses = ds_losses (pj_drawdown p), circuitBreakerTripped = ds_breaker (pj_drawdown p),
           breakerTrippedAt = None\<rparr>,
         health = authorizer_health i p\<rparr>))"

definition entry_proposal :: "AuthorizeEntryInput \<Rightarrow> RiskStateProjection \<Rightarrow> EntryProposal" where
  "entry_proposal i p = (let q = ai_quote i; e = asset_eligibility i p in
     \<lparr>ep_id = ai_evaluationId i, ep_proposalId = pr_id (ai_proposal i), ep_actionCycleId = cy_id (ai_cycle i),
      ep_assetId = as_id (ai_asset i),
      eligibility = (case e of None \<Rightarrow> Some ''NO_ELIGIBILITY_RECORD''
        | Some r \<Rightarrow> if es_eligible r then None else Some ''NOT_ELIGIBLE''),
      eligibilityEvaluationId = map_option es_evaluationId e, proposalExpiresAt = pr_expiresAt (ai_proposal i),
      proposalPriceUsd = (case q of None \<Rightarrow> Fin 0 | Some x \<Rightarrow> aq_priceUsd x),
      ep_quote = map_option (\<lambda>x. \<lparr>eq_ageMs = aq_ageMs x, eq_impactBps = aq_impactBps x, eq_slippageBps = aq_slippageBps x,
        eq_priceUsd = aq_priceUsd x\<rparr>) q,
      ep_token2022Compatible = (as_tokenProgram (ai_asset i) = TOKEN \<or> as_settlementRouteConfirmed (ai_asset i)),
      duplicateIntent = False, liquidityUsd = (case q of None \<Rightarrow> None | Some x \<Rightarrow> aq_liquidityUsd x),
      ep_atrPct = (case q of None \<Rightarrow> None | Some x \<Rightarrow> aq_atrPct x), structureLowPriceUsd = None,
      expectedRewardFraction = None\<rparr>)"

section \<open>Authorization\<close>

datatype AuthorizeOutcome =
    AUTHORIZED "RiskAuthorizedIntent SignedEnvelope" int RiskEvaluation
  | DENIED AuthorizationDenial

datatype authorize_error = CANONICAL_ERROR type_error | ARITH_ERROR arith_error | LEDGER_ERROR ledger_error

definition canon_err :: "type_error + 'a \<Rightarrow> authorize_error + 'a" where
  "canon_err r = map_sum CANONICAL_ERROR id r"

definition arith_err :: "arith_error + 'a \<Rightarrow> authorize_error + 'a" where
  "arith_err r = map_sum ARITH_ERROR id r"

definition deny :: "AuthorizeEntryInput \<Rightarrow> refusal \<Rightarrow> AuthorizeOutcome" where
  "deny i r = DENIED \<lparr>dn_intentId = None, dn_actionCycleId = cy_id (ai_cycle i), dn_deniedAt = ai_now i,
     dn_reasonCodes = fst r, dn_detail = snd r\<rparr>"

definition entry_action :: "TradingActionType option \<Rightarrow> IntentAction" where
  "entry_action a = (if a = Some TradingActionType.ADD then IntentAction.ADD else IntentAction.ENTER)"

text \<open>The body of the authorization with an empty hash, which the hash of the unsigned members replaces.\<close>

definition authorization_body ::
  "AuthorizeEntryInput \<Rightarrow> RiskStateProjection \<Rightarrow> sha256_hex \<times> uuid \<Rightarrow> sha256_hex \<Rightarrow> sha256_hex \<Rightarrow> amount \<Rightarrow> RiskAuthorizedIntent" where
  "authorization_body i p rel projHash polHash amt = (let pol = ai_policy i; a = ai_account i in
     \<lparr>intentId = ai_newIntentId i, intentHash = [], actionCycleId = cy_id (ai_cycle i),
      clearedCutoffVersion = default 0 (cy_clearedCutoffVersion (ai_cycle i)), releaseId = rel_id (ai_release i),
      releaseDigest = fst rel, attestationId = snd rel, policyVersion = rp_version pol, policyHash = polHash,
      strategyVersionId = cy_strategyVersionId (ai_cycle i), sleeveId = map_option slv_sleeveId (cycle_sleeve i p),
      accountId = ac_id a, assetId = as_id (ai_asset i), cluster = ac_cluster a, capitalAuthority = ac_capitalAuthority a,
      action = entry_action (cy_proposedAction (ai_cycle i)), side = BUY, exposureEffect = INCREASE,
      inputMint = pj_settlementMint p, outputMint = as_mint (ai_asset i), maxInputAmount = amt,
      maxSlippageBps = rp_maxSlippageBps pol, maxPriceImpactBps = rp_maxImpactBps pol,
      chaseToleranceBps = rp_chaseToleranceBps pol, maxQuoteAgeMs = rp_maxQuoteAgeMs pol,
      allowedProtectionMode = Some MONITORED_EXIT, targetLotIds = [],
      approvalRequired = (ac_capitalAuthority a = LIVE_APPROVAL), projectionSequence = pj_sequence p,
      projectionHash = projHash, issuedAt = ai_now i,
      expiresAt = min (addMs (ai_now i) (cf_intentExpiryMs (ai_config i))) (pr_expiresAt (ai_proposal i)),
      rai_nonce = ai_newNonce i\<rparr>)"

definition issued_entry :: "AuthorizeEntryInput \<Rightarrow> RiskAuthorizedIntent \<Rightarrow> IssuedAuthorization" where
  "issued_entry i b = \<lparr>ia_nonce = rai_nonce b, ia_intentId = intentId b, ia_actionCycleId = actionCycleId b,
     ia_sleeveId = sleeveId b, ia_exposureEffect = INCREASE, ia_maxInputAmount = maxInputAmount b, ia_issuedAt = ai_now i,
     ia_expiresAt = expiresAt b, ia_consumedAt = None\<rparr>"

text \<open>Step 7: what is signed is exactly the body, hashed and then signed; the ledger is written last.\<close>

definition sign_body :: "crypto \<Rightarrow> AuthorizeEntryInput \<Rightarrow> RiskAuthorizedIntent \<Rightarrow> type_error + RiskAuthorizedIntent SignedEnvelope" where
  "sign_body cr i b = ebind (hash_json cr (unsigned_json cr b)) (\<lambda>h.
     signPayload cr (intent_json cr) (b\<lparr>intentHash := h\<rparr>) (ai_signingKey i) (ai_now i))"

definition verify_inputs_release :: "AuthorizeEntryInput \<Rightarrow> ReleaseVerifyInput" where
  "verify_inputs_release i = \<lparr>rv_release = ai_release i, rv_attestation = ai_attestation i,
     rv_capitalAuthority = ac_capitalAuthority (ai_account i), rv_trustedFingerprints = ai_trustedFingerprints i,
     rv_now = ai_now i\<rparr>"

definition verify_inputs_projection :: "AuthorizeEntryInput \<Rightarrow> sha256_hex \<Rightarrow> ProjectionVerifyInput" where
  "verify_inputs_projection i digest = \<lparr>pv_envelope = ai_projection i, pv_acceptedKeys = ai_projectionKeys i,
     pv_lastSequence = ai_lastProjectionSequence i, pv_now = ai_now i, pv_maxAgeMs = cf_projectionMaxAgeMs (ai_config i),
     pv_releaseId = rel_id (ai_release i), pv_releaseDigest = digest, pv_policyVersion = rp_version (ai_policy i),
     pv_chain = ai_chain i, pv_balanceBps = cf_balanceToleranceBps (ai_config i), pv_maxSlotLag = cf_maxSlotLag (ai_config i)\<rparr>"

text \<open>Steps 1 to 6, which only read the ledger: a refusal, or everything the signing needs.\<close>

record Cleared =
  cl_release :: "sha256_hex \<times> uuid"
  cl_projection :: RiskStateProjection
  cl_projectionHash :: sha256_hex
  cl_evaluation :: RiskEvaluation
  cl_size :: amount

definition guarded :: "guard list \<Rightarrow> (authorize_error + (refusal + 'a)) \<Rightarrow> authorize_error + (refusal + 'a)" where
  "guarded gs k = (case first_refusal gs of Some r \<Rightarrow> Inr (Inl r) | None \<Rightarrow> k)"

definition evaluate_step ::
  "AuthorizeEntryInput \<Rightarrow> RiskStateProjection \<Rightarrow> AuthorizationLedger \<Rightarrow> authorize_error + (refusal + (RiskEvaluation \<times> amount))" where
  "evaluate_step i p l = arith_err
     (ebind (portfolio_state i p l) (\<lambda>s.
      ebind (evaluateEntry (ai_policy i) s (entry_proposal i p) (ai_now i)) (\<lambda>ev. let r = ev_record ev in
        Inr (case computedPositionAmount r of
            Some amt \<Rightarrow> if re_allowed r then Inr (r, amt)
              else Inl (if re_reasonCodes r \<noteq> [] then re_reasonCodes r else [''SIZE_ZERO''], None)
          | None \<Rightarrow> Inl (if re_reasonCodes r \<noteq> [] then re_reasonCodes r else [''SIZE_ZERO''], None)))))"

definition clear_entry ::
  "crypto \<Rightarrow> AuthorizeEntryInput \<Rightarrow> AuthorizationLedger \<Rightarrow> authorize_error + (refusal + Cleared)" where
  "clear_entry cr i l =
     ebind (canon_err (verifyRelease cr (verify_inputs_release i))) (\<lambda>vr. case vr of
         Inl reasons \<Rightarrow> Inr (Inl (reasons, None))
       | Inr rel \<Rightarrow> guarded (release_guards i)
          (case verifyProjection cr (verify_inputs_projection i (fst rel)) of
             Inl (reasons, detail) \<Rightarrow> Inr (Inl (reasons, if join ''; '' detail = [] then None else Some (join ''; '' detail)))
           | Inr (p, _, projHash) \<Rightarrow> guarded (cycle_guards i l @ audit_event_guards i)
              (ebind (canon_err (hash_json cr (proposal_json (pr_proposal (ai_proposal i))))) (\<lambda>ph.
                 guarded (provenance_guards i p ph @ capital_guards i p)
                   (ebind (evaluate_step i p l) (\<lambda>ev. case ev of Inl r \<Rightarrow> Inr (Inl r)
                      | Inr (rec, amt) \<Rightarrow> Inr (Inr \<lparr>cl_release = rel, cl_projection = p, cl_projectionHash = projHash,
                          cl_evaluation = rec, cl_size = amt\<rparr>)))))))"

definition sign_entry ::
  "crypto \<Rightarrow> AuthorizeEntryInput \<Rightarrow> Cleared \<Rightarrow> AuthorizationLedger \<Rightarrow> authorize_error + (AuthorizeOutcome \<times> AuthorizationLedger)" where
  "sign_entry cr i c l =
     (if hasNonce l (ai_newNonce i) then Inr (deny i ([''NONCE_REUSED''], None), l)
      else ebind (canon_err (hash_json cr (policy_json (ai_policy i)))) (\<lambda>polHash.
        let b = authorization_body i (cl_projection c) (cl_release c) (cl_projectionHash c) polHash (cl_size c) in
        ebind (canon_err (sign_body cr i b)) (\<lambda>env.
        ebind (map_sum LEDGER_ERROR id (issue (issued_entry i b) l)) (\<lambda>l'.
          Inr (AUTHORIZED env (pj_sequence (cl_projection c)) (cl_evaluation c), l')))))"

definition authorizeEntry ::
  "crypto \<Rightarrow> AuthorizeEntryInput \<Rightarrow> AuthorizationLedger \<Rightarrow> authorize_error + (AuthorizeOutcome \<times> AuthorizationLedger)" where
  "authorizeEntry cr i l = ebind (clear_entry cr i l) (\<lambda>r. case r of
       Inl refused \<Rightarrow> Inr (deny i refused, l)
     | Inr c \<Rightarrow> sign_entry cr i c l)"

section \<open>Reading a clearance\<close>

definition passes :: "guard list \<Rightarrow> bool" where
  "passes gs \<longleftrightarrow> list_all (\<lambda>g. \<not> fst g) gs"

lemma passes_simps [simp]: "passes []" "passes (g # gs) \<longleftrightarrow> \<not> fst g \<and> passes gs" "passes (gs @ hs) \<longleftrightarrow> passes gs \<and> passes hs"
  by (simp_all add: passes_def)

lemma guarded_ok: "guarded gs k = Inr (Inr c) \<longleftrightarrow> passes gs \<and> k = Inr (Inr c)"
proof (cases "find fst gs")
  case None
  then have "passes gs" unfolding find_None_iff passes_def list_all_iff by blast
  with None show ?thesis by (simp add: guarded_def first_refusal_def)
next
  case (Some g)
  from find_Some_in [OF this] Some show ?thesis by (simp add: guarded_def first_refusal_def passes_def list_all_iff) blast
qed

lemma map_sum_Inr: "map_sum f id r = Inr a \<longleftrightarrow> r = Inr a"
  by (cases r) simp_all

lemma canon_err_Inr [simp]: "canon_err r = Inr a \<longleftrightarrow> r = Inr a"
  by (simp add: canon_err_def map_sum_Inr)

lemma arith_err_Inr [simp]: "arith_err r = Inr a \<longleftrightarrow> r = Inr a"
  by (simp add: arith_err_def map_sum_Inr)

lemma evaluate_step_ok: "evaluate_step i p l = Inr (Inr (r, amt)) \<longleftrightarrow>
    (\<exists>s ev. portfolio_state i p l = Inr s \<and> evaluateEntry (ai_policy i) s (entry_proposal i p) (ai_now i) = Inr ev \<and>
       r = ev_record ev \<and> re_allowed r \<and> computedPositionAmount r = Some amt)"
proof (cases "portfolio_state i p l")
  case (Inr s)
  then show ?thesis
    by (cases "evaluateEntry (ai_policy i) s (entry_proposal i p) (ai_now i)")
      (auto simp: evaluate_step_def Let_def arith_err_def split: option.splits if_splits)
qed (simp add: evaluate_step_def arith_err_def)

lemma clear_entry_ok:
  assumes "clear_entry cr i l = Inr (Inr c)"
  obtains n ph where "verifyRelease cr (verify_inputs_release i) = Inr (Inr (cl_release c))"
    "passes (release_guards i)"
    "verifyProjection cr (verify_inputs_projection i (fst (cl_release c))) = Inr (cl_projection c, n, cl_projectionHash c)"
    "passes (cycle_guards i l)" "passes (audit_event_guards i)"
    "hash_json cr (proposal_json (pr_proposal (ai_proposal i))) = Inr ph"
    "passes (provenance_guards i (cl_projection c) ph)"
    "passes (capital_guards i (cl_projection c))"
    "evaluate_step i (cl_projection c) l = Inr (Inr (cl_evaluation c, cl_size c))"
proof -
  from assms obtain vr where vr: "verifyRelease cr (verify_inputs_release i) = Inr vr"
    and k: "(case vr of Inl reasons \<Rightarrow> Inr (Inl (reasons, None))
       | Inr rel \<Rightarrow> guarded (release_guards i)
          (case verifyProjection cr (verify_inputs_projection i (fst rel)) of
             Inl (reasons, detail) \<Rightarrow> Inr (Inl (reasons, if join ''; '' detail = [] then None else Some (join ''; '' detail)))
           | Inr (p, _, projHash) \<Rightarrow> guarded (cycle_guards i l @ audit_event_guards i)
              (ebind (canon_err (hash_json cr (proposal_json (pr_proposal (ai_proposal i))))) (\<lambda>ph.
                 guarded (provenance_guards i p ph @ capital_guards i p)
                   (ebind (evaluate_step i p l) (\<lambda>ev. case ev of Inl r \<Rightarrow> Inr (Inl r)
                      | Inr (rec, amt) \<Rightarrow> Inr (Inr \<lparr>cl_release = rel, cl_projection = p, cl_projectionHash = projHash,
                          cl_evaluation = rec, cl_size = amt\<rparr>))))))) = Inr (Inr c)"
    unfolding clear_entry_def ebind_eq_Inr canon_err_Inr by blast
  from k obtain rel where rel: "vr = Inr rel" by (cases vr) simp_all
  from k have g1: "passes (release_guards i)" unfolding rel sum.case guarded_ok by blast
  note k2 = k [unfolded rel sum.case guarded_ok, THEN conjunct2]
  then obtain p n h where p: "verifyProjection cr (verify_inputs_projection i (fst rel)) = Inr (p, n, h)"
    by (cases "verifyProjection cr (verify_inputs_projection i (fst rel))") auto
  note k3 = k2 [unfolded p sum.case prod.case guarded_ok passes_simps ebind_eq_Inr canon_err_Inr]
  then obtain ph where ph: "hash_json cr (proposal_json (pr_proposal (ai_proposal i))) = Inr ph"
    and g2: "passes (cycle_guards i l)" "passes (audit_event_guards i)"
      "passes (provenance_guards i p ph)" "passes (capital_guards i p)"
    and ev: "\<exists>ev. evaluate_step i p l = Inr ev \<and> (case ev of Inl r \<Rightarrow> Inr (Inl r)
        | Inr (rec, amt) \<Rightarrow> Inr (Inr \<lparr>cl_release = rel, cl_projection = p, cl_projectionHash = h,
            cl_evaluation = rec, cl_size = amt\<rparr>)) = (Inr (Inr c) :: authorize_error + (refusal + Cleared))"
    by blast
  from ev obtain e where e: "evaluate_step i p l = Inr e" and e': "(case e of Inl r \<Rightarrow> Inr (Inl r)
        | Inr (rec, amt) \<Rightarrow> Inr (Inr \<lparr>cl_release = rel, cl_projection = p, cl_projectionHash = h,
            cl_evaluation = rec, cl_size = amt\<rparr>)) = (Inr (Inr c) :: authorize_error + (refusal + Cleared))" by blast
  then obtain rec amt where "evaluate_step i p l = Inr (Inr (rec, amt))"
    "c = \<lparr>cl_release = rel, cl_projection = p, cl_projectionHash = h, cl_evaluation = rec, cl_size = amt\<rparr>"
    by (cases e) (simp_all split: prod.splits)
  with vr rel p ph g1 g2 that show ?thesis by simp
qed

text \<open>What the guards of the cycle, of the audit trail and of the capital state leave.\<close>

definition cleared_for_entry :: "AuthorizeEntryInput \<Rightarrow> bool" where
  "cleared_for_entry i \<longleftrightarrow> (let c = ai_cycle i; p = ai_proposal i in
     cy_state c = CLEARED \<and> cy_verdict c = Some CONFIRM \<and> cy_clearedCutoffVersion c = Some (latest_cutoff c) \<and>
     is_entry_action (cy_proposedAction c) \<and> cy_proposalId c = Some (pr_id p) \<and> pr_actionCycleId p = cy_id c \<and>
     cy_proposedAction c = Some (tp_actionType (pr_proposal p)) \<and> pr_strategyVersionId p = cy_strategyVersionId c \<and>
     tp_candidateId (pr_proposal p) = cy_candidateId c \<and> ai_now i < pr_expiresAt p)"

lemma cycle_guards_pass: "passes (cycle_guards i l) \<longleftrightarrow>
    cleared_for_entry i \<and> nonceForCycle l (cy_id (ai_cycle i)) = None"
  by (auto simp: cycle_guards_def cleared_for_entry_def Let_def deny_with_def deny_if_def)

definition clearance_proven :: "AuthorizeEntryInput \<Rightarrow> RiskStateProjection \<Rightarrow> sha256_hex \<Rightarrow> bool" where
  "clearance_proven i p proposalHash \<longleftrightarrow> (let c = ai_cycle i in
     \<exists>n h ev s m mh k. cy_clearedAudit c = Some (n, h) \<and> au_event (ai_audit i) = Some ev \<and> ae_sequence ev = n \<and> ae_hash ev = h \<and>
       ae_actionClass ev = ''ACTION_CYCLE_CLEARED'' \<and> ae_entityId ev = cy_id c \<and> ae_summary ev = Some s \<and>
       ct_cycleId s = cy_id c \<and> ct_proposalId s = pr_id (ai_proposal i) \<and> ct_proposalHash s = proposalHash \<and>
       Some (ct_cutoffVersion s) = cy_clearedCutoffVersion c \<and> Some (ct_verdict s) = map_option verdict_text (cy_verdict c) \<and>
       ct_strategyVersionId s = cy_strategyVersionId c \<and> ct_releaseDigest s = Some (rel_digest (ai_release i)) \<and>
       pj_auditHead p = Some (m, mh) \<and> n \<le> m \<and> au_chain (ai_audit i) = Inr k)"

lemma tampered_clearance_Nil: "tampered_clearance i ph s = [] \<longleftrightarrow>
    ct_cycleId s = cy_id (ai_cycle i) \<and> ct_proposalId s = pr_id (ai_proposal i) \<and> ct_proposalHash s = ph \<and>
    Some (ct_cutoffVersion s) = cy_clearedCutoffVersion (ai_cycle i) \<and>
    Some (ct_verdict s) = map_option verdict_text (cy_verdict (ai_cycle i)) \<and>
    ct_strategyVersionId s = cy_strategyVersionId (ai_cycle i) \<and> ct_releaseDigest s = Some (rel_digest (ai_release i))"
  by (simp add: tampered_clearance_def Let_def)

lemma audit_guards_pass:
  "passes (audit_event_guards i) \<and> passes (provenance_guards i p ph) \<longleftrightarrow> clearance_proven i p ph"
proof (cases "cy_clearedAudit (ai_cycle i)")
  case None
  then show ?thesis by (simp add: audit_event_guards_def deny_if_def clearance_proven_def)
next
  case (Some nh)
  obtain n h where nh: "nh = (n, h)" by (cases nh)
  show ?thesis
  proof (cases "au_event (ai_audit i)")
    case None
    with Some nh show ?thesis by (simp add: audit_event_guards_def deny_with_def clearance_proven_def)
  next
    case ev: (Some ev)
    show ?thesis
    proof (cases "ae_summary ev")
      case None
      with Some nh ev show ?thesis by (simp add: audit_event_guards_def deny_with_def clearance_proven_def)
    next
      case sm: (Some s)
      have prov: "passes (provenance_guards i p ph) \<longleftrightarrow> tampered_clearance i ph s = [] \<and>
          (\<exists>m mh. pj_auditHead p = Some (m, mh) \<and> n \<le> m) \<and> (\<exists>k. au_chain (ai_audit i) = Inr k)"
        using Some nh ev sm
        by (auto simp: provenance_guards_def cleared_summary_def deny_with_def Let_def not_less split: option.splits sum.splits prod.splits)
      show ?thesis unfolding prov tampered_clearance_Nil
        using Some nh ev sm by (auto simp: audit_event_guards_def deny_with_def clearance_proven_def Let_def)
    qed
  qed
qed

definition capital_ready :: "AuthorizeEntryInput \<Rightarrow> RiskStateProjection \<Rightarrow> bool" where
  "capital_ready i p \<longleftrightarrow> (let a = ac_capitalAuthority (ai_account i) in
     (is_live a \<longrightarrow> capitalAttestationVerdict (pj_capital p) = None \<and> (\<exists>m. ai_mint i = Some m \<and> mh_isInitialized m \<and>
        mh_mintAuthority m = NO_AUTHORITY \<and> mh_freezeAuthority m = NO_AUTHORITY)) \<and>
     (a = LIVE_AUTO \<longrightarrow> (\<exists>er. ai_emergencyRoute i = Some er \<and> readiness er = READY)))"

lemma capital_guards_pass: "passes (capital_guards i p) \<longleftrightarrow> capital_ready i p"
proof -
  have "passes (mint_guards (ai_mint i)) \<longleftrightarrow> (\<exists>m. ai_mint i = Some m \<and> mh_isInitialized m \<and>
      mh_mintAuthority m = NO_AUTHORITY \<and> mh_freezeAuthority m = NO_AUTHORITY)"
    by (auto simp: mint_guards_def deny_if_def split: option.splits)
  then show ?thesis
    by (auto simp: capital_guards_def capital_ready_def Let_def deny_if_def deny_with_def emergencyRoutePermitsEntry_def is_live_def
        split: option.splits)
qed

lemma authorized_steps:
  assumes "authorizeEntry cr i l = Inr (AUTHORIZED env n ev, l')"
  obtains c polHash h b where "clear_entry cr i l = Inr (Inr c)" "\<not> hasNonce l (ai_newNonce i)"
    "hash_json cr (policy_json (ai_policy i)) = Inr polHash"
    "b = authorization_body i (cl_projection c) (cl_release c) (cl_projectionHash c) polHash (cl_size c)"
    "hash_json cr (unsigned_json cr b) = Inr h" "signPayload cr (intent_json cr) (b\<lparr>intentHash := h\<rparr>) (ai_signingKey i) (ai_now i) = Inr env"
    "issue (issued_entry i b) l = Inr l'" "n = pj_sequence (cl_projection c)" "ev = cl_evaluation c"
proof -
  from assms obtain c where c: "clear_entry cr i l = Inr (Inr c)" "sign_entry cr i c l = Inr (AUTHORIZED env n ev, l')"
  proof -
    from assms obtain x where x: "clear_entry cr i l = Inr x" by (auto simp: authorizeEntry_def)
    with assms that show ?thesis by (cases x) (auto simp: authorizeEntry_def deny_def)
  qed
  from c(2) show ?thesis
    using that [OF c(1)] by (auto simp: sign_entry_def deny_def Let_def sign_body_def map_sum_Inr split: if_splits)
qed

lemma signed_payload: "signPayload cr enc p key t = Inr env \<Longrightarrow> payload env = p \<and> signedAt env = t \<and> keyId env = vkeyId key"
  by (auto simp: signPayload_def)

lemma body_unhashed [simp]: "unsigned_json cr (b\<lparr>intentHash := h\<rparr>) = unsigned_json cr b"
  by (simp add: unsigned_json_def unsigned_members_def)

lemma signed_eligible:
  assumes "evaluate_step i p l = Inr (Inr (r, amt))"
  shows "\<exists>e. asset_eligibility i p = Some e \<and> es_eligible e"
proof -
  from assms obtain s ev where s: "portfolio_state i p l = Inr s"
    "evaluateEntry (ai_policy i) s (entry_proposal i p) (ai_now i) = Inr ev" "re_allowed (ev_record ev)"
    "computedPositionAmount (ev_record ev) = Some amt" by (auto simp: evaluate_step_ok)
  have "0 \<le> pendingExposureBaseUnits s"
    using s(1) by (auto simp: portfolio_state_def dest: pendingExposure_nonneg)
  from allowed_entry_capacity [OF s(2,3) this s(4)] have "eligibility (entry_proposal i p) = None" by blast
  then show ?thesis by (auto simp: entry_proposal_def Let_def split: option.splits if_splits)
qed

section \<open>Properties\<close>

text \<open>
  C3: The risk authorizer signs only what every record justifies. An authorization exists only if
  the release's digest is that of its binding and nothing about the release or its attestation was
  refused, the projection is signed by a pinned key, fresh, sequenced, for this release and policy
  and not above chain truth, the cycle is cleared with a confirmed verdict at its latest cutoff for
  an entry whose proposal belongs to it and is unexpired, the clearance is an audit event that names
  this cycle, proposal, verdict and release under the projection's ledger head, capital and mint
  state are in order, the asset is eligible, and neither the cycle nor the nonce was signed before;
  and what is signed is that body with its own digest, under the signing key.
\<close>

theorem authorization_justified:
  assumes "authorizeEntry cr i l = Inr (AUTHORIZED env n ev, l')"
  shows "\<exists>digest att p ph. hash_json cr (binding_json (rel_binding (ai_release i))) = Inr digest \<and>
     release_rejections (verify_inputs_release i) digest = [] \<and> ai_attestation i = Some att \<and>
     p = payload (ai_projection i) \<and>
     verifyProjection cr (verify_inputs_projection i digest) = Inr (p, n, payloadHash (ai_projection i)) \<and>
     (is_live (ac_capitalAuthority (ai_account i)) \<longrightarrow> rel_status (ai_release i) = ARMED \<and> ai_chain i \<noteq> None) \<and>
     cleared_for_entry i \<and> nonceForCycle l (cy_id (ai_cycle i)) = None \<and>
     hash_json cr (proposal_json (pr_proposal (ai_proposal i))) = Inr ph \<and> clearance_proven i p ph \<and> capital_ready i p \<and>
     (\<exists>e. asset_eligibility i p = Some e \<and> es_eligible e) \<and>
     \<not> hasNonce l (ai_newNonce i) \<and> hash_json cr (unsigned_json cr (payload env)) = Inr (intentHash (payload env)) \<and>
     keyId env = vkeyId (ai_signingKey i) \<and> actionCycleId (payload env) = cy_id (ai_cycle i) \<and>
     rai_nonce (payload env) = ai_newNonce i \<and> re_allowed ev \<and>
     computedPositionAmount ev = Some (maxInputAmount (payload env))"
proof -
  from assms obtain c polHash h b where c: "clear_entry cr i l = Inr (Inr c)" and nonce: "\<not> hasNonce l (ai_newNonce i)"
    and b: "b = authorization_body i (cl_projection c) (cl_release c) (cl_projectionHash c) polHash (cl_size c)"
    and h: "hash_json cr (unsigned_json cr b) = Inr h"
    and env: "signPayload cr (intent_json cr) (b\<lparr>intentHash := h\<rparr>) (ai_signingKey i) (ai_now i) = Inr env"
    and out: "n = pj_sequence (cl_projection c)" "ev = cl_evaluation c"
    by (rule authorized_steps)
  from c obtain m ph where rel: "verifyRelease cr (verify_inputs_release i) = Inr (Inr (cl_release c))"
    and g: "passes (release_guards i)" "passes (cycle_guards i l)" "passes (audit_event_guards i)"
      "passes (provenance_guards i (cl_projection c) ph)" "passes (capital_guards i (cl_projection c))"
    and pj: "verifyProjection cr (verify_inputs_projection i (fst (cl_release c))) = Inr (cl_projection c, m, cl_projectionHash c)"
    and ph: "hash_json cr (proposal_json (pr_proposal (ai_proposal i))) = Inr ph"
    and ev: "evaluate_step i (cl_projection c) l = Inr (Inr (cl_evaluation c, cl_size c))"
    by (rule clear_entry_ok)
  from rel obtain digest att where r: "cl_release c = (digest, at_id att)" "ai_attestation i = Some att"
    "hash_json cr (binding_json (rel_binding (ai_release i))) = Inr digest"
    "release_rejections (verify_inputs_release i) digest = []"
    by (cases "cl_release c") (auto simp: verifyRelease_ok verify_inputs_release_def)
  have pj': "cl_projection c = payload (ai_projection i)" "m = n" "cl_projectionHash c = payloadHash (ai_projection i)"
    using pj out by (auto simp: verifyProjection_ok verify_inputs_projection_def)
  have live: "is_live (ac_capitalAuthority (ai_account i)) \<longrightarrow> rel_status (ai_release i) = ARMED \<and> ai_chain i \<noteq> None"
    using release_ok_live [OF r(4)] g(1) by (auto simp: verify_inputs_release_def release_guards_def deny_if_def Let_def)
  have pay: "payload env = b\<lparr>intentHash := h\<rparr>" "keyId env = vkeyId (ai_signingKey i)"
    using signed_payload [OF env] by simp_all
  have "hash_json cr (unsigned_json cr (payload env)) = Inr (intentHash (payload env))" using h by (simp add: pay)
  moreover have "actionCycleId (payload env) = cy_id (ai_cycle i)" "rai_nonce (payload env) = ai_newNonce i"
    "maxInputAmount (payload env) = cl_size c" by (simp_all add: pay b authorization_body_def Let_def)
  moreover have "re_allowed ev \<and> computedPositionAmount ev = Some (cl_size c)" using ev out by (auto simp: evaluate_step_ok)
  moreover have "clearance_proven i (payload (ai_projection i)) ph" "capital_ready i (payload (ai_projection i))"
    "cleared_for_entry i" "nonceForCycle l (cy_id (ai_cycle i)) = None"
    using audit_guards_pass [of i "cl_projection c" ph] g by (simp_all add: cycle_guards_pass capital_guards_pass pj')
  moreover have "verifyProjection cr (verify_inputs_projection i digest) =
      Inr (payload (ai_projection i), n, payloadHash (ai_projection i))" using pj r(1) pj' by simp
  moreover have "\<exists>e. asset_eligibility i (payload (ai_projection i)) = Some e \<and> es_eligible e"
    using signed_eligible [OF ev] pj' by simp
  ultimately show ?thesis
    using r(2-4) ph nonce pay(2) live by (intro exI [of _ digest] exI [of _ att] exI [of _ "payload (ai_projection i)"] exI [of _ ph]) simp
qed


section \<open>A worked example\<close>

definition toy_digest :: sha256_hex where
  "toy_digest = replicate 64 (CHR ''a'')"

definition toy_armed_release :: Release where
  "toy_armed_release = \<lparr>rel_id = ''rel-1'', rel_digest = toy_digest,
     rel_binding = \<lparr>rb_strategyVersionId = ''s1'', rb_skillVersionId = Some ''k1'', rb_guidelineVersionId = Some ''g1'',
       rb_automationSetVersionId = Some ''a1'', rb_proposerModelPolicyVersion = None,
       rb_adversaryModelPolicyVersion = ''m1'', rb_riskPolicyVersion = ''risk-v1'', rb_cohortPolicyVersion = ''c1'',
       rb_freshnessPolicyVersion = ''f1'', rb_executorPolicyRef = ''e1'', rb_contractSetDigest = toy_digest\<rparr>,
     rel_status = ARMED, rel_createdAt = 0, rel_promotedAt = Some 1, rel_retiredAt = None\<rparr>"

definition toy_armed_attestation :: ReleaseAttestation where
  "toy_armed_attestation = \<lparr>at_id = ''att-1'', at_releaseId = ''rel-1'', at_releaseDigest = toy_digest, at_purpose = ARM,
     at_operatorId = ''op-1'', at_operatorRole = ''admin'', at_credentialId = ''cred-1'', at_credentialFingerprint = ''fp-1'',
     at_challenge = ''c-1'', at_verificationResult = True, at_attestedAt = 1, at_expiresAt = None\<rparr>"

definition toy_projection :: RiskStateProjection where
  "toy_projection = \<lparr>pj_sequence = 3, pj_asOf = 9, pj_chainSlot = 70, pj_releaseId = ''rel-1'', pj_releaseDigest = toy_digest,
     pj_policyVersion = ''risk-v1'', pj_auditHead = Some (7, toy_digest), pj_sourceDigests = [], pj_settlementMint = toy_mint,
     pj_custody = [], pj_settlementAvailable = 900, pj_gasReserve = 20, pj_exposure = 100, pj_exposureUsd = None,
     pj_signerDependent = 100,
     pj_sleeves = [\<lparr>slv_sleeveId = ''s'', slv_strategyVersionId = ''s1'', slv_committed = 20, slv_cap = 200, slv_riskRemaining = 100\<rparr>],
     pj_openLots = [\<lparr>ol_lotId = ''l1'', ol_positionId = ''p1'', ol_assetId = ''a'', ol_mint = toy_mint, ol_quantity = 1,
       ol_costBasis = 20, ol_protectionMode = MONITORED_EXIT, ol_providerProtectionActive = False\<rparr>],
     pj_drawdown = \<lparr>ds_daily = Fin 0, ds_rolling = Fin 0, ds_breaker = False, ds_losses = 0\<rparr>,
     pj_cohortCapacity = [], pj_clusterCapacity = [],
     pj_eligibility = [\<lparr>es_assetId = ''a'', es_evaluationId = ''e1'', es_eligible = True, es_evaluatedAt = 8\<rparr>],
     pj_freshness = [], pj_capital = \<lparr>ceilingUsd = Fin 5000, recognizedUsd = Fin 1000, reattestRequired = False\<rparr>\<rparr>"

definition toy_cycle :: "uuid \<Rightarrow> ActionCycle" where
  "toy_cycle i = \<lparr>cy_id = i, cy_candidateId = Some ''cand'', cy_strategyVersionId = ''s1'',
     cy_proposedAction = Some TradingActionType.ENTER, cy_proposalId = Some ''p'', cy_verdict = Some CONFIRM, cy_state = CLEARED,
     cy_cutoffs = [\<lparr>ec_version = 1, ec_at = 2, ec_consumedByRunIds = []\<rparr>], cy_clearedCutoffVersion = Some 1,
     cy_clearedAudit = Some (5, toy_digest)\<rparr>"

definition toy_cleared_proposal :: "uuid \<Rightarrow> Proposal" where
  "toy_cleared_proposal i = \<lparr>pr_id = ''p'', pr_actionCycleId = i, pr_strategyVersionId = ''s1'',
     pr_proposal = \<lparr>tp_actionType = TradingActionType.ENTER, tp_candidateId = Some ''cand'', tp_other = []\<rparr>, pr_expiresAt = 100\<rparr>"

definition toy_audit :: "uuid \<Rightarrow> ClearanceAuditEvidence" where
  "toy_audit i = \<lparr>au_event = Some \<lparr>ae_sequence = 5, ae_hash = toy_digest, ae_actionClass = ''ACTION_CYCLE_CLEARED'', ae_entityId = i,
       ae_summary = Some \<lparr>ct_cycleId = i, ct_proposalId = ''p'', ct_proposalHash = toy_digest, ct_cutoffVersion = 1,
         ct_verdict = ''CONFIRM'', ct_strategyVersionId = ''s1'', ct_releaseDigest = Some toy_digest\<rparr>\<rparr>,
     au_chain = Inr 6\<rparr>"

definition toy_reads :: IndependentChainReads where
  "toy_reads = \<lparr>ir_slot = 71, ir_settlement = 900, ir_gas = 25, ir_custody = []\<rparr>"

definition toy_entry :: "uuid \<Rightarrow> nonce \<Rightarrow> RiskStateProjection SignedEnvelope \<Rightarrow> AuthorizeEntryInput" where
  "toy_entry cyc non env = \<lparr>ai_now = 10, ai_cycle = toy_cycle cyc, ai_proposal = toy_cleared_proposal cyc,
     ai_asset = \<lparr>as_id = ''a'', as_mint = toy_mint, as_decimals = 6, as_tokenProgram = TOKEN, as_settlementRouteConfirmed = True\<rparr>,
     ai_quote = Some \<lparr>aq_ageMs = 10, aq_impactBps = Some 5, aq_slippageBps = 50, aq_priceUsd = Fin 8, aq_atrPct = None,
       aq_liquidityUsd = Some (Fin 1000)\<rparr>,
     ai_release = toy_armed_release, ai_attestation = Some toy_armed_attestation, ai_projection = env, ai_chain = Some toy_reads,
     ai_mint = Some \<lparr>mh_isInitialized = True, mh_mintAuthority = NO_AUTHORITY, mh_freezeAuthority = NO_AUTHORITY, mh_readSlot = 71\<rparr>,
     ai_sessionAllowsEntries = True,
     ai_emergencyRoute = Some \<lparr>readiness = READY, er_reason = None, dryRunAgeMs = Some 1\<rparr>, ai_audit = toy_audit cyc,
     ai_account = \<lparr>ac_id = ''acc'', ac_cluster = ''devnet'', ac_capitalAuthority = LIVE_AUTO, ac_settlementDecimals = 2\<rparr>,
     ai_policy = toy_policy, ai_signingKey = toy_key, ai_projectionKeys = [verification_half toy_key],
     ai_trustedFingerprints = [''fp-1''], ai_lastProjectionSequence = None,
     ai_config = \<lparr>cf_projectionMaxAgeMs = 60, cf_intentExpiryMs = 30, cf_balanceToleranceBps = 0, cf_maxSlotLag = 20\<rparr>,
     ai_evaluationId = ''ev-1'', ai_newIntentId = ''in-1'', ai_newNonce = non\<rparr>"

lemma toy_hash_digest: "plain v \<Longrightarrow> hash_json toy_crypto v = Inr toy_digest"
  by (simp add: toy_hash toy_digest_def)

lemma toy_release_verified: "verifyRelease toy_crypto (verify_inputs_release (toy_entry cyc non env)) = Inr (Inr (toy_digest, ''att-1''))"
proof -
  have "plain (binding_json (rel_binding toy_armed_release))"
    by (simp add: binding_json_def toy_armed_release_def opt_json_def)
  then show ?thesis
    by (simp add: verifyRelease_ok verify_inputs_release_def toy_entry_def toy_hash_digest release_rejections_def attestation_rejections_def)
      (simp add: toy_armed_release_def toy_armed_attestation_def expired_at_def is_live_def)
qed

lemma toy_projection_signed: "\<exists>env. verifySignedEnvelope toy_crypto (projection_json toy_crypto) env [verification_half toy_key] = Inr (vkeyId toy_key) \<and>
    payload env = toy_projection \<and> payloadHash env = toy_digest"
proof -
  have pl: "plain (projection_json toy_crypto toy_projection)"
    by (simp add: projection_json_def toy_projection_def opt_json_def jint_def jamount_def sleeve_json_def lot_json_def
        drawdown_json_def eligibility_json_def capital_json_def)
  from toy_signs [of "projection_json toy_crypto" toy_projection 9, OF this] obtain env where
    env: "signPayload toy_crypto (projection_json toy_crypto) toy_projection toy_key 9 = Inr env"
    "payloadHash env = toy_digest" by (auto simp: toy_digest_def)
  have "accepted_key [verification_half toy_key] (vkeyId toy_key) = Some (verification_half toy_key)"
    by (simp add: accepted_key_def verification_half_def)
  from sign_then_verify [OF toy_crypto_ok this env(1)] env(2) show ?thesis by blast
qed

lemma toy_projection_verified:
  assumes "verifySignedEnvelope toy_crypto (projection_json toy_crypto) env [verification_half toy_key] = Inr (vkeyId toy_key)"
    and "payload env = toy_projection" and "payloadHash env = toy_digest"
  shows "verifyProjection toy_crypto (verify_inputs_projection (toy_entry cyc non env) toy_digest) = Inr (toy_projection, 3, toy_digest)"
  using assms
  by (simp add: verifyProjection_ok verify_inputs_projection_def toy_entry_def)
    (simp add: toy_projection_def toy_armed_release_def toy_policy_def backed_by_chain_def toy_reads_def withinAbove_def)

lemma toy_portfolio:
  assumes "open_entries l 10 = []"
  shows "portfolio_state (toy_entry cyc non env) toy_projection l =
    Inr (toy_state\<lparr>pf_settlementMint := toy_mint, pendingExposureBaseUnits := 0\<rparr>)"
  using assms
  by (simp add: portfolio_state_def pendingExposure_def optional_sleeve_def cycle_sleeve_def
      portfolio_sleeve_def headroom_def compareAmounts_def subAmounts_def amount_ok_def U64_MAX_def toy_entry_def toy_cycle_def
      toy_projection_def group_usage_def inFlightIncreasing_def asset_exposure_def authorizer_health_def toy_state_def
      toy_health_def bigIntToAmount_def)

definition toy_entry_state :: PortfolioState where
  "toy_entry_state = toy_state\<lparr>pf_settlementMint := toy_mint, pendingExposureBaseUnits := 0\<rparr>"

definition toy_entry_proposal :: "uuid \<Rightarrow> EntryProposal" where
  "toy_entry_proposal cyc = toy_proposal\<lparr>ep_id := ''ev-1'', ep_actionCycleId := cyc, eligibilityEvaluationId := Some ''e1''\<rparr>"

lemma toy_proposed: "entry_proposal (toy_entry cyc non env) toy_projection = toy_entry_proposal cyc"
  by (simp add: entry_proposal_def toy_entry_def asset_eligibility_def toy_projection_def toy_cleared_proposal_def toy_cycle_def
      toy_entry_proposal_def toy_proposal_def)

lemma toy_entry_stop: "entry_stop toy_policy (toy_entry_proposal cyc) = Some \<lparr>level = Fin 7, distanceFraction = Fin (1 / 8)\<rparr>"
  "stop_distance toy_policy (toy_entry_proposal cyc) = Some (Fin (1 / 8))"
proof -
  show "entry_stop toy_policy (toy_entry_proposal cyc) = Some \<lparr>level = Fin 7, distanceFraction = Fin (1 / 8)\<rparr>"
    using toy_stop(1) by (simp add: entry_stop_def toy_entry_proposal_def cong: option.case_cong)
  then show "stop_distance toy_policy (toy_entry_proposal cyc) = Some (Fin (1 / 8))" by (simp add: stop_distance_def)
qed

lemma toy_entry_capacity: "entry_capacity toy_policy toy_entry_state =
    Inr \<lparr>committed = 100, totalRemaining = 400, tokenRemaining = 230, availableCapital = 850\<rparr>"
  by (simp add: entry_capacity_def toy_policy_def toy_entry_state_def toy_state_def toy_arith addAmounts_def subAmounts_def)

lemma toy_entry_sized: "\<exists>r. entry_sizing toy_policy toy_entry_state (toy_entry_proposal cyc)
     \<lparr>committed = 100, totalRemaining = 400, tokenRemaining = 230, availableCapital = 850\<rparr> (Fin (1 / 8)) = Inr r \<and>
     sizeBaseUnits r = 180 \<and> unknownCapacity r = None"
  by (simp add: entry_sizing_def group_remaining_def usdToBase_def toy_policy_def toy_entry_state_def toy_state_def
      toy_entry_proposal_def toy_proposal_def toy_arith computePositionSize_def risk_budget_def required_capacity_def tighten_def)

lemma toy_entry_rules: "kill_reasons toy_policy toy_entry_state 10 = []" "portfolio_reasons toy_policy toy_entry_state 850 = []"
  "trade_reasons toy_policy toy_entry_state (toy_entry_proposal cyc) 10 = []" "stop_reasons toy_policy (toy_entry_proposal cyc) = []"
proof -
  show "kill_reasons toy_policy toy_entry_state 10 = []"
    using toy_rules(1) by (simp add: kill_reasons_def toy_entry_state_def breaker_active_def in_cooldown_def Let_def)
  show "portfolio_reasons toy_policy toy_entry_state 850 = []"
    using toy_rules(2) by (simp add: portfolio_reasons_def toy_entry_state_def)
  show "trade_reasons toy_policy toy_entry_state (toy_entry_proposal cyc) 10 = []"
    using toy_rules(3) by (simp add: trade_reasons_def toy_entry_state_def toy_entry_proposal_def stale_checks_def quote_reasons_def
        cong: option.case_cong)
  have same: "expectedRewardFraction (toy_entry_proposal cyc) = expectedRewardFraction toy_proposal"
    by (simp add: toy_entry_proposal_def)
  show "stop_reasons toy_policy (toy_entry_proposal cyc) = []"
    using toy_rules(4) same by (simp add: stop_reasons_def toy_entry_stop toy_stop)
qed

lemma toy_evaluated:
  assumes "open_entries l 10 = []"
  shows "\<exists>r. evaluate_step (toy_entry cyc non env) toy_projection l = Inr (Inr (r, 180))"
proof -
  obtain r where r: "entry_sizing toy_policy toy_entry_state (toy_entry_proposal cyc)
     \<lparr>committed = 100, totalRemaining = 400, tokenRemaining = 230, availableCapital = 850\<rparr> (Fin (1 / 8)) = Inr r"
     "sizeBaseUnits r = 180" "unknownCapacity r = None" using toy_entry_sized by blast
  have "entry_reasons toy_policy toy_entry_state (toy_entry_proposal cyc) 10
     \<lparr>committed = 100, totalRemaining = 400, tokenRemaining = 230, availableCapital = 850\<rparr> (Some r) = []"
    by (simp add: entry_reasons_def toy_entry_rules sizing_reasons_def r reason_if_def)
  then have "\<exists>ev. evaluateEntry toy_policy toy_entry_state (toy_entry_proposal cyc) 10 = Inr ev \<and> re_allowed (ev_record ev) \<and>
      computedPositionAmount (ev_record ev) = Some 180"
    by (simp add: evaluateEntry_def toy_entry_capacity optional_sizing_def toy_entry_stop r toy_loss)
  moreover have "ai_policy (toy_entry cyc non env) = toy_policy" "ai_now (toy_entry cyc non env) = 10" by (simp_all add: toy_entry_def)
  ultimately show ?thesis
    using toy_portfolio [OF assms, of cyc non env] by (auto simp: evaluate_step_ok toy_proposed toy_entry_state_def)
qed

lemma guarded_pass: "passes gs \<Longrightarrow> guarded gs k = k"
proof -
  assume "passes gs"
  then have "find fst gs = None" unfolding find_None_iff passes_def list_all_iff by blast
  then show ?thesis by (simp add: guarded_def first_refusal_def)
qed

lemma toy_guards: "passes (release_guards (toy_entry cyc non env))"
  "nonceForCycle l cyc = None \<Longrightarrow> passes (cycle_guards (toy_entry cyc non env) l)"
  "passes (audit_event_guards (toy_entry cyc non env))"
  "passes (provenance_guards (toy_entry cyc non env) toy_projection toy_digest)"
  "passes (capital_guards (toy_entry cyc non env) toy_projection)"
proof -
  show "passes (release_guards (toy_entry cyc non env))"
    by (simp add: release_guards_def toy_entry_def deny_with_def deny_if_def toy_armed_release_def toy_cycle_def toy_policy_def)
  show "nonceForCycle l cyc = None \<Longrightarrow> passes (cycle_guards (toy_entry cyc non env) l)"
    by (simp add: cycle_guards_pass cleared_for_entry_def toy_entry_def toy_cycle_def toy_cleared_proposal_def latest_cutoff_def
        is_entry_action_def)
  have "clearance_proven (toy_entry cyc non env) toy_projection toy_digest"
    by (simp add: clearance_proven_def toy_entry_def toy_cycle_def toy_cleared_proposal_def toy_audit_def toy_projection_def
        toy_armed_release_def verdict_text_def)
  then show "passes (audit_event_guards (toy_entry cyc non env))"
    "passes (provenance_guards (toy_entry cyc non env) toy_projection toy_digest)"
    using audit_guards_pass by blast+
  have "capitalAttestationVerdict (pj_capital toy_projection) = None" by (simp add: capital_verdict_None toy_projection_def)
  then show "passes (capital_guards (toy_entry cyc non env) toy_projection)"
    by (simp add: capital_guards_pass capital_ready_def toy_entry_def)
qed

lemma toy_cleared:
  assumes "verifySignedEnvelope toy_crypto (projection_json toy_crypto) env [verification_half toy_key] = Inr (vkeyId toy_key)"
    and "payload env = toy_projection" and "payloadHash env = toy_digest"
    and l: "open_entries l 10 = []" "nonceForCycle l cyc = None"
  shows "\<exists>r. clear_entry toy_crypto (toy_entry cyc non env) l =
    Inr (Inr \<lparr>cl_release = (toy_digest, ''att-1''), cl_projection = toy_projection, cl_projectionHash = toy_digest,
      cl_evaluation = r, cl_size = 180\<rparr>)"
proof -
  obtain r where r: "evaluate_step (toy_entry cyc non env) toy_projection l = Inr (Inr (r, 180))"
    using toy_evaluated [OF l(1)] by blast
  have "plain (proposal_json (pr_proposal (ai_proposal (toy_entry cyc non env))))"
    by (simp add: proposal_json_def toy_entry_def toy_cleared_proposal_def opt_json_def)
  then have h: "hash_json toy_crypto (proposal_json (pr_proposal (ai_proposal (toy_entry cyc non env)))) = Inr toy_digest"
    by (rule toy_hash_digest)
  show ?thesis
    unfolding clear_entry_def
    by (simp add: toy_release_verified canon_err_def guarded_pass toy_guards toy_projection_verified [OF assms(1-3)] h r l)
qed

lemma plain_intent: "plain (unsigned_json cr b)" "plain (intent_json cr b)"
  by (auto simp: unsigned_json_def intent_json_def unsigned_members_def jint_def opt_json_def list_all_iff split: option.splits)

lemma toy_authorizes:
  assumes l: "open_entries l 10 = []" "nonceForCycle l cyc = None" "\<not> hasNonce l non"
    and env: "verifySignedEnvelope toy_crypto (projection_json toy_crypto) env [verification_half toy_key] = Inr (vkeyId toy_key)"
    "payload env = toy_projection" "payloadHash env = toy_digest"
  shows "\<exists>env' ev l'. authorizeEntry toy_crypto (toy_entry cyc non env) l = Inr (AUTHORIZED env' 3 ev, l') \<and>
    payload env' = (authorization_body (toy_entry cyc non env) toy_projection (toy_digest, ''att-1'') toy_digest toy_digest 180)
      \<lparr>intentHash := toy_digest\<rparr>"
proof -
  obtain r where c: "clear_entry toy_crypto (toy_entry cyc non env) l =
      Inr (Inr \<lparr>cl_release = (toy_digest, ''att-1''), cl_projection = toy_projection, cl_projectionHash = toy_digest,
      cl_evaluation = r, cl_size = 180\<rparr>)" using toy_cleared [OF env l(1,2)] by blast
  define b where "b = authorization_body (toy_entry cyc non env) toy_projection (toy_digest, ''att-1'') toy_digest toy_digest 180"
  have pol: "hash_json toy_crypto (policy_json (ai_policy (toy_entry cyc non env))) = Inr toy_digest"
    by (rule toy_hash_digest) (simp add: policy_json_def toy_entry_def toy_policy_def jamount_def jint_def)
  obtain env' where env': "signPayload toy_crypto (intent_json toy_crypto) (b\<lparr>intentHash := toy_digest\<rparr>) toy_key 10 = Inr env'"
    using toy_signs [of "intent_json toy_crypto" "b\<lparr>intentHash := toy_digest\<rparr>" 10, OF plain_intent(2)] by blast
  have "sign_body toy_crypto (toy_entry cyc non env) b = Inr env'"
    using env' toy_hash_digest [OF plain_intent(1) [of toy_crypto b]] by (simp add: sign_body_def toy_entry_def)
  moreover have "ai_newNonce (toy_entry cyc non env) = non" by (simp add: toy_entry_def)
  moreover obtain l' where "issue (issued_entry (toy_entry cyc non env) b) l = Inr l'"
    using l(3) al.issue_fresh [of "issued_entry (toy_entry cyc non env) b" l]
    by (auto simp: issued_entry_def b_def authorization_body_def toy_entry_def Let_def)
  ultimately have "\<exists>l'. authorizeEntry toy_crypto (toy_entry cyc non env) l = Inr (AUTHORIZED env' 3 r, l')"
    using c pol l(3) by (simp add: authorizeEntry_def sign_entry_def canon_err_def b_def [symmetric]) (simp add: toy_projection_def)
  then show ?thesis using signed_payload [OF env'] b_def by blast
qed

lemma toy_authorized: "\<exists>env env' ev l'. payload env = toy_projection \<and>
    authorizeEntry toy_crypto (toy_entry cyc non env) empty_ledger = Inr (AUTHORIZED env' 3 ev, l')"
  using toy_projection_signed toy_authorizes [of empty_ledger cyc non]
  by (fastforce simp: open_entries_def empty_ledger_def nonceForCycle_def hasNonce_def)

theorem authorization_justified_witness:
  "\<exists>env. release_rejections (verify_inputs_release (toy_entry ''c'' ''n'' env)) toy_digest = [] \<and> cleared_for_entry (toy_entry ''c'' ''n'' env)"
proof -
  obtain env env' ev l' where "authorizeEntry toy_crypto (toy_entry ''c'' ''n'' env) empty_ledger = Inr (AUTHORIZED env' 3 ev, l')"
    using toy_authorized by blast
  from authorization_justified [OF this] toy_release_verified [of "''c''" "''n''" env] show ?thesis
    by (auto simp: verifyRelease_ok verify_inputs_release_def)
qed


end
