(* ===== verification/AuthorizerService.thy ===== *)
theory AuthorizerService imports Authorizer begin

text \<open>
  The risk-authorizer service (\<open>apps/risk-authorizer/src/service/authorizer.ts\<close>): it loads the rows
  of one cleared cycle, reads the chain itself, runs the authorization and stores the intent and
  the envelope. The injected sources are a parameter; a source the code catches answers an error
  text or a value, and a source whose failure the code does not catch aborts the request before
  anything changes, except the storing of an authorization, whose failure is modelled. What follows
  is proved of whole runs of requests: a cycle is signed at most once, a nonce never twice, the
  accepted projections only advance, and a restart forgets no open authorization; and what the
  service stores and hands out passes the executor's own verification.
\<close>

section \<open>Sources and state\<close>

record CandidateAsset =
  ca_asset :: AuthAsset
  ca_eligibility :: "jsnum option option"
  ca_features :: "(string \<times> jsnum option) list"

record ServiceAccount =
  sa_id :: uuid
  sa_cluster :: string
  sa_tradingWallet :: sol_address
  sa_settlementMint :: mint_address
  sa_settlementDecimals :: "nat option"
  sa_live :: bool

record SessionGate =
  sg_activity :: string
  sg_paused :: bool
  sg_authority :: CapitalAuthority

record CustodyRef =
  cuf_id :: uuid
  cuf_address :: sol_address
  cuf_mint :: "mint_address option"

record ReferenceQuote =
  rq_impactBps :: "int option"
  rq_slippageBps :: int
  rq_priceUsd :: "jsnum option"
  rq_quotedAtMs :: int

record AuthorizerSources =
  src_cycle :: "uuid \<Rightarrow> ActionCycle option"
  src_proposal :: "uuid \<Rightarrow> Proposal option"
  src_candidate :: "uuid \<Rightarrow> CandidateAsset option"
  src_account :: "uuid \<Rightarrow> ServiceAccount option"
  src_sessionGate :: "uuid \<Rightarrow> SessionGate option"
  src_custody :: "uuid \<Rightarrow> CustodyRef list"
  src_release :: "version_id \<Rightarrow> Release option"
  src_attestation :: "uuid \<Rightarrow> ReleaseAttestation option"
  src_projection :: "uuid \<Rightarrow> RiskStateProjection SignedEnvelope option"
  src_chain :: "sol_address \<Rightarrow> mint_address \<Rightarrow> CustodyRef list \<Rightarrow> string + IndependentChainReads"
  src_mint :: "mint_address \<Rightarrow> string + MintHardState"
  src_referenceQuote :: "mint_address \<Rightarrow> mint_address \<Rightarrow> amount \<Rightarrow> int \<Rightarrow> ReferenceQuote option"
  src_auditEvidence :: "ActionCycle \<Rightarrow> ClearanceAuditEvidence"
  src_emergencyRoute :: "uuid \<Rightarrow> string + EmergencyExitRouteSnapshot option"

record AuthorizerDeps =
  ad_signing :: SigningKeyPair
  ad_projectionKeys :: "VerificationKey list"
  ad_trustedFingerprints :: "sha256_hex list"
  ad_policy :: RiskPolicy
  ad_config :: AuthConfig

record AuthorizerService =
  sv_ledger :: AuthorizationLedger
  sv_lastProjectionSequence :: "int option"

text \<open>One request: its arguments, the clock, what the sources answer and the fresh identifiers.\<close>

record AuthorizeRequest =
  rq_actionCycleId :: uuid
  rq_accountId :: uuid
  rq_now :: instant
  rq_sources :: AuthorizerSources
  rq_persists :: bool
  rq_evaluationId :: uuid
  rq_intentId :: uuid
  rq_nonce :: nonce

definition create_service :: "IssuedAuthorization list \<Rightarrow> ledger_error + AuthorizerService" where
  "create_service stored = ebind (restore_ledger stored) (\<lambda>l. Inr \<lparr>sv_ledger = l, sv_lastProjectionSequence = None\<rparr>)"

section \<open>Loading a request\<close>

definition need :: "'a option \<Rightarrow> string \<Rightarrow> ('a \<Rightarrow> refusal + 'b) \<Rightarrow> refusal + 'b" where
  "need x code k = (case x of None \<Rightarrow> Inl ([code], None) | Some a \<Rightarrow> k a)"

definition truthy :: "uuid option \<Rightarrow> uuid option" where
  "truthy x = (if x = Some [] then None else x)"

definition feature :: "CandidateAsset \<Rightarrow> string \<Rightarrow> jsnum option" where
  "feature c n = default None (map_of (ca_features c) n)"

definition worker_quote ::
  "AuthorizerDeps \<Rightarrow> AuthorizeRequest \<Rightarrow> ServiceAccount \<Rightarrow> CandidateAsset \<Rightarrow> AuthQuote option" where
  "worker_quote d rq a c = (case src_referenceQuote (rq_sources rq) (sa_settlementMint a) (as_mint (ca_asset c))
         (maxPositionValueBaseUnits (ad_policy d)) (rp_maxSlippageBps (ad_policy d)) of
       None \<Rightarrow> None
     | Some q \<Rightarrow> map_option (\<lambda>price. \<lparr>aq_ageMs = max 0 (rq_now rq - rq_quotedAtMs q), aq_impactBps = rq_impactBps q,
           aq_slippageBps = rq_slippageBps q, aq_priceUsd = price, aq_atrPct = feature c ''atr_14_pct'',
           aq_liquidityUsd = orelse (feature c ''liquidity_usd'') (default None (ca_eligibility c))\<rparr>) (rq_priceUsd q))"

definition route_readiness :: "AuthorizeRequest \<Rightarrow> uuid \<Rightarrow> EmergencyRouteVerdict option" where
  "route_readiness rq asset = (case src_emergencyRoute (rq_sources rq) asset of Inl _ \<Rightarrow> None
     | Inr s \<Rightarrow> Some (emergencyRouteReadiness s (rq_now rq) DEFAULT_EMERGENCY_ROUTE_POLICY))"

definition session_allows :: "SessionGate \<Rightarrow> bool" where
  "session_allows g \<longleftrightarrow> (sg_activity g = ''ACTIVE'' \<or> sg_activity g = ''EVENT_WINDOW'') \<and> \<not> sg_paused g"

definition entry_input ::
  "AuthorizerDeps \<Rightarrow> AuthorizerService \<Rightarrow> AuthorizeRequest \<Rightarrow> ActionCycle \<Rightarrow> Proposal \<Rightarrow> CandidateAsset \<Rightarrow> ServiceAccount \<Rightarrow> nat
     \<Rightarrow> SessionGate \<Rightarrow> Release \<Rightarrow> RiskStateProjection SignedEnvelope \<Rightarrow> IndependentChainReads \<Rightarrow> MintHardState \<Rightarrow> AuthorizeEntryInput" where
  "entry_input d s rq cy pr ca a decs g rel pj ch mh = (let src = rq_sources rq in
     \<lparr>ai_now = rq_now rq, ai_cycle = cy, ai_proposal = pr, ai_asset = ca_asset ca, ai_quote = worker_quote d rq a ca,
      ai_release = rel, ai_attestation = src_attestation src (rel_id rel), ai_projection = pj, ai_chain = Some ch,
      ai_mint = Some mh, ai_sessionAllowsEntries = session_allows g,
      ai_emergencyRoute = route_readiness rq (as_id (ca_asset ca)), ai_audit = src_auditEvidence src cy,
      ai_account = \<lparr>ac_id = sa_id a, ac_cluster = sa_cluster a, ac_capitalAuthority = sg_authority g,
        ac_settlementDecimals = decs\<rparr>,
      ai_policy = ad_policy d, ai_signingKey = ad_signing d, ai_projectionKeys = ad_projectionKeys d,
      ai_trustedFingerprints = ad_trustedFingerprints d, ai_lastProjectionSequence = sv_lastProjectionSequence s,
      ai_config = ad_config d, ai_evaluationId = rq_evaluationId rq, ai_newIntentId = rq_intentId rq,
      ai_newNonce = rq_nonce rq\<rparr>)"

definition read_chain ::
  "AuthorizerSources \<Rightarrow> ServiceAccount \<Rightarrow> CandidateAsset \<Rightarrow> refusal + (IndependentChainReads \<times> MintHardState)" where
  "read_chain src a ca =
     (case src_chain src (sa_tradingWallet a) (sa_settlementMint a) (src_custody src (sa_id a)) of
        Inl e \<Rightarrow> Inl ([''CHAIN_READ_FAILED''], Some e)
      | Inr ch \<Rightarrow> (case src_mint src (as_mint (ca_asset ca)) of Inl e \<Rightarrow> Inl ([''CHAIN_READ_FAILED''], Some e)
          | Inr mh \<Rightarrow> Inr (ch, mh)))"

definition load_entry :: "AuthorizerDeps \<Rightarrow> AuthorizerService \<Rightarrow> AuthorizeRequest \<Rightarrow> refusal + AuthorizeEntryInput" where
  "load_entry d s rq = (let src = rq_sources rq in
     need (src_cycle src (rq_actionCycleId rq)) ''CYCLE_NOT_FOUND'' (\<lambda>cy.
     need (truthy (cy_proposalId cy)) ''CYCLE_INCOMPLETE'' (\<lambda>pid.
     need (truthy (cy_candidateId cy)) ''CYCLE_INCOMPLETE'' (\<lambda>cid.
     need (src_proposal src pid) ''PROPOSAL_NOT_FOUND'' (\<lambda>pr.
     need (src_candidate src cid) ''CANDIDATE_NOT_FOUND'' (\<lambda>ca.
     need (src_account src (rq_accountId rq)) ''ACCOUNT_NOT_FOUND'' (\<lambda>a.
     if \<not> sa_live a then Inl ([''ACCOUNT_NOT_LIVE''],
       Some ''the authorizer signs only for LIVE accounts; paper entries never need an envelope'')
     else need (sa_settlementDecimals a) ''SETTLEMENT_ASSET_UNKNOWN'' (\<lambda>decs.
     need (src_sessionGate src (sa_id a)) ''NO_OPEN_SESSION'' (\<lambda>g.
     need (src_release src (cy_strategyVersionId cy)) ''RELEASE_NOT_FOUND'' (\<lambda>rel.
     need (src_projection src (sa_id a)) ''PROJECTION_NOT_FOUND'' (\<lambda>pj.
     ebind (read_chain src a ca) (\<lambda>(ch, mh). Inr (entry_input d s rq cy pr ca a decs g rel pj ch mh)))))))))))))"

section \<open>Serving a request\<close>

datatype RequestOutcome =
    REQUEST_AUTHORIZED "RiskAuthorizedIntent SignedEnvelope" sha256_hex TradeIntent int
  | REQUEST_DENIED AuthorizationDenial

datatype service_error = AUTHORIZE_THREW authorize_error | PERSIST_FAILED

text \<open>The row the service stores, with the key of the entry of its cycle.\<close>

definition persisted_intent :: "ActionCycle \<Rightarrow> RiskEvaluation \<Rightarrow> RiskAuthorizedIntent \<Rightarrow> TradeIntent" where
  "persisted_intent cy ev p = \<lparr>ti_id = intentId p, ti_idempotencyKey = ''entry:'' @ cy_id cy, ti_accountId = accountId p,
     ti_strategyVersionId = strategyVersionId p, ti_sleeveId = sleeveId p, ti_assetId = assetId p, ti_action = action p,
     ti_side = side p, ti_exposureEffect = exposureEffect p, ti_inputMint = inputMint p, ti_outputMint = outputMint p,
     ti_maxInputAmount = maxInputAmount p, ti_riskEvaluationId = re_id ev, ti_actionCycleId = actionCycleId p,
     ti_clearedCutoffVersion = clearedCutoffVersion p,
     ti_constraints = \<lparr>c_maxSlippageBps = maxSlippageBps p, c_maxPriceImpactBps = maxPriceImpactBps p,
       c_chaseToleranceBps = chaseToleranceBps p, c_maxQuoteAgeMs = maxQuoteAgeMs p\<rparr>,
     ti_protectionPolicyRef = None, ti_targetLotIds = targetLotIds p, ti_approvalRequired = approvalRequired p,
     ti_createdAt = issuedAt p, ti_expiresAt = expiresAt p\<rparr>"

definition authorize_request ::
  "crypto \<Rightarrow> AuthorizerDeps \<Rightarrow> AuthorizeRequest \<Rightarrow> AuthorizerService \<Rightarrow> (service_error + RequestOutcome) \<times> AuthorizerService" where
  "authorize_request cr d rq s = (case load_entry d s rq of
       Inl r \<Rightarrow> (Inr (REQUEST_DENIED \<lparr>dn_intentId = None, dn_actionCycleId = rq_actionCycleId rq, dn_deniedAt = rq_now rq,
          dn_reasonCodes = fst r, dn_detail = snd r\<rparr>), s)
     | Inr i \<Rightarrow> (case authorizeEntry cr i (sv_ledger s) of
           Inl e \<Rightarrow> (Inl (AUTHORIZE_THREW e), s)
         | Inr (DENIED dn, l) \<Rightarrow> (Inr (REQUEST_DENIED dn), s\<lparr>sv_ledger := l\<rparr>)
         | Inr (AUTHORIZED env n ev, l) \<Rightarrow>
             (let s' = s\<lparr>sv_ledger := l, sv_lastProjectionSequence := Some n\<rparr> in
              case deriveAuthorizationHash cr (intent_json cr) env of
                Inl e \<Rightarrow> (Inl (AUTHORIZE_THREW (CANONICAL_ERROR e)), s')
              | Inr h \<Rightarrow> if rq_persists rq
                  then (Inr (REQUEST_AUTHORIZED env h (persisted_intent (ai_cycle i) ev (payload env)) n), s')
                  else (Inl PERSIST_FAILED, s'))))"

fun serve_all ::
  "crypto \<Rightarrow> AuthorizerDeps \<Rightarrow> AuthorizeRequest list \<Rightarrow> AuthorizerService
     \<Rightarrow> (service_error + RequestOutcome) list \<times> AuthorizerService" where
  "serve_all cr d [] s = ([], s)"
| "serve_all cr d (rq # rqs) s = (let (out, s') = authorize_request cr d rq s; (outs, s'') = serve_all cr d rqs s'
     in (out # outs, s''))"

definition handed_out :: "(service_error + RequestOutcome) list \<Rightarrow> (RiskAuthorizedIntent SignedEnvelope \<times> int) list" where
  "handed_out outs = concat (map (\<lambda>out. case out of Inr (REQUEST_AUTHORIZED env h ti n) \<Rightarrow> [(env, n)] | _ \<Rightarrow> []) outs)"

section \<open>Runs of requests\<close>

lemma authorized_ledger:
  assumes "authorizeEntry cr i l = Inr (AUTHORIZED env n ev, l')"
  shows "nonceForCycle l (actionCycleId (payload env)) = None \<and> \<not> hasNonce l (rai_nonce (payload env)) \<and>
    (\<forall>c. nonceForCycle l' c = (if c = actionCycleId (payload env) then Some (rai_nonce (payload env)) else nonceForCycle l c)) \<and>
    (\<forall>x. hasNonce l' x \<longleftrightarrow> x = rai_nonce (payload env) \<or> hasNonce l x) \<and>
    (\<forall>m. ai_lastProjectionSequence i = Some m \<longrightarrow> m \<le> n)"
proof -
  from assms obtain c polHash h b where c: "clear_entry cr i l = Inr (Inr c)" and nonce: "\<not> hasNonce l (ai_newNonce i)"
    and b: "b = authorization_body i (cl_projection c) (cl_release c) (cl_projectionHash c) polHash (cl_size c)"
    and env: "signPayload cr (intent_json cr) (b\<lparr>intentHash := h\<rparr>) (ai_signingKey i) (ai_now i) = Inr env"
    and iss: "issue (issued_entry i b) l = Inr l'" and n: "n = pj_sequence (cl_projection c)"
    by (rule authorized_steps)
  from c obtain m where g: "passes (cycle_guards i l)"
    and pj: "verifyProjection cr (verify_inputs_projection i (fst (cl_release c))) = Inr (cl_projection c, m, cl_projectionHash c)"
    by (rule clear_entry_ok)
  have pay: "actionCycleId (payload env) = cy_id (ai_cycle i)" "rai_nonce (payload env) = ai_newNonce i"
    "ia_actionCycleId (issued_entry i b) = cy_id (ai_cycle i)" "ia_nonce (issued_entry i b) = ai_newNonce i"
    using signed_payload [OF env] by (simp_all add: b authorization_body_def Let_def issued_entry_def)
  have "\<forall>k. ai_lastProjectionSequence i = Some k \<longrightarrow> k \<le> n"
    using pj n by (auto simp: verifyProjection_ok verify_inputs_projection_def)
  then show ?thesis
    using g al.issue_cycle [OF iss] al.issue_nonce [OF iss] nonce by (simp add: pay cycle_guards_pass)
qed

lemma denied_ledger: "authorizeEntry cr i l = Inr (DENIED dn, l') \<Longrightarrow> l' = l"
proof -
  assume a: "authorizeEntry cr i l = Inr (DENIED dn, l')"
  then obtain r where "clear_entry cr i l = Inr r" by (auto simp: authorizeEntry_def)
  with a show ?thesis
    by (cases r) (auto simp: authorizeEntry_def sign_entry_def deny_def Let_def map_sum_Inr split: if_splits)
qed

lemma load_last: "load_entry d s rq = Inr i \<Longrightarrow> ai_lastProjectionSequence i = sv_lastProjectionSequence s"
  by (auto simp: load_entry_def need_def entry_input_def Let_def split: option.splits if_splits prod.splits)

definition advances :: "int option \<Rightarrow> int option \<Rightarrow> bool" where
  "advances a b \<longleftrightarrow> (\<forall>m. a = Some m \<longrightarrow> (\<exists>n. b = Some n \<and> m \<le> n))"

text \<open>One request: either the ledger and the sequence stay, or one fresh cycle and nonce are added.\<close>

lemma request_cases:
  assumes "authorize_request cr d rq s = (out, s')"
  shows "(s' = s \<and> handed_out [out] = []) \<or>
    (\<exists>env n. nonceForCycle (sv_ledger s) (actionCycleId (payload env)) = None \<and> \<not> hasNonce (sv_ledger s) (rai_nonce (payload env)) \<and>
       (\<forall>c. nonceForCycle (sv_ledger s') c = (if c = actionCycleId (payload env) then Some (rai_nonce (payload env))
          else nonceForCycle (sv_ledger s) c)) \<and>
       (\<forall>x. hasNonce (sv_ledger s') x \<longleftrightarrow> x = rai_nonce (payload env) \<or> hasNonce (sv_ledger s) x) \<and>
       (\<forall>m. sv_lastProjectionSequence s = Some m \<longrightarrow> m \<le> n) \<and> sv_lastProjectionSequence s' = Some n \<and>
       (handed_out [out] = [] \<or> handed_out [out] = [(env, n)]))"
proof (cases "load_entry d s rq")
  case (Inl r)
  with assms show ?thesis by (intro disjI1) (auto simp: authorize_request_def handed_out_def)
next
  case i: (Inr i)
  show ?thesis
  proof (cases "authorizeEntry cr i (sv_ledger s)")
    case (Inl e)
    with assms i show ?thesis by (intro disjI1) (auto simp: authorize_request_def handed_out_def)
  next
    case (Inr r)
    obtain res l where r: "r = (res, l)" by (cases r)
    show ?thesis
    proof (cases res)
      case (DENIED dn)
      with denied_ledger [of cr i "sv_ledger s" dn l] Inr r have "l = sv_ledger s" by simp
      with assms i Inr r DENIED show ?thesis by (intro disjI1) (auto simp: authorize_request_def handed_out_def)
    next
      case (AUTHORIZED env n ev)
      note L = authorized_ledger [of cr i "sv_ledger s" env n ev l] load_last [OF i]
      from assms i Inr r AUTHORIZED have s': "sv_ledger s' = l" "sv_lastProjectionSequence s' = Some n"
        "handed_out [out] = [] \<or> handed_out [out] = [(env, n)]"
        by (auto simp: authorize_request_def handed_out_def Let_def split: sum.splits if_splits)
      with L Inr r AUTHORIZED show ?thesis by (intro disjI2 exI [of _ env] exI [of _ n]) simp
    qed
  qed
qed

definition fresh_run :: "AuthorizationLedger \<Rightarrow> (RiskAuthorizedIntent SignedEnvelope \<times> int) list \<Rightarrow> bool" where
  "fresh_run l given \<longleftrightarrow> distinct (map (\<lambda>(env, _). actionCycleId (payload env)) given) \<and>
     distinct (map (\<lambda>(env, _). rai_nonce (payload env)) given) \<and>
     list_all (\<lambda>(env, _). nonceForCycle l (actionCycleId (payload env)) = None \<and> \<not> hasNonce l (rai_nonce (payload env))) given"

definition from_sequence :: "int option \<Rightarrow> int list \<Rightarrow> bool" where
  "from_sequence start ns \<longleftrightarrow> sorted ns \<and> (\<forall>m. start = Some m \<longrightarrow> list_all (\<lambda>n. m \<le> n) ns)"

lemma handed_out_Cons: "handed_out (out # outs) = handed_out [out] @ handed_out outs"
  by (simp add: handed_out_def)

lemma serve_all_fresh:
  "serve_all cr d rqs s = (outs, s') \<Longrightarrow> fresh_run (sv_ledger s) (handed_out outs) \<and>
     from_sequence (sv_lastProjectionSequence s) (map snd (handed_out outs))"
proof (induction rqs arbitrary: s outs s')
  case Nil
  then show ?case by (simp add: fresh_run_def from_sequence_def handed_out_def)
next
  case (Cons rq rqs)
  obtain out s1 where one: "authorize_request cr d rq s = (out, s1)" by fastforce
  obtain rest where rest: "serve_all cr d rqs s1 = (rest, s')" and outs: "outs = out # rest"
    using Cons.prems one by (auto simp: Let_def split: prod.splits)
  from Cons.IH [OF rest] have IH: "fresh_run (sv_ledger s1) (handed_out rest)"
    "from_sequence (sv_lastProjectionSequence s1) (map snd (handed_out rest))" by simp_all
  show ?case
  proof (cases "s1 = s \<and> handed_out [out] = []")
    case True
    with IH show ?thesis by (simp add: outs handed_out_Cons [of out rest])
  next
    case False
    with request_cases [OF one] obtain env n where
      a: "nonceForCycle (sv_ledger s) (actionCycleId (payload env)) = None" "\<not> hasNonce (sv_ledger s) (rai_nonce (payload env))"
      and l: "\<forall>c. nonceForCycle (sv_ledger s1) c = (if c = actionCycleId (payload env) then Some (rai_nonce (payload env))
          else nonceForCycle (sv_ledger s) c)" "\<forall>x. hasNonce (sv_ledger s1) x \<longleftrightarrow> x = rai_nonce (payload env) \<or> hasNonce (sv_ledger s) x"
      and q: "\<forall>m. sv_lastProjectionSequence s = Some m \<longrightarrow> m \<le> n" "sv_lastProjectionSequence s1 = Some n"
      and h: "handed_out [out] = [] \<or> handed_out [out] = [(env, n)]" by blast
    from IH l have given: "fresh_run (sv_ledger s) (handed_out rest)"
      "actionCycleId (payload env) \<notin> set (map (\<lambda>(env, _). actionCycleId (payload env)) (handed_out rest))"
      "rai_nonce (payload env) \<notin> set (map (\<lambda>(env, _). rai_nonce (payload env)) (handed_out rest))"
      by (auto simp: fresh_run_def list_all_iff split: if_splits)
    from IH(2) q have "from_sequence (sv_lastProjectionSequence s) (n # map snd (handed_out rest))"
      by (auto simp: from_sequence_def list_all_iff)
    with given a h show ?thesis
      by (auto simp: outs handed_out_Cons [of out rest] fresh_run_def from_sequence_def)
  qed
qed

lemma restored_known: "create_service stored = Inr s \<Longrightarrow> e \<in> set stored \<Longrightarrow>
    nonceForCycle (sv_ledger s) (ia_actionCycleId e) \<noteq> None"
  using al.issued_known [of empty_ledger stored] by (auto simp: create_service_def restore_ledger_def)


text \<open>
  The once-per-cycle guarantee is of requests served one after another. Clearing awaits hashes and
  signatures between reading the ledger and writing it, so two requests for one cycle that are both
  cleared before either is issued are both signed: the ledger only refuses a repeated nonce.
\<close>

lemma interleaved_requests_sign_twice:
  assumes "clear_entry cr i l = Inr (Inr c)" and "clear_entry cr j l = Inr (Inr d)" and "cy_id (ai_cycle i) = cy_id (ai_cycle j)"
    and i: "sign_entry cr i c l = Inr (AUTHORIZED e1 n1 r1, l1)" and j: "sign_entry cr j d l = Inr (AUTHORIZED e2 n2 r2, l2)"
    and "ai_newNonce i \<noteq> ai_newNonce j"
  shows "\<exists>l3. sign_entry cr j d l1 = Inr (AUTHORIZED e2 n2 r2, l3) \<and> actionCycleId (payload e1) = actionCycleId (payload e2)"
proof -
  from i obtain polHash h where si: "issue (issued_entry i (authorization_body i (cl_projection c) (cl_release c) (cl_projectionHash c) polHash (cl_size c))) l = Inr l1"
    "signPayload cr (intent_json cr) (authorization_body i (cl_projection c) (cl_release c) (cl_projectionHash c) polHash (cl_size c)
      \<lparr>intentHash := h\<rparr>) (ai_signingKey i) (ai_now i) = Inr e1"
    by (auto simp: sign_entry_def deny_def Let_def sign_body_def map_sum_Inr split: if_splits)
  from j obtain polHash' h' where sj: "hash_json cr (policy_json (ai_policy j)) = Inr polHash'"
    "sign_body cr j (authorization_body j (cl_projection d) (cl_release d) (cl_projectionHash d) polHash' (cl_size d)) = Inr e2"
    "signPayload cr (intent_json cr) (authorization_body j (cl_projection d) (cl_release d) (cl_projectionHash d) polHash' (cl_size d)
      \<lparr>intentHash := h'\<rparr>) (ai_signingKey j) (ai_now j) = Inr e2"
    "\<not> hasNonce l (ai_newNonce j)" "n2 = pj_sequence (cl_projection d)" "r2 = cl_evaluation d"
    by (auto simp: sign_entry_def deny_def Let_def sign_body_def map_sum_Inr split: if_splits)
  let ?e = "issued_entry j (authorization_body j (cl_projection d) (cl_release d) (cl_projectionHash d) polHash' (cl_size d))"
  have n: "ia_nonce ?e = ai_newNonce j" by (simp add: issued_entry_def authorization_body_def Let_def)
  have fresh: "\<not> hasNonce l1 (ai_newNonce j)"
    using al.issue_nonce [OF si(1)] sj(4) assms(6) by (simp add: issued_entry_def authorization_body_def Let_def)
  then obtain l3 where "issue ?e l1 = Inr l3" using al.issue_fresh [of ?e l1] n by auto
  with fresh sj have "sign_entry cr j d l1 = Inr (AUTHORIZED e2 n2 r2, l3)"
    by (simp add: sign_entry_def canon_err_def)
  moreover have "actionCycleId (payload e1) = actionCycleId (payload e2)"
    using signed_payload [OF si(2)] signed_payload [OF sj(3)] assms(3) by (simp add: authorization_body_def Let_def)
  ultimately show ?thesis by blast
qed

text \<open>Without a quote nothing is ever signed.\<close>

lemma no_quote_never_signed:
  assumes "ai_quote i = None"
  shows "authorizeEntry cr i l \<noteq> Inr (AUTHORIZED env n ev, l')"
proof
  assume "authorizeEntry cr i l = Inr (AUTHORIZED env n ev, l')"
  then obtain c where "clear_entry cr i l = Inr (Inr c)" by (rule authorized_steps)
  then have "evaluate_step i (cl_projection c) l = Inr (Inr (cl_evaluation c, cl_size c))" by (rule clear_entry_ok)
  then obtain s e where "evaluateEntry (ai_policy i) s (entry_proposal i (cl_projection c)) (ai_now i) = Inr e" "re_allowed (ev_record e)"
    by (auto simp: evaluate_step_ok)
  then have "trade_reasons (ai_policy i) s (entry_proposal i (cl_projection c)) (ai_now i) = []" by (rule evaluateEntry_Inr)
  with assms show False by (simp add: trade_reasons_def quote_reasons_def entry_proposal_def Let_def)
qed

section \<open>The executor accepts what the service stores\<close>

lemma persisted_same: "same_intent (persisted_intent cy ev p) p"
  by (simp add: persisted_intent_def same_intent_def)

lemma authority_granted:
  assumes v: "verifySignedEnvelope cr (intent_json cr) (in_envelope x)
      (filter (\<lambda>k. vkeyId k \<in> set (in_acceptedKeyIds x)) (in_keys x)) = Inr k"
    and p: "p = payload (in_envelope x)" "intent_schema_ok is_uuid p" "hash_json cr (unsigned_json cr p) = Inr (intentHash p)"
    and t: "in_now x < expiresAt p" "issuedAt p \<le> in_now x + in_maxSkewMs x" "rai_nonce p \<notin> set (in_usedNonces x)"
    and r: "in_storedIntent x = Some stored" "same_intent stored p"
    and a: "approvalRequired p \<or> capitalAuthority p = LIVE_APPROVAL \<longrightarrow> approved cr x p (payloadHash (in_envelope x))"
    and g: "modeGate (in_mode x) (exposureEffect p) = None"
  shows "verifyAuthority cr is_uuid x = Inr (payloadHash (in_envelope x), p)"
proof -
  from v have k: "list_ex (\<lambda>k. vkeyId k = keyId (in_envelope x)) (filter (\<lambda>k. vkeyId k \<in> set (in_acceptedKeyIds x)) (in_keys x))"
    using find_Some_in by (fastforce simp: verify_envelope_ok accepted_key_def list_ex_iff)
  have h: "deriveAuthorizationHash cr (intent_json cr) (in_envelope x) = Inr (payloadHash (in_envelope x))"
    using v by (simp add: verify_envelope_ok deriveAuthorizationHash_def)
  have rec: "check_record x p = []" using r by (simp add: check_record_none)
  have app: "check_approval cr x p (payloadHash (in_envelope x)) = []" using a by (simp add: check_approval_none)
  show ?thesis
    using p t unfolding verifyAuthority_def Let_def by (simp add: v k h rec [unfolded p(1)] app [unfolded p(1)] g [unfolded p(1)])
qed

text \<open>
  C6: Risk authorizer and executor agree. An authorization the authorizer signed, presented to an
  executor that pins the authorizer's key together with the row the service stored for it, passes
  the executor's reconstruction of authority with exactly the signed payload, whenever the payload
  is schema-valid, the time lies in its window, its nonce is unused there, the mode gate is open
  and, where an approval is required, one was granted; and it never outlives the proposal.
\<close>

theorem authorized_is_executable:
  assumes "authorizeEntry cr i l = Inr (AUTHORIZED env n ev, l')"
    and key: "crypto_ok cr (ai_signingKey i)" "is_key_id (vkeyId (ai_signingKey i))"
    and ex: "in_envelope x = env" "in_storedIntent x = Some (persisted_intent (ai_cycle i) ev (payload env))"
    and pinned: "accepted_key (filter (\<lambda>k. vkeyId k \<in> set (in_acceptedKeyIds x)) (in_keys x)) (vkeyId (ai_signingKey i)) =
      Some (verification_half (ai_signingKey i))"
    and window: "ai_now i \<le> in_now x + in_maxSkewMs x" "in_now x < expiresAt (payload env)"
    and local: "intent_schema_ok is_uuid (payload env)" "rai_nonce (payload env) \<notin> set (in_usedNonces x)"
      "modeGate (in_mode x) INCREASE = None"
      "approvalRequired (payload env) \<longrightarrow> approved cr x (payload env) (payloadHash env)"
  shows "verifyAuthority cr is_uuid x = Inr (payloadHash env, payload env) \<and>
    expiresAt (payload env) \<le> pr_expiresAt (ai_proposal i)"
proof -
  from assms(1) obtain c polHash h b where "clear_entry cr i l = Inr (Inr c)"
    and b: "b = authorization_body i (cl_projection c) (cl_release c) (cl_projectionHash c) polHash (cl_size c)"
    and h: "hash_json cr (unsigned_json cr b) = Inr h"
    and env: "signPayload cr (intent_json cr) (b\<lparr>intentHash := h\<rparr>) (ai_signingKey i) (ai_now i) = Inr env"
    by (rule authorized_steps)
  have pay: "payload env = b\<lparr>intentHash := h\<rparr>" using signed_payload [OF env] by simp
  have f: "issuedAt (payload env) = ai_now i" "exposureEffect (payload env) = INCREASE"
    "approvalRequired (payload env) \<longleftrightarrow> capitalAuthority (payload env) = LIVE_APPROVAL"
    "expiresAt (payload env) \<le> pr_expiresAt (ai_proposal i)"
    by (simp_all add: pay b authorization_body_def Let_def)
  have "verifySignedEnvelope cr (intent_json cr) env (filter (\<lambda>k. vkeyId k \<in> set (in_acceptedKeyIds x)) (in_keys x)) =
      Inr (vkeyId (ai_signingKey i))"
    using sign_then_verify [OF key pinned env] by simp
  then show ?thesis
    using authority_granted [of cr x "vkeyId (ai_signingKey i)" "payload env" is_uuid
        "persisted_intent (ai_cycle i) ev (payload env)"] ex window local h f
    by (simp add: pay persisted_same)
qed

section \<open>Witnesses\<close>

definition toy_route :: EmergencyExitRouteSnapshot where
  "toy_route = \<lparr>route_id = ''r1'', route_assetId = ''a'',
     route_hops = [\<lparr>hop_program = RAYDIUM_CPMM, hop_programId = ''pid'', hop_poolAddress = ''pool'', hop_inputMint = toy_mint,
       hop_outputMint = toy_mint\<rparr>],
     route_settlementMint = toy_mint, poolStateRef = ''ref'', lastRefreshedAt = 9, lastRefreshSlot = 70, capacity = [],
     token2022Compatible = True,
     lastDryRun = Some \<lparr>dr_at = 9, dr_ok = True, simulatedOutputAmount = Some 5, dr_error = None\<rparr>\<rparr>"

definition toy_sources :: "RiskStateProjection SignedEnvelope \<Rightarrow> AuthorizerSources" where
  "toy_sources env = \<lparr>src_cycle = \<lambda>c. Some (toy_cycle c), src_proposal = \<lambda>_. Some (toy_cleared_proposal ''c''),
     src_candidate = \<lambda>_. Some \<lparr>ca_asset = \<lparr>as_id = ''a'', as_mint = toy_mint, as_decimals = 6, as_tokenProgram = TOKEN,
         as_settlementRouteConfirmed = True\<rparr>, ca_eligibility = Some (Some (Fin 1000)), ca_features = []\<rparr>,
     src_account = \<lambda>_. Some \<lparr>sa_id = ''acc'', sa_cluster = ''devnet'', sa_tradingWallet = ''w'', sa_settlementMint = toy_mint,
         sa_settlementDecimals = Some 2, sa_live = True\<rparr>,
     src_sessionGate = \<lambda>_. Some \<lparr>sg_activity = ''ACTIVE'', sg_paused = False, sg_authority = LIVE_AUTO\<rparr>,
     src_custody = \<lambda>_. [], src_release = \<lambda>_. Some toy_armed_release, src_attestation = \<lambda>_. Some toy_armed_attestation,
     src_projection = \<lambda>_. Some env, src_chain = \<lambda>_ _ _. Inr toy_reads,
     src_mint = \<lambda>_. Inr \<lparr>mh_isInitialized = True, mh_mintAuthority = NO_AUTHORITY, mh_freezeAuthority = NO_AUTHORITY, mh_readSlot = 71\<rparr>,
     src_referenceQuote = \<lambda>_ _ _ _. Some \<lparr>rq_impactBps = Some 5, rq_slippageBps = 50, rq_priceUsd = Some (Fin 8), rq_quotedAtMs = 0\<rparr>,
     src_auditEvidence = \<lambda>c. toy_audit (cy_id c), src_emergencyRoute = \<lambda>_. Inr (Some toy_route)\<rparr>"

definition toy_deps :: AuthorizerDeps where
  "toy_deps = \<lparr>ad_signing = toy_key, ad_projectionKeys = [verification_half toy_key], ad_trustedFingerprints = [''fp-1''],
     ad_policy = toy_policy,
     ad_config = \<lparr>cf_projectionMaxAgeMs = 60, cf_intentExpiryMs = 30, cf_balanceToleranceBps = 0, cf_maxSlotLag = 20\<rparr>\<rparr>"

definition toy_request :: "RiskStateProjection SignedEnvelope \<Rightarrow> nonce \<Rightarrow> AuthorizeRequest" where
  "toy_request env non = \<lparr>rq_actionCycleId = ''c'', rq_accountId = ''acc'', rq_now = 10, rq_sources = toy_sources env,
     rq_persists = True, rq_evaluationId = ''ev-1'', rq_intentId = ''in-1'', rq_nonce = non\<rparr>"

text \<open>An authorization of another cycle from before the restart, expired by now.\<close>

definition toy_stored :: IssuedAuthorization where
  "toy_stored = \<lparr>ia_nonce = ''old'', ia_intentId = ''in-0'', ia_actionCycleId = ''c0'', ia_sleeveId = None,
     ia_exposureEffect = INCREASE, ia_maxInputAmount = 40, ia_issuedAt = 0, ia_expiresAt = 5, ia_consumedAt = None\<rparr>"

definition toy_service :: AuthorizerService where
  "toy_service = \<lparr>sv_ledger = \<lparr>al_entries = [(''old'', toy_stored)], al_byCycle = [(''c0'', ''old'')]\<rparr>,
     sv_lastProjectionSequence = None\<rparr>"

lemma toy_created: "create_service [toy_stored] = Inr toy_service"
  by (simp add: create_service_def restore_ledger_def issue_def empty_ledger_def toy_service_def toy_stored_def)

lemma toy_loaded: "load_entry toy_deps toy_service (toy_request env non) = Inr (toy_entry ''c'' non env)"
proof -
  have "route_readiness (toy_request env non) ''a'' = Some \<lparr>readiness = READY, er_reason = None, dryRunAgeMs = Some 1\<rparr>"
    by (simp add: route_readiness_def toy_request_def toy_sources_def emergencyRouteReadiness_def toy_route_def
        DEFAULT_EMERGENCY_ROUTE_POLICY_def)
  then show ?thesis
    by (simp add: load_entry_def need_def truthy_def read_chain_def entry_input_def toy_request_def toy_sources_def toy_cycle_def
        worker_quote_def feature_def session_allows_def toy_deps_def toy_service_def toy_entry_def toy_armed_release_def)
qed

lemma toy_served: "\<exists>env env' h ti s'. authorize_request toy_crypto toy_deps (toy_request env ''n1'') toy_service =
    (Inr (REQUEST_AUTHORIZED env' h ti 3), s')"
proof -
  obtain env where env: "verifySignedEnvelope toy_crypto (projection_json toy_crypto) env [verification_half toy_key] = Inr (vkeyId toy_key)"
    "payload env = toy_projection" "payloadHash env = toy_digest" using toy_projection_signed by blast
  have l: "open_entries (sv_ledger toy_service) 10 = []" "nonceForCycle (sv_ledger toy_service) ''c'' = None"
    "\<not> hasNonce (sv_ledger toy_service) ''n1''"
    by (simp_all add: toy_service_def open_entries_def is_open_def toy_stored_def nonceForCycle_def hasNonce_def)
  obtain env' ev l' where a: "authorizeEntry toy_crypto (toy_entry ''c'' ''n1'' env) (sv_ledger toy_service) = Inr (AUTHORIZED env' 3 ev, l')"
    using toy_authorizes [OF l env] by blast
  have "deriveAuthorizationHash toy_crypto (intent_json toy_crypto) env' = Inr toy_digest"
    by (simp add: deriveAuthorizationHash_def toy_hash_digest plain_intent)
  moreover have "rq_persists (toy_request env ''n1'')" by (simp add: toy_request_def)
  ultimately have "\<exists>ti s'. authorize_request toy_crypto toy_deps (toy_request env ''n1'') toy_service =
      (Inr (REQUEST_AUTHORIZED env' toy_digest ti 3), s')" using a by (simp add: authorize_request_def toy_loaded)
  then show ?thesis by blast
qed


theorem authorized_is_executable_witness:
  "\<exists>x p h. verifyAuthority toy_crypto (\<lambda>_. True) x = Inr (h, p) \<and> maxInputAmount p = 180 \<and> expiresAt p \<le> 100"
proof -
  obtain env where env: "verifySignedEnvelope toy_crypto (projection_json toy_crypto) env [verification_half toy_key] = Inr (vkeyId toy_key)"
    "payload env = toy_projection" "payloadHash env = toy_digest" using toy_projection_signed by blast
  define non where "non = replicate 32 (CHR ''a'')"
  have l: "open_entries empty_ledger 10 = []" "nonceForCycle empty_ledger ''c'' = None" "\<not> hasNonce empty_ledger non"
    by (simp_all add: empty_ledger_def open_entries_def nonceForCycle_def hasNonce_def)
  obtain env' ev l' where a: "authorizeEntry toy_crypto (toy_entry ''c'' non env) empty_ledger = Inr (AUTHORIZED env' 3 ev, l')"
    and p: "payload env' = (authorization_body (toy_entry ''c'' non env) toy_projection (toy_digest, ''att-1'') toy_digest toy_digest 180)
      \<lparr>intentHash := toy_digest\<rparr>" using toy_authorizes [OF l env] by blast
  let ?x = "(toy_input env')\<lparr>in_storedIntent := Some (persisted_intent (ai_cycle (toy_entry ''c'' non env)) ev (payload env')), in_now := 15\<rparr>"
  have fields: "rai_nonce (payload env') = non" "expiresAt (payload env') = 40" "maxInputAmount (payload env') = 180"
    "approvalRequired (payload env') = False" "ai_signingKey (toy_entry ''c'' non env) = toy_key" "ai_now (toy_entry ''c'' non env) = 10"
    "pr_expiresAt (ai_proposal (toy_entry ''c'' non env)) = 100"
    by (simp_all add: p authorization_body_def toy_entry_def Let_def addMs_def toy_cleared_proposal_def)
  have hex: "is_sha256_hex toy_digest" "is_nonce non"
    by (simp_all add: is_sha256_hex_def toy_digest_def non_def is_hex_text_def is_nonce_def list_all_iff toy_hex)
  have m: "is_mint toy_mint" by code_simp
  have schema: "intent_schema_ok (\<lambda>_. True) (payload env')"
    by (simp add: p authorization_body_def Let_def intent_schema_ok_def hex m)
      (simp add: toy_entry_def toy_policy_def toy_cycle_def toy_armed_release_def toy_projection_def cycle_sleeve_def hex m
        is_version_id_def SolanaCluster_def amount_ok_def U64_MAX_def is_bps_def)
  have "modeGate toy_mode INCREASE = None" by (simp add: toy_mode_def modeGate_allows)
  then have "verifyAuthority toy_crypto (\<lambda>_. True) ?x = Inr (payloadHash env', payload env')"
    using authorized_is_executable [OF a, of ?x "\<lambda>_. True"] toy_crypto_ok fields schema
    by (simp add: toy_input_def accepted_key_def verification_half_def)
  with fields show ?thesis by (intro exI [of _ ?x] exI [of _ "payload env'"] exI [of _ "payloadHash env'"]) simp
qed

end
