(* ===== verification/ClmmMath.thy ===== *)
theory ClmmMath imports PoolBytes begin

unbundle bit_operations_syntax

text \<open>
  The price mathematics of Raydium's concentrated-liquidity pools
  (\<open>libs/execution/src/direct-pool/raydium-clmm.ts\<close>): square-root prices in Q64.64, ticks, the amounts between two
  prices and one exact-in step of a swap, with the rounding of the program. A step never consumes more than
  it was given, and all of it unless it reaches its target.
\<close>

section \<open>Constants\<close>

definition FEE_DENOM :: int where "FEE_DENOM = 1000000"
definition MAX_FEE_RATE_NUMERATOR :: int where "MAX_FEE_RATE_NUMERATOR = 100000"
definition MIN_TICK :: int where "MIN_TICK = - 443636"
definition MAX_TICK :: int where "MAX_TICK = 443636"
definition MIN_SQRT_PRICE_X64 :: int where "MIN_SQRT_PRICE_X64 = 4295048016"
definition MAX_SQRT_PRICE_X64 :: int where "MAX_SQRT_PRICE_X64 = 79226673521066979257578248091"
definition U128_MAX :: int where "U128_MAX = push_bit 128 1 - 1"
definition Q64 :: int where "Q64 = push_bit 64 1"

section \<open>Ticks\<close>

definition MAGIC :: "(int \<times> int) list" where
  "MAGIC = [(0x2, 0xfff97272373d4000), (0x4, 0xfff2e50f5f657000), (0x8, 0xffe5caca7e10f000), (0x10, 0xffcb9843d60f7000),
     (0x20, 0xff973b41fa98e800), (0x40, 0xff2ea16466c9b000), (0x80, 0xfe5dee046a9a3800), (0x100, 0xfcbe86c7900bb000),
     (0x200, 0xf987a7253ac65800), (0x400, 0xf3392b0822bb6000), (0x800, 0xe7159475a2caf000), (0x1000, 0xd097f3bdfd2f2000),
     (0x2000, 0xa9f746462d9f8000), (0x4000, 0x70d869a156f31c00), (0x8000, 0x31be135f97ed3200), (0x10000, 0x9aa508b5b85a500),
     (0x20000, 0x5d6af8dedc582c), (0x40000, 0x2216e584f5fa)]"

definition magic_step :: "int \<Rightarrow> int \<Rightarrow> int \<times> int \<Rightarrow> int" where
  "magic_step a ratio bm = (if a AND fst bm \<noteq> 0 then drop_bit 64 (ratio * snd bm) else ratio)"

definition tick_ratio :: "int \<Rightarrow> int" where
  "tick_ratio a = foldl (magic_step a) (if a AND 1 \<noteq> 0 then 0xfffcb933bd6fb800 else Q64) MAGIC"

definition sqrtPriceAtTick :: "int \<Rightarrow> pool_error + int" where
  "sqrtPriceAtTick tick = (if tick < MIN_TICK \<or> tick > MAX_TICK then Inl RANGE_ERROR
     else let ratio = tick_ratio \<bar>tick\<bar> in if tick > 0 then big_div U128_MAX ratio else Inr ratio)"

text \<open>\<open>toString(2).length\<close> of a positive integer.\<close>

function bit_length :: "int \<Rightarrow> nat" where
  "bit_length v = (if v \<le> 0 then 0 else Suc (bit_length (v div 2)))"
  by pat_completeness auto
termination by (relation "measure nat") auto

declare bit_length.simps [simp del]

text \<open>The sixteen bits of the fraction of the binary logarithm.\<close>

function log2_fraction :: "int \<Rightarrow> nat \<Rightarrow> int \<Rightarrow> int \<Rightarrow> int" where
  "log2_fraction bit0 precision r fraction = (if bit0 > 0 \<and> precision < 16
     then let r2 = r * r; more = drop_bit 127 r2 in
       log2_fraction (drop_bit 1 bit0) (Suc precision) (drop_bit (nat (63 + more)) r2) (fraction + bit0 * more)
     else fraction)"
  by pat_completeness auto
termination by (relation "measure (\<lambda>(b, p, r, f). 16 - p)") auto

declare log2_fraction.simps [simp del]

definition tickAtSqrtPrice :: "int \<Rightarrow> pool_error + int" where
  "tickAtSqrtPrice sqrtPriceX64 =
     (if sqrtPriceX64 < MIN_SQRT_PRICE_X64 \<or> sqrtPriceX64 \<ge> MAX_SQRT_PRICE_X64 then Inl RANGE_ERROR
      else let msb = bit_length sqrtPriceX64 - 1;
        integerX32 = push_bit 32 (int msb - 64);
        r = (if msb \<ge> 64 then drop_bit (msb - 63) sqrtPriceX64 else push_bit (63 - msb) sqrtPriceX64);
        log2pX32 = integerX32 + drop_bit 32 (log2_fraction 0x8000000000000000 0 r 0);
        logSqrt10001X64 = log2pX32 * 59543866431248;
        tickLow = drop_bit 64 (logSqrt10001X64 - 184467440737095516);
        tickHigh = drop_bit 64 (logSqrt10001X64 + 15793534762490258745)
      in if tickLow = tickHigh then Inr tickLow
         else ebind (sqrtPriceAtTick tickHigh) (\<lambda>p. Inr (if p \<le> sqrtPriceX64 then tickHigh else tickLow)))"

section \<open>Amounts between two prices\<close>

definition mulDivFloor :: "int \<Rightarrow> int \<Rightarrow> int \<Rightarrow> pool_error + int" where
  "mulDivFloor a b d = big_div (a * b) d"

definition mulDivCeil :: "int \<Rightarrow> int \<Rightarrow> int \<Rightarrow> pool_error + int" where
  "mulDivCeil a b d = big_div (a * b + d - 1) d"

definition divCeil :: "int \<Rightarrow> int \<Rightarrow> pool_error + int" where
  "divCeil a d = big_div (a + d - 1) d"

definition nextSqrtPriceFromAmount0RoundingUp :: "int \<Rightarrow> int \<Rightarrow> int \<Rightarrow> bool \<Rightarrow> pool_error + int" where
  "nextSqrtPriceFromAmount0RoundingUp sqrtPrice liquidity amount add =
     (if amount = 0 then Inr sqrtPrice
      else let numerator1 = push_bit 64 liquidity; product = amount * sqrtPrice in
        if add then
          let denominator = numerator1 + product in
          if denominator \<ge> numerator1 then mulDivCeil numerator1 sqrtPrice denominator
          else ebind (big_div numerator1 sqrtPrice) (\<lambda>q. divCeil numerator1 (q + amount))
        else let denominator = numerator1 - product in
          if denominator \<le> 0 then Inl RANGE_ERROR else mulDivCeil numerator1 sqrtPrice denominator)"

definition nextSqrtPriceFromAmount1RoundingDown :: "int \<Rightarrow> int \<Rightarrow> int \<Rightarrow> bool \<Rightarrow> pool_error + int" where
  "nextSqrtPriceFromAmount1RoundingDown sqrtPrice liquidity amount add =
     (if amount = 0 then Inr sqrtPrice
      else if add then ebind (big_div (push_bit 64 amount) liquidity) (\<lambda>q. Inr (sqrtPrice + q))
      else ebind (divCeil (push_bit 64 amount) liquidity) (\<lambda>q. Inr (sqrtPrice - q)))"

definition nextSqrtPriceFromInput :: "int \<Rightarrow> int \<Rightarrow> int \<Rightarrow> bool \<Rightarrow> pool_error + int" where
  "nextSqrtPriceFromInput sqrtPrice liquidity amountIn zeroForOne =
     (if liquidity \<le> 0 then Inl RANGE_ERROR
      else if zeroForOne then nextSqrtPriceFromAmount0RoundingUp sqrtPrice liquidity amountIn True
      else nextSqrtPriceFromAmount1RoundingDown sqrtPrice liquidity amountIn True)"

text \<open>The amounts in and out to move between two prices at constant liquidity.\<close>

definition deltaAmountsForSwap :: "int \<Rightarrow> int \<Rightarrow> int \<Rightarrow> bool \<Rightarrow> pool_error + int \<times> int" where
  "deltaAmountsForSwap a b liquidity zeroForOne = (let lo = min a b; hi = max a b in
     if lo \<le> 0 then Inl RANGE_ERROR
     else let amount1X64 = liquidity * (hi - lo); sqrtProduct = lo * hi in
       if zeroForOne then ebind (divCeil (push_bit 64 amount1X64) sqrtProduct) (\<lambda>i. Inr (i, drop_bit 64 amount1X64))
       else ebind (big_div (push_bit 64 amount1X64) sqrtProduct) (\<lambda>o'. Inr (drop_bit 64 (amount1X64 + U64_MAX), o')))"

record StepResult =
  sqrtPriceNext :: int
  st_amountIn :: int
  st_amountOut :: int
  st_feeAmount :: int

text \<open>One exact-in step towards a target price.\<close>

definition computeSwapStep :: "int \<Rightarrow> int \<Rightarrow> int \<Rightarrow> int \<Rightarrow> int \<Rightarrow> bool \<Rightarrow> bool \<Rightarrow> pool_error + StepResult" where
  "computeSwapStep sqrtPriceCurrent sqrtPriceTarget liquidity amountRemaining feeRate zeroForOne feeOnInput =
     ebind (if feeOnInput then mulDivFloor amountRemaining (FEE_DENOM - feeRate) FEE_DENOM else Inr amountRemaining) (\<lambda>amountForPrice.
     let reached = (case deltaAmountsForSwap sqrtPriceTarget sqrtPriceCurrent liquidity zeroForOne of
           Inl _ \<Rightarrow> None
         | Inr (i, o') \<Rightarrow> if i \<le> U64_MAX \<and> o' \<le> U64_MAX \<and> amountForPrice \<ge> i then Some (i, o') else None)
     in ebind (case reached of
         Some (i, o') \<Rightarrow> Inr (sqrtPriceTarget, i, o')
       | None \<Rightarrow> ebind (nextSqrtPriceFromInput sqrtPriceCurrent liquidity amountForPrice zeroForOne) (\<lambda>nxt.
           ebind (deltaAmountsForSwap nxt sqrtPriceCurrent liquidity zeroForOne) (\<lambda>(i, o'). Inr (nxt, i, o')))) (\<lambda>(nxt, amountIn, amountOut).
     if feeOnInput then
       ebind (if nxt \<noteq> sqrtPriceTarget then Inr (amountRemaining - amountIn)
              else mulDivCeil amountIn feeRate (FEE_DENOM - feeRate)) (\<lambda>fee.
         Inr \<lparr>sqrtPriceNext = nxt, st_amountIn = amountIn, st_amountOut = amountOut, st_feeAmount = fee\<rparr>)
     else ebind (mulDivCeil amountOut feeRate FEE_DENOM) (\<lambda>fee.
         Inr \<lparr>sqrtPriceNext = nxt, st_amountIn = (if nxt \<noteq> sqrtPriceTarget then amountRemaining else amountIn),
           st_amountOut = amountOut - fee, st_feeAmount = fee\<rparr>)))"

section \<open>The price of every tick\<close>

lemma magic_positive: "\<forall>bm \<in> set MAGIC. 0 < snd bm \<and> snd bm < 2 ^ 64"
  by (simp add: MAGIC_def)

text \<open>A bit never raises the ratio, and taking every bit gives the smallest.\<close>

definition all_bits :: "int list \<Rightarrow> int \<Rightarrow> int" where
  "all_bits ms r = foldl (\<lambda>r m. r * m div 2 ^ 64) r ms"

lemma all_bits_mono: "(\<forall>m \<in> set ms. 0 \<le> m) \<Longrightarrow> r \<le> s \<Longrightarrow> all_bits ms r \<le> all_bits ms s"
  by (induction ms arbitrary: r s) (simp_all add: all_bits_def zdiv_mono1 mult_right_mono)

lemma ratio_between:
  assumes "\<forall>bm \<in> set bs. 0 \<le> snd bm \<and> snd bm < 2 ^ 64" and "0 \<le> r"
  shows "all_bits (map snd bs) r \<le> foldl (magic_step a) r bs \<and> foldl (magic_step a) r bs \<le> r"
  using assms
proof (induction bs arbitrary: r)
  case (Cons bm bs)
  obtain b m where bm: "bm = (b, m)" by (cases bm)
  let ?s = "magic_step a r (b, m)" and ?t = "r * m div 2 ^ 64"
  have m: "0 \<le> m" "m < 2 ^ 64" using Cons.prems bm by auto
  have t: "0 \<le> ?t" "?t \<le> r"
  proof -
    show "0 \<le> ?t" using m Cons.prems by (simp add: pos_imp_zdiv_nonneg_iff)
    have "r * m \<le> r * 2 ^ 64" using m Cons.prems by (intro mult_left_mono) auto
    then have "?t \<le> r * 2 ^ 64 div 2 ^ 64" by (rule zdiv_mono1) simp
    then show "?t \<le> r" by simp
  qed
  then have s: "?t \<le> ?s" "?s \<le> r" "0 \<le> ?s" using Cons.prems by (auto simp: magic_step_def drop_bit_eq_div)
  have "all_bits (map snd bs) ?t \<le> all_bits (map snd bs) ?s"
    by (rule all_bits_mono) (use Cons.prems s in auto)
  moreover have "all_bits (map snd bs) ?s \<le> foldl (magic_step a) ?s bs \<and> foldl (magic_step a) ?s bs \<le> ?s"
    by (rule Cons.IH) (use Cons.prems s in auto)
  ultimately show ?case using s by (simp add: bm all_bits_def)
qed (simp add: all_bits_def)

lemma tick_ratio_range: "0 < tick_ratio a \<and> tick_ratio a \<le> Q64"
proof -
  let ?r = "if a AND 1 \<noteq> 0 then 0xfffcb933bd6fb800 else Q64 :: int"
  have r: "0xfffcb933bd6fb800 \<le> ?r" "?r \<le> Q64" by (simp_all add: Q64_def push_bit_eq_mult)
  have m: "\<forall>bm \<in> set MAGIC. 0 \<le> snd bm \<and> snd bm < 2 ^ 64" using magic_positive by fastforce
  have "0 < all_bits (map snd MAGIC) 0xfffcb933bd6fb800" by (simp add: MAGIC_def all_bits_def)
  also have "\<dots> \<le> all_bits (map snd MAGIC) ?r" by (rule all_bits_mono [OF _ r(1)]) (use m in auto)
  finally show ?thesis using ratio_between [OF m, of ?r a] r by (auto simp: tick_ratio_def Q64_def push_bit_eq_mult)
qed

lemma sqrtPriceAtTick_range:
  assumes "MIN_TICK \<le> tick" and "tick \<le> MAX_TICK"
  shows "\<exists>p. sqrtPriceAtTick tick = Inr p \<and> 0 < p \<and> p \<le> U128_MAX"
proof -
  let ?r = "tick_ratio \<bar>tick\<bar>"
  have r: "0 < ?r" "?r \<le> Q64" using tick_ratio_range by auto
  have q: "Q64 \<le> U128_MAX" "0 < U128_MAX" by (simp_all add: Q64_def U128_MAX_def push_bit_eq_mult)
  then have "0 < U128_MAX div ?r" "U128_MAX div ?r \<le> U128_MAX"
    using r zdiv_mono2 [of U128_MAX 1 ?r] by (simp_all add: pos_imp_zdiv_pos_iff)
  with assms r q show ?thesis by (auto simp: sqrtPriceAtTick_def big_div_def Let_def sdiv_nonneg)
qed

section \<open>One step\<close>

lemma big_div_pos: "0 \<le> a \<Longrightarrow> 0 < d \<Longrightarrow> big_div a d = Inr (a div d)"
  by (simp add: big_div_def sdiv_nonneg)

lemma ceil_div_nonneg: "0 \<le> a \<Longrightarrow> 0 < (d::int) \<Longrightarrow> 0 \<le> (a + d - 1) div d"
  by (simp add: pos_imp_zdiv_nonneg_iff)

lemma ceil_div_le: "a \<le> d * q \<Longrightarrow> 0 < (d::int) \<Longrightarrow> (a + d - 1) div d \<le> q"
proof -
  assume a: "a \<le> d * q" and d: "0 < d"
  have "(a + d - 1) div d \<le> (d * q + (d - 1)) div d" using a d by (intro zdiv_mono1) auto
  also have "\<dots> = q" using d by (simp add: div_pos_pos_trivial)
  finally show ?thesis .
qed

lemma ceil_pos:
  assumes "0 < (d::int)"
  shows "0 \<le> a \<Longrightarrow> divCeil a d = Inr ((a + d - 1) div d)" "0 \<le> a * b \<Longrightarrow> mulDivCeil a b d = Inr ((a * b + d - 1) div d)"
proof -
  show "divCeil a d = Inr ((a + d - 1) div d)" if "0 \<le> a" unfolding divCeil_def by (rule big_div_pos) (use assms that in linarith)+
  show "mulDivCeil a b d = Inr ((a * b + d - 1) div d)" if "0 \<le> a * b"
    unfolding mulDivCeil_def by (rule big_div_pos) (use assms that in linarith)+
qed

lemma delta_amounts:
  assumes "deltaAmountsForSwap a b liquidity z = Inr (i, o')" and "0 \<le> liquidity"
  shows "0 \<le> i \<and> 0 \<le> o'"
proof -
  let ?lo = "min a b" and ?hi = "max a b"
  let ?n = "liquidity * (?hi - ?lo)" and ?m = "push_bit 64 (liquidity * (?hi - ?lo))"
  have lo: "\<not> ?lo \<le> 0" using assms(1) by (auto simp: deltaAmountsForSwap_def Let_def split: if_splits)
  have n: "0 \<le> ?n" "0 \<le> ?m" using assms(2) by (simp_all add: push_bit_eq_mult)
  have p: "0 < ?lo * ?hi" using lo by (intro mult_pos_pos) auto
  have d: "drop_bit 64 k \<ge> 0" if "0 \<le> k" for k :: int using that by (simp add: drop_bit_eq_div pos_imp_zdiv_nonneg_iff)
  show ?thesis
  proof (cases z)
    case True
    then have "i = (?m + ?lo * ?hi - 1) div (?lo * ?hi)" "o' = drop_bit 64 ?n"
      using assms(1) lo ceil_pos(1) [OF p n(2)] by (simp_all add: deltaAmountsForSwap_def Let_def)
    then show ?thesis using ceil_div_nonneg [OF n(2) p] d [OF n(1)] by simp
  next
    case False
    then have "i = drop_bit 64 (?n + U64_MAX)" "o' = ?m div (?lo * ?hi)"
      using assms(1) lo big_div_pos [OF n(2) p] by (simp_all add: deltaAmountsForSwap_def Let_def)
    moreover have "0 \<le> ?m div (?lo * ?hi)" using n p by (simp only: pos_imp_zdiv_nonneg_iff)
    ultimately show ?thesis using d [of "?n + U64_MAX"] n by (simp add: U64_MAX_def)
  qed
qed

text \<open>What a step takes from the remaining input.\<close>

definition step_consumed :: "bool \<Rightarrow> StepResult \<Rightarrow> int" where
  "step_consumed feeOnInput r = (if feeOnInput then st_amountIn r + st_feeAmount r else st_amountIn r)"

text \<open>With the fee on the input, a reached target leaves the fee within the input.\<close>

lemma reached_fee:
  assumes "0 \<le> i" and "0 \<le> rate" and "rate < FEE_DENOM" and "0 \<le> remaining"
    and "i \<le> remaining * (FEE_DENOM - rate) div FEE_DENOM"
  shows "\<exists>f. mulDivCeil i rate (FEE_DENOM - rate) = Inr f \<and> 0 \<le> f \<and> i + f \<le> remaining"
proof -
  let ?d = "FEE_DENOM - rate" and ?f = "(i * rate + (FEE_DENOM - rate) - 1) div (FEE_DENOM - rate)"
  have d: "0 < ?d" and D: "0 < FEE_DENOM" using assms by (simp_all add: FEE_DENOM_def)
  have "FEE_DENOM * i \<le> FEE_DENOM * (remaining * ?d div FEE_DENOM)" using assms(5) D by (intro mult_left_mono) auto
  also have "\<dots> \<le> remaining * ?d" using D by (simp add: minus_mod_eq_mult_div [symmetric])
  finally have "i * rate \<le> ?d * (remaining - i)" by (simp add: algebra_simps)
  then have "?f \<le> remaining - i" by (rule ceil_div_le [OF _ d])
  moreover have "0 \<le> i * rate" using assms by simp
  then have "0 \<le> ?f" "0 \<le> i * rate + ?d - 1" using d ceil_div_nonneg [of "i * rate" ?d] by auto
  ultimately show ?thesis using d by (auto simp: mulDivCeil_def big_div_pos)
qed

text \<open>The price reached from an input costs at most that input: the program's rounding favours the pool.\<close>

lemma ceil_div_ge: "0 < (d::int) \<Longrightarrow> a \<le> d * ((a + d - 1) div d)"
proof -
  assume d: "0 < d"
  have "d * ((a + d - 1) div d) = a + d - 1 - (a + d - 1) mod d" by (simp add: minus_mod_eq_mult_div [symmetric])
  moreover have "(a + d - 1) mod d \<le> d - 1" using d pos_mod_bound [OF d, of "a + d - 1"] by linarith
  ultimately show ?thesis by linarith
qed

lemma next_price_down:
  assumes "0 < L" and "0 < P" and "0 \<le> a"
  shows "\<exists>nxt. nextSqrtPriceFromInput P L a True = Inr nxt \<and> 0 < nxt \<and> nxt \<le> P \<and> push_bit 64 (L * (P - nxt)) \<le> (P * nxt) * a"
proof (cases "a = 0")
  case True
  then show ?thesis using assms by (simp add: nextSqrtPriceFromInput_def nextSqrtPriceFromAmount0RoundingUp_def)
next
  case False
  let ?N = "push_bit 64 L" and ?d = "push_bit 64 L + a * P"
  let ?n = "(?N * P + ?d - 1) div ?d"
  have N: "0 < ?N" "0 < a * P" using assms False by (simp_all add: push_bit_eq_mult)
  then have d: "0 < ?d" "?N \<le> ?d" by linarith+
  have np: "0 < ?N * P" using N assms by simp
  have g: "?N * P \<le> ?d * ?n" by (rule ceil_div_ge [OF d(1)])
  have "?N * P \<le> ?d * P" using d assms by (intro mult_right_mono) auto
  then have le: "?n \<le> P" by (rule ceil_div_le [OF _ d(1)])
  have pos: "0 < ?n" using g np d by (smt (verit) mult_nonneg_nonpos)
  have "?N * (P - ?n) \<le> (P * ?n) * a" using g by (simp add: algebra_simps)
  moreover have "nextSqrtPriceFromInput P L a True = Inr ?n"
    using assms False d np
    by (simp add: nextSqrtPriceFromInput_def nextSqrtPriceFromAmount0RoundingUp_def Let_def mulDivCeil_def big_div_pos)
  ultimately show ?thesis using le pos by (auto simp: push_bit_eq_mult algebra_simps)
qed

lemma next_price_up:
  assumes "0 < L" and "0 < P" and "0 \<le> a"
  shows "\<exists>nxt. nextSqrtPriceFromInput P L a False = Inr nxt \<and> P \<le> nxt \<and> L * (nxt - P) \<le> push_bit 64 a"
proof (cases "a = 0")
  case True
  then show ?thesis using assms by (simp add: nextSqrtPriceFromInput_def nextSqrtPriceFromAmount1RoundingDown_def)
next
  case False
  let ?q = "push_bit 64 a div L"
  have "L * ?q \<le> push_bit 64 a" using assms by (simp add: minus_mod_eq_mult_div [symmetric])
  moreover have "0 \<le> ?q" "0 \<le> push_bit 64 a" using assms by (simp_all add: push_bit_eq_mult pos_imp_zdiv_nonneg_iff)
  moreover have "nextSqrtPriceFromInput P L a False = Inr (P + ?q)"
    using assms False calculation by (simp add: nextSqrtPriceFromInput_def nextSqrtPriceFromAmount1RoundingDown_def big_div_pos)
  ultimately show ?thesis by auto
qed

lemma input_affordable:
  assumes n: "nextSqrtPriceFromInput P L a z = Inr nxt" and d: "deltaAmountsForSwap nxt P L z = Inr (i, o')" and a: "0 \<le> a"
  shows "0 \<le> i \<and> i \<le> a \<and> 0 \<le> o'"
proof -
  have L: "0 < L" using n by (auto simp: nextSqrtPriceFromInput_def split: if_splits)
  have P: "0 < P" "0 < nxt" using d by (auto simp: deltaAmountsForSwap_def Let_def split: if_splits)
  have "i \<le> a"
  proof (cases z)
    case True
    with next_price_down [OF L P(1) a] n have b: "nxt \<le> P" "push_bit 64 (L * (P - nxt)) \<le> (P * nxt) * a" by auto
    have "0 \<le> push_bit 64 (L * (P - nxt))" "0 < nxt * P" using b P L by (simp_all add: push_bit_eq_mult)
    then have "i = (push_bit 64 (L * (P - nxt)) + nxt * P - 1) div (nxt * P)"
      using d True b P by (simp add: deltaAmountsForSwap_def Let_def min_absorb1 max_absorb2 ceil_pos(1))
    with b \<open>0 < nxt * P\<close> show ?thesis by (auto simp: mult.commute intro!: ceil_div_le)
  next
    case False
    with next_price_up [OF L P(1) a] n have b: "P \<le> nxt" "L * (nxt - P) \<le> push_bit 64 a" by auto
    have "i = drop_bit 64 (L * (nxt - P) + U64_MAX)"
      using d False b P L by (auto simp: deltaAmountsForSwap_def Let_def big_div_def min_def max_def split: if_splits)
    then have "i = (L * (nxt - P) + 2 ^ 64 - 1) div 2 ^ 64" by (simp add: drop_bit_eq_div U64_MAX_def)
    then show ?thesis using ceil_div_le [of "L * (nxt - P)" "2 ^ 64" a] b by (simp add: push_bit_eq_mult mult.commute)
  qed
  then show ?thesis using delta_amounts [OF d] L by simp
qed

lemma floor_share:
  assumes "0 \<le> remaining" and "0 \<le> rate" and "rate < FEE_DENOM"
  shows "mulDivFloor remaining (FEE_DENOM - rate) FEE_DENOM = Inr (remaining * (FEE_DENOM - rate) div FEE_DENOM)"
    and "0 \<le> remaining * (FEE_DENOM - rate) div FEE_DENOM" and "remaining * (FEE_DENOM - rate) div FEE_DENOM \<le> remaining"
proof -
  have D: "0 < FEE_DENOM" and p: "0 \<le> remaining * (FEE_DENOM - rate)" using assms by (simp_all add: FEE_DENOM_def)
  show "mulDivFloor remaining (FEE_DENOM - rate) FEE_DENOM = Inr (remaining * (FEE_DENOM - rate) div FEE_DENOM)"
    using D p by (simp add: mulDivFloor_def big_div_pos)
  show "0 \<le> remaining * (FEE_DENOM - rate) div FEE_DENOM" using D p by (simp add: pos_imp_zdiv_nonneg_iff)
  have "remaining * (FEE_DENOM - rate) \<le> remaining * FEE_DENOM" using assms by (intro mult_left_mono) auto
  then have "remaining * (FEE_DENOM - rate) div FEE_DENOM \<le> remaining * FEE_DENOM div FEE_DENOM" using D by (intro zdiv_mono1)
  then show "remaining * (FEE_DENOM - rate) div FEE_DENOM \<le> remaining" using D by simp
qed

text \<open>The target or the price reached, with the amounts both ways and what they may cost.\<close>

lemma swap_step_cases:
  assumes "computeSwapStep P T L remaining rate z fi = Inr r" and "0 \<le> L" and "0 \<le> remaining" and "0 \<le> rate" and "rate < FEE_DENOM"
  shows "\<exists>i o' nxt a. a = (if fi then remaining * (FEE_DENOM - rate) div FEE_DENOM else remaining) \<and> 0 \<le> i \<and> i \<le> a \<and> 0 \<le> o' \<and>
    deltaAmountsForSwap nxt P L z = Inr (i, o') \<and> sqrtPriceNext r = nxt \<and>
    (if fi then st_amountIn r = i \<and> st_amountOut r = o' \<and>
        (if nxt \<noteq> T then st_feeAmount r = remaining - i else mulDivCeil i rate (FEE_DENOM - rate) = Inr (st_feeAmount r))
     else st_amountIn r = (if nxt \<noteq> T then remaining else i) \<and> mulDivCeil o' rate FEE_DENOM = Inr (st_feeAmount r) \<and>
        st_amountOut r = o' - st_feeAmount r)"
proof -
  define a where "a = (if fi then remaining * (FEE_DENOM - rate) div FEE_DENOM else remaining)"
  have a: "0 \<le> a" using floor_share [OF assms(3-5)] assms(3) by (simp add: a_def)
  have share: "(if fi then mulDivFloor remaining (FEE_DENOM - rate) FEE_DENOM else Inr remaining) = Inr a"
    using floor_share [OF assms(3-5)] by (simp add: a_def)
  define reached where "reached = (case deltaAmountsForSwap T P L z of Inl _ \<Rightarrow> None
     | Inr (i, o') \<Rightarrow> if i \<le> U64_MAX \<and> o' \<le> U64_MAX \<and> a \<ge> i then Some (i, o') else None)"
  define moved where "moved = (case reached of Some (i, o') \<Rightarrow> Inr (T, i, o')
       | None \<Rightarrow> ebind (nextSqrtPriceFromInput P L a z) (\<lambda>nxt.
           ebind (deltaAmountsForSwap nxt P L z) (\<lambda>(i, o'). Inr (nxt, i, o'))))"
  have whole: "computeSwapStep P T L remaining rate z fi = ebind moved (\<lambda>(nxt, i, o'). if fi then
       ebind (if nxt \<noteq> T then Inr (remaining - i) else mulDivCeil i rate (FEE_DENOM - rate)) (\<lambda>fee.
         Inr \<lparr>sqrtPriceNext = nxt, st_amountIn = i, st_amountOut = o', st_feeAmount = fee\<rparr>)
     else ebind (mulDivCeil o' rate FEE_DENOM) (\<lambda>fee.
         Inr \<lparr>sqrtPriceNext = nxt, st_amountIn = (if nxt \<noteq> T then remaining else i), st_amountOut = o' - fee, st_feeAmount = fee\<rparr>))"
    unfolding computeSwapStep_def share ebind_Inr Let_def reached_def [symmetric] moved_def [symmetric] by (rule refl)
  obtain nxt i o' where m: "moved = Inr (nxt, i, o')"
    using assms(1) unfolding whole by auto
  have "0 \<le> i \<and> i \<le> a \<and> 0 \<le> o' \<and> deltaAmountsForSwap nxt P L z = Inr (i, o')"
  proof (cases reached)
    case None
    with m obtain "nextSqrtPriceFromInput P L a z = Inr nxt" "deltaAmountsForSwap nxt P L z = Inr (i, o')"
      by (auto simp: moved_def split: prod.splits)
    with input_affordable [OF this a] show ?thesis by blast
  next
    case (Some io)
    then have "deltaAmountsForSwap T P L z = Inr (i, o')" "i \<le> a" "nxt = T"
      using m by (auto simp: moved_def reached_def split: sum.splits prod.splits if_splits)
    with delta_amounts assms(2) show ?thesis by blast
  qed
  then show ?thesis using assms(1) unfolding whole m by (auto simp: a_def split: if_splits)
qed

lemma step_bounds:
  assumes "computeSwapStep P T L remaining rate z fi = Inr r" and "0 \<le> L" and "0 \<le> remaining" and "0 \<le> rate" and "rate < FEE_DENOM"
  shows "0 \<le> step_consumed fi r \<and> step_consumed fi r \<le> remaining \<and> 0 \<le> st_amountOut r \<and> 0 \<le> st_feeAmount r \<and>
    (sqrtPriceNext r \<noteq> T \<longrightarrow> step_consumed fi r = remaining)"
proof -
  from swap_step_cases [OF assms] obtain i o' a where a: "a = (if fi then remaining * (FEE_DENOM - rate) div FEE_DENOM else remaining)"
    and io: "0 \<le> i" "i \<le> a" "0 \<le> o'"
    and r: "if fi then st_amountIn r = i \<and> st_amountOut r = o' \<and>
        (if sqrtPriceNext r \<noteq> T then st_feeAmount r = remaining - i else mulDivCeil i rate (FEE_DENOM - rate) = Inr (st_feeAmount r))
     else st_amountIn r = (if sqrtPriceNext r \<noteq> T then remaining else i) \<and> mulDivCeil o' rate FEE_DENOM = Inr (st_feeAmount r) \<and>
        st_amountOut r = o' - st_feeAmount r" by auto
  show ?thesis
  proof (cases fi)
    case True
    then have "a \<le> remaining" "i \<le> remaining * (FEE_DENOM - rate) div FEE_DENOM" using a io floor_share(3) [OF assms(3-5)] by auto
    with reached_fee [OF io(1) assms(4,5,3)] io r True show ?thesis by (auto simp: step_consumed_def split: if_splits)
  next
    case False
    let ?f = "(o' * rate + FEE_DENOM - 1) div FEE_DENOM"
    have D: "0 < FEE_DENOM" by (simp add: FEE_DENOM_def)
    have p: "0 \<le> o' * rate" "o' * rate \<le> FEE_DENOM * o'"
      using io assms mult_left_mono [of rate FEE_DENOM o'] by (simp_all add: mult.commute)
    then have "0 \<le> ?f" "?f \<le> o'" "0 \<le> o' * rate + FEE_DENOM - 1"
      using ceil_div_nonneg [OF p(1) D] ceil_div_le [OF p(2) D] D by auto
    then show ?thesis using r False io a D by (auto simp: step_consumed_def mulDivCeil_def big_div_pos split: if_splits)
  qed
qed

text \<open>Between two prices the output is worth at most the input at the price the swap starts from.\<close>

lemma delta_spot:
  assumes d: "deltaAmountsForSwap n P L z = Inr (i, o')" and L: "0 \<le> L" and dir: "if z then n \<le> P else P \<le> n"
  shows "if z then o' * 2 ^ 128 \<le> i * (P * P) else o' * (P * P) \<le> i * 2 ^ 128"
proof -
  have pos: "0 < n" "0 < P" using d by (auto simp: deltaAmountsForSwap_def Let_def split: if_splits)
  then have np: "0 < n * P" by simp
  have io: "0 \<le> i" "0 \<le> o'" using delta_amounts [OF d L] by auto
  show ?thesis
  proof (cases z)
    case True
    let ?x = "L * (P - n)" and ?m = "push_bit 64 (L * (P - n))"
    have x: "0 \<le> ?x" "0 \<le> ?m" using dir True L by (simp_all add: push_bit_eq_mult)
    then have e: "i = (?m + n * P - 1) div (n * P)" "o' = ?x div 2 ^ 64"
      using d True dir pos ceil_pos(1) [OF np x(2)] by (simp_all add: deltaAmountsForSwap_def Let_def drop_bit_eq_div min_absorb1 max_absorb2)
    have "2 ^ 64 * o' \<le> ?x" unfolding e by (simp add: minus_mod_eq_mult_div [symmetric])
    then have "2 ^ 64 * (2 ^ 64 * o') \<le> 2 ^ 64 * ?x" by (intro mult_left_mono) simp_all
    moreover have "2 ^ 64 * ?x \<le> (n * P) * i" using ceil_div_ge [OF np, of ?m] by (simp add: e push_bit_eq_mult mult.commute)
    moreover have "(n * P) * i \<le> (P * P) * i" using dir True pos io by (intro mult_right_mono mult_mono) auto
    ultimately show ?thesis using True by (simp add: mult.commute)
  next
    case False
    let ?x = "L * (n - P)" and ?m = "push_bit 64 (L * (n - P))"
    have x: "0 \<le> ?x" "0 \<le> ?m" using dir False L by (simp_all add: push_bit_eq_mult)
    then have e: "i = (?x + 2 ^ 64 - 1) div 2 ^ 64" "o' = ?m div (P * n)"
      using d False dir pos big_div_pos [of ?m "P * n"]
      by (auto simp: deltaAmountsForSwap_def Let_def drop_bit_eq_div min_absorb2 max_absorb1 U64_MAX_def add.commute)
    have "(P * n) * o' \<le> ?m" unfolding e using pos by (simp add: minus_mod_eq_mult_div [symmetric])
    moreover have "?x \<le> 2 ^ 64 * i" using ceil_div_ge [of "2 ^ 64" ?x] by (simp add: e)
    then have "?m \<le> 2 ^ 64 * (2 ^ 64 * i)" by (simp add: push_bit_eq_mult)
    moreover have "(P * P) * o' \<le> (P * n) * o'" using dir False pos io by (intro mult_right_mono mult_left_mono) auto
    ultimately show ?thesis using False by (simp add: mult.commute)
  qed
qed

text \<open>
  C30: a swap step is honest in both directions. Whatever the prices, the liquidity and the fee rate below one, a step
  towards a price ahead of it consumes at most what remains, and all of it unless it reaches its target; it
  never gives a negative amount or fee; and what it gives is worth at most what it consumes at the price it starts from, so
  no rounding of the step lets a quote beat the spot price.
\<close>

theorem swap_step_sound:
  assumes step: "computeSwapStep P T L remaining rate z fi = Inr r"
    and ok: "0 \<le> L" "0 \<le> remaining" "0 \<le> rate" "rate < FEE_DENOM"
    and ahead: "if z then sqrtPriceNext r \<le> P else P \<le> sqrtPriceNext r"
  shows "0 \<le> step_consumed fi r \<and> step_consumed fi r \<le> remaining \<and> (sqrtPriceNext r \<noteq> T \<longrightarrow> step_consumed fi r = remaining) \<and>
    0 \<le> st_amountOut r \<and> 0 \<le> st_feeAmount r \<and>
    (if z then st_amountOut r * 2 ^ 128 \<le> step_consumed fi r * (P * P) else st_amountOut r * (P * P) \<le> step_consumed fi r * 2 ^ 128)"
proof -
  from swap_step_cases [OF step ok] obtain i o' where d: "deltaAmountsForSwap (sqrtPriceNext r) P L z = Inr (i, o')"
    and i: "i \<le> (if fi then remaining * (FEE_DENOM - rate) div FEE_DENOM else remaining)"
    and r: "if fi then st_amountIn r = i \<and> st_amountOut r = o'
      else st_amountIn r = (if sqrtPriceNext r \<noteq> T then remaining else i) \<and> st_amountOut r = o' - st_feeAmount r" by (auto split: if_splits)
  have b: "0 \<le> st_amountOut r" "0 \<le> st_feeAmount r" using step_bounds [OF step ok] by auto
  then have "st_amountOut r \<le> o'" "i \<le> step_consumed fi r" using r i by (auto simp: step_consumed_def split: if_splits)
  then have m: "st_amountOut r * 2 ^ 128 \<le> o' * 2 ^ 128" "i * (P * P) \<le> step_consumed fi r * (P * P)"
    "st_amountOut r * (P * P) \<le> o' * (P * P)" "i * 2 ^ 128 \<le> step_consumed fi r * 2 ^ 128"
    by (auto intro: mult_right_mono)
  show ?thesis using step_bounds [OF step ok] delta_spot [OF d ok(1) ahead] m by (auto split: if_splits)
qed

theorem swap_step_sound_witness:
  "\<exists>r. computeSwapStep (2 * Q64) Q64 1000000 500 2500 True True = Inr r \<and> step_consumed True r = 500 \<and>
     st_amountOut r * 2 ^ 128 \<le> 500 * (2 * Q64 * (2 * Q64))"
proof -
  obtain r where r: "computeSwapStep (2 * Q64) Q64 1000000 500 2500 True True = Inr r"
    and n: "sqrtPriceNext r \<le> 2 * Q64" "sqrtPriceNext r \<noteq> Q64"
    by (simp add: computeSwapStep_def mulDivFloor_def big_div_def FEE_DENOM_def deltaAmountsForSwap_def divCeil_def Q64_def
        nextSqrtPriceFromInput_def nextSqrtPriceFromAmount0RoundingUp_def mulDivCeil_def Let_def U64_MAX_def push_bit_eq_mult
        drop_bit_eq_div sdiv_nonneg)
  from swap_step_sound [OF r] n show ?thesis using r by (auto simp: FEE_DENOM_def)
qed

end
