(* ===== verification/ClmmPool.thy ===== *)
theory ClmmPool imports ConstantProduct ClmmMath begin

unbundle bit_operations_syntax

text \<open>
  The accounts of a Raydium concentrated-liquidity pool
  (\<open>libs/execution/src/direct-pool/raydium-clmm.ts\<close>): the pool's header, its tick arrays with the bitmap that says
  which of them exist, the accounts an exit needs and the decoded state. A tick spacing is positive, as the
  program requires of every pool: \<open>Math.trunc(a / b)\<close> is then the truncating quotient.
\<close>

section \<open>State\<close>

definition RAYDIUM_CLMM_PROGRAM :: string where
  "RAYDIUM_CLMM_PROGRAM = ''CAMMCzo5YL8w4VFF8KVHrK22GGUsp5VTaW7grrKgrWqK''"

definition MEMO_PROGRAM :: string where
  "MEMO_PROGRAM = ''MemoSq4gqABAXKb96qnH8TysNcWxMyWCqXgDLGmfcHr''"

definition TICK_ARRAY_SIZE :: int where "TICK_ARRAY_SIZE = 60"
definition TICK_ARRAY_LEN :: nat where "TICK_ARRAY_LEN = 10240"
definition TICK_LEN :: int where "TICK_LEN = 168"
definition BITMAP_EXT_LEN :: nat where "BITMAP_EXT_LEN = 8 + 32 + 64 * 14 * 2"
definition BITMAP_SIZE :: int where "BITMAP_SIZE = 512"
definition TICK_ARRAYS_FOR_SWAP :: nat where "TICK_ARRAYS_FOR_SWAP = 3"

record DynamicFee =
  filterPeriod :: int
  decayPeriod :: int
  reductionFactor :: int
  dynamicFeeControl :: int
  maxVolatilityAccumulator :: int
  tickSpacingIndexReference :: int
  volatilityReference :: int
  volatilityAccumulator :: int
  lastUpdateTimestamp :: int

record PoolHeader =
  ph_ammConfig :: string
  ph_mint0 :: mint_address
  ph_mint1 :: mint_address
  ph_vault0 :: string
  ph_vault1 :: string
  ph_observation :: string
  tickSpacing :: int
  liquidity :: int
  sqrtPriceX64 :: int
  tickCurrent :: int
  protocolFees0 :: int
  protocolFees1 :: int
  fundFees0 :: int
  fundFees1 :: int
  ph_status :: int
  feeOn :: int
  bitmap :: int
  openTime :: int
  dynamicFee :: "DynamicFee option"

record Tick =
  tk_tick :: int
  liquidityNet :: int
  liquidityGross :: int
  hasLimitOrders :: bool

record TickArray =
  ta_address :: string
  startTick :: int
  ticks :: "Tick list"

text \<open>The positive and negative halves of the bitmap extension.\<close>

type_synonym bitmap_extension = "int list \<times> int list"

record ClmmDetail = PoolHeader +
  tradeFeeRate :: int
  tickArrays :: "TickArray list"
  bitmapExtension :: "string option"
  extension :: "bitmap_extension option"
  transferFee0 :: "TransferFee option"
  transferFee1 :: "TransferFee option"
  tokenProgram0 :: string
  tokenProgram1 :: string
  nowSec :: int

section \<open>Tick arrays and bitmaps\<close>

definition tickArrayStartIndex :: "int \<Rightarrow> int \<Rightarrow> int" where
  "tickArrayStartIndex tick spacing = (let span = TICK_ARRAY_SIZE * spacing; start = tick sdiv span in
     (if tick < 0 \<and> tick smod span \<noteq> 0 then start - 1 else start) * span)"

definition deriveTickArray :: "(bytes \<Rightarrow> bytes) \<Rightarrow> string \<Rightarrow> int \<Rightarrow> pool_error + string" where
  "deriveTickArray sha pool start = ebind (pk pool) (\<lambda>p.
     ebind (findProgramAddress sha [utf8 ''tick_array'', p, i32be start] RAYDIUM_CLMM_PROGRAM) (\<lambda>(a, b). Inr a))"

definition deriveClmmBitmapExtension :: "(bytes \<Rightarrow> bytes) \<Rightarrow> string \<Rightarrow> pool_error + string" where
  "deriveClmmBitmapExtension sha pool = ebind (pk pool) (\<lambda>p.
     ebind (findProgramAddress sha [utf8 ''pool_tick_array_bitmap_extension'', p] RAYDIUM_CLMM_PROGRAM) (\<lambda>(a, b). Inr a))"

definition maxTickInBitmap :: "int \<Rightarrow> int" where
  "maxTickInBitmap spacing = spacing * TICK_ARRAY_SIZE * BITMAP_SIZE"

text \<open>The start of a tick array is a multiple of its span, so the division is exact.\<close>

definition defaultBitmapBit :: "int \<Rightarrow> int \<Rightarrow> int option" where
  "defaultBitmapBit start spacing = (let boundary = maxTickInBitmap spacing in
     if start < - boundary \<or> start \<ge> boundary then None
     else Some (start sdiv (TICK_ARRAY_SIZE * spacing) + BITMAP_SIZE))"

definition extensionWord :: "bitmap_extension \<Rightarrow> int \<Rightarrow> int \<Rightarrow> (int \<times> int) option" where
  "extensionWord ext start spacing = (let
     perBitmap = maxTickInBitmap spacing;
     offset0 = \<bar>start\<bar> sdiv perBitmap - 1;
     offset = (if start < 0 \<and> \<bar>start\<bar> smod perBitmap = 0 then offset0 - 1 else offset0)
   in if offset < 0 \<or> offset \<ge> 14 then None
      else let word = (if start < 0 then snd ext ! nat offset else fst ext ! nat offset);
             m = \<bar>start\<bar> smod perBitmap;
             bit0 = m sdiv (TICK_ARRAY_SIZE * spacing)
           in Some (word, if start < 0 \<and> m \<noteq> 0 then BITMAP_SIZE - bit0 else bit0))"

definition word_bit :: "int \<Rightarrow> int \<Rightarrow> bool" where
  "word_bit word b \<longleftrightarrow> drop_bit (nat b) word AND 1 = 1"

definition isTickArrayInitialised :: "'a PoolHeader_scheme \<Rightarrow> bitmap_extension option \<Rightarrow> int \<Rightarrow> bool option" where
  "isTickArrayInitialised h ext start = (case defaultBitmapBit start (tickSpacing h) of
       Some b \<Rightarrow> Some (word_bit (bitmap h) b)
     | None \<Rightarrow> (case ext of
           None \<Rightarrow> None
         | Some e \<Rightarrow> Some (case extensionWord e start (tickSpacing h) of Some (w, b) \<Rightarrow> word_bit w b | None \<Rightarrow> False)))"

text \<open>The bounded walk: the guard of the source counts the arrays looked at.\<close>

fun walk_arrays :: "nat \<Rightarrow> 'a PoolHeader_scheme \<Rightarrow> bitmap_extension option \<Rightarrow> int \<Rightarrow> int \<Rightarrow> int \<Rightarrow> int \<Rightarrow> int option" where
  "walk_arrays 0 h ext step minStart maxStart s = None"
| "walk_arrays (Suc n) h ext step minStart maxStart s =
     (if s < minStart \<or> s > maxStart then None
      else case isTickArrayInitialised h ext s of
          None \<Rightarrow> None
        | Some True \<Rightarrow> Some s
        | Some False \<Rightarrow> walk_arrays n h ext step minStart maxStart (s + step))"

definition nextInitialisedTickArray :: "'a PoolHeader_scheme \<Rightarrow> bitmap_extension option \<Rightarrow> int \<Rightarrow> bool \<Rightarrow> int option" where
  "nextInitialisedTickArray h ext from zeroForOne = (let
     span = TICK_ARRAY_SIZE * tickSpacing h;
     step = (if zeroForOne then - span else span)
   in walk_arrays (15 * nat BITMAP_SIZE) h ext step (tickArrayStartIndex MIN_TICK (tickSpacing h))
        (tickArrayStartIndex MAX_TICK (tickSpacing h)) (from + step))"

section \<open>Reading the accounts\<close>

text \<open>The words of a bitmap, the lowest first: \<open>bitmap |= w << BigInt(64 * i)\<close>.\<close>

definition read_words :: "nat \<Rightarrow> int byte_prog" where
  "read_words n = bind (for_collect [0..<n] (\<lambda>i. bind rd_u64 (\<lambda>w. return (push_bit (64 * i) w))))
     (\<lambda>ws. return (foldl (\<lambda>a w. a OR w) 0 ws))"

definition read_dynamic_fee :: "DynamicFee byte_prog" where
  "read_dynamic_fee = bind rd_u16 (\<lambda>fp. bind rd_u16 (\<lambda>dp. bind rd_u16 (\<lambda>rf. bind rd_u32 (\<lambda>dc. bind rd_u32 (\<lambda>mv.
     bind rd_i32 (\<lambda>tr. bind rd_u32 (\<lambda>vr. bind rd_u32 (\<lambda>va. bind rd_u64 (\<lambda>lu.
       return \<lparr>filterPeriod = fp, decayPeriod = dp, reductionFactor = rf, dynamicFeeControl = dc, maxVolatilityAccumulator = mv,
         tickSpacingIndexReference = tr, volatilityReference = vr, volatilityAccumulator = va, lastUpdateTimestamp = lu\<rparr>)))))))))"

definition no_dynamic_fee :: DynamicFee where
  "no_dynamic_fee = \<lparr>filterPeriod = 0, decayPeriod = 0, reductionFactor = 0, dynamicFeeControl = 0, maxVolatilityAccumulator = 0,
     tickSpacingIndexReference = 0, volatilityReference = 0, volatilityAccumulator = 0, lastUpdateTimestamp = 0\<rparr>"

definition read_header_fields :: "bytes \<Rightarrow> PoolHeader byte_prog" where
  "read_header_fields bs =
     bind rd_pubkey (\<lambda>ammConfig. andthen rd_pubkey (bind rd_pubkey (\<lambda>mint0. bind rd_pubkey (\<lambda>mint1.
     bind rd_pubkey (\<lambda>vault0. bind rd_pubkey (\<lambda>vault1. bind rd_pubkey (\<lambda>obs. andthen (rd_skip 2)
    (bind rd_u16 (\<lambda>spacing. bind rd_u128 (\<lambda>liq. bind rd_u128 (\<lambda>price. bind rd_i32 (\<lambda>tick. andthen (rd_seek 309)
    (bind rd_u64 (\<lambda>pf0. bind rd_u64 (\<lambda>pf1.
     andthen (rd_seek 904) (bind (read_words 16) (\<lambda>bm.
     andthen (rd_seek 1064) (bind rd_u64 (\<lambda>ff0. bind rd_u64 (\<lambda>ff1. bind rd_u64 (\<lambda>ot.
     andthen (rd_seek 1096) (bind read_dynamic_fee (\<lambda>dyn.
       return \<lparr>ph_ammConfig = ammConfig, ph_mint0 = mint0, ph_mint1 = mint1, ph_vault0 = vault0, ph_vault1 = vault1,
         ph_observation = obs, tickSpacing = spacing, liquidity = liq, sqrtPriceX64 = price, tickCurrent = tick,
         protocolFees0 = pf0, protocolFees1 = pf1, fundFees0 = ff0, fundFees1 = ff1, ph_status = uint (bs ! 389),
         feeOn = uint (bs ! 390), bitmap = bm, openTime = ot,
         dynamicFee = (if dyn = no_dynamic_fee then None else Some dyn)\<rparr>)))))))))))))))))))))))"

definition readHeader :: "RawAccount \<Rightarrow> pool_error + PoolHeader" where
  "readHeader pool =
     (if account_owner pool \<noteq> RAYDIUM_CLMM_PROGRAM then Inl (POOL_DECODE RAYDIUM_CLMM ''pool missing or not owned'')
      else if length (account_data pool) \<noteq> 1544 then Inl (POOL_DECODE RAYDIUM_CLMM ''pool data has the wrong length'')
      else reading (account_data pool) 9 (read_header_fields (account_data pool)))"

definition read_tick :: "bytes \<Rightarrow> nat \<Rightarrow> pool_error + Tick" where
  "read_tick bs i = (let base = 44 + int i * TICK_LEN in
     ebind (reading bs base (bind rd_i32 (\<lambda>t. bind rd_u128 (\<lambda>net. bind rd_u128 (\<lambda>gross. return (t, as_int_n 128 net, gross))))))
       (\<lambda>(t, net, gross). ebind (reading bs (base + 124) rd_u64) (\<lambda>ordersAmount.
          ebind (reading bs (base + 132) rd_u64) (\<lambda>partFilled.
            Inr \<lparr>tk_tick = t, liquidityNet = net, liquidityGross = gross, hasLimitOrders = (ordersAmount > 0 \<or> partFilled > 0)\<rparr>))))"

definition readTickArray :: "RawAccount \<Rightarrow> string \<Rightarrow> pool_error + TickArray" where
  "readTickArray acc pool =
     (if account_owner acc \<noteq> RAYDIUM_CLMM_PROGRAM \<or> length (account_data acc) \<noteq> TICK_ARRAY_LEN
      then Inl (POOL_DECODE RAYDIUM_CLMM ''tick array has the wrong length'')
      else ebind (reading (account_data acc) 8 (bind rd_pubkey (\<lambda>k. bind rd_i32 (\<lambda>start. return (k, start))))) (\<lambda>(k, start).
        if k \<noteq> pool then Inl (POOL_DECODE RAYDIUM_CLMM ''tick array belongs to another pool'')
        else ebind (emap (read_tick (account_data acc)) [0..<nat TICK_ARRAY_SIZE]) (\<lambda>ts.
          Inr \<lparr>ta_address = address acc, startTick = start, ticks = ts\<rparr>)))"

definition parseBitmapExtension :: "RawAccount option \<Rightarrow> pool_error + bitmap_extension option" where
  "parseBitmapExtension acc = (case acc of None \<Rightarrow> Inr None
     | Some a \<Rightarrow> if account_owner a \<noteq> RAYDIUM_CLMM_PROGRAM \<or> length (account_data a) \<noteq> BITMAP_EXT_LEN then Inr None
         else ebind (reading (account_data a) 40
           (bind (for_collect [0..<14] (\<lambda>_. read_words 8)) (\<lambda>positive.
            bind (for_collect [0..<14] (\<lambda>_. read_words 8)) (\<lambda>negative. return (positive, negative))))) (\<lambda>e. Inr (Some e)))"

section \<open>The accounts an exit needs\<close>

definition clmm_requiredAccounts :: "(bytes \<Rightarrow> bytes) \<Rightarrow> DirectPoolHop \<Rightarrow> pool_error + string list" where
  "clmm_requiredAccounts sha hop =
     ebind (deriveClmmBitmapExtension sha (hop_poolAddress hop)) (\<lambda>e. Inr [hop_poolAddress hop, e])"

text \<open>\<open>while (starts.length < TICK_ARRAYS_FOR_SWAP)\<close>, with the arrays still wanted.\<close>

fun collect_starts :: "nat \<Rightarrow> PoolHeader \<Rightarrow> bitmap_extension option \<Rightarrow> bool \<Rightarrow> int \<Rightarrow> int list" where
  "collect_starts 0 h ext zeroForOne cursor = []"
| "collect_starts (Suc n) h ext zeroForOne cursor = (case nextInitialisedTickArray h ext cursor zeroForOne of
       None \<Rightarrow> []
     | Some s \<Rightarrow> s # collect_starts n h ext zeroForOne s)"

definition swap_starts :: "PoolHeader \<Rightarrow> bitmap_extension option \<Rightarrow> bool \<Rightarrow> int list" where
  "swap_starts h ext zeroForOne = (let current = tickArrayStartIndex (tickCurrent h) (tickSpacing h) in
     if isTickArrayInitialised h ext current \<noteq> Some False
     then current # collect_starts (TICK_ARRAYS_FOR_SWAP - 1) h ext zeroForOne current
     else (case nextInitialisedTickArray h ext current zeroForOne of
         Some firstInit \<Rightarrow> firstInit # collect_starts (TICK_ARRAYS_FOR_SWAP - 1) h ext zeroForOne firstInit
       | None \<Rightarrow> collect_starts TICK_ARRAYS_FOR_SWAP h ext zeroForOne current))"

definition clmm_dependentAccounts ::
  "(bytes \<Rightarrow> bytes) \<Rightarrow> DirectPoolHop \<Rightarrow> RawAccount \<Rightarrow> RawAccount option list \<Rightarrow> pool_error + string list" where
  "clmm_dependentAccounts sha hop pool first = ebind (readHeader pool) (\<lambda>h. ebind (parseBitmapExtension (acc_at first 0)) (\<lambda>ext.
     ebind (emap (deriveTickArray sha (hop_poolAddress hop)) (swap_starts h ext (hop_inputMint hop = ph_mint0 h))) (\<lambda>as.
       Inr ([ph_ammConfig h, ph_vault0 h, ph_vault1 h, ph_mint0 h, ph_mint1 h] @ as))))"

section \<open>Decoding\<close>

definition mint_program :: "RawAccount option \<Rightarrow> string" where
  "mint_program a = (case a of None \<Rightarrow> TOKEN_PROGRAM
     | Some x \<Rightarrow> if account_owner x = TOKEN_2022_PROGRAM then TOKEN_2022_PROGRAM else TOKEN_PROGRAM)"

text \<open>The first mint extension an exit cannot honour.\<close>

definition blocked_by :: "MintExtensions \<Rightarrow> MintExtensions \<Rightarrow> string option" where
  "blocked_by e0 e1 = (if transferHook e0 \<or> transferHook e1 then Some ''TRANSFER_HOOK_UNSUPPORTED''
     else if nonTransferable e0 \<or> nonTransferable e1 then Some ''NON_TRANSFERABLE''
     else if pausable e0 \<or> pausable e1 then Some ''PAUSABLE_MINT'' else None)"

definition clmm_detail :: "PoolHeader \<Rightarrow> int \<Rightarrow> TickArray list \<Rightarrow> string option \<Rightarrow> bitmap_extension option \<Rightarrow>
    MintExtensions \<Rightarrow> MintExtensions \<Rightarrow> string \<Rightarrow> string \<Rightarrow> int \<Rightarrow> ClmmDetail" where
  "clmm_detail h rate arrays extAddress ext e0 e1 p0 p1 sec = PoolHeader.extend h
     (ClmmDetail.fields rate arrays extAddress ext (activeTransferFee e0 None) (activeTransferFee e1 None) p0 p1 sec)"

definition clmm_decode :: "DirectPoolHop \<Rightarrow> RawAccount option list \<Rightarrow> int \<Rightarrow> pool_error + ClmmDetail DecodedPoolState" where
  "clmm_decode hop accounts nowMs = (let err = \<lambda>t. POOL_DECODE RAYDIUM_CLMM t in
     ebind (need_some (err ''pool does not exist'') (acc_at accounts 0)) (\<lambda>pool.
     ebind (readHeader pool) (\<lambda>h.
     ebind (need_some (err ''amm config missing'') (owned_by RAYDIUM_CLMM_PROGRAM (acc_at accounts 2))) (\<lambda>config.
     if length (account_data config) < 57 then Inl (err ''amm config missing'')
     else ebind (reading (account_data config) 47 rd_u32) (\<lambda>rate.
     ebind (need_some (err ''vault account missing'') (acc_at accounts 3)) (\<lambda>vault0.
     ebind (need_some (err ''vault account missing'') (acc_at accounts 4)) (\<lambda>vault1.
     ebind (token_amount vault0) (\<lambda>bal0. ebind (token_amount vault1) (\<lambda>bal1.
     ebind (parseBitmapExtension (acc_at accounts 1)) (\<lambda>ext.
     ebind (emap (\<lambda>a. readTickArray a (hop_poolAddress hop)) (map the (filter (\<lambda>a. a \<noteq> None) (drop 7 accounts)))) (\<lambda>arrays.
     if arrays = [] then Inl (err ''no tick array could be loaded'')
     else ebind (decodeMintExtensions (acc_at accounts 5)) (\<lambda>e0. ebind (decodeMintExtensions (acc_at accounts 6)) (\<lambda>e1.
     let blocked = blocked_by e0 e1; sec = nowMs div 1000;
         swapDisabled = ph_status h AND push_bit 4 1 \<noteq> 0; notOpen = openTime h \<ge> sec;
         d = clmm_detail h rate arrays (if ext = None then None else map_option address (acc_at accounts 1)) ext e0 e1
               (mint_program (acc_at accounts 5)) (mint_program (acc_at accounts 6)) sec;
         rA = bal0 - protocolFees0 h - fundFees0 h; rB = bal1 - protocolFees1 h - fundFees1 h
     in Inr \<lparr>ps_program = RAYDIUM_CLMM, ps_poolAddress = hop_poolAddress hop, mintA = ph_mint0 h, mintB = ph_mint1 h,
       tokenProgramA = tokenProgram0 d, tokenProgramB = tokenProgram1 d,
       reserveA = (if rA < 0 then 0 else rA), reserveB = (if rB < 0 then 0 else rB), feeBps = (rate * 10000) sdiv FEE_DENOM,
       tradeable = (\<not> swapDisabled \<and> \<not> notOpen \<and> blocked = None \<and> liquidity h > 0),
       tradeableReason = (if swapDisabled then Some ''SWAP_DISABLED'' else if notOpen then Some ''NOT_OPEN''
         else if blocked \<noteq> None then blocked else if liquidity h \<le> 0 then Some ''ZERO_LIQUIDITY'' else None),
       detail = d\<rparr>)))))))))))))"

end
