(* ===== verification/ClmmQuote.thy ===== *)
theory ClmmQuote imports ClmmPool begin

unbundle bit_operations_syntax

text \<open>
  The local quote of a Raydium concentrated-liquidity pool and the swap instruction
  (\<open>libs/execution/src/direct-pool/raydium-clmm.ts\<close>): the swap loop over initialised ticks with the dynamic fee. The
  two loops have the counters of the source, 4000 turns each, so a quote always ends, with a result or an error.
\<close>

section \<open>The dynamic fee\<close>

definition tickSpacingIndexFromTick :: "int \<Rightarrow> int \<Rightarrow> int" where
  "tickSpacingIndexFromTick tick spacing =
     (if tick smod spacing = 0 \<or> tick \<ge> 0 then tick sdiv spacing else tick sdiv spacing - 1)"

definition dynamicFeeRate :: "DynamicFee \<Rightarrow> int \<Rightarrow> pool_error + int" where
  "dynamicFeeRate dyn spacing = (let
     crossed = volatilityAccumulator dyn * spacing;
     squared = crossed * crossed;
     denominator = 100000 * 10000 * 10000
   in ebind (mulDivCeil (dynamicFeeControl dyn) squared denominator) (\<lambda>rate.
     Inr (if rate > MAX_FEE_RATE_NUMERATOR then MAX_FEE_RATE_NUMERATOR else rate)))"

text \<open>The references at the start of a swap.\<close>

definition start_fee :: "DynamicFee \<Rightarrow> int \<Rightarrow> int \<Rightarrow> DynamicFee" where
  "start_fee dyn index sec = (let elapsed = sec - lastUpdateTimestamp dyn in
     if elapsed \<ge> filterPeriod dyn
     then dyn\<lparr>tickSpacingIndexReference := index,
       volatilityReference := (if elapsed < decayPeriod dyn then (volatilityAccumulator dyn * reductionFactor dyn) sdiv 10000 else 0)\<rparr>
     else dyn)"

definition update_fee :: "DynamicFee \<Rightarrow> int \<Rightarrow> DynamicFee" where
  "update_fee dyn index = (let
     delta = \<bar>tickSpacingIndexReference dyn - index\<bar>;
     v = volatilityReference dyn + delta * 10000
   in dyn\<lparr>volatilityAccumulator := (if v < maxVolatilityAccumulator dyn then v else maxVolatilityAccumulator dyn)\<rparr>)"

section \<open>The state of the walk\<close>

record walk =
  w_remaining :: int
  w_price :: int
  w_tick :: int
  w_liquidity :: int
  w_out :: int
  w_fee :: int
  w_dyn :: "DynamicFee option"
  w_index :: int
  w_array :: nat
  w_firstContains :: bool

definition updateVolatility :: "walk \<Rightarrow> walk" where
  "updateVolatility w = w\<lparr>w_dyn := map_option (\<lambda>dyn. update_fee dyn (w_index w)) (w_dyn w)\<rparr>"

definition totalFeeRate :: "ClmmDetail \<Rightarrow> walk \<Rightarrow> pool_error + int" where
  "totalFeeRate d w = (case w_dyn w of None \<Rightarrow> Inr (tradeFeeRate d)
     | Some dyn \<Rightarrow> ebind (dynamicFeeRate dyn (tickSpacing d)) (\<lambda>r.
         Inr (if tradeFeeRate d + r > MAX_FEE_RATE_NUMERATOR then MAX_FEE_RATE_NUMERATOR else tradeFeeRate d + r)))"

section \<open>The tick-array cursor\<close>

definition live_tick :: "Tick \<Rightarrow> bool" where
  "live_tick t \<longleftrightarrow> liquidityGross t > 0 \<or> hasLimitOrders t"

definition clmm_error :: "string \<Rightarrow> pool_error + 'a" where
  "clmm_error t = Inl (POOL_DECODE RAYDIUM_CLMM t)"

definition firstInitialised :: "bool \<Rightarrow> TickArray \<Rightarrow> pool_error + Tick" where
  "firstInitialised zeroForOne arr = (case find live_tick (if zeroForOne then rev (ticks arr) else ticks arr) of
       None \<Rightarrow> clmm_error ''tick array has no initialised tick'' | Some t \<Rightarrow> Inr t)"

text \<open>In the array of the current tick the search starts at its offset; otherwise the cursor moves on.\<close>

definition search_array :: "ClmmDetail \<Rightarrow> bool \<Rightarrow> walk \<Rightarrow> TickArray \<Rightarrow> Tick option" where
  "search_array d zeroForOne w arr =
     (if tickArrayStartIndex (w_tick w) (tickSpacing d) = startTick arr then
        let offset = nat ((w_tick w - startTick arr) sdiv tickSpacing d) in
        if zeroForOne then find live_tick (rev (take (Suc offset) (ticks arr)))
        else find live_tick (drop (Suc offset) (ticks arr))
      else None)"

definition nextInitialisedTick :: "ClmmDetail \<Rightarrow> bool \<Rightarrow> walk \<Rightarrow> pool_error + Tick \<times> walk" where
  "nextInitialisedTick d zeroForOne w = (let arr = tickArrays d ! w_array w in
     case search_array d zeroForOne w arr of
       Some t \<Rightarrow> Inr (t, w)
     | None \<Rightarrow>
         if \<not> w_firstContains w then ebind (firstInitialised zeroForOne arr) (\<lambda>t. Inr (t, w\<lparr>w_firstContains := True\<rparr>))
         else if Suc (w_array w) < length (tickArrays d)
           then ebind (firstInitialised zeroForOne (tickArrays d ! Suc (w_array w))) (\<lambda>t. Inr (t, w\<lparr>w_array := Suc (w_array w)\<rparr>))
         else clmm_error ''insufficient liquidity within the loaded tick arrays'')"

section \<open>The two loops\<close>

definition clamp_tick :: "int \<Rightarrow> int" where
  "clamp_tick t = max MIN_TICK (min MAX_TICK t)"

text \<open>Where this turn may move to: the target, or one tick spacing while the dynamic fee re-rates.\<close>

definition turn_bound :: "ClmmDetail \<Rightarrow> bool \<Rightarrow> int \<Rightarrow> walk \<Rightarrow> pool_error + int \<times> int option \<times> bool" where
  "turn_bound d zeroForOne targetPrice w = (case w_dyn w of
       None \<Rightarrow> Inr (targetPrice, None, True)
     | Some dyn \<Rightarrow>
         if w_liquidity w = 0 \<or> volatilityAccumulator dyn = maxVolatilityAccumulator dyn then Inr (targetPrice, None, True)
         else let bt = clamp_tick (if zeroForOne then w_index w * tickSpacing d else (w_index w + 1) * tickSpacing d) in
           ebind (sqrtPriceAtTick bt) (\<lambda>bs.
             Inr (if (if zeroForOne then targetPrice > bs else targetPrice < bs) then (targetPrice, None, False) else (bs, Some bt, False))))"

record leg =
  l_next :: Tick
  l_tickNext :: int
  l_priceNextTick :: int
  l_target :: int

text \<open>The liquidity and the tick after a step, crossing the initialised tick when its price is reached.\<close>

definition after_step :: "bool \<Rightarrow> leg \<Rightarrow> walk \<Rightarrow> int \<Rightarrow> int \<times> int option \<Rightarrow> StepResult \<Rightarrow> pool_error + int \<times> int" where
  "after_step zeroForOne l w liquidityNext b st =
     (if l_priceNextTick l = sqrtPriceNext st then
        let crossed = liquidityGross (l_next l) > 0;
            net = (if zeroForOne then - liquidityNet (l_next l) else liquidityNet (l_next l));
            liq = (if crossed then w_liquidity w + net else liquidityNext)
        in if crossed \<and> liq < 0 then clmm_error ''liquidity underflow crossing tick''
           else Inr (liq, if zeroForOne then l_tickNext l - 1 else l_tickNext l)
      else if w_price w \<noteq> sqrtPriceNext st then
        (case snd b of
           Some bt \<Rightarrow> if sqrtPriceNext st = fst b then Inr (liquidityNext, bt)
             else ebind (tickAtSqrtPrice (sqrtPriceNext st)) (\<lambda>t. Inr (liquidityNext, t))
         | None \<Rightarrow> ebind (tickAtSqrtPrice (sqrtPriceNext st)) (\<lambda>t. Inr (liquidityNext, t)))
      else Inr (liquidityNext, w_tick w))"

text \<open>The spacing index the fee follows.\<close>

definition follow_fee :: "ClmmDetail \<Rightarrow> bool \<Rightarrow> leg \<Rightarrow> bool \<Rightarrow> walk \<Rightarrow> walk" where
  "follow_fee d zeroForOne l skipped w = (case w_dyn w of
       None \<Rightarrow> w
     | Some dyn \<Rightarrow>
         if skipped then
           let tickIndex = (if w_price w = l_priceNextTick l then l_tickNext l else w_tick w);
               tsi = tickSpacingIndexFromTick tickIndex (tickSpacing d);
               w' = w\<lparr>w_index := (if \<not> zeroForOne \<and> tickIndex smod tickSpacing d = 0 then tsi - 1 else tsi)\<rparr>
           in if volatilityAccumulator dyn \<noteq> maxVolatilityAccumulator dyn then updateVolatility w' else w'
         else w\<lparr>w_index := w_index w + (if zeroForOne then - 1 else 1)\<rparr>)"

definition zero_step :: "int \<Rightarrow> StepResult" where
  "zero_step price = \<lparr>sqrtPriceNext = price, st_amountIn = 0, st_amountOut = 0, st_feeAmount = 0\<rparr>"

text \<open>One turn of the inner loop; the flag says that it breaks.\<close>

definition inner_turn :: "ClmmDetail \<Rightarrow> bool \<Rightarrow> bool \<Rightarrow> leg \<Rightarrow> walk \<times> int \<Rightarrow> pool_error + (walk \<times> int) \<times> bool" where
  "inner_turn d zeroForOne feeOnInput l wl = (let w = updateVolatility (fst wl) in
     ebind (totalFeeRate d w) (\<lambda>feeRate.
     ebind (turn_bound d zeroForOne (l_target l) w) (\<lambda>(bounded, boundedTick, skipped).
     ebind (if w_price w \<noteq> bounded
            then computeSwapStep (w_price w) bounded (w_liquidity w) (w_remaining w) feeRate zeroForOne feeOnInput
            else Inr (zero_step bounded)) (\<lambda>st.
     let w1 = w\<lparr>w_remaining := w_remaining w - step_consumed feeOnInput st, w_out := w_out w + st_amountOut st,
                w_fee := w_fee w + st_feeAmount st\<rparr>
     in ebind (after_step zeroForOne l w1 (snd wl) (bounded, boundedTick) st) (\<lambda>(liq, t).
       let w2 = follow_fee d zeroForOne l skipped (w1\<lparr>w_tick := t, w_price := sqrtPriceNext st\<rparr>)
       in Inr ((w2, liq), w_remaining w2 = 0 \<or> w_price w2 = l_target l))))))"

fun inner_loop :: "nat \<Rightarrow> ClmmDetail \<Rightarrow> bool \<Rightarrow> bool \<Rightarrow> leg \<Rightarrow> walk \<times> int \<Rightarrow> pool_error + walk \<times> int" where
  "inner_loop 0 d zeroForOne feeOnInput l wl = clmm_error ''bounded walk did not converge''"
| "inner_loop (Suc n) d zeroForOne feeOnInput l wl = ebind (inner_turn d zeroForOne feeOnInput l wl) (\<lambda>(wl', done').
     if done' then Inr wl' else inner_loop n d zeroForOne feeOnInput l wl')"

definition sqrt_limit :: "bool \<Rightarrow> int" where
  "sqrt_limit zeroForOne = (if zeroForOne then MIN_SQRT_PRICE_X64 + 1 else MAX_SQRT_PRICE_X64 - 1)"

text \<open>The target is the price of the next tick, capped at the price limit.\<close>

definition next_leg :: "bool \<Rightarrow> Tick \<Rightarrow> int \<Rightarrow> leg" where
  "next_leg zeroForOne nextTick priceNextTick = (let limit = sqrt_limit zeroForOne in
     \<lparr>l_next = nextTick, l_tickNext = clamp_tick (tk_tick nextTick), l_priceNextTick = priceNextTick,
      l_target = (if zeroForOne \<and> priceNextTick < limit \<or> \<not> zeroForOne \<and> priceNextTick > limit then limit else priceNextTick)\<rparr>)"

definition outer_turn :: "ClmmDetail \<Rightarrow> bool \<Rightarrow> bool \<Rightarrow> walk \<Rightarrow> pool_error + walk" where
  "outer_turn d zeroForOne feeOnInput w0 = ebind (nextInitialisedTick d zeroForOne w0) (\<lambda>(nextTick, w).
     if hasLimitOrders nextTick then clmm_error ''tick carries limit orders''
     else ebind (sqrtPriceAtTick (clamp_tick (tk_tick nextTick))) (\<lambda>priceNextTick.
       ebind (inner_loop 4000 d zeroForOne feeOnInput (next_leg zeroForOne nextTick priceNextTick) (w, w_liquidity w))
         (\<lambda>(w', liq). Inr (w'\<lparr>w_liquidity := liq\<rparr>))))"

fun outer_loop :: "nat \<Rightarrow> ClmmDetail \<Rightarrow> bool \<Rightarrow> bool \<Rightarrow> walk \<Rightarrow> pool_error + walk" where
  "outer_loop n d zeroForOne feeOnInput w =
     (if \<not> (w_remaining w > 0 \<and> w_price w \<noteq> sqrt_limit zeroForOne) then Inr w
      else case n of
          0 \<Rightarrow> clmm_error ''swap walk did not converge''
        | Suc m \<Rightarrow> ebind (outer_turn d zeroForOne feeOnInput w) (outer_loop m d zeroForOne feeOnInput))"

declare outer_loop.simps [simp del]

section \<open>The quote\<close>

definition fee_on_input :: "ClmmDetail \<Rightarrow> bool \<Rightarrow> bool" where
  "fee_on_input d zeroForOne = (if feeOn d = 0 then True else if feeOn d = 1 then zeroForOne else \<not> zeroForOne)"

fun index_of_start :: "int \<Rightarrow> TickArray list \<Rightarrow> nat \<Rightarrow> nat option" where
  "index_of_start s [] i = None"
| "index_of_start s (a # as) i = (if startTick a = s then Some i else index_of_start s as (Suc i))"

definition start_walk :: "ClmmDetail \<Rightarrow> int \<Rightarrow> pool_error + walk" where
  "start_walk d remaining = (let
     idx = (case dynamicFee d of None \<Rightarrow> 0 | Some _ \<Rightarrow> tickSpacingIndexFromTick (tickCurrent d) (tickSpacing d));
     arr0 = index_of_start (tickArrayStartIndex (tickCurrent d) (tickSpacing d)) (tickArrays d) 0
   in if arr0 = None \<and> tickArrays d = [] then clmm_error ''no tick array loaded''
      else Inr \<lparr>w_remaining = remaining, w_price = sqrtPriceX64 d, w_tick = tickCurrent d, w_liquidity = liquidity d,
        w_out = 0, w_fee = 0, w_dyn = map_option (\<lambda>dyn. start_fee dyn idx (nowSec d)) (dynamicFee d), w_index = idx,
        w_array = (case arr0 of Some i \<Rightarrow> i | None \<Rightarrow> 0), w_firstContains = (arr0 \<noteq> None)\<rparr>)"

definition spot_out :: "int \<Rightarrow> bool \<Rightarrow> int \<Rightarrow> pool_error + int" where
  "spot_out price zeroForOne net =
     (if zeroForOne then Inr (drop_bit 64 (drop_bit 64 (net * price) * price))
      else ebind (big_div (push_bit 64 net) price) (\<lambda>q. big_div (push_bit 64 q) price))"

definition clmm_quote :: "ClmmDetail DecodedPoolState \<Rightarrow> mint_address \<Rightarrow> int \<Rightarrow> pool_error + PoolQuote" where
  "clmm_quote st inMint amountIn = (let d = detail st in ebind (swap_direction st inMint) (\<lambda>zeroForOne. let
     onInput = fee_on_input d zeroForOne;
     feeIn = transferFeeAmount (if zeroForOne then transferFee0 d else transferFee1 d) amountIn;
     netIn = amountIn - feeIn
   in ebind (start_walk d netIn) (\<lambda>w0. ebind (outer_loop 4000 d zeroForOne onInput w0) (\<lambda>w.
     if w_remaining w > 0 then clmm_error ''price limit reached before the input was consumed''
     else let feeOut = transferFeeAmount (if zeroForOne then transferFee1 d else transferFee0 d) (w_out w) in
       ebind (if onInput then mulDivCeil netIn (tradeFeeRate d) FEE_DENOM else Inr 0) (\<lambda>feeAtStart.
       ebind (spot_out (sqrtPriceX64 d) zeroForOne (netIn - feeAtStart)) (\<lambda>spot.
         let impact = (if spot > 0 then ((spot - w_out w) * 10000) sdiv spot else 0) in
         Inr \<lparr>pq_inputMint = inMint, pq_outputMint = (if zeroForOne then mintB st else mintA st), pq_inputAmount = amountIn,
           pq_expectedOutputAmount = w_out w - feeOut, pq_feeAmount = w_fee w + feeIn,
           pq_impactBps = max 0 (min 10000 impact)\<rparr>))))))"

definition CLMM_SWAP_V2 :: bytes where
  "CLMM_SWAP_V2 = [43, 4, 237, 11, 26, 201, 30, 98]"

definition clmm_swapInstruction :: "ClmmDetail SwapBuildInput \<Rightarrow> pool_error + DirectPoolInstruction" where
  "clmm_swapInstruction inp = (let st = sb_state inp; d = detail st in
     ebind (swap_direction st (sb_inputMint inp)) (\<lambda>z.
     ebind (u64le (sb_amountIn inp)) (\<lambda>a. ebind (u64le (sb_minimumAmountOut inp)) (\<lambda>m. ebind (u128le 0) (\<lambda>limit.
     Inr \<lparr>ix_programId = RAYDIUM_CLMM_PROGRAM, ix_accounts = [
         meta (sb_user inp) True False, meta (ph_ammConfig d) False False, meta (ps_poolAddress st) False True,
         meta (sb_userSource inp) False True, meta (sb_userDestination inp) False True,
         meta (if z then ph_vault0 d else ph_vault1 d) False True, meta (if z then ph_vault1 d else ph_vault0 d) False True,
         meta (ph_observation d) False True, meta TOKEN_PROGRAM False False, meta TOKEN_2022_PROGRAM False False,
         meta MEMO_PROGRAM False False, meta (sb_inputMint inp) False False,
         meta (if z then mintB st else mintA st) False False] @
         (case bitmapExtension d of None \<Rightarrow> [] | Some e \<Rightarrow> if e = [] then [] else [meta e False True]) @
         map (\<lambda>t. meta (ta_address t) False True) (tickArrays d),
       ix_data = CLMM_SWAP_V2 @ a @ m @ limit @ [1]\<rparr>)))))"

section \<open>The account of a walk\<close>

text \<open>Nothing is negative, the input left and the fee taken on the input never exceed the input.\<close>

definition walk_ok :: "bool \<Rightarrow> int \<Rightarrow> walk \<Rightarrow> bool" where
  "walk_ok feeOnInput amt w \<longleftrightarrow> 0 \<le> w_remaining w \<and> w_remaining w \<le> amt \<and> 0 \<le> w_out w \<and> 0 \<le> w_fee w \<and> 0 \<le> w_liquidity w \<and>
     (feeOnInput \<longrightarrow> w_fee w + w_remaining w \<le> amt) \<and> (\<forall>dyn. w_dyn w = Some dyn \<longrightarrow> 0 \<le> dynamicFeeControl dyn)"

text \<open>What every pool of the program has: fields read as unsigned numbers, fee rates below one.\<close>

definition fee_ok :: "TransferFee option \<Rightarrow> bool" where
  "fee_ok fee \<longleftrightarrow> (\<forall>f. fee = Some f \<longrightarrow> 0 \<le> basisPoints f \<and> basisPoints f \<le> 10000 \<and> 0 \<le> maximumFee f)"

definition detail_ok :: "ClmmDetail \<Rightarrow> bool" where
  "detail_ok d \<longleftrightarrow> 0 \<le> liquidity d \<and> 0 \<le> tradeFeeRate d \<and> tradeFeeRate d < FEE_DENOM \<and>
     (\<forall>dyn. dynamicFee d = Some dyn \<longrightarrow> 0 \<le> dynamicFeeControl dyn) \<and> fee_ok (transferFee0 d) \<and> fee_ok (transferFee1 d)"

lemma walk_ok_updateVolatility [simp]: "walk_ok fi n (updateVolatility w) = walk_ok fi n w"
  by (cases "w_dyn w") (simp_all add: walk_ok_def updateVolatility_def update_fee_def Let_def)

lemma updateVolatility_fields:
  "w_remaining (updateVolatility w) = w_remaining w" "w_price (updateVolatility w) = w_price w"
  "w_liquidity (updateVolatility w) = w_liquidity w"
  by (simp_all add: updateVolatility_def)

lemma walk_ok_unread [simp]:
  "walk_ok fi n (w\<lparr>w_index := k\<rparr>) = walk_ok fi n w" "walk_ok fi n (w\<lparr>w_tick := t, w_price := p\<rparr>) = walk_ok fi n w"
  "walk_ok fi n (w\<lparr>w_array := a\<rparr>) = walk_ok fi n w" "walk_ok fi n (w\<lparr>w_firstContains := b\<rparr>) = walk_ok fi n w"
  by (simp_all add: walk_ok_def)

lemma walk_ok_follow [simp]: "walk_ok fi n (follow_fee d z l sk w) = walk_ok fi n w"
  by (simp add: follow_fee_def Let_def split: option.split)

lemma rate_range:
  assumes d: "detail_ok d" and w: "walk_ok fi n w" and r: "totalFeeRate d w = Inr rate"
  shows "0 \<le> rate \<and> rate < FEE_DENOM"
proof (cases "w_dyn w")
  case None
  then show ?thesis using d r by (simp add: totalFeeRate_def detail_ok_def)
next
  case (Some dyn)
  let ?c = "volatilityAccumulator dyn * tickSpacing d"
  have "0 \<le> dynamicFeeControl dyn * (?c * ?c)" using w Some by (simp add: walk_ok_def)
  then have "mulDivCeil (dynamicFeeControl dyn) (?c * ?c) (100000 * 10000 * 10000)
      = Inr ((dynamicFeeControl dyn * (?c * ?c) + 100000 * 10000 * 10000 - 1) div (100000 * 10000 * 10000))"
    and "0 \<le> (dynamicFeeControl dyn * (?c * ?c) + 100000 * 10000 * 10000 - 1) div (100000 * 10000 * 10000)"
    by (intro ceil_pos(2) ceil_div_nonneg; simp)+
  then obtain q where "dynamicFeeRate dyn (tickSpacing d) = Inr q" "0 \<le> q"
    unfolding dynamicFeeRate_def Let_def by (auto simp: MAX_FEE_RATE_NUMERATOR_def)
  then show ?thesis
    using d r Some by (auto simp: totalFeeRate_def detail_ok_def MAX_FEE_RATE_NUMERATOR_def FEE_DENOM_def split: if_splits)
qed

lemma after_step_liquidity:
  "after_step z l w liq b st = Inr (liq', t) \<Longrightarrow> 0 \<le> liq \<Longrightarrow> 0 \<le> liq'"
  by (auto simp: after_step_def clmm_error_def Let_def split: if_splits option.splits)

lemma zero_step_consumed [simp]: "step_consumed fi (zero_step p) = 0" "st_amountOut (zero_step p) = 0" "st_feeAmount (zero_step p) = 0"
  by (simp_all add: step_consumed_def zero_step_def)

lemma inner_turn_ok:
  assumes d: "detail_ok d" and w: "walk_ok fi n (fst wl)" "0 \<le> snd wl" and t: "inner_turn d z fi l wl = Inr (wl', b)"
  shows "walk_ok fi n (fst wl') \<and> 0 \<le> snd wl'"
proof -
  let ?w = "updateVolatility (fst wl)"
  have ok: "walk_ok fi n ?w" using w by simp
  from t obtain rate bounded bt sk st liq tk where rate: "totalFeeRate d ?w = Inr rate"
    and st: "(if w_price ?w \<noteq> bounded then computeSwapStep (w_price ?w) bounded (w_liquidity ?w) (w_remaining ?w) rate z fi
            else Inr (zero_step bounded)) = Inr st"
    and a: "after_step z l (?w\<lparr>w_remaining := w_remaining ?w - step_consumed fi st, w_out := w_out ?w + st_amountOut st,
                w_fee := w_fee ?w + st_feeAmount st\<rparr>) (snd wl) (bounded, bt) st = Inr (liq, tk)"
    and wl': "wl' = (follow_fee d z l sk (?w\<lparr>w_remaining := w_remaining ?w - step_consumed fi st, w_out := w_out ?w + st_amountOut st,
                w_fee := w_fee ?w + st_feeAmount st, w_tick := tk, w_price := sqrtPriceNext st\<rparr>), liq)"
    unfolding inner_turn_def Let_def ebind_eq_Inr by (clarsimp split: prod.splits)
  have r: "0 \<le> rate" "rate < FEE_DENOM" using rate_range [OF d ok rate] by auto
  have s: "0 \<le> step_consumed fi st \<and> step_consumed fi st \<le> w_remaining ?w \<and> 0 \<le> st_amountOut st \<and> 0 \<le> st_feeAmount st \<and>
    (fi \<longrightarrow> st_feeAmount st \<le> step_consumed fi st)"
  proof (cases "w_price ?w \<noteq> bounded")
    case True
    then have c: "computeSwapStep (w_price ?w) bounded (w_liquidity ?w) (w_remaining ?w) rate z fi = Inr st" using st by simp
    have pre: "0 \<le> w_liquidity ?w" "0 \<le> w_remaining ?w" using ok by (simp_all add: walk_ok_def)
    have "fi \<longrightarrow> st_feeAmount st \<le> step_consumed fi st"
      using swap_step_cases [OF c pre r] by (auto simp: step_consumed_def)
    with step_bounds [OF c pre r] show ?thesis by blast
  next
    case False
    then show ?thesis using st ok by (auto simp: walk_ok_def)
  qed
  have "walk_ok fi n (?w\<lparr>w_remaining := w_remaining ?w - step_consumed fi st, w_out := w_out ?w + st_amountOut st,
                w_fee := w_fee ?w + st_feeAmount st\<rparr>)"
    using ok s unfolding walk_ok_def by (auto simp: step_consumed_def split: if_splits)
  with after_step_liquidity [OF a w(2)] show ?thesis by (simp add: wl')
qed

lemma inner_loop_ok:
  "inner_loop k d z fi l wl = Inr wl' \<Longrightarrow> detail_ok d \<Longrightarrow> walk_ok fi n (fst wl) \<Longrightarrow> 0 \<le> snd wl \<Longrightarrow>
     walk_ok fi n (fst wl') \<and> 0 \<le> snd wl'"
proof (induction k arbitrary: wl)
  case (Suc k)
  then obtain wl1 b where t: "inner_turn d z fi l wl = Inr (wl1, b)"
    and n: "(if b then Inr wl1 else inner_loop k d z fi l wl1) = Inr wl'" by (auto split: prod.splits)
  from inner_turn_ok [OF Suc.prems(2,3,4) t] Suc.IH [of wl1] Suc.prems(2) n show ?case by (auto split: if_splits)
qed (simp add: clmm_error_def)

lemma outer_turn_ok:
  assumes "outer_turn d z fi w = Inr w'" and d: "detail_ok d" and ok: "walk_ok fi n w"
  shows "walk_ok fi n w'"
proof -
  from assms(1) obtain t w1 l w2 liq where n: "nextInitialisedTick d z w = Inr (t, w1)"
    and i: "inner_loop 4000 d z fi l (w1, w_liquidity w1) = Inr (w2, liq)" and w': "w' = w2\<lparr>w_liquidity := liq\<rparr>"
    unfolding outer_turn_def clmm_error_def by (auto simp del: inner_loop.simps split: if_splits)
  have w1: "walk_ok fi n w1"
    using n ok unfolding nextInitialisedTick_def Let_def clmm_error_def by (auto split: option.splits if_splits)
  then have "0 \<le> w_liquidity w1" by (simp add: walk_ok_def)
  with inner_loop_ok [OF i d, of n] w1 have "walk_ok fi n w2" "0 \<le> liq" unfolding fst_conv snd_conv by blast+
  then show ?thesis unfolding w' walk_ok_def by simp
qed

lemma outer_loop_ok:
  "outer_loop k d z fi w = Inr w' \<Longrightarrow> detail_ok d \<Longrightarrow> walk_ok fi n w \<Longrightarrow> walk_ok fi n w'"
proof (induction k arbitrary: w)
  case 0
  then show ?case by (subst (asm) outer_loop.simps) (auto simp: clmm_error_def split: if_splits)
next
  case (Suc k)
  show ?case
  proof (cases "w_remaining w > 0 \<and> w_price w \<noteq> sqrt_limit z")
    case True
    then have "ebind (outer_turn d z fi w) (outer_loop k d z fi) = Inr w'" using Suc.prems(1) by (subst (asm) outer_loop.simps) simp
    then obtain w1 where "outer_turn d z fi w = Inr w1" "outer_loop k d z fi w1 = Inr w'" by auto
    with Suc.IH outer_turn_ok Suc.prems(2,3) show ?thesis by blast
  next
    case False
    then show ?thesis using Suc.prems by (subst (asm) outer_loop.simps) simp
  qed
qed

lemma fee_ok_range: "fee_ok fee \<Longrightarrow> 0 \<le> a \<Longrightarrow> 0 \<le> transferFeeAmount fee a \<and> transferFeeAmount fee a \<le> a"
  by (rule fee_range) (auto simp: fee_ok_def)

text \<open>
  C29: a concentrated-liquidity quote is for the whole input or not given. Whatever ticks, liquidity and dynamic fee
  the accounts hold, the two loops end, with an error or with a walk that consumed all of the input left by the
  transfer fee; the quoted output is never negative and never above what the walk collected, the quoted fee is never
  negative and, when the fee is on the input, never above the input, and the impact is within 0 and 10000 basis points.
\<close>

theorem clmm_quote_whole_input:
  assumes q: "clmm_quote st m amountIn = Inr q" and d: "detail_ok (detail st)" and a: "0 \<le> amountIn"
  shows "\<exists>w0 w. start_walk (detail st) (amountIn - transferFeeAmount (if m = mintA st then transferFee0 (detail st) else transferFee1 (detail st)) amountIn) = Inr w0 \<and>
      outer_loop 4000 (detail st) (m = mintA st) (fee_on_input (detail st) (m = mintA st)) w0 = Inr w \<and> w_remaining w = 0 \<and>
      0 \<le> pq_expectedOutputAmount q \<and> pq_expectedOutputAmount q \<le> w_out w \<and> pq_inputAmount q = amountIn \<and>
      0 \<le> pq_feeAmount q \<and> (fee_on_input (detail st) (m = mintA st) \<longrightarrow> pq_feeAmount q \<le> amountIn) \<and>
      0 \<le> pq_impactBps q \<and> pq_impactBps q \<le> 10000 \<and> m \<in> {mintA st, mintB st}"
proof -
  let ?d = "detail st" and ?z = "m = mintA st"
  let ?fi = "fee_on_input ?d ?z" and ?fin = "transferFeeAmount (if ?z then transferFee0 ?d else transferFee1 ?d) amountIn"
  have m: "m \<in> {mintA st, mintB st}" "swap_direction st m = Inr ?z" using q by (auto simp: clmm_quote_def swap_direction_def Let_def split: if_splits)
  from q obtain w0 w where w0: "start_walk ?d (amountIn - ?fin) = Inr w0" and w: "outer_loop 4000 ?d ?z ?fi w0 = Inr w"
    and left: "\<not> w_remaining w > 0"
    and out: "pq_expectedOutputAmount q = w_out w - transferFeeAmount (if ?z then transferFee1 ?d else transferFee0 ?d) (w_out w)"
    and fee: "pq_feeAmount q = w_fee w + ?fin" and i: "pq_inputAmount q = amountIn" "0 \<le> pq_impactBps q" "pq_impactBps q \<le> 10000"
    unfolding clmm_quote_def Let_def m(2) by (auto simp: clmm_error_def split: if_splits)
  have fin: "0 \<le> ?fin" "?fin \<le> amountIn" using fee_ok_range [OF _ a] d by (auto simp: detail_ok_def)
  have "walk_ok ?fi (amountIn - ?fin) w0"
    using w0 d fin by (auto simp: start_walk_def Let_def walk_ok_def detail_ok_def start_fee_def clmm_error_def split: if_splits)
  from outer_loop_ok [OF w d this] have ok: "walk_ok ?fi (amountIn - ?fin) w" .
  then have "0 \<le> w_out w" by (simp add: walk_ok_def)
  then have "0 \<le> pq_expectedOutputAmount q" "pq_expectedOutputAmount q \<le> w_out w"
    using fee_ok_range d by (auto simp: out detail_ok_def)
  then show ?thesis using w0 w left ok fee fin i m(1) by (auto simp: walk_ok_def)
qed

text \<open>A pool at tick 10 whose next initialised tick below is tick 5.\<close>

definition toy_tick :: "int \<Rightarrow> int \<Rightarrow> Tick" where
  "toy_tick t gross = \<lparr>tk_tick = t, liquidityNet = gross, liquidityGross = gross, hasLimitOrders = False\<rparr>"

definition toy_clmm :: "ClmmDetail DecodedPoolState" where
  "toy_clmm = \<lparr>ps_program = RAYDIUM_CLMM, ps_poolAddress = ''pool'', mintA = ''a'', mintB = ''b'', tokenProgramA = ''t'',
     tokenProgramB = ''t'', reserveA = 1000, reserveB = 1000, feeBps = 25, tradeable = True, tradeableReason = None,
     detail = \<lparr>ph_ammConfig = ''c'', ph_mint0 = ''a'', ph_mint1 = ''b'', ph_vault0 = ''v'', ph_vault1 = ''w'', ph_observation = ''o'',
       tickSpacing = 1, liquidity = 1000000000, sqrtPriceX64 = 18455969290605287889, tickCurrent = 10, protocolFees0 = 0,
       protocolFees1 = 0, fundFees0 = 0, fundFees1 = 0, ph_status = 0, feeOn = 0, bitmap = 0, openTime = 0, dynamicFee = None,
       tradeFeeRate = 2500,
       tickArrays = [\<lparr>ta_address = ''x'', startTick = 0, ticks = map (\<lambda>i. toy_tick i (if i = 5 then 7 else 0)) [0..59]\<rparr>],
       bitmapExtension = None, extension = None, transferFee0 = None, transferFee1 = None, tokenProgram0 = ''t'',
       tokenProgram1 = ''t'', nowSec = 1\<rparr>\<rparr>"

theorem clmm_quote_whole_input_witness:
  "\<exists>q. clmm_quote toy_clmm ''a'' 100000 = Inr q \<and> 0 \<le> pq_expectedOutputAmount q \<and> pq_feeAmount q \<le> 100000"
proof -
  have "case clmm_quote toy_clmm ''a'' 100000 of Inr q \<Rightarrow> True | Inl _ \<Rightarrow> False" by code_simp
  then obtain q where q: "clmm_quote toy_clmm ''a'' 100000 = Inr q" by (auto split: sum.splits)
  have "detail_ok (detail toy_clmm)" by (simp add: detail_ok_def toy_clmm_def fee_ok_def FEE_DENOM_def)
  from clmm_quote_whole_input [OF q this] show ?thesis
    using q by (auto simp: fee_on_input_def toy_clmm_def)
qed

end
