(* ===== verification/PoolAdapters.thy ===== *)
theory PoolAdapters imports EmergencyRoute ClmmQuote begin

text \<open>
  The interface of a direct-pool family (\<open>DirectPoolAdapter\<close> of \<open>libs/execution/src/direct-pool/types.ts\<close>) as a contract
  on its swap instruction, what the emergency route builds from any adapter that keeps it, and the three Raydium
  families as its instances.
\<close>

section \<open>The families\<close>

definition RaydiumCpmmAdapter :: "(bytes \<Rightarrow> bytes) \<Rightarrow> CpmmDetail DirectPoolAdapter" where
  "RaydiumCpmmAdapter sha = \<lparr>da_program = RAYDIUM_CPMM, da_programId = RAYDIUM_CPMM_PROGRAM,
     da_requiredAccounts = (\<lambda>hop. Inr (cpmm_requiredAccounts hop)), da_dependentAccounts = (\<lambda>hop pool first. cpmm_dependentAccounts pool),
     da_decode = cpmm_decode sha, da_quote = cpmm_quote, da_swapInstruction = cpmm_swapInstruction sha\<rparr>"

definition RaydiumAmmV4Adapter :: "(bytes \<Rightarrow> bytes) \<Rightarrow> AmmV4Detail DirectPoolAdapter" where
  "RaydiumAmmV4Adapter sha = \<lparr>da_program = RAYDIUM_AMM_V4, da_programId = RAYDIUM_AMM_V4_PROGRAM,
     da_requiredAccounts = (\<lambda>hop. Inr (ammv4_requiredAccounts hop)), da_dependentAccounts = (\<lambda>hop pool first. ammv4_dependentAccounts pool),
     da_decode = (\<lambda>hop accounts nowMs. ammv4_decode sha hop accounts), da_quote = ammv4_quote, da_swapInstruction = ammv4_swapInstruction\<rparr>"

definition RaydiumClmmAdapter :: "(bytes \<Rightarrow> bytes) \<Rightarrow> ClmmDetail DirectPoolAdapter" where
  "RaydiumClmmAdapter sha = \<lparr>da_program = RAYDIUM_CLMM, da_programId = RAYDIUM_CLMM_PROGRAM,
     da_requiredAccounts = clmm_requiredAccounts sha, da_dependentAccounts = clmm_dependentAccounts sha,
     da_decode = clmm_decode, da_quote = clmm_quote, da_swapInstruction = clmm_swapInstruction\<rparr>"

section \<open>The contract\<close>

text \<open>Both amounts of the swap, as the program reads them from the instruction's data.\<close>

definition swap_amounts :: "'d SwapBuildInput \<Rightarrow> bytes \<Rightarrow> bool" where
  "swap_amounts inp bs \<longleftrightarrow> (\<exists>a m pre post. u64le (sb_amountIn inp) = Inr a \<and> u64le (sb_minimumAmountOut inp) = Inr m \<and>
     bs = pre @ a @ m @ post)"

locale pool_adapter =
  fixes ad :: "'d DirectPoolAdapter"
  assumes swap_program: "da_swapInstruction ad inp = Inr ix \<Longrightarrow> ix_programId ix = da_programId ad"
    and swap_signer: "da_swapInstruction ad inp = Inr ix \<Longrightarrow> m \<in> set (ix_accounts ix) \<Longrightarrow> isSigner m \<Longrightarrow> am_pubkey m = sb_user inp"
    and swap_data: "da_swapInstruction ad inp = Inr ix \<Longrightarrow> swap_amounts inp (ix_data ix)"
begin

lemma exit_shape:
  assumes "exit_instructions ad inp st q prog src dest m = Inr ixs"
  shows "\<exists>budget swap. ixs = budget @ [createAtaIdempotentInstruction (bi_user inp) dest (bi_user inp) (pq_outputMint q) prog, swap] \<and>
    (\<forall>b \<in> set budget. ix_programId b = COMPUTE_BUDGET_PROGRAM \<and> ix_accounts b = []) \<and> ix_programId swap = da_programId ad \<and>
    (\<forall>a \<in> set (ix_accounts swap). isSigner a \<longrightarrow> am_pubkey a = bi_user inp) \<and>
    (\<exists>pre post a b. u64le (bi_amountIn inp) = Inr a \<and> u64le m = Inr b \<and> ix_data swap = pre @ a @ b @ post)"
  using assms swap_program swap_signer swap_data
  by (fastforce simp: exit_instructions_def computeBudgetInstructions_def swap_amounts_def)

text \<open>The wallet is the only signer the message asks for.\<close>

lemma only_user_signs:
  assumes "exit_instructions ad inp st q prog src dest m = Inr ixs" and "a \<in> set (message_metas (bi_user inp) ixs)" and "isSigner a"
  shows "am_pubkey a = bi_user inp"
  using exit_shape [OF assms(1)] assms(2,3)
  by (auto simp: message_metas_def instruction_metas_def meta_def createAtaIdempotentInstruction_def)

lemma one_signature:
  assumes "exit_instructions ad inp st q prog src dest m = Inr ixs"
  shows "numRequiredSignatures (compileLegacyMessage (bi_user inp) ixs bh) = 1"
proof -
  let ?m = "compileLegacyMessage (bi_user inp) ixs bh"
  let ?k = "staticAccountKeys ?m"
  have key: "?k ! i = bi_user inp" if "signs_at ?m i" "i < length ?k" for i
  proof -
    have "requested (message_metas (bi_user inp) ixs) (?k ! i) = Some (True, writes_at ?m i)"
      using message_keys(3) [OF that(2)] that(1) by simp
    then show ?thesis using only_user_signs [OF assms] by (auto simp: requested_def split: if_splits)
  qed
  have le: "numRequiredSignatures ?m \<le> length ?k"
    by (simp add: compileLegacyMessage_def Let_def length_filter_le)
  have d: "distinct ?k" by (rule message_keys(1))
  have p: "?k \<noteq> []" "?k ! 0 = bi_user inp" using payer_first by blast+
  have "requested (message_metas (bi_user inp) ixs) (?k ! 0) = Some (signs_at ?m 0, writes_at ?m 0)"
    using message_keys(3) [of 0 "bi_user inp" ixs bh] p by simp
  then have "signs_at ?m 0" by (auto simp: p requested_def message_metas_def meta_def split: if_splits)
  moreover have "\<not> signs_at ?m 1"
  proof
    assume s: "signs_at ?m 1"
    then have "1 < length ?k" using le by (simp add: signs_at_def)
    with key [OF s this] p d show False by (metis nth_eq_iff_index_eq zero_neq_one zero_less_one less_trans)
  qed
  ultimately show ?thesis by (simp add: signs_at_def)
qed

end

text \<open>The families keep the contract.\<close>

lemma swap_amountsI:
  "u64le (sb_amountIn inp) = Inr a \<Longrightarrow> u64le (sb_minimumAmountOut inp) = Inr m \<Longrightarrow> bs = pre @ a @ m @ post \<Longrightarrow> swap_amounts inp bs"
  by (auto simp: swap_amounts_def)

interpretation cpmm: pool_adapter "RaydiumCpmmAdapter sha" for sha
  by (unfold_locales; auto simp: RaydiumCpmmAdapter_def cpmm_swapInstruction_def Let_def meta_def
      intro!: swap_amountsI [where post = "[]"])

interpretation ammv4: pool_adapter "RaydiumAmmV4Adapter sha" for sha
  by (unfold_locales; auto simp: RaydiumAmmV4Adapter_def ammv4_swapInstruction_def Let_def meta_def
      intro!: swap_amountsI [where pre = "[9]" and post = "[]"])

interpretation clmm: pool_adapter "RaydiumClmmAdapter sha" for sha
  by (unfold_locales; auto simp: RaydiumClmmAdapter_def clmm_swapInstruction_def Let_def meta_def
      intro!: swap_amountsI [where pre = CLMM_SWAP_V2] split: option.splits if_splits)

end
