(* ===== verification/Spec2Isabelle.thy ===== *)
theory Spec2Isabelle
  imports Money OrderAttempt PositionReview PositionLot ChainHealth ServiceAuth
    SingleSubmission FinalityLiveness EntryRules Releases RuntimeSession Clusters AuthorizerService PoolAdapters
begin

text \<open>
  A verification library for the trading core of this repository: an agent proposes, a risk
  authorizer signs, an executor holds the only path to the wallet. The program is TypeScript; the
  library translates its deterministic core, file by file, and proves what makes each part and
  their composition safe.

  \<^bold>\<open>How the parts interact.\<close> The worker builds a \<^emph>\<open>risk state projection\<close> of the account and signs it. For a
  cleared action cycle the \<^emph>\<open>risk authorizer\<close> (\<open>apps/risk-authorizer\<close>) reads the projection, the release,
  the capital attestation and its own chain observations, evaluates the entry rules and signs a
  \<open>RiskAuthorizedIntent\<close>, at most once per cycle. The \<^emph>\<open>executor\<close> (\<open>apps/execution-service\<close>) reconstructs that
  authority from the signature alone, checks the deployment's caps against its own ledger, claims the
  idempotency key in a hash-chained journal, and only then has a transaction built, validated, simulated,
  signed and sent. Afterwards chain observations decide what happened: a quorum of views moves an attempt to
  its final state, a restart recovers from the journal, an operator's emergency command closes positions
  within a plan made from custody.

  \<^bold>\<open>Theories and the code they model.\<close>
  \<^item> \<open>Prelude\<close>, \<open>Effects\<close>: results and programs over a state with exceptions, invariants (\<open>keeps\<close>) and triples, the
  locales of deterministic event machines. \<open>JsNumber\<close>: the binary64 numbers of the language with
  round-to-nearest-even. \<open>Vocabulary\<close>: the enumerations of \<open>libs/contracts/src/enums.ts\<close>.
  \<^item> Contracts (\<open>libs/contracts/src\<close>): \<open>Money\<close> (\<open>money/base-units.ts\<close>), \<open>Canonical\<close>, \<open>SignedEnvelope\<close>, \<open>ServiceAuth\<close>
  (\<open>signing/\<close>), \<open>Projection\<close> (\<open>envelopes/risk-state-projection.ts\<close> with its builder in \<open>libs/risk\<close> and its
  verifier in \<open>apps/risk-authorizer\<close>).
  \<^item> Risk (\<open>libs/risk/src\<close>): \<open>RiskPolicy\<close>, \<open>Sizing\<close>, \<open>EntryRules\<close>, \<open>Exits\<close>, \<open>Releases\<close>, \<open>RuntimeSession\<close>, \<open>Clusters\<close>.
  \<^item> Risk authorizer (\<open>apps/risk-authorizer/src\<close>): \<open>AuthLedger\<close>, \<open>Authorizer\<close>, \<open>AuthorizerService\<close>.
  \<^item> Execution (\<open>libs/execution/src\<close>): state machines \<open>OrderAttempt\<close>, \<open>PositionReview\<close>, \<open>PositionLot\<close>,
  \<open>IntentRegistry\<close>, \<open>Custody\<close>; chain views \<open>Quorum\<close>, \<open>ChainHealth\<close>; the transaction bytes \<open>TxCodec\<close>; the checks
  before a signature \<open>OrderChecks\<close>, \<open>Deltas\<close>; the adapter \<open>LiveAdapter\<close>; the plan \<open>EmergencyPlan\<close>.
  \<^item> Direct pools (\<open>libs/execution/src/direct-pool\<close>), the emergency path without a router: \<open>PoolBytes\<close> (\<open>bytes.ts\<close>,
  \<open>token2022.ts\<close>, \<open>types.ts\<close>), \<open>ConstantProduct\<close> (Raydium CPMM and AMM v4), \<open>ClmmMath\<close>, \<open>ClmmPool\<close>, \<open>ClmmQuote\<close> (Raydium
  CLMM), \<open>EmergencyRoute\<close> (\<open>dry-run.ts\<close>: the compiled message, the unsigned transaction, the dry run), \<open>PoolAdapters\<close>
  (the contract \<open>pool_adapter\<close> of a family, interpreted for the three) and \<open>DirectExit\<close>
  (\<open>adapter/direct-pool-adapter.ts\<close>) with its protocol \<open>direct_protocol\<close>, interpreted in \<open>ExecutorDirect\<close>.
  \<^item> Executor (\<open>apps/execution-service/src\<close>): \<open>ModeGate\<close>, \<open>Authority\<close>, \<open>Exposure\<close>, \<open>Journal\<close>, \<open>Idempotency\<close> and the pipeline
  \<open>pipeline/pipeline.ts\<close> in \<open>Executor\<close> (state, journal lines, pauses), \<open>ExecutorSubmit\<close>, \<open>ExecutorFinality\<close>,
  \<open>ExecutorEmergency\<close>, \<open>ExecutorDirect\<close> (the direct-pool fallback); \<open>ExecutorRun\<close> has the runs of operations, crashes and restarts, \<open>FinalityLiveness\<close> the
  progress of finality tracking, \<open>SingleSubmission\<close> the count of submissions.

  \<^bold>\<open>How code becomes definitions.\<close> A class is a record and each of its methods a function that returns the updated
  record; a method that may throw halfway is a program over the state whose writes before the throw are kept. A
  thrown error or a typed refusal is the left side of a sum. An interface is a record, a discriminated union a
  datatype, a dictionary an association list where the order of insertion is observable. A \<open>bigint\<close> is an \<open>int\<close>, with the
  u64 bounds checked where the code checks them; a \<open>number\<close> is an \<open>int\<close> where the schemas make it one and a binary64
  value otherwise; bytes are words of eight bits. Names are the source's, with a prefix where two records share a field.

  \<^bold>\<open>The world outside\<close> is a parameter. Signing, verification and hashing are the record \<open>crypto\<close>, whose documented laws
  (a signature made with a key verifies under it, signatures and digests have their hexadecimal form) are the predicate \<open>crypto_ok\<close>, assumed
  by name where a property needs them and shown satisfiable by a toy instance in the witnesses. Clocks, identifiers, RPC
  views, providers, the signer and crashes are functions of the number of calls made so far (\<open>Deps\<close>), so a property over
  all \<open>Deps\<close> holds for every behaviour of the world, crashes at every probe boundary included.

  \<^bold>\<open>What the groups of lemmas show.\<close>
  \<^item> Data: canonical JSON determines its value, envelopes and transactions round-trip, allocation conserves, decimal text
  round-trips, the last hash of the journal pins its history.
  \<^item> Machines: well-formedness of every reachable record, terminal states that stay, claims that are permanent, gates
  that hold over every order of events. They are proved once in the locales of \<open>Prelude\<close> and interpreted per machine.
  \<^item> Authorization: what a signature by the authorizer implies about every record it rests on, that its amount is within
  every cap with everything already promised, that a cycle is signed once across restarts, and that the executor
  accepts what the authorizer signed (composition of the two processes).
  \<^item> Execution: no signature or submission without its journal lines and checks, at most one execution per key over runs
  of operations, crashes and restarts, at most one submission per attempt and per emergency action, books that a restart rebuilds, caps that hold after each entry, emergencies
  confined to their plan, finality and recovery that act on chain truth only, and progress: what the views finalize
  is settled.
  \<^item> Interfaces: \<open>submission_protocol\<close> (\<open>LiveAdapter\<close>) is the contract between the adapter and the hooks of the pipeline,
  \<open>executor_invariant\<close> (\<open>ExecutorRun\<close>) what every operation of the pipeline maintains, \<open>cycle_ledger\<close> (\<open>AuthLedger\<close>) the laws
  of the authorizer's ledger; each is interpreted on the model's own definitions.

  \<^bold>\<open>Bounds and fuel.\<close> No definition of the development runs on fuel of its own. Loops are structural, or end by a
  measure proved with \<open>termination\<close>; where the source bounds a loop with a counter (compact-u16 groups, signer
  retries, the tick-array walk, the two loops of a concentrated-liquidity quote), the model has the same counter. Runs of the machines and of the executor are over lists of events of any length.

  \<^bold>\<open>Not modelled\<close>, and why:
  \<^item> the pool engines of Orca Whirlpool and Meteora DLMM, two more of the shape of the Raydium one; the emergency route
  takes its pool adapters as an argument, as the code does;
  \<^item> agents, strategies and skills, signals, market data, replay (\<open>libs/agents\<close>, \<open>strategies\<close>, \<open>skills\<close>, \<open>signals\<close>, \<open>market\<close>,
  \<open>replay\<close>): they propose and measure; nothing they compute is trusted by the modelled core, which re-checks it;
  \<^item> database access, the worker's wiring, the web console, migrations and deployment: I/O, generated code and user
  interface;
  \<^item> clients of external services (Jupiter, RPC, signers): their answers are the parameters above;
  \<^item> explanatory detail texts of refusals, log lines and base64 transport, which no decision depends on.
\<close>

end
